(* ===== verification/Oni_Prelude.thy ===== *)
theory Oni_Prelude
  imports
    Complex_Main
    "HOL-Library.Word"
    "HOL-Library.AList"
    "HOL-Library.Char_ord"
    "HOL-Library.List_Lexorder"
    "HOL-Library.Multiset"
begin

text \<open>
  The shared library of the development: the parts of Go and of its standard library that the
  framework's sources use, as executable HOL functions, with the lemmas the component theories
  need about them.

  \<^item> Go strings are byte sequences, here \<^typ>\<open>string\<close>; the functions of package
    \<open>strings\<close> are written for one-byte separators where the sources use one-byte
    separators. The functions that classify runes (\<open>TrimSpace\<close>, \<open>Fields\<close>, \<open>ToUpper\<close>,
    \<open>EqualFold\<close>) look for the UTF-8 encodings of the runes that matter.
  \<^item> A Go map is an association list updated with \<^const>\<open>AList.update\<close> and
    \<^const>\<open>AList.delete\<close>, so its keys stay distinct; \<open>range\<close> visits it in list
    order. Go leaves that order open, so facts that depend on it are stated on sets, multisets or
    lookups.
  \<^item> \<open>time.Time\<close> and \<open>time.Duration\<close> are nanosecond counts (\<^typ>\<open>int\<close>); the clock
    read by \<open>time.Now()\<close> is an argument \<open>now\<close> of the operation that reads it.
  \<^item> A buffered channel is a record with its queue, capacity and closed flag; a send on a closed
    channel and a second close are panics, values of \<open>go_panic\<close>.
\<close>

named_theorems gostr \<open>facts about the string library\<close>
named_theorems gomap \<open>facts about Go maps as association lists\<close>
named_theorems gochan_simps \<open>facts about buffered channels\<close>

type_synonym u64 = "64 word"
type_synonym i64 = "64 word" \<comment> \<open>int64 in two's complement, read with \<open>sint\<close>\<close>
type_synonym u32 = "32 word"
type_synonym u16 = "16 word"
type_synonym byte = "8 word"
type_synonym gotime = int
type_synonym duration = int
type_synonym ('k, 'v) gomap = "('k \<times> 'v) list"

abbreviation second :: duration where "second \<equiv> 1000000000"
abbreviation minute :: duration where "minute \<equiv> 60 * second"
abbreviation hour :: duration where "hour \<equiv> 60 * minute"

section \<open>Values of type any\<close>

text \<open>
  The dynamic values the sources store behind \<open>any\<close>. Two values are equal in HOL exactly when
  \<open>reflect.DeepEqual\<close> holds of them: same dynamic type, same content. A finite \<open>float64\<close> is the
  rational it denotes. \<open>int\<close> is 64 bits wide.
\<close>

datatype gval =
    GNil
  | GString string
  | GInt64 i64
  | GInt i64
  | GFloat64 rat
  | GBool bool
  | GBytes string
  | GMap "(string \<times> gval) list"
  | GSlice "gval list"
  | GStruct string "(string \<times> gval) list"
  | GInt32 "32 word"
  | GTime gotime

text \<open>
  \<open>int64(f)\<close> for a \<open>float64\<close>: truncation towards zero; outside the range Go leaves the result to
  the implementation, here the value of amd64.
\<close>

definition float64_to_int64 :: "rat \<Rightarrow> i64" where
  "float64_to_int64 q =
     (let t = (if q < 0 then \<lceil>q\<rceil> else \<lfloor>q\<rfloor>)
      in if - (2 ^ 63) \<le> t \<and> t < 2 ^ 63 then word_of_int t else word_of_int (- (2 ^ 63)))"

section \<open>Package strings\<close>

definition HasPrefix :: "string \<Rightarrow> string \<Rightarrow> bool" where
  "HasPrefix s p = (take (length p) s = p)"

definition HasSuffix :: "string \<Rightarrow> string \<Rightarrow> bool" where
  "HasSuffix s p = (length p \<le> length s \<and> drop (length s - length p) s = p)"

definition TrimPrefix :: "string \<Rightarrow> string \<Rightarrow> string" where
  "TrimPrefix s p = (if HasPrefix s p then drop (length p) s else s)"

definition TrimSuffix :: "string \<Rightarrow> string \<Rightarrow> string" where
  "TrimSuffix s p = (if HasSuffix s p then take (length s - length p) s else s)"

text \<open>\<open>strings.Index\<close>: the first position at which \<open>sub\<close> occurs, \<^const>\<open>None\<close> for Go's -1.\<close>

fun Index :: "string \<Rightarrow> string \<Rightarrow> nat option" where
  "Index [] sub = (if sub = [] then Some 0 else None)"
| "Index (c # s) sub = (if HasPrefix (c # s) sub then Some 0 else map_option Suc (Index s sub))"

definition Contains :: "string \<Rightarrow> string \<Rightarrow> bool" where
  "Contains s sub = (Index s sub \<noteq> None)"

text \<open>\<open>strings.Split(s, sep)\<close> for a separator of one byte; never the empty list.\<close>

fun SplitOn :: "char \<Rightarrow> string \<Rightarrow> string list" where
  "SplitOn c [] = [[]]"
| "SplitOn c (x # xs) =
     (if x = c then [] # SplitOn c xs
      else (case SplitOn c xs of [] \<Rightarrow> [[x]] | w # ws \<Rightarrow> (x # w) # ws))"

fun Join :: "string \<Rightarrow> string list \<Rightarrow> string" where
  "Join sep [] = []"
| "Join sep [w] = w"
| "Join sep (w # ws) = w @ sep @ Join sep ws"

text \<open>\<open>strings.ReplaceAll\<close> with a one-byte \<open>old\<close>.\<close>

definition ReplaceByte :: "char \<Rightarrow> string \<Rightarrow> string \<Rightarrow> string" where
  "ReplaceByte old new s = concat (map (\<lambda>c. if c = old then new else [c]) s)"

text \<open>
  The UTF-8 encodings of the runes with \<open>unicode.IsSpace\<close>. No encoding of another rune contains one of
  them, so looking for them byte by byte finds the same places as decoding runes does, also in text that
  is not valid UTF-8.
\<close>

definition unicodeSpaces :: "string list" where
  "unicodeSpaces =
     [[CHR 0x20], [CHR 0x09], [CHR 0x0A], [CHR 0x0B], [CHR 0x0C], [CHR 0x0D], [CHR 0xC2, CHR 0x85], [CHR 0xC2, CHR 0xA0],
      [CHR 0xE1, CHR 0x9A, CHR 0x80], [CHR 0xE2, CHR 0x81, CHR 0x9F], [CHR 0xE3, CHR 0x80, CHR 0x80]]
     @ map (\<lambda>b. [CHR 0xE2, CHR 0x80, b])
         [CHR 0x80, CHR 0x81, CHR 0x82, CHR 0x83, CHR 0x84, CHR 0x85, CHR 0x86, CHR 0x87, CHR 0x88, CHR 0x89, CHR 0x8A,
          CHR 0xA8, CHR 0xA9, CHR 0xAF]"

text \<open>The number of bytes of the space at the front (at the end) of a string, 0 if there is none.\<close>

definition spaceLen :: "string \<Rightarrow> nat" where
  "spaceLen s = (case find (HasPrefix s) unicodeSpaces of None \<Rightarrow> 0 | Some w \<Rightarrow> length w)"

definition spaceLenEnd :: "string \<Rightarrow> nat" where
  "spaceLenEnd s = (case find (HasSuffix s) unicodeSpaces of None \<Rightarrow> 0 | Some w \<Rightarrow> length w)"

lemma spaceLen_Nil [simp]: "spaceLen [] = 0" and spaceLenEnd_Nil [simp]: "spaceLenEnd [] = 0"
  by (simp_all add: spaceLen_def spaceLenEnd_def unicodeSpaces_def HasPrefix_def HasSuffix_def)

lemma spaceLen_shrinks: "0 < spaceLen s \<Longrightarrow> length s - spaceLen s < length s"
  and spaceLenEnd_shrinks: "0 < spaceLenEnd s \<Longrightarrow> length s - spaceLenEnd s < length s"
  by (cases s, auto)+

function TrimLeftSpace :: "string \<Rightarrow> string" where
  "TrimLeftSpace s = (if spaceLen s = 0 then s else TrimLeftSpace (drop (spaceLen s) s))"
  by pat_completeness auto
termination by (relation "measure length") (auto intro: spaceLen_shrinks)

function TrimRightSpace :: "string \<Rightarrow> string" where
  "TrimRightSpace s = (if spaceLenEnd s = 0 then s else TrimRightSpace (take (length s - spaceLenEnd s) s))"
  by pat_completeness auto
termination by (relation "measure length") (auto intro: spaceLenEnd_shrinks)

declare TrimLeftSpace.simps [simp del] TrimRightSpace.simps [simp del]

definition TrimSpace :: "string \<Rightarrow> string" where
  "TrimSpace s = TrimRightSpace (TrimLeftSpace s)"

text \<open>\<open>strings.Fields\<close>: the maximal runs without spaces.\<close>

function Fields_loop :: "string \<Rightarrow> string \<Rightarrow> string list" where
  "Fields_loop s cur =
     (if s = [] then (if cur = [] then [] else [rev cur])
      else if spaceLen s = 0 then Fields_loop (tl s) (hd s # cur)
      else (if cur = [] then [] else [rev cur]) @ Fields_loop (drop (spaceLen s) s) [])"
  by pat_completeness auto
termination by (relation "measure (\<lambda>(s, cur). length s)") auto

declare Fields_loop.simps [simp del]

definition Fields :: "string \<Rightarrow> string list" where
  "Fields s = Fields_loop s []"

definition upperByte :: "char \<Rightarrow> char" where
  "upperByte c = (if CHR ''a'' \<le> c \<and> c \<le> CHR ''z'' then char_of (of_char c - 32 :: nat) else c)"

definition lowerByte :: "char \<Rightarrow> char" where
  "lowerByte c = (if CHR ''A'' \<le> c \<and> c \<le> CHR ''Z'' then char_of (of_char c + 32 :: nat) else c)"

text \<open>
  \<open>strings.ToUpper\<close>. Besides the ASCII letters two runes have an ASCII upper case: the long s (U+017F) and
  the dotless i (U+0131). Other non-ASCII letters are left as they are; the sources only compare the
  result with ASCII words.
\<close>

fun ToUpper :: "string \<Rightarrow> string" where
  "ToUpper [] = []"
| "ToUpper (c # s) =
     (if c = CHR 0xC5 \<and> HasPrefix s [CHR 0xBF] then CHR ''S'' # ToUpper (drop 1 s)
      else if c = CHR 0xC4 \<and> HasPrefix s [CHR 0xB1] then CHR ''I'' # ToUpper (drop 1 s)
      else upperByte c # ToUpper s)"

text \<open>
  \<open>strings.EqualFold\<close> with an ASCII string: simple folding takes the long s to s and the Kelvin sign
  (U+212A) to k.
\<close>

fun foldCase :: "string \<Rightarrow> string" where
  "foldCase [] = []"
| "foldCase (c # s) =
     (if c = CHR 0xC5 \<and> HasPrefix s [CHR 0xBF] then CHR ''s'' # foldCase (drop 1 s)
      else if c = CHR 0xE2 \<and> HasPrefix s [CHR 0x84, CHR 0xAA] then CHR ''k'' # foldCase (drop 2 s)
      else lowerByte c # foldCase s)"

definition EqualFold :: "string \<Rightarrow> string \<Rightarrow> bool" where
  "EqualFold s t = (foldCase s = foldCase t)"

text \<open>
  The loop \<open>for _, ch := range s\<close> decodes UTF-8: the length of the rune at the front of a string, 0 if the
  bytes there are not a valid encoding (the loop then yields U+FFFD for one byte).
\<close>

definition between :: "char \<Rightarrow> char \<Rightarrow> char \<Rightarrow> bool" where
  "between lo hi c = (lo \<le> c \<and> c \<le> hi)"

definition runeLen :: "string \<Rightarrow> nat" where
  "runeLen s =
     (case s of
        [] \<Rightarrow> 0
      | b0 # r \<Rightarrow>
          if b0 < CHR 0x80 then 1
          else if between (CHR 0xC2) (CHR 0xDF) b0
          then (case r of b1 # _ \<Rightarrow> if between (CHR 0x80) (CHR 0xBF) b1 then 2 else 0 | _ \<Rightarrow> 0)
          else if between (CHR 0xE0) (CHR 0xEF) b0
          then (case r of
                  b1 # b2 # _ \<Rightarrow>
                    if between (if b0 = CHR 0xE0 then CHR 0xA0 else CHR 0x80) (if b0 = CHR 0xED then CHR 0x9F else CHR 0xBF) b1
                       \<and> between (CHR 0x80) (CHR 0xBF) b2
                    then 3 else 0
                | _ \<Rightarrow> 0)
          else if between (CHR 0xF0) (CHR 0xF4) b0
          then (case r of
                  b1 # b2 # b3 # _ \<Rightarrow>
                    if between (if b0 = CHR 0xF0 then CHR 0x90 else CHR 0x80) (if b0 = CHR 0xF4 then CHR 0x8F else CHR 0xBF) b1
                       \<and> between (CHR 0x80) (CHR 0xBF) b2 \<and> between (CHR 0x80) (CHR 0xBF) b3
                    then 4 else 0
                | _ \<Rightarrow> 0)
          else 0)"

definition runeError :: string where
  "runeError = [CHR 0xEF, CHR 0xBF, CHR 0xBD]"

text \<open>What \<open>WriteRune\<close> writes for the first rune of a string, and the bytes after that rune.\<close>

definition firstRune :: "string \<Rightarrow> string \<times> string" where
  "firstRune s = (if runeLen s = 0 then (runeError, tl s) else (take (runeLen s) s, drop (runeLen s) s))"

lemma runeLen_le: "runeLen s \<le> length s"
  by (auto simp: runeLen_def split: list.splits)

lemma firstRune_shrinks: "s \<noteq> [] \<Longrightarrow> length (snd (firstRune s)) < length s"
  by (cases s) (auto simp: firstRune_def)

text \<open>\<open>fmt.Sprintf("%d")\<close> and \<open>("%x")\<close>.\<close>

definition digit :: "nat \<Rightarrow> char" where
  "digit d = (if d < 10 then char_of (48 + d) else char_of (87 + d))"

fun natToBase :: "nat \<Rightarrow> nat \<Rightarrow> string" where
  "natToBase b n = (if b < 2 \<or> n < b then [digit n] else natToBase b (n div b) @ [digit (n mod b)])"

declare natToBase.simps [simp del]

definition itoa :: "int \<Rightarrow> string" where
  "itoa i = (if i < 0 then CHR ''-'' # natToBase 10 (nat (- i)) else natToBase 10 (nat i))"

definition hexOf :: "nat \<Rightarrow> string" where
  "hexOf n = natToBase 16 n"

text \<open>\<open>sort.Strings\<close>: bytewise order, the order of \<open>HOL-Library.List_Lexorder\<close> on bytes.\<close>

abbreviation sortStrings :: "string list \<Rightarrow> string list" where
  "sortStrings \<equiv> sort"

section \<open>Channels\<close>

record 'a gochan =
  chan_buf :: "'a list"
  chan_cap :: nat
  chan_closed :: bool

text \<open>The run-time panics the sources could raise.\<close>

datatype go_panic = SendOnClosedChannel | CloseOfClosedChannel | IndexOutOfRange | DivideByZero

definition chan_make :: "nat \<Rightarrow> 'a gochan" where
  "chan_make n = \<lparr>chan_buf = [], chan_cap = n, chan_closed = False\<rparr>"

text \<open>\<open>select { case ch <- v: ...; default: ... }\<close>: the boolean says whether the value was queued.\<close>

definition chan_trySend :: "'a gochan \<Rightarrow> 'a \<Rightarrow> go_panic + ('a gochan \<times> bool)" where
  "chan_trySend ch v =
     (if chan_closed ch then Inl SendOnClosedChannel
      else if length (chan_buf ch) < chan_cap ch then Inr (ch\<lparr>chan_buf := chan_buf ch @ [v]\<rparr>, True)
      else Inr (ch, False))"

definition chan_close :: "'a gochan \<Rightarrow> go_panic + 'a gochan" where
  "chan_close ch = (if chan_closed ch then Inl CloseOfClosedChannel else Inr (ch\<lparr>chan_closed := True\<rparr>))"

text \<open>A receive that does not block: the head of the queue, also from a closed channel.\<close>

definition chan_recv :: "'a gochan \<Rightarrow> ('a \<times> 'a gochan) option" where
  "chan_recv ch = (case chan_buf ch of [] \<Rightarrow> None | v # vs \<Rightarrow> Some (v, ch\<lparr>chan_buf := vs\<rparr>))"

section \<open>Lemmas on strings\<close>

lemma HasPrefix_iff [gostr]: "HasPrefix s p \<longleftrightarrow> (\<exists>r. s = p @ r)"
  unfolding HasPrefix_def by (metis append_eq_conv_conj append_take_drop_id)

lemma HasSuffix_iff [gostr]: "HasSuffix s p \<longleftrightarrow> (\<exists>r. s = r @ p)"
proof
  assume "HasSuffix s p"
  then have "s = take (length s - length p) s @ p"
    unfolding HasSuffix_def by (metis append_take_drop_id)
  then show "\<exists>r. s = r @ p" by blast
qed (auto simp: HasSuffix_def)

lemma HasPrefix_append [simp]: "HasPrefix (p @ r) p"
  by (simp add: HasPrefix_iff)

lemma HasSuffix_append [simp]: "HasSuffix (r @ p) p"
  by (simp add: HasSuffix_iff)

lemma HasPrefix_Nil [simp]: "HasPrefix s []" and HasSuffix_Nil [simp]: "HasSuffix s []"
  by (simp_all add: HasPrefix_def HasSuffix_def)

lemma TrimPrefix_append [simp]: "TrimPrefix (p @ s) p = s"
  by (simp add: TrimPrefix_def)

lemma TrimSuffix_append [simp]: "TrimSuffix (s @ p) p = s"
  by (simp add: TrimSuffix_def)

lemma Index_occurs: "s = a @ sub @ b \<Longrightarrow> \<exists>i. Index s sub = Some i \<and> i \<le> length a"
proof (induction s arbitrary: a)
  case Nil
  then show ?case by simp
next
  case (Cons c s)
  show ?case
  proof (cases a)
    case Nil
    with Cons.prems have "HasPrefix (c # s) sub" by (simp add: HasPrefix_iff)
    with Nil show ?thesis by simp
  next
    case (Cons x xs)
    with Cons.prems have "s = xs @ sub @ b" by simp
    then obtain i where "Index s sub = Some i" "i \<le> length xs" using Cons.IH by blast
    with Cons show ?thesis by auto
  qed
qed

lemma Index_decomp: "Index s sub = Some i \<Longrightarrow> \<exists>a b. s = a @ sub @ b \<and> length a = i"
proof (induction s arbitrary: i)
  case Nil
  then show ?case by (auto split: if_splits)
next
  case (Cons c s)
  show ?case
  proof (cases "HasPrefix (c # s) sub")
    case True
    with Cons.prems show ?thesis by (force simp: HasPrefix_iff)
  next
    case False
    with Cons.prems obtain j where j: "Index s sub = Some j" "i = Suc j" by auto
    from Cons.IH [OF j(1)] obtain a b where "s = a @ sub @ b" "length a = j" by blast
    with j have "c # s = (c # a) @ sub @ b \<and> length (c # a) = i" by simp
    then show ?thesis by blast
  qed
qed

lemma Index_take_drop:
  assumes "Index s sub = Some i"
  shows "s = take i s @ sub @ drop (i + length sub) s" and "i + length sub \<le> length s"
proof -
  from Index_decomp [OF assms] obtain a b where "s = a @ sub @ b" "length a = i" by blast
  then show "s = take i s @ sub @ drop (i + length sub) s" "i + length sub \<le> length s" by auto
qed

lemma Contains_iff [gostr]: "Contains s sub \<longleftrightarrow> (\<exists>a b. s = a @ sub @ b)"
proof
  assume "Contains s sub"
  then obtain i where "Index s sub = Some i" by (auto simp: Contains_def)
  then show "\<exists>a b. s = a @ sub @ b" by (blast dest: Index_take_drop(1))
next
  assume "\<exists>a b. s = a @ sub @ b"
  then show "Contains s sub" unfolding Contains_def using Index_occurs by fastforce
qed

lemma Contains_byte [simp]: "Contains s [c] \<longleftrightarrow> c \<in> set s"
  by (auto simp: Contains_iff dest: split_list)

lemma SplitOn_ne [simp]: "SplitOn c s \<noteq> []"
  by (induction s) (auto split: list.splits)

lemma SplitOn_no_sep: "c \<notin> set s \<Longrightarrow> SplitOn c s = [s]"
  by (induction s) auto

lemma SplitOn_append_sep: "SplitOn c (a @ c # b) = SplitOn c a @ SplitOn c b"
proof (induction a)
  case (Cons x a)
  then show ?case by (cases "SplitOn c a") auto
qed simp

lemma SplitOn_word_sep: "c \<notin> set w \<Longrightarrow> SplitOn c (w @ c # s) = w # SplitOn c s"
  by (simp add: SplitOn_append_sep SplitOn_no_sep)

lemma SplitOn_parts_no_sep: "w \<in> set (SplitOn c s) \<Longrightarrow> c \<notin> set w"
  by (induction s arbitrary: w) (auto split: list.splits if_splits)

lemma Join_Cons: "Join sep (w # ws) = (if ws = [] then w else w @ sep @ Join sep ws)"
  by (cases ws) auto

lemma Join_append:
  "us \<noteq> [] \<Longrightarrow> vs \<noteq> [] \<Longrightarrow> Join sep (us @ vs) = Join sep us @ sep @ Join sep vs"
  by (induction us) (auto simp: Join_Cons)

lemma Join_SplitOn: "Join [c] (SplitOn c s) = s"
proof (induction s)
  case (Cons x s)
  then show ?case
    by (cases "SplitOn c s") (auto simp: Join_Cons)
qed simp

lemma SplitOn_Join:
  "ws \<noteq> [] \<Longrightarrow> \<forall>w \<in> set ws. c \<notin> set w \<Longrightarrow> SplitOn c (Join [c] ws) = ws"
  by (induction ws) (auto simp: Join_Cons SplitOn_no_sep SplitOn_word_sep)

lemma ReplaceByte_append: "ReplaceByte old new (s @ t) = ReplaceByte old new s @ ReplaceByte old new t"
  by (simp add: ReplaceByte_def)

lemma ReplaceByte_Cons:
  "ReplaceByte old new (c # s) = (if c = old then new else [c]) @ ReplaceByte old new s"
  by (simp add: ReplaceByte_def)

lemma ReplaceByte_Nil [simp]: "ReplaceByte old new [] = []"
  by (simp add: ReplaceByte_def)

lemma ReplaceByte_id: "old \<notin> set s \<Longrightarrow> ReplaceByte old new s = s"
  by (induction s) (auto simp: ReplaceByte_Cons)

lemma natToBase_ne [simp]: "natToBase b n \<noteq> []"
  by (subst natToBase.simps) simp

section \<open>First match\<close>

text \<open>The result of the first element for which \<open>f\<close> gives one: a loop that returns on the first hit.\<close>

fun first_some :: "('a \<Rightarrow> 'b option) \<Rightarrow> 'a list \<Rightarrow> 'b option" where
  "first_some f [] = None"
| "first_some f (x # xs) = (case f x of None \<Rightarrow> first_some f xs | Some y \<Rightarrow> Some y)"

lemma first_some_None: "first_some f xs = None \<longleftrightarrow> (\<forall>x \<in> set xs. f x = None)"
  by (induction xs) (auto split: option.splits)

lemma first_some_append: "\<forall>u \<in> set us. f u = None \<Longrightarrow> first_some f (us @ vs) = first_some f vs"
  by (induction us) auto

lemma first_some_Some:
  "first_some f xs = Some y \<longleftrightarrow> (\<exists>us x vs. xs = us @ x # vs \<and> (\<forall>u \<in> set us. f u = None) \<and> f x = Some y)"
proof
  show "first_some f xs = Some y \<Longrightarrow> \<exists>us x vs. xs = us @ x # vs \<and> (\<forall>u \<in> set us. f u = None) \<and> f x = Some y"
  proof (induction xs)
    case (Cons a xs)
    show ?case
    proof (cases "f a")
      case None
      with Cons obtain us x vs where "xs = us @ x # vs" "\<forall>u \<in> set us. f u = None" "f x = Some y" by auto
      with None have "a # xs = (a # us) @ x # vs \<and> (\<forall>u \<in> set (a # us). f u = None) \<and> f x = Some y" by simp
      then show ?thesis by blast
    next
      case (Some z)
      with Cons.prems have "a # xs = [] @ a # xs \<and> (\<forall>u \<in> set []. f u = None) \<and> f a = Some y" by simp
      then show ?thesis by blast
    qed
  qed simp
qed (auto simp: first_some_append)

section \<open>Lemmas on words\<close>

lemma word_less_add_1: "(x :: u64) \<noteq> -1 \<Longrightarrow> x < x + 1"
proof -
  assume "x \<noteq> -1"
  then have "1 + x \<noteq> 0" by (metis add.commute add_eq_0_iff2 eq_neg_iff_add_eq_0)
  then show "x < x + 1" by (simp add: word_less_nat_alt unatSuc add.commute)
qed

section \<open>Lemmas on maps\<close>

lemma map_of_update [gomap, simp]: "map_of (AList.update k v m) k' = (if k' = k then Some v else map_of m k')"
  by (simp add: update_conv')

lemma map_of_delete [gomap, simp]: "map_of (AList.delete k m) k' = (if k' = k then None else map_of m k')"
  by (simp add: delete_conv')

lemma map_of_filter_distinct:
  "distinct (map fst m) \<Longrightarrow>
   map_of (filter P m) k = (case map_of m k of None \<Rightarrow> None | Some v \<Rightarrow> if P (k, v) then Some v else None)"
proof (induction m)
  case (Cons a m)
  obtain k' v' where a: "a = (k', v')" by (cases a)
  from Cons.prems a have "map_of m k' = None" by (auto simp: map_of_eq_None_iff)
  with Cons a show ?case by (auto split: option.splits)
qed simp

lemma keys_filter_iff:
  "distinct (map fst m) \<Longrightarrow>
   k \<in> fst ` set (filter P m) \<longleftrightarrow> (case map_of m k of None \<Rightarrow> False | Some v \<Rightarrow> P (k, v))"
  using map_of_filter_distinct [of m P k] map_of_eq_None_iff [of "filter P m" k]
  by (cases "map_of m k") (simp_all split: if_splits)

lemma distinct_filter_keys [gomap]: "distinct (map fst m) \<Longrightarrow> distinct (map fst (filter P m))"
  by (induction m) auto

lemmas gomap_distinct = distinct_update distinct_delete distinct_filter_keys

lemma map_of_mem_keys: "map_of m k = Some v \<Longrightarrow> k \<in> fst ` set m"
  by (force dest: map_of_SomeD)

section \<open>Lemmas on channels\<close>

lemma chan_trySend_open [gochan_simps]:
  "\<not> chan_closed ch \<Longrightarrow> chan_trySend ch v =
     Inr (if length (chan_buf ch) < chan_cap ch then (ch\<lparr>chan_buf := chan_buf ch @ [v]\<rparr>, True) else (ch, False))"
  by (simp add: chan_trySend_def)

lemma chan_trySend_bound:
  assumes "chan_trySend ch v = Inr (ch', b)" and "length (chan_buf ch) \<le> chan_cap ch"
  shows "length (chan_buf ch') \<le> chan_cap ch'" and "chan_cap ch' = chan_cap ch"
    and "chan_closed ch' = chan_closed ch"
  using assms by (auto simp: chan_trySend_def split: if_splits)

section \<open>Systems that wind down\<close>

text \<open>
  The shape of several shutdown arguments: as long as a rank is not zero some step lowers it and keeps a condition, so a state of rank
  zero is reachable.
\<close>

locale ranked_steps =
  fixes step :: "'s \<Rightarrow> 's \<Rightarrow> bool" and ok :: "'s \<Rightarrow> bool" and rank :: "'s \<Rightarrow> nat"
  assumes progress: "ok s \<Longrightarrow> rank s \<noteq> 0 \<Longrightarrow> \<exists>t. step s t \<and> ok t \<and> rank t < rank s"
begin

lemma winds_down: "ok s \<Longrightarrow> \<exists>t. step\<^sup>*\<^sup>* s t \<and> ok t \<and> rank t = 0"
proof (induction "rank s" arbitrary: s rule: less_induct)
  case less
  show ?case
  proof (cases "rank s = 0")
    case False
    with progress less.prems obtain t where "step s t" "ok t" "rank t < rank s" by blast
    with less.hyps [of t] show ?thesis by (meson converse_rtranclp_into_rtranclp)
  qed (use less.prems in blast)
qed

end

lemma sum_list_nth_update:
  "i < length ws \<Longrightarrow> sum_list (map f (ws[i := w])) + f (ws ! i) = sum_list (map f ws) + (f w :: nat)"
  by (induction ws arbitrary: i) (auto split: nat.splits simp: nth_Cons')

end
