(* ===== verification/Vector_Clock.thy ===== *)
theory Vector_Clock
  imports Oni_Prelude
begin

text \<open>
  Model of \<open>framework/memory/clock.go\<close>: the vector clock every store ticks on a local write and
  merges on a remote one, and the comparison \<open>After\<close> that decides last-write-wins conflicts.
  Counters are \<open>uint64\<close>, so they are \<^typ>\<open>u64\<close> words and wrap. The locale \<open>lww_order\<close> states what
  the store needs of the comparison and derives convergence once, for every client.
\<close>

section \<open>Data\<close>

record ClockValue =
  NodeID :: string
  TS :: u64
  Vector :: "(string, u64) gomap"

record VectorClock =
  vc_nodeID :: string
  vc_clocks :: "(string, u64) gomap"
  vc_localTS :: u64

text \<open>Reading an absent key of a Go map gives the zero value.\<close>

definition readVec :: "(string, u64) gomap \<Rightarrow> string \<Rightarrow> u64" where
  "readVec v n = (case map_of v n of None \<Rightarrow> 0 | Some t \<Rightarrow> t)"

text \<open>\<open>ClockValue{}\<close>\<close>

definition zeroClock :: ClockValue where
  "zeroClock = \<lparr>NodeID = [], TS = 0, Vector = []\<rparr>"

section \<open>Operations\<close>

definition NewVectorClock :: "string \<Rightarrow> VectorClock" where
  "NewVectorClock nodeID = \<lparr>vc_nodeID = nodeID, vc_clocks = [(nodeID, 0)], vc_localTS = 0\<rparr>"

definition VectorClock_snapshot :: "VectorClock \<Rightarrow> (string, u64) gomap" where
  "VectorClock_snapshot vc = fold (\<lambda>(k, v) snap. AList.update k v snap) (vc_clocks vc) []"

definition Tick :: "VectorClock \<Rightarrow> ClockValue \<times> VectorClock" where
  "Tick vc =
     (let ts = vc_localTS vc + 1;
          vc' = vc\<lparr>vc_localTS := ts, vc_clocks := AList.update (vc_nodeID vc) ts (vc_clocks vc)\<rparr>
      in (\<lparr>NodeID = vc_nodeID vc, TS = ts, Vector = VectorClock_snapshot vc'\<rparr>, vc'))"

fun Merge_loop :: "(string, u64) gomap \<Rightarrow> (string, u64) gomap \<Rightarrow> (string, u64) gomap" where
  "Merge_loop [] clocks = clocks"
| "Merge_loop ((node, t) # rest) clocks =
     Merge_loop rest
       (case map_of clocks node of
          None \<Rightarrow> AList.update node t clocks
        | Some current \<Rightarrow> if t > current then AList.update node t clocks else clocks)"

definition Merge :: "VectorClock \<Rightarrow> ClockValue \<Rightarrow> VectorClock" where
  "Merge vc received =
     (let vc1 = vc\<lparr>vc_clocks := Merge_loop (Vector received) (vc_clocks vc)\<rparr>;
          own = readVec (Vector received) (vc_nodeID vc)
      in if own > readVec (vc_clocks vc1) (vc_nodeID vc)
         then vc1\<lparr>vc_localTS := own, vc_clocks := AList.update (vc_nodeID vc) own (vc_clocks vc1)\<rparr>
         else vc1)"

text \<open>The loop of \<open>After\<close> over the union of the node IDs, with the flags \<open>(cvDom, otherDom)\<close>.\<close>

fun After_loop ::
  "string list \<Rightarrow> (string, u64) gomap \<Rightarrow> (string, u64) gomap \<Rightarrow> bool \<times> bool \<Rightarrow> bool \<times> bool" where
  "After_loop [] v w flags = flags"
| "After_loop (n # ns) v w (cvDom, otherDom) =
     After_loop ns v w
       (if readVec v n > readVec w n then True else cvDom,
        if readVec w n > readVec v n then True else otherDom)"

definition After :: "ClockValue \<Rightarrow> ClockValue \<Rightarrow> bool" where
  "After cv other =
     (let seen = remdups (map fst (Vector cv) @ map fst (Vector other));
          (cvDom, otherDom) = After_loop seen (Vector cv) (Vector other) (False, False)
      in if cvDom \<and> \<not> otherDom then True
         else if otherDom \<and> \<not> cvDom then False
         else if TS cv \<noteq> TS other then TS cv > TS other
         else NodeID cv > NodeID other)"

definition Clock_Equal :: "ClockValue \<Rightarrow> ClockValue \<Rightarrow> bool" where
  "Clock_Equal cv other = (\<not> After cv other \<and> \<not> After other cv)"

section \<open>Well-formedness\<close>

definition vec_wf :: "(string, u64) gomap \<Rightarrow> bool" where
  "vec_wf v = distinct (map fst v)"

definition vc_inv :: "VectorClock \<Rightarrow> bool" where
  "vc_inv vc = (vec_wf (vc_clocks vc) \<and> vc_nodeID vc \<in> fst ` set (vc_clocks vc))"

text \<open>The node's own component agrees with its counter; true until a peer reports a larger one.\<close>

definition vc_synced :: "VectorClock \<Rightarrow> bool" where
  "vc_synced vc = (readVec (vc_clocks vc) (vc_nodeID vc) = vc_localTS vc)"

text \<open>The causal order on vectors: at least as large everywhere and larger somewhere.\<close>

definition dominates :: "(string, u64) gomap \<Rightarrow> (string, u64) gomap \<Rightarrow> bool" where
  "dominates v w = ((\<forall>n. readVec w n \<le> readVec v n) \<and> (\<exists>n. readVec w n < readVec v n))"

section \<open>Lemmas on vectors\<close>

lemma readVec_Nil [simp]: "readVec [] n = 0"
  by (simp add: readVec_def)

lemma readVec_update [simp]: "readVec (AList.update k t v) n = (if n = k then t else readVec v n)"
  by (simp add: readVec_def)

lemma readVec_Cons: "readVec ((k, t) # v) n = (if n = k then t else readVec v n)"
  by (simp add: readVec_def)

lemma readVec_absent: "n \<notin> fst ` set v \<Longrightarrow> readVec v n = 0"
  by (metis map_of_eq_None_iff option.simps(4) readVec_def)

lemma readVec_fold_update:
  "distinct (map fst v) \<Longrightarrow>
   readVec (fold (\<lambda>(k, t) snap. AList.update k t snap) v acc) n =
     (if n \<in> fst ` set v then readVec v n else readVec acc n)"
proof (induction v arbitrary: acc)
  case (Cons a v)
  then show ?case by (cases a) (auto simp: readVec_Cons)
qed simp

lemma readVec_snapshot [simp]:
  "vec_wf (vc_clocks vc) \<Longrightarrow> readVec (VectorClock_snapshot vc) n = readVec (vc_clocks vc) n"
  by (simp add: VectorClock_snapshot_def vec_wf_def readVec_fold_update readVec_absent)

lemma vec_wf_update [simp]: "vec_wf v \<Longrightarrow> vec_wf (AList.update k t v)"
  by (simp add: vec_wf_def distinct_update)

lemma vec_wf_fold_update:
  "vec_wf acc \<Longrightarrow> vec_wf (fold (\<lambda>(k, t) snap. AList.update k t snap) v acc)"
proof (induction v arbitrary: acc)
  case (Cons a v)
  then show ?case by (cases a) simp
qed simp

lemma vec_wf_snapshot [simp]: "vec_wf (VectorClock_snapshot vc)"
  unfolding VectorClock_snapshot_def by (rule vec_wf_fold_update) (simp add: vec_wf_def)

lemma vec_wf_Merge_loop: "vec_wf c \<Longrightarrow> vec_wf (Merge_loop r c)"
  by (induction r c rule: Merge_loop.induct) (auto split: option.splits)

lemma keys_Merge_loop: "fst ` set c \<subseteq> fst ` set (Merge_loop r c)"
proof (induction r c rule: Merge_loop.induct)
  case (2 node t rest clocks)
  have "fst ` set clocks \<subseteq> fst ` set (case map_of clocks node of
          None \<Rightarrow> AList.update node t clocks
        | Some current \<Rightarrow> if t > current then AList.update node t clocks else clocks)"
    by (auto split: option.splits simp: dom_update)
  with 2 show ?case by auto
qed simp

lemma readVec_Merge_loop:
  "vec_wf r \<Longrightarrow> readVec (Merge_loop r c) n = max (readVec c n) (readVec r n)"
proof (induction r c rule: Merge_loop.induct)
  case (2 node t rest clocks)
  let ?c = "case map_of clocks node of
          None \<Rightarrow> AList.update node t clocks
        | Some current \<Rightarrow> if t > current then AList.update node t clocks else clocks"
  have c: "readVec ?c m = (if m = node then max (readVec clocks node) t else readVec clocks m)" for m
    by (auto simp: readVec_def max_def split: option.splits)
  from "2.prems" have rest: "vec_wf rest" and fresh: "readVec rest node = 0"
    by (auto simp: vec_wf_def intro: readVec_absent)
  from "2.IH" rest have "readVec (Merge_loop rest ?c) n = max (readVec ?c n) (readVec rest n)"
    by simp
  with fresh show ?case by (auto simp: c readVec_Cons)
qed simp

section \<open>Lemmas on the operations\<close>

text \<open>The branch that should advance \<open>localTS\<close> is dead: the loop has already raised the entry.\<close>

lemma Merge_eq:
  "vec_wf (Vector r) \<Longrightarrow> Merge vc r = vc\<lparr>vc_clocks := Merge_loop (Vector r) (vc_clocks vc)\<rparr>"
  by (simp add: Merge_def Let_def readVec_Merge_loop)

lemma vc_nodeID_Merge [simp]: "vc_nodeID (Merge vc r) = vc_nodeID vc"
  by (simp add: Merge_def Let_def)

lemma Tick_simps [simp]:
  "NodeID (fst (Tick vc)) = vc_nodeID vc" "TS (fst (Tick vc)) = vc_localTS vc + 1"
  "vc_nodeID (snd (Tick vc)) = vc_nodeID vc" "vc_localTS (snd (Tick vc)) = vc_localTS vc + 1"
  by (simp_all add: Tick_def Let_def)

lemma vec_wf_Tick [simp]: "vec_wf (Vector (fst (Tick vc)))"
  by (simp add: Tick_def Let_def)

lemma readVec_Tick [simp]:
  "vec_wf (vc_clocks vc) \<Longrightarrow>
   readVec (Vector (fst (Tick vc))) n = (if n = vc_nodeID vc then vc_localTS vc + 1 else readVec (vc_clocks vc) n)"
  by (simp add: Tick_def Let_def)

lemma vc_inv_New [simp]: "vc_inv (NewVectorClock i)"
  by (simp add: NewVectorClock_def vc_inv_def vec_wf_def)

lemma vc_inv_Tick [simp]: "vc_inv vc \<Longrightarrow> vc_inv (snd (Tick vc))"
  by (auto simp: vc_inv_def Tick_def Let_def dom_update)

lemma vc_inv_Merge [simp]: "vc_inv vc \<Longrightarrow> vc_inv (Merge vc r)"
  using keys_Merge_loop [of "vc_clocks vc" "Vector r"]
  by (auto simp: vc_inv_def Merge_def Let_def vec_wf_Merge_loop dom_update)

lemma vc_synced_Tick [simp]: "vc_synced (snd (Tick vc))"
  by (simp add: vc_synced_def Tick_def Let_def)

lemma vc_synced_Merge:
  "vec_wf (Vector r) \<Longrightarrow> vc_synced vc \<Longrightarrow> readVec (Vector r) (vc_nodeID vc) \<le> vc_localTS vc \<Longrightarrow>
   vc_synced (Merge vc r)"
  by (simp add: vc_synced_def Merge_eq readVec_Merge_loop max_def)

section \<open>The comparison\<close>

lemma After_loop_flags:
  "After_loop ns v w (a, b) =
     (a \<or> (\<exists>n \<in> set ns. readVec w n < readVec v n), b \<or> (\<exists>n \<in> set ns. readVec v n < readVec w n))"
  by (induction ns arbitrary: a b) auto

lemma exists_seen:
  "(\<exists>n \<in> set (remdups (map fst v @ map fst w)). readVec w n < readVec v n) \<longleftrightarrow>
   (\<exists>n. readVec w n < readVec v n)"
proof
  assume "\<exists>n. readVec w n < readVec v n"
  then obtain n where n: "readVec w n < readVec v n" ..
  then have "n \<in> fst ` set v" using readVec_absent [of n v] by fastforce
  with n show "\<exists>n \<in> set (remdups (map fst v @ map fst w)). readVec w n < readVec v n" by auto
qed auto

lemma dominates_iff:
  "dominates v w \<longleftrightarrow> (\<exists>n. readVec w n < readVec v n) \<and> \<not> (\<exists>n. readVec v n < readVec w n)"
  by (auto simp: dominates_def not_less)

lemma dominates_asym: "dominates v w \<Longrightarrow> \<not> dominates w v"
  by (auto simp: dominates_iff)

lemma dominates_trans: "dominates u v \<Longrightarrow> dominates v w \<Longrightarrow> dominates u w"
  unfolding dominates_def by (meson order_trans order_le_less_trans)

lemma After_iff:
  "After a b \<longleftrightarrow>
     dominates (Vector a) (Vector b)
     \<or> (\<not> dominates (Vector b) (Vector a) \<and> (TS b < TS a \<or> (TS a = TS b \<and> NodeID b < NodeID a)))"
proof -
  have swap: "(\<exists>n \<in> set (remdups (map fst (Vector a) @ map fst (Vector b))).
        readVec (Vector a) n < readVec (Vector b) n) \<longleftrightarrow> (\<exists>n. readVec (Vector a) n < readVec (Vector b) n)"
    using exists_seen [of "Vector b" "Vector a"] by auto
  have "After_loop (remdups (map fst (Vector a) @ map fst (Vector b))) (Vector a) (Vector b) (False, False)
      = (\<exists>n. readVec (Vector b) n < readVec (Vector a) n, \<exists>n. readVec (Vector a) n < readVec (Vector b) n)"
    by (simp only: After_loop_flags exists_seen swap simp_thms)
  then show ?thesis by (auto simp: After_def Let_def dominates_iff)
qed

lemma After_asym: "After a b \<Longrightarrow> \<not> After b a"
  by (auto simp: After_iff dest: dominates_asym)

lemma After_zeroClock:
  "readVec (Vector a) n > 0 \<Longrightarrow> After a zeroClock"
  by (auto simp: After_iff dominates_def zeroClock_def word_gt_0 intro!: disjI1)

section \<open>Last-write-wins registers\<close>

text \<open>
  What a register resolved by \<open>if !existing.After(new) { replace }\<close> needs of the comparison, and
  what it then guarantees: if one write beats all the others, every replica ends with it,
  whatever the order and the duplication of deliveries.
\<close>

locale lww_order =
  fixes after :: "'e \<Rightarrow> 'e \<Rightarrow> bool"
  assumes after_asym: "after a b \<Longrightarrow> \<not> after b a"
begin

definition lww_apply :: "'e option \<Rightarrow> 'e \<Rightarrow> 'e option" where
  "lww_apply cur new = (case cur of None \<Rightarrow> Some new | Some e \<Rightarrow> if after e new then Some e else Some new)"

definition lww_run :: "'e option \<Rightarrow> 'e list \<Rightarrow> 'e option" where
  "lww_run cur ws = foldl lww_apply cur ws"

lemma lww_run_winner_stays:
  "\<forall>x \<in> set ws. x = m \<or> after m x \<Longrightarrow> lww_run (Some m) ws = Some m"
  by (induction ws) (auto simp: lww_run_def lww_apply_def)

lemma lww_run_winner:
  assumes "\<forall>x \<in> set ws. x = m \<or> after m x" and "m \<in> set ws" and "\<forall>e. cur = Some e \<longrightarrow> e = m \<or> after m e"
  shows "lww_run cur ws = Some m"
  using assms
proof (induction ws arbitrary: cur)
  case (Cons x ws)
  show ?case
  proof (cases "x = m")
    case True
    have "lww_apply cur m = Some m"
      using Cons.prems(3) after_asym by (cases cur) (auto simp: lww_apply_def)
    with True Cons.prems(1) show ?thesis by (simp add: lww_run_def lww_run_winner_stays [unfolded lww_run_def])
  next
    case False
    with Cons.prems have "\<forall>e. lww_apply cur x = Some e \<longrightarrow> e = m \<or> after m e"
      by (cases cur) (auto simp: lww_apply_def)
    with Cons.IH [of "lww_apply cur x"] Cons.prems False show ?thesis by (simp add: lww_run_def)
  qed
qed simp

lemma lww_pair_commutes:
  "after a b \<or> after b a \<Longrightarrow> lww_run None [a, b] = lww_run None [b, a]"
  using after_asym by (auto simp: lww_run_def lww_apply_def)

end

interpretation clock_lww: lww_order After
  by unfold_locales (rule After_asym)

section \<open>Properties\<close>

text \<open>
  The last-write-wins comparison is causality first: \<open>After a b\<close> holds exactly when the
  vector of \<open>a\<close> dominates that of \<open>b\<close>, or when neither dominates and the tie is broken by the
  larger counter and then by the larger node ID; and it never holds in both directions.
\<close>

theorem After_spec:
  "(After a b \<longleftrightarrow>
      dominates (Vector a) (Vector b)
      \<or> (\<not> dominates (Vector a) (Vector b) \<and> \<not> dominates (Vector b) (Vector a)
         \<and> (TS b < TS a \<or> (TS a = TS b \<and> NodeID b < NodeID a))))
   \<and> \<not> (After a b \<and> After b a)"
  using After_asym by (auto simp: After_iff)

text \<open>
  A write made after merging a remote write wins over it: if the node's own component agrees
  with its counter, the remote vector does not report a larger counter of this node and the counter
  does not wrap, then the clock ticked after \<open>Merge\<close> is \<open>After\<close> the merged clock, and it is not
  equal to it.
\<close>

theorem Tick_after_Merge_wins:
  assumes "vc_inv vc" and "vec_wf (Vector r)" and "readVec (Vector r) (vc_nodeID vc) \<le> vc_localTS vc"
    and "vc_localTS vc \<noteq> -1"
  shows "After (fst (Tick (Merge vc r))) r \<and> \<not> Clock_Equal (fst (Tick (Merge vc r))) r"
proof -
  have wf: "vec_wf (vc_clocks (Merge vc r))" using assms(1) vc_inv_Merge vc_inv_def by blast
  have ts: "vc_localTS (Merge vc r) = vc_localTS vc" using assms(2) by (simp add: Merge_eq)
  have "vc_localTS vc < vc_localTS vc + 1" using assms(4) by (rule word_less_add_1)
  with assms(3) have own: "readVec (Vector r) (vc_nodeID vc) < vc_localTS vc + 1" by simp
  have "readVec (Vector r) n \<le> readVec (vc_clocks (Merge vc r)) n" for n
    using assms(2) by (simp add: Merge_eq readVec_Merge_loop)
  with own have "dominates (Vector (fst (Tick (Merge vc r)))) (Vector r)"
    unfolding dominates_def readVec_Tick [OF wf] ts
    by (auto simp: ts intro: less_imp_le exI [of _ "vc_nodeID vc"])
  then show ?thesis by (simp add: After_iff Clock_Equal_def)
qed

theorem Tick_after_Merge_wins_witness:
  "After (fst (Tick (Merge (NewVectorClock ''a'') \<lparr>NodeID = ''b'', TS = 9, Vector = [(''b'', 9)]\<rparr>)))
         \<lparr>NodeID = ''b'', TS = 9, Vector = [(''b'', 9)]\<rparr>"
  using Tick_after_Merge_wins [of "NewVectorClock ''a''" "\<lparr>NodeID = ''b'', TS = 9, Vector = [(''b'', 9)]\<rparr>"]
  by (simp add: vec_wf_def readVec_def NewVectorClock_def vc_inv_def)

text \<open>
  \<open>Merge\<close> takes the pointwise maximum of the vectors and never advances the node's counter,
  also when the remote vector reports a larger counter of this node: the branch for that case tests
  the entry the loop above it has just raised, so it is dead.
\<close>

theorem Merge_never_advances:
  assumes "vec_wf (Vector r)"
  shows "vc_localTS (Merge vc r) = vc_localTS vc
    \<and> readVec (vc_clocks (Merge vc r)) n = max (readVec (vc_clocks vc) n) (readVec (Vector r) n)"
  using assms by (simp add: Merge_eq readVec_Merge_loop)

theorem Merge_never_advances_witness:
  "vc_localTS (Merge (NewVectorClock ''a'') \<lparr>NodeID = ''a'', TS = 9, Vector = [(''a'', 9)]\<rparr>) = 0
   \<and> readVec (vc_clocks (Merge (NewVectorClock ''a'') \<lparr>NodeID = ''a'', TS = 9, Vector = [(''a'', 9)]\<rparr>)) ''a'' = 9"
  using Merge_never_advances [of "\<lparr>NodeID = ''a'', TS = 9, Vector = [(''a'', 9)]\<rparr>" "NewVectorClock ''a''" "''a''"]
  by (simp add: vec_wf_def readVec_def NewVectorClock_def max_def)

text \<open>
  A restarted node loses to its own past: a fresh clock that merges a value this node issued
  before the restart and then ticks produces a write that does not replace the old one, as long as
  the old counter is at least 2.
\<close>

theorem restart_write_loses:
  assumes "vec_wf (Vector r)" and "NodeID r = i" and "TS r = readVec (Vector r) i" and "2 \<le> TS r"
  shows "After r (fst (Tick (Merge (NewVectorClock i) r)))"
proof -
  let ?c = "Merge (NewVectorClock i) r"
  have id: "vc_nodeID (NewVectorClock i) = i" by (simp add: NewVectorClock_def)
  have wf: "vec_wf (vc_clocks ?c)" using vc_inv_Merge vc_inv_New vc_inv_def by blast
  have ts: "vc_localTS ?c = 0" using assms(1) by (simp add: Merge_eq NewVectorClock_def)
  have other: "readVec (vc_clocks ?c) n = readVec (Vector r) n" for n
    using assms(1) by (simp add: Merge_eq NewVectorClock_def readVec_Merge_loop readVec_Cons)
  have "(1::u64) < TS r" using assms(4) by (simp add: word_less_nat_alt word_le_nat_alt)
  then have "dominates (Vector r) (Vector (fst (Tick ?c)))"
    unfolding dominates_def readVec_Tick [OF wf] using assms(3) ts
    by (auto simp: id other intro: exI [of _ i] less_imp_le)
  then show ?thesis by (simp add: After_iff)
qed

theorem restart_write_loses_witness:
  "After \<lparr>NodeID = ''a'', TS = 2, Vector = [(''a'', 2)]\<rparr>
     (fst (Tick (Merge (NewVectorClock ''a'') \<lparr>NodeID = ''a'', TS = 2, Vector = [(''a'', 2)]\<rparr>)))"
  by (rule restart_write_loses) (simp_all add: vec_wf_def readVec_def)

text \<open>The clock of a fresh node after \<open>n\<close> local writes.\<close>

fun ticks :: "nat \<Rightarrow> VectorClock \<Rightarrow> VectorClock" where
  "ticks 0 vc = vc"
| "ticks (Suc n) vc = ticks n (snd (Tick vc))"

text \<open>
  The comparison is not transitive on clocks that real nodes produce: \<open>A\<close> writes five times, \<open>B\<close>
  receives the fifth write and writes once, \<open>C\<close> writes three times on its own. Then \<open>B\<close>'s write is
  after \<open>A\<close>'s by causality, \<open>A\<close>'s is after \<open>C\<close>'s and \<open>C\<close>'s is after \<open>B\<close>'s by the counter.
\<close>

theorem After_not_transitive:
  "let a = fst (Tick (ticks 4 (NewVectorClock ''A'')));
       b = fst (Tick (Merge (NewVectorClock ''B'') a));
       c = fst (Tick (ticks 2 (NewVectorClock ''C'')))
   in After b a \<and> After a c \<and> After c b"
  by code_simp

end
