(* ===== verification/PubSub.thy ===== *)
theory PubSub
  imports Oni_Prelude
begin

text \<open>
  Model of \<open>framework/memory/pubsub.go\<close>. A subscriber object stays reachable after it left the
  registry (a publisher that took its snapshot still holds the pointer), so the state keeps every
  object ever allocated in \<open>ps_objs\<close> and the registered IDs in \<open>ps_subscribers\<close>. A panic of a
  channel operation would crash the process; it is recorded in \<open>ps_panic\<close>. Section
  \<open>Interleavings\<close> splits publish and cancel at their lock boundaries into the steps of an
  inductive relation, so the race the source guards against is part of the model.
\<close>

section \<open>Data\<close>

record pubMsg =
  msg_topic :: string
  msg_payload :: gval

record subscriber =
  sub_id :: nat
  sub_topic :: string
  sub_handler :: nat \<comment> \<open>the callback, by identity\<close>
  sub_buf :: "pubMsg gochan"
  sub_closed :: bool

record PubSub =
  ps_objs :: "(nat, subscriber) gomap"
  ps_subscribers :: "nat list"
  ps_nextID :: nat
  ps_panic :: "go_panic option"

section \<open>Topic matching\<close>

text \<open>\<^const>\<open>None\<close> is the index-out-of-range panic of \<open>topic[i]\<close>.\<close>

fun segmentsMatch :: "string list \<Rightarrow> string list \<Rightarrow> bool option" where
  "segmentsMatch [] topic = Some True"
| "segmentsMatch (p # ps) [] = (if p \<noteq> ''*'' then None else segmentsMatch ps [])"
| "segmentsMatch (p # ps) (t # ts) = (if p \<noteq> ''*'' \<and> p \<noteq> t then Some False else segmentsMatch ps ts)"

definition topicMatches :: "string \<Rightarrow> string \<Rightarrow> bool option" where
  "topicMatches pattern topic =
     (if pattern = ''*'' \<or> pattern = topic then Some True
      else let pSegs = SplitOn CHR ''.'' pattern; tSegs = SplitOn CHR ''.'' topic
           in if length pSegs \<noteq> length tSegs
              then if length pSegs > 0 \<and> pSegs ! (length pSegs - 1) = ''**''
                   then if length tSegs \<ge> length pSegs - 1
                        then segmentsMatch (take (length pSegs - 1) pSegs) (take (length pSegs - 1) tSegs)
                        else Some False
                   else Some False
              else segmentsMatch pSegs tSegs)"

section \<open>Operations\<close>

definition newPubSub :: PubSub where
  "newPubSub = \<lparr>ps_objs = [], ps_subscribers = [], ps_nextID = 0, ps_panic = None\<rparr>"

definition subscriber_deliver :: "subscriber \<Rightarrow> pubMsg \<Rightarrow> go_panic + subscriber" where
  "subscriber_deliver s msg =
     (if sub_closed s then Inr s
      else case chan_trySend (sub_buf s) msg of
             Inl p \<Rightarrow> Inl p
           | Inr (ch, _) \<Rightarrow> Inr (s\<lparr>sub_buf := ch\<rparr>))"

definition subscriber_close :: "subscriber \<Rightarrow> go_panic + subscriber" where
  "subscriber_close s =
     (if sub_closed s then Inr s
      else let s1 = s\<lparr>sub_closed := True\<rparr>
           in case chan_close (sub_buf s1) of Inl p \<Rightarrow> Inl p | Inr ch \<Rightarrow> Inr (s1\<lparr>sub_buf := ch\<rparr>))"

text \<open>Run a method on the object behind a pointer and store the result back.\<close>

definition on_object :: "PubSub \<Rightarrow> nat \<Rightarrow> (subscriber \<Rightarrow> go_panic + subscriber) \<Rightarrow> PubSub" where
  "on_object ps i f =
     (case map_of (ps_objs ps) i of
        None \<Rightarrow> ps
      | Some s \<Rightarrow> (case f s of
                    Inl p \<Rightarrow> ps\<lparr>ps_panic := Some p\<rparr>
                  | Inr s' \<Rightarrow> ps\<lparr>ps_objs := AList.update i s' (ps_objs ps)\<rparr>))"

text \<open>The part of \<open>publish\<close> under the read lock: the registered subscribers whose pattern matches.\<close>

definition publish_snapshot :: "PubSub \<Rightarrow> string \<Rightarrow> nat list" where
  "publish_snapshot ps topic =
     filter (\<lambda>i. case map_of (ps_objs ps) i of
                   None \<Rightarrow> False
                 | Some s \<Rightarrow> topicMatches (sub_topic s) topic = Some True) (ps_subscribers ps)"

definition publish :: "PubSub \<Rightarrow> string \<Rightarrow> gval \<Rightarrow> PubSub" where
  "publish ps topic payload =
     foldl (\<lambda>ps i. on_object ps i (\<lambda>s. subscriber_deliver s \<lparr>msg_topic = topic, msg_payload = payload\<rparr>))
       ps (publish_snapshot ps topic)"

definition subscribe :: "PubSub \<Rightarrow> string \<Rightarrow> nat \<Rightarrow> nat \<times> PubSub" where
  "subscribe ps topic handler =
     (let i = ps_nextID ps + 1;
          sub = \<lparr>sub_id = i, sub_topic = topic, sub_handler = handler, sub_buf = chan_make 256, sub_closed = False\<rparr>
      in (i, ps\<lparr>ps_nextID := i, ps_objs := AList.update i sub (ps_objs ps),
                ps_subscribers := i # ps_subscribers ps\<rparr>))"

text \<open>The cancel function that \<open>subscribe\<close> returns: unregister, then close.\<close>

definition cancel_unregister :: "PubSub \<Rightarrow> nat \<Rightarrow> PubSub" where
  "cancel_unregister ps i = ps\<lparr>ps_subscribers := filter (\<lambda>j. j \<noteq> i) (ps_subscribers ps)\<rparr>"

definition cancel :: "PubSub \<Rightarrow> nat \<Rightarrow> PubSub" where
  "cancel ps i = on_object (cancel_unregister ps i) i subscriber_close"

text \<open>One round of the delivery goroutine: take a message and hand it to the callback.\<close>

definition consume :: "PubSub \<Rightarrow> nat \<Rightarrow> (nat \<times> pubMsg) option \<times> PubSub" where
  "consume ps i =
     (case map_of (ps_objs ps) i of
        None \<Rightarrow> (None, ps)
      | Some s \<Rightarrow> (case chan_recv (sub_buf s) of
                    None \<Rightarrow> (None, ps)
                  | Some (m, ch) \<Rightarrow>
                      (Some (sub_handler s, m), ps\<lparr>ps_objs := AList.update i (s\<lparr>sub_buf := ch\<rparr>) (ps_objs ps)\<rparr>)))"

section \<open>Interleavings\<close>

text \<open>
  Deliveries and closes that a goroutine has committed to but not yet executed. Between taking the
  snapshot (or unregistering) and the call on the object, any other goroutine may run.
\<close>

record ps_sys =
  sys_ps :: PubSub
  sys_deliver :: "(nat \<times> pubMsg) multiset"
  sys_close :: "nat multiset"

inductive ps_step :: "ps_sys \<Rightarrow> ps_sys \<Rightarrow> bool" where
  step_subscribe:
    "ps_step \<sigma> (\<sigma>\<lparr>sys_ps := snd (subscribe (sys_ps \<sigma>) topic h)\<rparr>)"
| step_publish:
    "ps_step \<sigma> (\<sigma>\<lparr>sys_deliver := sys_deliver \<sigma>
        + mset (map (\<lambda>i. (i, \<lparr>msg_topic = topic, msg_payload = v\<rparr>)) (publish_snapshot (sys_ps \<sigma>) topic))\<rparr>)"
| step_deliver:
    "(i, m) \<in># sys_deliver \<sigma> \<Longrightarrow>
     ps_step \<sigma> (\<sigma>\<lparr>sys_deliver := sys_deliver \<sigma> - {#(i, m)#},
                  sys_ps := on_object (sys_ps \<sigma>) i (\<lambda>s. subscriber_deliver s m)\<rparr>)"
| step_cancel:
    "ps_step \<sigma> (\<sigma>\<lparr>sys_ps := cancel_unregister (sys_ps \<sigma>) i, sys_close := sys_close \<sigma> + {#i#}\<rparr>)"
| step_close:
    "i \<in># sys_close \<sigma> \<Longrightarrow>
     ps_step \<sigma> (\<sigma>\<lparr>sys_close := sys_close \<sigma> - {#i#}, sys_ps := on_object (sys_ps \<sigma>) i subscriber_close\<rparr>)"
| step_consume:
    "ps_step \<sigma> (\<sigma>\<lparr>sys_ps := snd (consume (sys_ps \<sigma>) i)\<rparr>)"

inductive ps_reachable :: "ps_sys \<Rightarrow> bool" where
  ps_start: "ps_reachable \<lparr>sys_ps = newPubSub, sys_deliver = {#}, sys_close = {#}\<rparr>"
| ps_next: "ps_reachable \<sigma> \<Longrightarrow> ps_step \<sigma> \<tau> \<Longrightarrow> ps_reachable \<tau>"

section \<open>Invariant\<close>

text \<open>The flag under the mutex mirrors the channel, and no queue is over its capacity.\<close>

definition sub_inv :: "subscriber \<Rightarrow> bool" where
  "sub_inv s = (sub_closed s = chan_closed (sub_buf s)
     \<and> length (chan_buf (sub_buf s)) \<le> chan_cap (sub_buf s) \<and> chan_cap (sub_buf s) = 256)"

definition ps_inv :: "PubSub \<Rightarrow> bool" where
  "ps_inv ps = (ps_panic ps = None
     \<and> (\<forall>i s. map_of (ps_objs ps) i = Some s \<longrightarrow> sub_inv s \<and> i \<le> ps_nextID ps)
     \<and> distinct (ps_subscribers ps)
     \<and> (\<forall>i \<in> set (ps_subscribers ps). map_of (ps_objs ps) i \<noteq> None))"

lemma subscriber_deliver_inv:
  assumes "sub_inv s"
  shows "\<exists>s'. subscriber_deliver s m = Inr s' \<and> sub_inv s' \<and> sub_topic s' = sub_topic s"
  using assms
  by (auto simp: subscriber_deliver_def sub_inv_def chan_trySend_def)

lemma subscriber_close_inv:
  assumes "sub_inv s"
  shows "\<exists>s'. subscriber_close s = Inr s' \<and> sub_inv s' \<and> sub_topic s' = sub_topic s"
  using assms by (auto simp: subscriber_close_def sub_inv_def chan_close_def Let_def)

lemma on_object_inv:
  assumes "ps_inv ps" and "\<And>s. sub_inv s \<Longrightarrow> \<exists>s'. f s = Inr s' \<and> sub_inv s' \<and> sub_topic s' = sub_topic s"
  shows "ps_inv (on_object ps i f)"
proof (cases "map_of (ps_objs ps) i")
  case (Some s)
  with assms(1) have "sub_inv s" "i \<le> ps_nextID ps" by (auto simp: ps_inv_def)
  with assms(2) obtain s' where "f s = Inr s'" "sub_inv s'" by blast
  with Some assms(1) \<open>i \<le> ps_nextID ps\<close> show ?thesis by (auto simp: on_object_def ps_inv_def)
qed (use assms in \<open>simp add: on_object_def\<close>)

lemmas deliver_object_inv = on_object_inv [OF _ subscriber_deliver_inv]
lemmas close_object_inv = on_object_inv [OF _ subscriber_close_inv]

lemma ps_inv_new [simp]: "ps_inv newPubSub"
  by (simp add: ps_inv_def newPubSub_def)

lemma ps_inv_subscribe:
  assumes "ps_inv ps"
  shows "ps_inv (snd (subscribe ps topic h))"
proof -
  have "Suc (ps_nextID ps) \<notin> set (ps_subscribers ps)"
    using assms unfolding ps_inv_def by (metis Suc_n_not_le_n not_None_eq)
  moreover have "sub_inv \<lparr>sub_id = i, sub_topic = topic, sub_handler = h, sub_buf = chan_make 256, sub_closed = False\<rparr>" for i
    by (simp add: sub_inv_def chan_make_def)
  ultimately show ?thesis
    using assms by (auto simp: ps_inv_def subscribe_def Let_def intro: le_SucI)
qed

lemma ps_inv_unregister [simp]: "ps_inv ps \<Longrightarrow> ps_inv (cancel_unregister ps i)"
  by (auto simp: ps_inv_def cancel_unregister_def)

lemma ps_inv_cancel [simp]: "ps_inv ps \<Longrightarrow> ps_inv (cancel ps i)"
  unfolding cancel_def by (rule close_object_inv) simp

lemma ps_inv_publish [simp]: "ps_inv ps \<Longrightarrow> ps_inv (publish ps topic v)"
proof -
  have "ps_inv ps \<Longrightarrow> ps_inv (foldl (\<lambda>ps i. on_object ps i (\<lambda>s. subscriber_deliver s m)) ps is)" for m ps "is"
    by (induction "is" arbitrary: ps) (simp_all add: deliver_object_inv)
  then show "ps_inv ps \<Longrightarrow> ps_inv (publish ps topic v)" by (simp add: publish_def)
qed

lemma ps_inv_consume [simp]: "ps_inv ps \<Longrightarrow> ps_inv (snd (consume ps i))"
  by (fastforce simp: ps_inv_def consume_def chan_recv_def sub_inv_def split: option.splits list.splits)

inductive_cases ps_stepE: "ps_step \<sigma> \<tau>"

lemma ps_step_inv: "ps_step \<sigma> \<tau> \<Longrightarrow> ps_inv (sys_ps \<sigma>) \<Longrightarrow> ps_inv (sys_ps \<tau>)"
  by (erule ps_stepE) (auto intro: ps_inv_subscribe deliver_object_inv close_object_inv)

lemma ps_reachable_inv: "ps_reachable \<sigma> \<Longrightarrow> ps_inv (sys_ps \<sigma>)"
  by (induction rule: ps_reachable.induct) (auto intro: ps_step_inv)

section \<open>Lemmas on matching\<close>

text \<open>One segment of a pattern accepts a segment of a topic.\<close>

definition seg_ok :: "string \<Rightarrow> string \<Rightarrow> bool" where
  "seg_ok p t = (p = ''*'' \<or> p = t)"

lemma segmentsMatch_eq: "length ps = length ts \<Longrightarrow> segmentsMatch ps ts = Some (list_all2 seg_ok ps ts)"
  by (induction ps ts rule: list_induct2) (auto simp: seg_ok_def)

lemma list_all2_seg_ok_refl: "list_all2 seg_ok ss ss"
  by (simp add: list.rel_refl seg_ok_def)

section \<open>Lemmas on publishing\<close>

lemma map_of_on_object:
  "map_of (ps_objs (on_object ps i f)) j =
     (if j = i then (case map_of (ps_objs ps) i of None \<Rightarrow> None
                     | Some s \<Rightarrow> (case f s of Inl _ \<Rightarrow> Some s | Inr s' \<Rightarrow> Some s'))
      else map_of (ps_objs ps) j)"
  by (auto simp: on_object_def split: option.splits sum.splits)

lemma deliver_fold_lookup:
  "distinct is \<Longrightarrow>
   map_of (ps_objs (foldl (\<lambda>ps i. on_object ps i (\<lambda>s. subscriber_deliver s m)) ps is)) j =
     (if j \<in> set is then (case map_of (ps_objs ps) j of None \<Rightarrow> None
                          | Some s \<Rightarrow> (case subscriber_deliver s m of Inl _ \<Rightarrow> Some s | Inr s' \<Rightarrow> Some s'))
      else map_of (ps_objs ps) j)"
  by (induction "is" arbitrary: ps) (auto simp: map_of_on_object)

lemma publish_lookup:
  assumes "ps_inv ps"
  shows "map_of (ps_objs (publish ps topic v)) j =
     (if j \<in> set (publish_snapshot ps topic)
      then (case map_of (ps_objs ps) j of None \<Rightarrow> None
            | Some s \<Rightarrow> (case subscriber_deliver s \<lparr>msg_topic = topic, msg_payload = v\<rparr> of Inl _ \<Rightarrow> Some s | Inr s' \<Rightarrow> Some s'))
      else map_of (ps_objs ps) j)"
proof -
  have "distinct (publish_snapshot ps topic)" using assms by (simp add: publish_snapshot_def ps_inv_def)
  then show ?thesis unfolding publish_def by (rule deliver_fold_lookup)
qed

section \<open>Properties\<close>

lemma topicMatches_iff:
  "topicMatches p t = Some
     (p = ''*''
      \<or> list_all2 seg_ok (SplitOn CHR ''.'' p) (SplitOn CHR ''.'' t)
      \<or> (last (SplitOn CHR ''.'' p) = ''**''
         \<and> length (SplitOn CHR ''.'' p) \<noteq> length (SplitOn CHR ''.'' t)
         \<and> (\<exists>pre rest. SplitOn CHR ''.'' t = pre @ rest
              \<and> list_all2 seg_ok (butlast (SplitOn CHR ''.'' p)) pre)))"
proof -
  let ?P = "SplitOn CHR ''.'' p" and ?T = "SplitOn CHR ''.'' t"
  have last: "?P ! (length ?P - 1) = last ?P" by (simp add: last_conv_nth)
  have pre: "(\<exists>pre rest. ?T = pre @ rest \<and> list_all2 seg_ok (butlast ?P) pre) \<longleftrightarrow>
      length ?P - 1 \<le> length ?T \<and> list_all2 seg_ok (butlast ?P) (take (length ?P - 1) ?T)"
  proof
    assume "\<exists>pre rest. ?T = pre @ rest \<and> list_all2 seg_ok (butlast ?P) pre"
    then obtain pre rest where "?T = pre @ rest" "list_all2 seg_ok (butlast ?P) pre" by blast
    moreover from this have "length pre = length ?P - 1" by (auto dest: list_all2_lengthD)
    ultimately show "length ?P - 1 \<le> length ?T \<and> list_all2 seg_ok (butlast ?P) (take (length ?P - 1) ?T)" by simp
  next
    assume "length ?P - 1 \<le> length ?T \<and> list_all2 seg_ok (butlast ?P) (take (length ?P - 1) ?T)"
    then show "\<exists>pre rest. ?T = pre @ rest \<and> list_all2 seg_ok (butlast ?P) pre"
      by (intro exI [of _ "take (length ?P - 1) ?T"] exI [of _ "drop (length ?P - 1) ?T"]) simp
  qed
  show ?thesis
  proof (cases "p = ''*'' \<or> p = t")
    case True
    then show ?thesis by (auto simp: topicMatches_def list_all2_seg_ok_refl)
  next
    case False
    show ?thesis
    proof (cases "length ?P = length ?T")
      case True
      with False show ?thesis by (simp add: topicMatches_def Let_def segmentsMatch_eq)
    next
      case neq: False
      then have "\<not> list_all2 seg_ok ?P ?T" by (auto dest: list_all2_lengthD)
      with False neq show ?thesis
        unfolding pre topicMatches_def Let_def last by (simp add: segmentsMatch_eq butlast_conv_take)
    qed
  qed
qed

text \<open>
  Matching a topic against a pattern never indexes past the topic's segments, and its result
  is: the pattern is a single star; or pattern and topic have equally many segments and each pattern
  segment is a star or the same text; or the pattern's last segment is a double star, the numbers of
  segments differ, and the segments before it match a prefix of the topic.
\<close>

theorem topicMatches_spec:
  "topicMatches p t = Some
     (p = ''*''
      \<or> list_all2 seg_ok (SplitOn CHR ''.'' p) (SplitOn CHR ''.'' t)
      \<or> (last (SplitOn CHR ''.'' p) = ''**''
         \<and> length (SplitOn CHR ''.'' p) \<noteq> length (SplitOn CHR ''.'' t)
         \<and> (\<exists>pre rest. SplitOn CHR ''.'' t = pre @ rest
              \<and> list_all2 seg_ok (butlast (SplitOn CHR ''.'' p)) pre)))"
  by (rule topicMatches_iff)

text \<open>
  A pattern that ends in a double star does not match a topic with exactly one more segment
  than the part before the double star, although it matches every longer topic with that prefix:
  \<open>user.**\<close> accepts \<open>user\<close> and \<open>user.a.b\<close> and rejects \<open>user.a\<close>.
\<close>

theorem double_star_gap:
  assumes "ps \<noteq> []" and "\<forall>s \<in> set (ps @ [x, y]). CHR ''.'' \<notin> set s" and "x \<noteq> ''**''"
  shows "topicMatches (Join ''.'' (ps @ [''**''])) (Join ''.'' (ps @ [x])) = Some False
    \<and> topicMatches (Join ''.'' (ps @ [''**''])) (Join ''.'' (ps @ [x, y])) = Some True"
proof -
  from assms(1,2) have s: "SplitOn CHR ''.'' (Join ''.'' (ps @ [''**''])) = ps @ [''**'']"
    "SplitOn CHR ''.'' (Join ''.'' (ps @ [x])) = ps @ [x]"
    "SplitOn CHR ''.'' (Join ''.'' (ps @ [x, y])) = ps @ [x, y]"
    by (auto intro!: SplitOn_Join)
  have star: "Join ''.'' (ps @ [''**'']) \<noteq> ''*''"
  proof
    assume "Join ''.'' (ps @ [''**'']) = ''*''"
    with s(1) have "ps @ [''**''] = SplitOn CHR ''.'' ''*''" by simp
    then show False by simp
  qed
  have "\<not> seg_ok ''**'' x" using assms(3) by (auto simp: seg_ok_def)
  then show ?thesis
    unfolding topicMatches_iff s using star
    by (auto simp: list_all2_append list_all2_seg_ok_refl)
qed

theorem double_star_gap_witness:
  "topicMatches (Join ''.'' ([''user''] @ [''**''])) (Join ''.'' ([''user''] @ [''a''])) = Some False
    \<and> topicMatches (Join ''.'' ([''user''] @ [''**''])) (Join ''.'' ([''user''] @ [''a'', ''b''])) = Some True"
  by (rule double_star_gap) simp_all

text \<open>
  C4. In every interleaving of subscribe, publish, deliver, cancel, close and consume steps, with
  publish and cancel split at their lock boundaries, no goroutine sends on a closed channel or
  closes a channel twice, and no subscriber's queue exceeds its 256 slots.
\<close>

theorem pubsub_never_panics:
  assumes "ps_reachable \<sigma>"
  shows "ps_panic (sys_ps \<sigma>) = None
    \<and> (\<forall>i s. map_of (ps_objs (sys_ps \<sigma>)) i = Some s \<longrightarrow> length (chan_buf (sub_buf s)) \<le> 256)"
proof -
  from assms have inv: "ps_inv (sys_ps \<sigma>)" by (rule ps_reachable_inv)
  moreover have "sub_inv s \<Longrightarrow> length (chan_buf (sub_buf s)) \<le> 256" for s
    unfolding sub_inv_def by metis
  ultimately show ?thesis unfolding ps_inv_def by blast
qed

theorem pubsub_never_panics_witness:
  "ps_panic (sys_ps \<lparr>sys_ps = snd (subscribe newPubSub ''t'' 0), sys_deliver = {#}, sys_close = {#}\<rparr>) = None"
proof -
  have "ps_reachable \<lparr>sys_ps = snd (subscribe newPubSub ''t'' 0), sys_deliver = {#}, sys_close = {#}\<rparr>"
    using ps_next [OF ps_start step_subscribe [of "\<lparr>sys_ps = newPubSub, sys_deliver = {#}, sys_close = {#}\<rparr>"]]
    by simp
  then show ?thesis using pubsub_never_panics by blast
qed

lemma publish_object:
  assumes "ps_inv ps" and "map_of (ps_objs ps) i = Some s"
  shows "map_of (ps_objs (publish ps topic v)) i =
    Some (if i \<in> set (ps_subscribers ps) \<and> topicMatches (sub_topic s) topic = Some True
             \<and> \<not> sub_closed s \<and> length (chan_buf (sub_buf s)) < 256
          then s\<lparr>sub_buf := (sub_buf s)\<lparr>chan_buf := chan_buf (sub_buf s) @ [\<lparr>msg_topic = topic, msg_payload = v\<rparr>]\<rparr>\<rparr>
          else s)"
proof -
  from assms have "sub_inv s" by (auto simp: ps_inv_def)
  with assms show ?thesis
    by (auto simp: publish_lookup publish_snapshot_def subscriber_deliver_def chan_trySend_def sub_inv_def)
qed

text \<open>
  Publishing appends the message to the queue of every registered, open subscriber whose
  pattern matches and whose queue has room, drops it for a full queue, and leaves every other
  subscriber object as it was.
\<close>

theorem publish_effect:
  assumes "ps_inv ps" and "map_of (ps_objs ps) i = Some s"
  shows "map_of (ps_objs (publish ps topic v)) i =
    Some (if i \<in> set (ps_subscribers ps) \<and> topicMatches (sub_topic s) topic = Some True
             \<and> \<not> sub_closed s \<and> length (chan_buf (sub_buf s)) < 256
          then s\<lparr>sub_buf := (sub_buf s)\<lparr>chan_buf := chan_buf (sub_buf s) @ [\<lparr>msg_topic = topic, msg_payload = v\<rparr>]\<rparr>\<rparr>
          else s)"
  using assms by (rule publish_object)

theorem publish_effect_witness:
  "ps_inv (snd (subscribe newPubSub ''t'' 7))
   \<and> map_of (ps_objs (publish (snd (subscribe newPubSub ''t'' 7)) ''t'' GNil)) 1 =
       Some \<lparr>sub_id = 1, sub_topic = ''t'', sub_handler = 7,
             sub_buf = \<lparr>chan_buf = [\<lparr>msg_topic = ''t'', msg_payload = GNil\<rparr>], chan_cap = 256, chan_closed = False\<rparr>,
             sub_closed = False\<rparr>"
proof -
  have inv: "ps_inv (snd (subscribe newPubSub ''t'' 7))" by (rule ps_inv_subscribe) simp
  have "map_of (ps_objs (snd (subscribe newPubSub ''t'' 7))) 1 = Some
      \<lparr>sub_id = 1, sub_topic = ''t'', sub_handler = 7, sub_buf = chan_make 256, sub_closed = False\<rparr>"
    by (simp add: subscribe_def newPubSub_def)
  from publish_effect [OF inv this, of "''t''" GNil] inv show ?thesis
    by (simp add: topicMatches_def chan_make_def subscribe_def newPubSub_def)
qed

end
