(* ===== verification/Mem_Store.thy ===== *)
theory Mem_Store
  imports Vector_Clock PubSub
begin

text \<open>
  Model of \<open>framework/memory/store.go\<close>: the key/value store with TTLs, its counters and
  compare-and-swap, key scanning, snapshots and the application of remote writes. The store owns a
  vector clock and a pub/sub engine; what it hands to the configured transport (gossip or Redis) is
  recorded as a list of calls in \<open>s_out\<close>, which theory \<open>Gossip\<close> turns into messages. Operations that
  read the clock take \<open>now\<close>; the gob codec of the snapshot file is a pair of parameters.

  Each operation of the store runs under its mutex, so an operation is one step here; \<open>Get\<close> drops
  the lock between reading and evicting and is therefore split into the two steps \<open>Get_read\<close> and
  \<open>Get_evict\<close>, and what is proved of \<open>Get_evict\<close> holds for any store it may find.
\<close>

section \<open>Data\<close>

record entry =
  e_value :: gval
  e_expiresAt :: "gotime option" \<comment> \<open>\<^const>\<open>None\<close> is the zero time: no expiry\<close>
  e_clock :: ClockValue

record Options =
  opt_NodeID :: string
  opt_BindAddr :: string
  opt_Peers :: "string list"
  opt_GossipSecret :: string
  opt_Persist :: bool
  opt_SnapshotPath :: string
  opt_GracefulSave :: bool
  opt_RedisURL :: string
  opt_MaxKeys :: int
  opt_EvictInterval :: duration

datatype transport = NoTransport | GossipTransport | RedisTransport

text \<open>The calls \<open>broadcastSet\<close>, \<open>broadcastDelete\<close> and \<open>broadcastPublish\<close> on the transport.\<close>

datatype sync_call = SyncSet string entry | SyncDelete string | SyncPublish string gval

record Store =
  s_opts :: Options
  s_nodeID :: string
  s_clock :: VectorClock
  s_data :: "(string, entry) gomap"
  s_pubsub :: PubSub
  s_transport :: transport
  s_out :: "sync_call list"
  s_done :: bool

record snapshotEntry =
  snap_value :: gval
  snap_expiresAt :: "gotime option"

type_synonym snapshotData = "(string, snapshotEntry) gomap"

datatype mem_error = SnapshotSaveError | SnapshotLoadError | SnapshotEncodeError

section \<open>Expiry\<close>

definition time_passed :: "gotime option \<Rightarrow> gotime \<Rightarrow> bool" where
  "time_passed t now = (case t of None \<Rightarrow> False | Some x \<Rightarrow> x < now)"

definition entry_expired :: "entry \<Rightarrow> gotime \<Rightarrow> bool" where
  "entry_expired e now = time_passed (e_expiresAt e) now"

definition expiry_from :: "gotime \<Rightarrow> duration \<Rightarrow> gotime option" where
  "expiry_from now ttl = (if ttl > 0 then Some (now + ttl) else None)"

section \<open>Synchronisation calls\<close>

definition sync_to_peers :: "Store \<Rightarrow> sync_call \<Rightarrow> Store" where
  "sync_to_peers s c = (case s_transport s of NoTransport \<Rightarrow> s | _ \<Rightarrow> s\<lparr>s_out := s_out s @ [c]\<rparr>)"

definition syncSet :: "Store \<Rightarrow> string \<Rightarrow> entry \<Rightarrow> Store" where
  "syncSet s key e = sync_to_peers s (SyncSet key e)"

definition syncDelete :: "Store \<Rightarrow> string \<Rightarrow> Store" where
  "syncDelete s key = sync_to_peers s (SyncDelete key)"

definition syncPublish :: "Store \<Rightarrow> string \<Rightarrow> gval \<Rightarrow> Store" where
  "syncPublish s topic payload = sync_to_peers s (SyncPublish topic payload)"

section \<open>Key/value operations\<close>

definition Store_Set :: "Store \<Rightarrow> gotime \<Rightarrow> string \<Rightarrow> gval \<Rightarrow> duration \<Rightarrow> Store" where
  "Store_Set s now key value ttl =
     (let (cv, clk) = Tick (s_clock s);
          e = \<lparr>e_value = value, e_expiresAt = expiry_from now ttl, e_clock = cv\<rparr>;
          s1 = s\<lparr>s_clock := clk, s_data := AList.update key e (s_data s)\<rparr>;
          s2 = s1\<lparr>s_pubsub := publish (s_pubsub s1) (''key:'' @ key) value\<rparr>
      in syncSet s2 key e)"

text \<open>\<open>Get\<close>: the read under the read lock, then the eviction under the write lock.\<close>

definition Get_read :: "Store \<Rightarrow> gotime \<Rightarrow> string \<Rightarrow> gval option" where
  "Get_read s now key =
     (case map_of (s_data s) key of
        None \<Rightarrow> None
      | Some e \<Rightarrow> if entry_expired e now then None else Some (e_value e))"

definition Get_evict :: "Store \<Rightarrow> gotime \<Rightarrow> string \<Rightarrow> Store" where
  "Get_evict s now key =
     (case map_of (s_data s) key of
        None \<Rightarrow> s
      | Some cur \<Rightarrow> if entry_expired cur now then s\<lparr>s_data := AList.delete key (s_data s)\<rparr> else s)"

definition Store_Get :: "Store \<Rightarrow> gotime \<Rightarrow> string \<Rightarrow> gval option \<times> Store" where
  "Store_Get s now key =
     (case map_of (s_data s) key of
        None \<Rightarrow> (None, s)
      | Some e \<Rightarrow> if entry_expired e now then (None, Get_evict s now key) else (Some (e_value e), s))"

definition Store_GetString :: "Store \<Rightarrow> gotime \<Rightarrow> string \<Rightarrow> (string \<times> bool) \<times> Store" where
  "Store_GetString s now key =
     (case Store_Get s now key of
        (None, s1) \<Rightarrow> (([], False), s1)
      | (Some v, s1) \<Rightarrow> (case v of GString str \<Rightarrow> (str, True) | _ \<Rightarrow> ([], False), s1))"

definition Store_GetInt64 :: "Store \<Rightarrow> gotime \<Rightarrow> string \<Rightarrow> (i64 \<times> bool) \<times> Store" where
  "Store_GetInt64 s now key =
     (case Store_Get s now key of
        (None, s1) \<Rightarrow> ((0, False), s1)
      | (Some v, s1) \<Rightarrow>
          (case v of GInt64 n \<Rightarrow> (n, True) | GInt n \<Rightarrow> (n, True)
           | GFloat64 q \<Rightarrow> (float64_to_int64 q, True) | _ \<Rightarrow> (0, False), s1))"

definition Store_Has :: "Store \<Rightarrow> gotime \<Rightarrow> string \<Rightarrow> bool \<times> Store" where
  "Store_Has s now key = (let (v, s1) = Store_Get s now key in (v \<noteq> None, s1))"

definition Store_Delete :: "Store \<Rightarrow> string \<Rightarrow> Store" where
  "Store_Delete s key = syncDelete (s\<lparr>s_data := AList.delete key (s_data s)\<rparr>) key"

definition Store_Expire :: "Store \<Rightarrow> gotime \<Rightarrow> string \<Rightarrow> duration \<Rightarrow> bool \<times> Store" where
  "Store_Expire s now key ttl =
     (case map_of (s_data s) key of
        None \<Rightarrow> (False, s)
      | Some e \<Rightarrow>
          (True, if entry_expired e now then s
                 else s\<lparr>s_data := AList.update key (e\<lparr>e_expiresAt := expiry_from now ttl\<rparr>) (s_data s)\<rparr>))"

section \<open>Atomic operations\<close>

definition counter_value :: "gval \<Rightarrow> i64" where
  "counter_value v = (case v of GInt64 n \<Rightarrow> n | GInt n \<Rightarrow> n | GFloat64 q \<Rightarrow> float64_to_int64 q | _ \<Rightarrow> 0)"

definition Store_IncrBy :: "Store \<Rightarrow> gotime \<Rightarrow> string \<Rightarrow> i64 \<Rightarrow> i64 \<times> Store" where
  "Store_IncrBy s now key n =
     (let current = (case map_of (s_data s) key of
                       None \<Rightarrow> 0
                     | Some e \<Rightarrow> if entry_expired e now then 0 else counter_value (e_value e));
          nxt = current + n;
          (cv, clk) = Tick (s_clock s)
      in (nxt, s\<lparr>s_clock := clk,
                 s_data := AList.update key \<lparr>e_value = GInt64 nxt, e_expiresAt = None, e_clock = cv\<rparr> (s_data s)\<rparr>))"

definition Store_Incr :: "Store \<Rightarrow> gotime \<Rightarrow> string \<Rightarrow> i64 \<times> Store" where
  "Store_Incr s now key = Store_IncrBy s now key 1"

definition Store_Decr :: "Store \<Rightarrow> gotime \<Rightarrow> string \<Rightarrow> i64 \<times> Store" where
  "Store_Decr s now key = Store_IncrBy s now key (-1)"

definition Store_CompareAndSwap ::
  "Store \<Rightarrow> gotime \<Rightarrow> string \<Rightarrow> gval \<Rightarrow> gval \<Rightarrow> duration \<Rightarrow> bool \<times> Store" where
  "Store_CompareAndSwap s now key expected newValue ttl =
     (let currentVal = (case map_of (s_data s) key of
                          None \<Rightarrow> GNil
                        | Some e \<Rightarrow> if entry_expired e now then GNil else e_value e)
      in if currentVal \<noteq> expected then (False, s)
         else let (cv, clk) = Tick (s_clock s);
                  ne = \<lparr>e_value = newValue, e_expiresAt = expiry_from now ttl, e_clock = cv\<rparr>
              in (True, s\<lparr>s_clock := clk, s_data := AList.update key ne (s_data s)\<rparr>))"

section \<open>Key scanning\<close>

text \<open>The loop over the middle segments: what is left of the key, or \<^const>\<open>None\<close> for \<open>return false\<close>.\<close>

fun glob_middle :: "string list \<Rightarrow> string \<Rightarrow> string option" where
  "glob_middle [] s = Some s"
| "glob_middle (mid # rest) s =
     (case Index s mid of None \<Rightarrow> None | Some idx \<Rightarrow> glob_middle rest (drop (idx + length mid) s))"

definition globMatch :: "string \<Rightarrow> string \<Rightarrow> bool" where
  "globMatch pattern s =
     (if pattern = ''*'' then True
      else if \<not> Contains pattern ''*'' then pattern = s
      else let parts = SplitOn CHR ''*'' pattern
           in if \<not> HasPrefix s (hd parts) then False
              else (case glob_middle (butlast (tl parts)) (drop (length (hd parts)) s) of
                      None \<Rightarrow> False
                    | Some r \<Rightarrow> HasSuffix r (last parts)))"

definition Store_Keys :: "Store \<Rightarrow> gotime \<Rightarrow> string \<Rightarrow> string list" where
  "Store_Keys s now pattern =
     map fst (filter (\<lambda>(k, e). \<not> entry_expired e now \<and> globMatch pattern k) (s_data s))"

definition Store_Count :: "Store \<Rightarrow> gotime \<Rightarrow> string \<Rightarrow> nat" where
  "Store_Count s now pattern = length (Store_Keys s now pattern)"

definition Store_Flush :: "Store \<Rightarrow> Store" where
  "Store_Flush s = s\<lparr>s_data := []\<rparr>"

section \<open>Pub/sub\<close>

definition Store_Publish :: "Store \<Rightarrow> string \<Rightarrow> gval \<Rightarrow> Store" where
  "Store_Publish s topic payload = syncPublish (s\<lparr>s_pubsub := publish (s_pubsub s) topic payload\<rparr>) topic payload"

definition Store_Subscribe :: "Store \<Rightarrow> string \<Rightarrow> nat \<Rightarrow> nat \<times> Store" where
  "Store_Subscribe s topic handler =
     (let (i, ps) = subscribe (s_pubsub s) topic handler in (i, s\<lparr>s_pubsub := ps\<rparr>))"

section \<open>Eviction and remote writes\<close>

definition Store_evict :: "Store \<Rightarrow> gotime \<Rightarrow> Store" where
  "Store_evict s now = s\<lparr>s_data := filter (\<lambda>(k, e). \<not> time_passed (e_expiresAt e) now) (s_data s)\<rparr>"

definition applyRemoteSet :: "Store \<Rightarrow> string \<Rightarrow> gval \<Rightarrow> gotime option \<Rightarrow> ClockValue \<Rightarrow> Store" where
  "applyRemoteSet s key value expiresAt clock =
     (let s1 = s\<lparr>s_clock := Merge (s_clock s) clock\<rparr>;
          e = \<lparr>e_value = value, e_expiresAt = expiresAt, e_clock = clock\<rparr>;
          s2 = (case map_of (s_data s1) key of
                  None \<Rightarrow> s1\<lparr>s_data := AList.update key e (s_data s1)\<rparr>
                | Some existing \<Rightarrow>
                    if \<not> After (e_clock existing) clock then s1\<lparr>s_data := AList.update key e (s_data s1)\<rparr> else s1)
      in s2\<lparr>s_pubsub := publish (s_pubsub s2) (''key:'' @ key) value\<rparr>)"

definition applyRemoteDelete :: "Store \<Rightarrow> string \<Rightarrow> Store" where
  "applyRemoteDelete s key = s\<lparr>s_data := AList.delete key (s_data s)\<rparr>"

definition applyRemotePublish :: "Store \<Rightarrow> string \<Rightarrow> gval \<Rightarrow> Store" where
  "applyRemotePublish s topic payload = s\<lparr>s_pubsub := publish (s_pubsub s) topic payload\<rparr>"

section \<open>Snapshots\<close>

definition take_snapshot :: "Store \<Rightarrow> gotime \<Rightarrow> snapshotData" where
  "take_snapshot s now =
     foldl (\<lambda>snap (k, e). if time_passed (e_expiresAt e) now then snap
                           else AList.update k \<lparr>snap_value = e_value e, snap_expiresAt = e_expiresAt e\<rparr> snap)
       [] (s_data s)"

text \<open>
  \<open>os.Create\<close> truncates the file before the encoder runs, so a failing encoder leaves it empty.
  The result is the error, if any, and the content of the file afterwards (\<^const>\<open>None\<close>: no file).
\<close>

definition saveSnapshot ::
  "(snapshotData \<Rightarrow> string option) \<Rightarrow> bool \<Rightarrow> string option \<Rightarrow> Store \<Rightarrow> gotime \<Rightarrow> mem_error option \<times> string option" where
  "saveSnapshot gob_encode can_create old_file s now =
     (if \<not> can_create then (Some SnapshotSaveError, old_file)
      else case gob_encode (take_snapshot s now) of
             None \<Rightarrow> (Some SnapshotEncodeError, Some [])
           | Some bytes \<Rightarrow> (None, Some bytes))"

definition restore_entries :: "snapshotData \<Rightarrow> gotime \<Rightarrow> (string, entry) gomap \<Rightarrow> (string, entry) gomap" where
  "restore_entries snap now data =
     foldl (\<lambda>d (k, se). if time_passed (snap_expiresAt se) now then d
                         else AList.update k \<lparr>e_value = snap_value se, e_expiresAt = snap_expiresAt se, e_clock = zeroClock\<rparr> d)
       data snap"

definition loadSnapshot ::
  "(string \<Rightarrow> snapshotData option) \<Rightarrow> string option \<Rightarrow> Store \<Rightarrow> gotime \<Rightarrow> mem_error option \<times> Store" where
  "loadSnapshot gob_decode file s now =
     (case file of
        None \<Rightarrow> (None, s)
      | Some bytes \<Rightarrow>
          (case gob_decode bytes of
             None \<Rightarrow> (Some SnapshotLoadError, s)
           | Some snap \<Rightarrow> (None, s\<lparr>s_data := restore_entries snap now (s_data s)\<rparr>)))"

section \<open>Lifecycle\<close>

definition generateNodeID :: "byte list \<Rightarrow> string" where
  "generateNodeID b = ''node-'' @ concat (map (\<lambda>x. [digit (unat x div 16), digit (unat x mod 16)]) b)"

text \<open>
  \<open>New\<close>, with the random bytes, the result of \<open>redis.ParseURL\<close> and the snapshot file as arguments.
\<close>

definition Store_New ::
  "(string \<Rightarrow> snapshotData option) \<Rightarrow> string option \<Rightarrow> byte list \<Rightarrow> bool \<Rightarrow> Options \<Rightarrow> gotime \<Rightarrow> Store" where
  "Store_New gob_decode file random redis_url_ok opts now =
     (let nodeID = (if opt_NodeID opts = [] then generateNodeID random else opt_NodeID opts);
          opts1 = (if opt_SnapshotPath opts = [] then opts\<lparr>opt_SnapshotPath := ''storage/memory.snap''\<rparr> else opts);
          opts2 = (if opt_EvictInterval opts1 \<le> 0 then opts1\<lparr>opt_EvictInterval := 30 * second\<rparr> else opts1);
          s = \<lparr>s_opts = opts2, s_nodeID = nodeID, s_clock = NewVectorClock nodeID, s_data = [],
               s_pubsub = newPubSub, s_transport = NoTransport, s_out = [], s_done = False\<rparr>;
          s1 = (if opt_Persist opts2 then snd (loadSnapshot gob_decode file s now) else s)
      in if opt_RedisURL opts2 \<noteq> [] then s1\<lparr>s_transport := (if redis_url_ok then RedisTransport else NoTransport)\<rparr>
         else if opt_BindAddr opts2 \<noteq> [] then s1\<lparr>s_transport := GossipTransport\<rparr>
         else s1)"

definition Store_Shutdown ::
  "(snapshotData \<Rightarrow> string option) \<Rightarrow> bool \<Rightarrow> string option \<Rightarrow> Store \<Rightarrow> gotime
     \<Rightarrow> (mem_error option \<times> string option) \<times> Store" where
  "Store_Shutdown gob_encode can_create file s now =
     (let s1 = s\<lparr>s_done := True\<rparr>
      in if opt_Persist (s_opts s1) then (saveSnapshot gob_encode can_create file s1 now, s1)
         else ((None, file), s1))"

section \<open>Interface to clients\<close>

text \<open>
  What the clients of the store (presence, sessions) rely on: a view of the live keys at a time, and
  how writing, deleting and scanning act on it.
\<close>

locale kv_store =
  fixes view :: "'s \<Rightarrow> gotime \<Rightarrow> string \<Rightarrow> gval option"
    and set_op :: "'s \<Rightarrow> gotime \<Rightarrow> string \<Rightarrow> gval \<Rightarrow> duration \<Rightarrow> 's"
    and delete_op :: "'s \<Rightarrow> string \<Rightarrow> 's"
    and keys_op :: "'s \<Rightarrow> gotime \<Rightarrow> string \<Rightarrow> string list"
    and inv :: "'s \<Rightarrow> bool"
  assumes inv_set: "inv s \<Longrightarrow> inv (set_op s now k v ttl)"
    and inv_delete: "inv s \<Longrightarrow> inv (delete_op s k)"
    and view_set: "view (set_op s now k v ttl) t k' =
      (if k' = k then (if time_passed (expiry_from now ttl) t then None else Some v) else view s t k')"
    and view_delete: "view (delete_op s k) t k' = (if k' = k then None else view s t k')"
    and set_keys: "inv s \<Longrightarrow> set (keys_op s t p) = {k. view s t k \<noteq> None \<and> globMatch p k}"
    and distinct_keys: "inv s \<Longrightarrow> distinct (keys_op s t p)"
begin

lemma view_delete_all:
  "view (fold (\<lambda>k s. delete_op s k) ks s) t k' = (if k' \<in> set ks then None else view s t k')"
  by (induction ks arbitrary: s) (auto simp: view_delete)

lemma inv_delete_all: "inv s \<Longrightarrow> inv (fold (\<lambda>k s. delete_op s k) ks s)"
  by (induction ks arbitrary: s) (auto simp: inv_delete)

lemma view_after_set: "ttl \<le> 0 \<or> t \<le> now + ttl \<Longrightarrow> view (set_op s now k v ttl) t k = Some v"
  by (auto simp: view_set time_passed_def expiry_from_def)

lemma view_set_expired: "0 < ttl \<Longrightarrow> now + ttl < t \<Longrightarrow> view (set_op s now k v ttl) t k = None"
  by (simp add: view_set time_passed_def expiry_from_def)

lemma keys_after_delete_all:
  "inv s \<Longrightarrow> set (keys_op (fold (\<lambda>k s. delete_op s k) ks s) t p) = set (keys_op s t p) - set ks"
  by (auto simp: set_keys inv_delete_all view_delete_all)

lemma scan_and_delete:
  "inv s \<Longrightarrow> keys_op (fold (\<lambda>k s. delete_op s k) (keys_op s t p) s) t p = []"
  using keys_after_delete_all [of s "keys_op s t p" t p] by simp

lemma keys_after_set:
  assumes "inv s" and "ttl \<le> 0 \<or> t \<le> now + ttl" and "globMatch p k"
  shows "set (keys_op (set_op s now k v ttl) t p) = insert k (set (keys_op s t p))"
  using assms by (auto simp: set_keys inv_set view_set time_passed_def expiry_from_def split: if_splits)

end

section \<open>The live view\<close>

definition live_view :: "Store \<Rightarrow> gotime \<Rightarrow> string \<Rightarrow> (gval \<times> gotime option) option" where
  "live_view s t k =
     (case map_of (s_data s) k of
        None \<Rightarrow> None
      | Some e \<Rightarrow> if time_passed (e_expiresAt e) t then None else Some (e_value e, e_expiresAt e))"

definition store_inv :: "Store \<Rightarrow> bool" where
  "store_inv s = (distinct (map fst (s_data s)) \<and> vc_inv (s_clock s) \<and> vc_nodeID (s_clock s) = s_nodeID s
     \<and> ps_inv (s_pubsub s))"

lemma time_passed_mono: "time_passed x t \<Longrightarrow> t \<le> t' \<Longrightarrow> time_passed x t'"
  by (auto simp: time_passed_def split: option.splits)

lemma sync_simps [simp]:
  "s_data (sync_to_peers s c) = s_data s" "s_clock (sync_to_peers s c) = s_clock s"
  "s_pubsub (sync_to_peers s c) = s_pubsub s" "s_nodeID (sync_to_peers s c) = s_nodeID s"
  "s_transport (sync_to_peers s c) = s_transport s" "s_opts (sync_to_peers s c) = s_opts s"
  by (simp_all add: sync_to_peers_def split: transport.splits)

lemma data_Set:
  "s_data (Store_Set s now k v ttl) =
     AList.update k \<lparr>e_value = v, e_expiresAt = expiry_from now ttl, e_clock = fst (Tick (s_clock s))\<rparr> (s_data s)"
  by (simp add: Store_Set_def syncSet_def Let_def split: prod.splits)

lemma data_Delete: "s_data (Store_Delete s k) = AList.delete k (s_data s)"
  by (simp add: Store_Delete_def syncDelete_def)

lemma data_IncrBy:
  "s_data (snd (Store_IncrBy s now k n)) =
     AList.update k \<lparr>e_value = GInt64 (fst (Store_IncrBy s now k n)), e_expiresAt = None, e_clock = fst (Tick (s_clock s))\<rparr> (s_data s)"
  by (simp add: Store_IncrBy_def Let_def split: prod.splits)

lemma data_CAS:
  "s_data (snd (Store_CompareAndSwap s now k x v ttl)) =
     (if fst (Store_CompareAndSwap s now k x v ttl)
      then AList.update k \<lparr>e_value = v, e_expiresAt = expiry_from now ttl, e_clock = fst (Tick (s_clock s))\<rparr> (s_data s)
      else s_data s)"
  by (simp add: Store_CompareAndSwap_def Let_def split: prod.splits)

lemma fst_IncrBy:
  "fst (Store_IncrBy s now k n) = (case live_view s now k of None \<Rightarrow> 0 | Some (v, _) \<Rightarrow> counter_value v) + n"
  by (simp add: Store_IncrBy_def live_view_def entry_expired_def Let_def split: prod.splits option.splits)

lemma fst_CAS:
  "fst (Store_CompareAndSwap s now k x v ttl) =
     ((case live_view s now k of None \<Rightarrow> GNil | Some (w, _) \<Rightarrow> w) = x)"
  by (simp add: Store_CompareAndSwap_def live_view_def entry_expired_def Let_def split: prod.splits option.splits)

lemma Get_eq: "Store_Get s now k = (map_option fst (live_view s now k), Get_evict s now k)"
  by (simp add: Store_Get_def live_view_def Get_evict_def entry_expired_def split: option.splits)

lemma view_Set:
  "live_view (Store_Set s now k v ttl) t k' =
     (if k' = k then (if time_passed (expiry_from now ttl) t then None else Some (v, expiry_from now ttl))
      else live_view s t k')"
  by (simp add: live_view_def data_Set)

lemma view_Delete: "live_view (Store_Delete s k) t k' = (if k' = k then None else live_view s t k')"
  by (simp add: live_view_def data_Delete)

lemma view_IncrBy:
  "live_view (snd (Store_IncrBy s now k n)) t k' =
     (if k' = k then Some (GInt64 (fst (Store_IncrBy s now k n)), None) else live_view s t k')"
  by (simp add: live_view_def data_IncrBy time_passed_def)

lemma view_CAS:
  "live_view (snd (Store_CompareAndSwap s now k x v ttl)) t k' =
     (if fst (Store_CompareAndSwap s now k x v ttl) \<and> k' = k
      then (if time_passed (expiry_from now ttl) t then None else Some (v, expiry_from now ttl))
      else live_view s t k')"
  by (simp add: live_view_def data_CAS)

lemma view_Get_evict: "now \<le> t \<Longrightarrow> live_view (Get_evict s now k) t k' = live_view s t k'"
  by (auto simp: live_view_def Get_evict_def entry_expired_def time_passed_mono split: option.splits)

lemma view_Expire:
  "live_view s now k = Some (v, x) \<Longrightarrow>
   live_view (snd (Store_Expire s now k ttl)) t k' =
     (if k' = k then (if time_passed (expiry_from now ttl) t then None else Some (v, expiry_from now ttl))
      else live_view s t k')"
  by (auto simp: live_view_def Store_Expire_def entry_expired_def split: option.splits if_splits)

lemma view_Expire_dead: "live_view s now k = None \<Longrightarrow> snd (Store_Expire s now k ttl) = s"
  by (auto simp: live_view_def Store_Expire_def entry_expired_def split: option.splits if_splits)

lemma view_evict:
  "store_inv s \<Longrightarrow> now \<le> t \<Longrightarrow> live_view (Store_evict s now) t k = live_view s t k"
  by (auto simp: live_view_def Store_evict_def map_of_filter_distinct store_inv_def time_passed_mono
      split: option.splits)

lemma view_Flush [simp]: "live_view (Store_Flush s) t k = None"
  by (simp add: live_view_def Store_Flush_def)

lemma set_Store_Keys:
  "store_inv s \<Longrightarrow> set (Store_Keys s t p) = {k. live_view s t k \<noteq> None \<and> globMatch p k}"
  unfolding store_inv_def live_view_def Store_Keys_def entry_expired_def set_map
  by (intro set_eqI) (simp only: keys_filter_iff, auto split: option.splits if_splits)

lemma distinct_Store_Keys: "store_inv s \<Longrightarrow> distinct (Store_Keys s t p)"
  by (simp add: store_inv_def Store_Keys_def distinct_filter_keys)

section \<open>The invariant\<close>

lemma store_inv_Set [simp]: "store_inv s \<Longrightarrow> store_inv (Store_Set s now k v ttl)"
  by (auto simp: store_inv_def Store_Set_def syncSet_def Let_def distinct_update split: prod.splits
      dest: arg_cong [of _ _ snd]) (metis Tick_simps(3) snd_conv vc_inv_Tick)+

lemma store_inv_Delete [simp]: "store_inv s \<Longrightarrow> store_inv (Store_Delete s k)"
  by (simp add: store_inv_def Store_Delete_def syncDelete_def distinct_delete)

lemma store_inv_Get_evict [simp]: "store_inv s \<Longrightarrow> store_inv (Get_evict s now k)"
  by (auto simp: store_inv_def Get_evict_def distinct_delete split: option.splits)

lemma store_inv_Expire [simp]: "store_inv s \<Longrightarrow> store_inv (snd (Store_Expire s now k ttl))"
  by (auto simp: store_inv_def Store_Expire_def distinct_update split: option.splits)

lemma store_inv_IncrBy [simp]: "store_inv s \<Longrightarrow> store_inv (snd (Store_IncrBy s now k n))"
  unfolding store_inv_def data_IncrBy
  by (auto simp: Store_IncrBy_def Let_def distinct_update split: prod.splits) (metis Tick_simps(3) snd_conv vc_inv_Tick)+

lemma store_inv_CAS [simp]: "store_inv s \<Longrightarrow> store_inv (snd (Store_CompareAndSwap s now k x v ttl))"
  unfolding store_inv_def data_CAS
  by (auto simp: Store_CompareAndSwap_def Let_def distinct_update split: prod.splits) (metis Tick_simps(3) snd_conv vc_inv_Tick)+

lemma store_inv_Flush [simp]: "store_inv s \<Longrightarrow> store_inv (Store_Flush s)"
  by (simp add: store_inv_def Store_Flush_def)

lemma store_inv_evict [simp]: "store_inv s \<Longrightarrow> store_inv (Store_evict s now)"
  by (simp add: store_inv_def Store_evict_def distinct_filter_keys)

lemma store_inv_Publish [simp]: "store_inv s \<Longrightarrow> store_inv (Store_Publish s topic v)"
  by (simp add: store_inv_def Store_Publish_def syncPublish_def)

lemma store_inv_Subscribe [simp]: "store_inv s \<Longrightarrow> store_inv (snd (Store_Subscribe s topic h))"
  using ps_inv_subscribe [of "s_pubsub s" topic h]
  by (auto simp: store_inv_def Store_Subscribe_def split: prod.splits)

lemma store_inv_remoteSet [simp]: "store_inv s \<Longrightarrow> store_inv (applyRemoteSet s k v x c)"
  by (auto simp: store_inv_def applyRemoteSet_def Let_def distinct_update split: option.splits)

lemma store_inv_remoteDelete [simp]: "store_inv s \<Longrightarrow> store_inv (applyRemoteDelete s k)"
  by (simp add: store_inv_def applyRemoteDelete_def distinct_delete)

lemma store_inv_remotePublish [simp]: "store_inv s \<Longrightarrow> store_inv (applyRemotePublish s topic v)"
  by (simp add: store_inv_def applyRemotePublish_def)

lemma distinct_restore_entries:
  "distinct (map fst d) \<Longrightarrow> distinct (map fst (restore_entries snap now d))"
  unfolding restore_entries_def by (induction snap arbitrary: d) (auto simp: distinct_update)

lemma store_inv_loadSnapshot [simp]: "store_inv s \<Longrightarrow> store_inv (snd (loadSnapshot dec file s now))"
  by (auto simp: store_inv_def loadSnapshot_def distinct_restore_entries split: option.splits)

lemma store_inv_New: "store_inv (Store_New dec file rand ok opts now)"
proof -
  have "store_inv \<lparr>s_opts = op, s_nodeID = i, s_clock = NewVectorClock i, s_data = [],
      s_pubsub = newPubSub, s_transport = NoTransport, s_out = [], s_done = False\<rparr>" for op i
    using vc_inv_New by (simp add: store_inv_def NewVectorClock_def)
  then have "store_inv (snd (loadSnapshot dec file \<lparr>s_opts = op, s_nodeID = i, s_clock = NewVectorClock i, s_data = [],
      s_pubsub = newPubSub, s_transport = NoTransport, s_out = [], s_done = False\<rparr> now))"
    "store_inv \<lparr>s_opts = op, s_nodeID = i, s_clock = NewVectorClock i, s_data = [],
      s_pubsub = newPubSub, s_transport = NoTransport, s_out = [], s_done = False\<rparr>" for op i
    by simp_all
  then show ?thesis
    unfolding Store_New_def Let_def store_inv_def by auto
qed

interpretation mem_kv: kv_store "\<lambda>s t k. map_option fst (live_view s t k)" Store_Set Store_Delete Store_Keys store_inv
  by unfold_locales (auto simp: view_Set view_Delete set_Store_Keys distinct_Store_Keys)

end
