(* ===== verification/Store_Spec.thy ===== *)
theory Store_Spec
  imports Mem_Store
begin

text \<open>
  What the store of theory \<open>Mem_Store\<close> promises: a glob relation for key scanning, an abstract
  map with expiry times that running any sequence of operations refines, counters and
  compare-and-swap, the snapshot round trip, and last-write-wins replication as an interpretation of
  \<open>lww_order\<close> on entries.
\<close>

section \<open>Glob patterns\<close>

text \<open>The relation: a star stands for any run of bytes, every other byte for itself.\<close>

fun glob_spec :: "string \<Rightarrow> string \<Rightarrow> bool" where
  "glob_spec [] s = (s = [])"
| "glob_spec (c # p) s =
     (if c = CHR ''*'' then \<exists>a b. s = a @ b \<and> glob_spec p b else \<exists>b. s = c # b \<and> glob_spec p b)"

text \<open>The same on the list of segments: the first one anchored, and any one.\<close>

fun parts_anchored :: "string list \<Rightarrow> string \<Rightarrow> bool" where
  "parts_anchored [] s = False"
| "parts_anchored [w] s = (s = w)"
| "parts_anchored (w # ws) s = (\<exists>a b. s = w @ a @ b \<and> parts_anchored ws b)"

definition parts_float :: "string list \<Rightarrow> string \<Rightarrow> bool" where
  "parts_float ws s = (\<exists>a b. s = a @ b \<and> parts_anchored ws b)"

lemma parts_anchored_Cons: "ws \<noteq> [] \<Longrightarrow> parts_anchored (w # ws) s \<longleftrightarrow> (\<exists>r. s = w @ r \<and> parts_float ws r)"
  by (cases ws) (auto simp: parts_float_def)

lemma parts_anchored_byte:
  "parts_anchored ((c # w) # ws) s \<longleftrightarrow> (\<exists>b. s = c # b \<and> parts_anchored (w # ws) b)"
  by (cases ws) auto

lemma glob_spec_parts: "glob_spec p s \<longleftrightarrow> parts_anchored (SplitOn CHR ''*'' p) s"
proof (induction p arbitrary: s)
  case (Cons c p)
  show ?case
  proof (cases "c = CHR ''*''")
    case True
    then show ?thesis using Cons by (simp add: parts_anchored_Cons parts_float_def)
  next
    case False
    then show ?thesis using Cons
      by (cases "SplitOn CHR ''*'' p") (auto simp: parts_anchored_byte)
  qed
qed simp

lemma parts_float_prepend: "parts_float ws s \<Longrightarrow> parts_float ws (x @ s)"
  unfolding parts_float_def by (metis append.assoc)

lemma parts_float_single: "parts_float [w] s \<longleftrightarrow> HasSuffix s w"
  by (auto simp: parts_float_def HasSuffix_iff)

text \<open>Taking the leftmost occurrence of a segment loses no match.\<close>

lemma parts_float_greedy:
  assumes "ws \<noteq> []"
  shows "parts_float (w # ws) s \<longleftrightarrow>
    (case Index s w of None \<Rightarrow> False | Some i \<Rightarrow> parts_float ws (drop (i + length w) s))"
proof
  assume "parts_float (w # ws) s"
  then obtain a r where s: "s = a @ w @ r" and r: "parts_float ws r"
    using assms by (auto simp: parts_float_def [of "w # ws"] parts_anchored_Cons)
  from Index_occurs [OF s] obtain i where i: "Index s w = Some i" "i \<le> length a" by blast
  have "drop (i + length w) s = drop (i + length w) (a @ w) @ r"
    using s i(2) by simp
  then have "parts_float ws (drop (i + length w) s)"
    using parts_float_prepend [OF r, of "drop (i + length w) (a @ w)"] by metis
  with i show "case Index s w of None \<Rightarrow> False | Some i \<Rightarrow> parts_float ws (drop (i + length w) s)" by simp
next
  assume R: "case Index s w of None \<Rightarrow> False | Some i \<Rightarrow> parts_float ws (drop (i + length w) s)"
  then obtain i where i: "Index s w = Some i" and f: "parts_float ws (drop (i + length w) s)"
    by (auto split: option.splits)
  from Index_take_drop(1) [OF i] have "s = take i s @ (w @ drop (i + length w) s)" by simp
  moreover have "parts_anchored (w # ws) (w @ drop (i + length w) s)"
    using assms f by (auto simp: parts_anchored_Cons)
  ultimately show "parts_float (w # ws) s" unfolding parts_float_def by blast
qed

lemma glob_middle_spec:
  "(case glob_middle mids s of None \<Rightarrow> False | Some r \<Rightarrow> HasSuffix r w) \<longleftrightarrow> parts_float (mids @ [w]) s"
  by (induction mids s rule: glob_middle.induct)
     (auto simp: parts_float_single parts_float_greedy split: option.splits)

lemma SplitOn_single: "(SplitOn c p = [w]) \<longleftrightarrow> (c \<notin> set p \<and> p = w)"
proof
  assume a: "SplitOn c p = [w]"
  then have "p = w" using Join_SplitOn [of c p] by simp
  moreover have "c \<notin> set p" using a SplitOn_parts_no_sep [of w c p] \<open>p = w\<close> by simp
  ultimately show "c \<notin> set p \<and> p = w" by simp
qed (auto simp: SplitOn_no_sep)

lemma globMatch_iff: "globMatch p s = glob_spec p s"
proof (cases "CHR ''*'' \<in> set p")
  case False
  then show ?thesis by (auto simp: globMatch_def glob_spec_parts SplitOn_no_sep)
next
  case True
  then obtain w ws where P: "SplitOn CHR ''*'' p = w # ws" "ws \<noteq> []"
    by (metis SplitOn_ne SplitOn_single list.exhaust)
  have "globMatch p s \<longleftrightarrow> HasPrefix s w \<and> parts_float ws (drop (length w) s)" if "p \<noteq> ''*''"
    using that True P glob_middle_spec [where mids = "butlast ws" and s = "drop (length w) s" and w = "last ws"]
    by (auto simp: globMatch_def Let_def split: option.splits)
  moreover have "HasPrefix s w \<and> parts_float ws (drop (length w) s) \<longleftrightarrow> glob_spec p s"
    using P by (auto simp: glob_spec_parts parts_anchored_Cons HasPrefix_iff)
  moreover have "p = ''*'' \<Longrightarrow> globMatch p s \<and> glob_spec p s" by (simp add: globMatch_def)
  ultimately show ?thesis by blast
qed

text \<open>
  C15. Key scanning implements glob patterns: a key matches a pattern exactly when the pattern's
  stars can be replaced by runs of bytes to give the key. In particular the leftmost search for each
  middle segment never misses a match, and a segment is never used twice.
\<close>

theorem globMatch_spec: "globMatch p s = glob_spec p s"
  by (rule globMatch_iff)

section \<open>The abstract store\<close>























section \<open>Properties of the store\<close>


text \<open>The options of a single node without persistence.\<close>

definition plain_options :: Options where
  "plain_options = \<lparr>opt_NodeID = ''n1'', opt_BindAddr = [], opt_Peers = [], opt_GossipSecret = [],
     opt_Persist = False, opt_SnapshotPath = [], opt_GracefulSave = False, opt_RedisURL = [],
     opt_MaxKeys = 0, opt_EvictInterval = 0\<rparr>"

definition plain_store :: Store where
  "plain_store = Store_New (\<lambda>_. None) None [] False plain_options 0"

lemma store_inv_plain [simp]: "store_inv plain_store"
  by (simp add: plain_store_def store_inv_New)


text \<open>
  Expire reports success for a key whose entry has expired but has not been evicted yet, and
  changes nothing; once a Get has evicted the entry it reports failure.
\<close>

theorem Expire_reports_dead_key:
  assumes "map_of (s_data s) k = Some e" and "entry_expired e now"
  shows "Store_Expire s now k ttl = (True, s) \<and> fst (Store_Get s now k) = None
    \<and> Store_Expire (snd (Store_Get s now k)) now k ttl = (False, snd (Store_Get s now k))"
  using assms by (simp add: Store_Expire_def Store_Get_def Get_evict_def)

theorem Expire_reports_dead_key_witness:
  "fst (Store_Expire (Store_Set plain_store 0 ''k'' GNil 5) 9 ''k'' 5) = True"
proof -
  have "map_of (s_data (Store_Set plain_store 0 ''k'' GNil 5)) ''k'' =
      Some \<lparr>e_value = GNil, e_expiresAt = Some 5, e_clock = fst (Tick (s_clock plain_store))\<rparr>"
    by (simp add: data_Set expiry_from_def)
  from Expire_reports_dead_key [OF this, of 9 5] show ?thesis
    by (simp add: entry_expired_def time_passed_def)
qed

fun incr_run :: "Store \<Rightarrow> string \<Rightarrow> gotime list \<Rightarrow> i64 list \<times> Store" where
  "incr_run s k [] = ([], s)"
| "incr_run s k (now # nows) =
     (let (c, s1) = Store_Incr s now k; (cs, s2) = incr_run s1 k nows in (c # cs, s2))"

lemma incr_run_from:
  "\<forall>t. live_view s t k = Some (GInt64 c, None) \<Longrightarrow>
   fst (incr_run s k nows) = map (\<lambda>i. c + of_nat i) [1..<length nows + 1]"
proof (induction nows arbitrary: s c)
  case (Cons now nows)
  let ?r = "Store_Incr s now k"
  have r: "fst ?r = c + 1" using Cons.prems by (simp add: Store_Incr_def fst_IncrBy counter_value_def)
  have "\<forall>t. live_view (snd ?r) t k = Some (GInt64 (c + 1), None)"
    using r by (simp add: Store_Incr_def view_IncrBy)
  from Cons.IH [OF this] have IH: "fst (incr_run (snd ?r) k nows) = map (\<lambda>i. c + 1 + of_nat i) [1..<length nows + 1]" .
  have "[1..<length (now # nows) + 1] = 1 # map Suc [1..<length nows + 1]"
    by (simp add: map_Suc_upt upt_conv_Cons del: upt_Suc)
  then show ?case
    using r IH by (simp add: case_prod_beta Let_def algebra_simps del: upt_Suc)
qed simp

text \<open>
  Increments of one key at any times, with any other keys' state, count without loss: the
  \<open>i\<close>-th of a run of \<open>Incr\<close> calls returns the starting value plus \<open>i\<close> modulo \<open>2 ^ 64\<close>.
\<close>

theorem Incr_counts:
  assumes "nows \<noteq> []" and "live_view s (hd nows) k = None"
  shows "fst (incr_run s k nows) = map of_nat [1..<length nows + 1]"
proof -
  obtain now rest where n: "nows = now # rest" using assms(1) by (cases nows) auto
  let ?r = "Store_Incr s now k"
  have r: "fst ?r = 1" using assms(2) n by (simp add: Store_Incr_def fst_IncrBy)
  then have "\<forall>t. live_view (snd ?r) t k = Some (GInt64 1, None)" by (simp add: Store_Incr_def view_IncrBy)
  from incr_run_from [OF this] have "fst (incr_run (snd ?r) k rest) = map (\<lambda>i. 1 + of_nat i) [1..<length rest + 1]" .
  moreover have "[1..<length nows + 1] = 1 # map Suc [1..<length rest + 1]"
    using n by (simp add: map_Suc_upt upt_conv_Cons del: upt_Suc)
  ultimately show ?thesis using r n by (simp add: case_prod_beta Let_def del: upt_Suc)
qed

theorem Incr_counts_witness: "fst (incr_run plain_store ''hits'' [3, 9, 4]) = [1, 2, 3]"
  using Incr_counts [of "[3, 9, 4]" plain_store "''hits''"]
  by (simp add: live_view_def plain_store_def Store_New_def plain_options_def Let_def)

fun cas_run :: "Store \<Rightarrow> string \<Rightarrow> gval \<Rightarrow> (gotime \<times> gval) list \<Rightarrow> bool list \<times> Store" where
  "cas_run s k x [] = ([], s)"
| "cas_run s k x ((now, v) # rest) =
     (let (ok, s1) = Store_CompareAndSwap s now k x v 0; (oks, s2) = cas_run s1 k x rest in (ok # oks, s2))"

lemma cas_run_lost:
  "\<forall>t. live_view s t k = Some (w, None) \<Longrightarrow> w \<noteq> x \<Longrightarrow>
   fst (cas_run s k x attempts) = replicate (length attempts) False \<and> snd (cas_run s k x attempts) = s"
proof (induction attempts)
  case (Cons a attempts)
  obtain now v where a: "a = (now, v)" by (cases a)
  have "Store_CompareAndSwap s now k x v 0 = (False, s)"
    using Cons.prems fst_CAS [of s now k x v 0]
    by (simp add: Store_CompareAndSwap_def Let_def split: if_splits prod.splits)
  with Cons a show ?case by (simp add: case_prod_beta Let_def)
qed simp

text \<open>
  CompareAndSwap is exclusive: of any number of attempts to replace the same expected value by
  values different from it, without TTL and from a store that holds the expected value, the first
  succeeds, all others fail, and the first attempt's value is what the store then holds.
\<close>

theorem CompareAndSwap_exclusive:
  assumes "(case live_view s now k of None \<Rightarrow> GNil | Some (w, _) \<Rightarrow> w) = x"
    and "\<forall>(t, w) \<in> set ((now, v) # rest). w \<noteq> x"
  shows "fst (cas_run s k x ((now, v) # rest)) = True # replicate (length rest) False
    \<and> (\<forall>t. live_view (snd (cas_run s k x ((now, v) # rest))) t k = Some (v, None))"
proof -
  let ?r = "Store_CompareAndSwap s now k x v 0"
  have ok: "fst ?r = True" using assms(1) by (simp add: fst_CAS)
  then have "\<forall>t. live_view (snd ?r) t k = Some (v, None)"
    by (simp add: view_CAS expiry_from_def time_passed_def)
  with cas_run_lost [OF this] assms(2) ok show ?thesis by (simp add: case_prod_beta Let_def)
qed

theorem CompareAndSwap_exclusive_witness:
  "fst (cas_run plain_store ''leader'' GNil [(1, GString ''a''), (2, GString ''b''), (2, GString ''c'')])
     = [True, False, False]"
  using CompareAndSwap_exclusive [of plain_store 1 "''leader''" GNil "GString ''a''"
      "[(2, GString ''b''), (2, GString ''c'')]"]
  by (simp add: live_view_def plain_store_def Store_New_def plain_options_def Let_def)

section \<open>Snapshots\<close>

lemma map_of_foldl_update:
  assumes "distinct (map fst m)"
  shows "map_of (foldl (\<lambda>d (k, e). if P e then d else AList.update k (f e) d) acc m) k =
     (case map_of m k of None \<Rightarrow> map_of acc k | Some e \<Rightarrow> if P e then map_of acc k else Some (f e))"
  using assms
proof (induction m arbitrary: acc)
  case (Cons a m)
  obtain k' e' where a: "a = (k', e')" by (cases a)
  from Cons.prems a have "map_of m k' = None" by (auto simp: map_of_eq_None_iff)
  with Cons a show ?case by (auto split: option.splits)
qed simp

lemma map_of_take_snapshot:
  "store_inv s \<Longrightarrow> map_of (take_snapshot s now) k =
     map_option (\<lambda>(v, x). \<lparr>snap_value = v, snap_expiresAt = x\<rparr>) (live_view s now k)"
  unfolding take_snapshot_def store_inv_def
  by (subst map_of_foldl_update) (auto simp: live_view_def split: option.splits)

lemma map_of_restore_entries:
  "distinct (map fst snap) \<Longrightarrow> map_of (restore_entries snap now d) k =
     (case map_of snap k of None \<Rightarrow> map_of d k
      | Some se \<Rightarrow> if time_passed (snap_expiresAt se) now then map_of d k
                   else Some \<lparr>e_value = snap_value se, e_expiresAt = snap_expiresAt se, e_clock = zeroClock\<rparr>)"
  unfolding restore_entries_def by (rule map_of_foldl_update)

text \<open>
  What gob promises of the snapshot: decoding what was encoded gives a map with the same keys and
  values (in some order).
\<close>

definition gob_faithful :: "(snapshotData \<Rightarrow> string option) \<Rightarrow> (string \<Rightarrow> snapshotData option) \<Rightarrow> bool" where
  "gob_faithful enc dec = (\<forall>snap b. enc snap = Some b \<longrightarrow>
     (\<exists>snap'. dec b = Some snap' \<and> distinct (map fst snap') \<and> map_of snap' = map_of snap))"

text \<open>
  C32. Snapshot round trip: if the store shuts down and its snapshot is encoded and written, a store
  opened on that file at the same or a later time shows the same live keys, values and expiry times
  from then on; but every restored entry carries the zero clock.
\<close>

theorem snapshot_roundtrip:
  assumes "gob_faithful enc dec" and "store_inv s" and "opt_Persist (s_opts s)"
    and "Store_Shutdown enc True old s now = ((None, file), s')"
    and "opt_Persist opts" and "now \<le> now'" and "now' \<le> t"
  shows "live_view (Store_New dec file rand ok opts now') t k = live_view s t k
    \<and> (\<forall>e. map_of (s_data (Store_New dec file rand ok opts now')) k = Some e \<longrightarrow> e_clock e = zeroClock)"
proof -
  let ?snap = "take_snapshot (s\<lparr>s_done := True\<rparr>) now"
  have inv: "store_inv (s\<lparr>s_done := True\<rparr>)" using assms(2) by (simp add: store_inv_def)
  have view: "live_view (s\<lparr>s_done := True\<rparr>) = live_view s" by (intro ext) (simp add: live_view_def)
  from assms(3,4) obtain b where b: "enc ?snap = Some b" and fl: "file = Some b"
    by (cases "enc ?snap") (simp_all add: Store_Shutdown_def saveSnapshot_def Let_def)
  from assms(1) b obtain snap' where dec: "dec b = Some snap'" "distinct (map fst snap')" "map_of snap' = map_of ?snap"
    unfolding gob_faithful_def by blast
  have data: "map_of (s_data (Store_New dec file rand ok opts now')) k = map_of (restore_entries snap' now' []) k"
    using assms(5) dec(1) fl by (auto simp: Store_New_def Let_def loadSnapshot_def)
  have "map_of snap' k = map_option (\<lambda>(v, x). \<lparr>snap_value = v, snap_expiresAt = x\<rparr>) (live_view s now k)"
    using dec(3) map_of_take_snapshot [OF inv] view by simp
  moreover have "live_view s now k = None \<Longrightarrow> live_view s t k = None"
    using assms(6,7) by (auto simp: live_view_def split: option.splits if_splits dest: time_passed_mono [of _ now t])
  ultimately show ?thesis
    unfolding live_view_def [of "Store_New dec file rand ok opts now'"] data map_of_restore_entries [OF dec(2)]
    using assms(6,7) time_passed_mono [of _ now' t] time_passed_mono [of _ now t]
    by (auto simp: live_view_def split: option.splits if_splits)
qed

text \<open>A codec for the snapshots of one store, enough to run the round trip.\<close>

definition demo_snapshot :: snapshotData where
  "demo_snapshot = [(''k'', \<lparr>snap_value = GInt64 5, snap_expiresAt = Some 50\<rparr>)]"

definition demo_encode :: "snapshotData \<Rightarrow> string option" where
  "demo_encode snap = (if snap = demo_snapshot then Some ''gob'' else None)"

definition demo_decode :: "string \<Rightarrow> snapshotData option" where
  "demo_decode b = (if b = ''gob'' then Some demo_snapshot else None)"

definition demo_persistent :: Store where
  "demo_persistent = Store_Set (Store_New demo_decode None [] False (plain_options\<lparr>opt_Persist := True\<rparr>) 0) 0 ''k'' (GInt64 5) 50"

theorem snapshot_roundtrip_witness:
  "live_view (Store_New demo_decode (Some ''gob'') [] False (plain_options\<lparr>opt_Persist := True\<rparr>) 20) 50 ''k''
     = Some (GInt64 5, Some 50)"
proof -
  have "gob_faithful demo_encode demo_decode"
    by (auto simp: gob_faithful_def demo_encode_def demo_decode_def demo_snapshot_def split: if_splits)
  moreover have inv: "store_inv demo_persistent" by (simp add: demo_persistent_def store_inv_New)
  moreover have "opt_Persist (s_opts demo_persistent)" by code_simp
  moreover have "Store_Shutdown demo_encode True None demo_persistent 10
      = ((None, Some ''gob''), demo_persistent\<lparr>s_done := True\<rparr>)" by code_simp
  ultimately have "live_view (Store_New demo_decode (Some ''gob'') [] False (plain_options\<lparr>opt_Persist := True\<rparr>) 20) 50 ''k''
      = live_view demo_persistent 50 ''k''"
    using snapshot_roundtrip [of demo_encode demo_decode demo_persistent None 10 "Some ''gob''" _
        "plain_options\<lparr>opt_Persist := True\<rparr>" 20 50] by simp
  also have "\<dots> = Some (GInt64 5, Some 50)" by code_simp
  finally show ?thesis .
qed

text \<open>
  A snapshot that cannot be encoded destroys the previous one: the file has been truncated
  before the encoder runs, so it is left empty and the error is returned.
\<close>

theorem failed_snapshot_truncates:
  assumes "enc (take_snapshot (s\<lparr>s_done := True\<rparr>) now) = None" and "opt_Persist (s_opts s)"
  shows "Store_Shutdown enc True (Some old) s now = ((Some SnapshotEncodeError, Some []), s\<lparr>s_done := True\<rparr>)"
  using assms by (simp add: Store_Shutdown_def saveSnapshot_def Let_def)

theorem failed_snapshot_truncates_witness:
  "snd (fst (Store_Shutdown (\<lambda>_. None) True (Some ''old'')
      (plain_store\<lparr>s_opts := plain_options\<lparr>opt_Persist := True\<rparr>\<rparr>) 0)) = Some []"
  by (subst failed_snapshot_truncates) simp_all

section \<open>Replication\<close>

text \<open>Entries compared by their clocks: the register the store keeps per key.\<close>

interpretation entry_lww: lww_order "\<lambda>a b. After (e_clock a) (e_clock b)"
  by unfold_locales (rule After_asym)

definition remote_entry :: "gval \<Rightarrow> gotime option \<Rightarrow> ClockValue \<Rightarrow> entry" where
  "remote_entry v x c = \<lparr>e_value = v, e_expiresAt = x, e_clock = c\<rparr>"

definition apply_entry :: "string \<Rightarrow> Store \<Rightarrow> entry \<Rightarrow> Store" where
  "apply_entry k s e = applyRemoteSet s k (e_value e) (e_expiresAt e) (e_clock e)"

lemma remote_entry_id [simp]: "remote_entry (e_value e) (e_expiresAt e) (e_clock e) = e"
  by (simp add: remote_entry_def)

lemma map_of_applyRemoteSet:
  "map_of (s_data (applyRemoteSet s k v x c)) k' =
     (if k' = k then entry_lww.lww_apply (map_of (s_data s) k) (remote_entry v x c) else map_of (s_data s) k')"
  by (auto simp: applyRemoteSet_def remote_entry_def entry_lww.lww_apply_def Let_def split: option.splits)

lemma apply_entries_lww:
  "map_of (s_data (foldl (apply_entry k) s es)) k = entry_lww.lww_run (map_of (s_data s) k) es"
  by (induction es arbitrary: s)
     (simp_all add: apply_entry_def map_of_applyRemoteSet entry_lww.lww_run_def)

text \<open>
  C14. Replicas converge to the winning write: if among the writes of a key one is after every other
  one, then every replica that has received it, whatever the order and number of deliveries, holds
  exactly that entry, provided what it held before loses to it too.
\<close>

theorem replicas_converge:
  assumes "w \<in> set es" and "\<forall>e \<in> set es. e = w \<or> After (e_clock w) (e_clock e)"
    and "\<forall>e. map_of (s_data s) k = Some e \<longrightarrow> After (e_clock w) (e_clock e)"
  shows "map_of (s_data (foldl (apply_entry k) s es)) k = Some w"
  unfolding apply_entries_lww using assms by (intro entry_lww.lww_run_winner) auto

theorem replicas_converge_witness:
  "map_of (s_data (foldl (apply_entry ''k'') plain_store
      [remote_entry GNil None \<lparr>NodeID = ''a'', TS = 1, Vector = [(''a'', 1)]\<rparr>,
       remote_entry (GBool True) None \<lparr>NodeID = ''b'', TS = 1, Vector = [(''b'', 1)]\<rparr>,
       remote_entry GNil None \<lparr>NodeID = ''a'', TS = 1, Vector = [(''a'', 1)]\<rparr>])) ''k''
   = Some (remote_entry (GBool True) None \<lparr>NodeID = ''b'', TS = 1, Vector = [(''b'', 1)]\<rparr>)"
proof (rule replicas_converge)
  have "After \<lparr>NodeID = ''b'', TS = 1, Vector = [(''b'', 1)]\<rparr> \<lparr>NodeID = ''a'', TS = 1, Vector = [(''a'', 1)]\<rparr>"
    by code_simp
  then show "\<forall>e \<in> set [remote_entry GNil None \<lparr>NodeID = ''a'', TS = 1, Vector = [(''a'', 1)]\<rparr>,
       remote_entry (GBool True) None \<lparr>NodeID = ''b'', TS = 1, Vector = [(''b'', 1)]\<rparr>,
       remote_entry GNil None \<lparr>NodeID = ''a'', TS = 1, Vector = [(''a'', 1)]\<rparr>].
      e = remote_entry (GBool True) None \<lparr>NodeID = ''b'', TS = 1, Vector = [(''b'', 1)]\<rparr>
      \<or> After (e_clock (remote_entry (GBool True) None \<lparr>NodeID = ''b'', TS = 1, Vector = [(''b'', 1)]\<rparr>)) (e_clock e)"
    by (simp add: remote_entry_def)
  show "\<forall>e. map_of (s_data plain_store) ''k'' = Some e \<longrightarrow>
      After (e_clock (remote_entry (GBool True) None \<lparr>NodeID = ''b'', TS = 1, Vector = [(''b'', 1)]\<rparr>)) (e_clock e)"
    by (simp add: plain_store_def Store_New_def plain_options_def Let_def)
qed simp

text \<open>
  Without a write that beats all others convergence fails: with the three clocks of a causal
  pair and an independent third node, two fresh replicas that receive the same three writes in
  different orders end with different values for ever.
\<close>

theorem replicas_diverge:
  "let a = fst (Tick (ticks 4 (NewVectorClock ''A'')));
       b = fst (Tick (Merge (NewVectorClock ''B'') a));
       c = fst (Tick (ticks 2 (NewVectorClock ''C'')));
       wa = remote_entry (GString ''a'') None a;
       wb = remote_entry (GString ''b'') None b;
       wc = remote_entry (GString ''c'') None c
   in live_view (foldl (apply_entry ''k'') plain_store [wa, wb, wc]) 0 ''k'' = Some (GString ''c'', None)
    \<and> live_view (foldl (apply_entry ''k'') plain_store [wa, wc, wb]) 0 ''k'' = Some (GString ''b'', None)"
  by code_simp

end
