(* ===== verification/Gossip.thy ===== *)
theory Gossip
  imports Store_Spec
begin

text \<open>
  Model of the two transports of the store: \<open>framework/memory/gossip.go\<close> (length-framed messages on
  authenticated peer connections) and \<open>framework/memory/redis.go\<close> (JSON deltas on a Redis channel).
  A connection is the byte string written to it and not yet read. The gob codec of a message and the
  JSON codec of a delta and of a value are parameters, constrained in the theorems only by
  faithfulness: what was encoded decodes to the same message.
\<close>

section \<open>Byte order\<close>

definition byteAt :: "nat \<Rightarrow> nat \<Rightarrow> char" where
  "byteAt n i = char_of (n div 256 ^ i)"

definition putUint32 :: "u32 \<Rightarrow> string" where
  "putUint32 w = [byteAt (unat w) 3, byteAt (unat w) 2, byteAt (unat w) 1, byteAt (unat w) 0]"

definition putUint16 :: "u16 \<Rightarrow> string" where
  "putUint16 w = [byteAt (unat w) 1, byteAt (unat w) 0]"

definition getUint :: "string \<Rightarrow> nat" where
  "getUint bs = foldl (\<lambda>n b. n * 256 + of_char b) 0 bs"

section \<open>Frames\<close>

datatype gossip_error = UnexpectedEOF | FrameTooLarge nat nat | EncodeError | MessageTooLarge nat | SecretMismatch

definition maxGossipMsgBytes :: nat where
  "maxGossipMsgBytes = 8 * 2 ^ 20"

text \<open>\<open>io.ReadFull\<close>: exactly \<open>n\<close> bytes, or an error at the end of the stream.\<close>

definition readFull :: "nat \<Rightarrow> string \<Rightarrow> gossip_error + (string \<times> string)" where
  "readFull n r = (if length r < n then Inl UnexpectedEOF else Inr (take n r, drop n r))"

definition writeMsgFrame :: "string \<Rightarrow> string \<Rightarrow> string" where
  "writeMsgFrame w b = w @ putUint32 (of_nat (length b)) @ b"

definition readMsgFrame :: "string \<Rightarrow> gossip_error + (string \<times> string)" where
  "readMsgFrame r =
     (case readFull 4 r of
        Inl e \<Rightarrow> Inl e
      | Inr (hdr, r1) \<Rightarrow>
          (let n = getUint hdr
           in if n > maxGossipMsgBytes then Inl (FrameTooLarge n maxGossipMsgBytes)
              else readFull n r1))"

definition writeFrame :: "string \<Rightarrow> string \<Rightarrow> string" where
  "writeFrame w b = w @ putUint16 (of_nat (length b)) @ b"

definition readFrame :: "string \<Rightarrow> nat \<Rightarrow> gossip_error + (string \<times> string)" where
  "readFrame r mx =
     (case readFull 2 r of
        Inl e \<Rightarrow> Inl e
      | Inr (hdr, r1) \<Rightarrow>
          (let n = getUint hdr in if n > mx then Inl (FrameTooLarge n mx) else readFull n r1))"

section \<open>The gossip transport\<close>

record gossipMsg =
  gm_type :: string
  gm_key :: string
  gm_value :: gval
  gm_expiresAt :: "gotime option"
  gm_clock :: ClockValue
  gm_topic :: string

record gossipTransport =
  g_bindAddr :: string
  g_peers :: "string list"
  g_secret :: string
  g_conns :: "(string, string) gomap" \<comment> \<open>peer address to the bytes written to its connection\<close>
  g_done :: bool

type_synonym gob_encoder = "gossipMsg \<Rightarrow> string option"
type_synonym gob_decoder = "string \<Rightarrow> gossipMsg option"

definition newGossipTransport :: "string \<Rightarrow> string list \<Rightarrow> string \<Rightarrow> gossipTransport" where
  "newGossipTransport bindAddr peers secret =
     \<lparr>g_bindAddr = bindAddr, g_peers = peers, g_secret = secret, g_conns = [], g_done = False\<rparr>"

definition peerConn_send :: "gob_encoder \<Rightarrow> string \<Rightarrow> gossipMsg \<Rightarrow> gossip_error + string" where
  "peerConn_send enc conn msg =
     (case enc msg of
        None \<Rightarrow> Inl EncodeError
      | Some buf \<Rightarrow> if length buf > maxGossipMsgBytes then Inl (MessageTooLarge (length buf))
                    else Inr (writeMsgFrame conn buf))"

text \<open>
  \<open>handshake\<close>: the bytes this side writes, and the rejection or what is left of the peer's bytes.
\<close>

definition gossip_handshake :: "string \<Rightarrow> string \<Rightarrow> string \<times> (gossip_error + string)" where
  "gossip_handshake secret incoming =
     (if secret = [] then ([], Inr incoming)
      else (writeFrame [] secret,
            case readFrame incoming (length secret + 1) of
              Inl e \<Rightarrow> Inl e
            | Inr (peer, rest) \<Rightarrow> if peer \<noteq> secret then Inl SecretMismatch else Inr rest))"

definition gossip_applyMsg :: "Store \<Rightarrow> gossipMsg \<Rightarrow> Store" where
  "gossip_applyMsg s msg =
     (if gm_type msg = ''set'' then applyRemoteSet s (gm_key msg) (gm_value msg) (gm_expiresAt msg) (gm_clock msg)
      else if gm_type msg = ''delete'' then applyRemoteDelete s (gm_key msg)
      else if gm_type msg = ''publish'' then applyRemotePublish s (gm_topic msg) (gm_value msg)
      else s)"

lemma readMsgFrame_shorter: "readMsgFrame r = Inr (f, rest) \<Longrightarrow> length rest < length r"
  by (auto simp: readMsgFrame_def readFull_def Let_def split: if_splits)

function readLoop :: "gob_decoder \<Rightarrow> string \<Rightarrow> Store \<Rightarrow> Store" where
  "readLoop dec r s =
     (case readMsgFrame r of
        Inl _ \<Rightarrow> s
      | Inr (frame, rest) \<Rightarrow> (case dec frame of None \<Rightarrow> s | Some msg \<Rightarrow> readLoop dec rest (gossip_applyMsg s msg)))"
  by pat_completeness auto
termination
  by (relation "measure (\<lambda>(dec, r, s). length r)") (auto dest: readMsgFrame_shorter)

declare readLoop.simps [simp del]

definition handleInbound :: "gob_decoder \<Rightarrow> gossipTransport \<Rightarrow> string \<Rightarrow> Store \<Rightarrow> Store" where
  "handleInbound dec g incoming s =
     (case snd (gossip_handshake (g_secret g) incoming) of
        Inl _ \<Rightarrow> s
      | Inr rest \<Rightarrow> readLoop dec rest s)"

text \<open>\<open>maintainConn\<close> up to \<open>readLoop\<close>: authenticate an outbound connection and register it.\<close>

definition maintainConn_register :: "gossipTransport \<Rightarrow> string \<Rightarrow> string \<Rightarrow> gossipTransport" where
  "maintainConn_register g addr incoming =
     (case gossip_handshake (g_secret g) incoming of
        (_, Inl _) \<Rightarrow> g
      | (hello, Inr _) \<Rightarrow> g\<lparr>g_conns := AList.update addr hello (g_conns g)\<rparr>)"

definition maintainConn_unregister :: "gossipTransport \<Rightarrow> string \<Rightarrow> gossipTransport" where
  "maintainConn_unregister g addr = g\<lparr>g_conns := AList.delete addr (g_conns g)\<rparr>"

definition gossip_broadcast :: "gob_encoder \<Rightarrow> gossipTransport \<Rightarrow> gossipMsg \<Rightarrow> gossipTransport" where
  "gossip_broadcast enc g msg =
     g\<lparr>g_conns := map (\<lambda>(a, c). (a, case peerConn_send enc c msg of Inl _ \<Rightarrow> c | Inr c' \<Rightarrow> c')) (g_conns g)\<rparr>"

definition set_msg :: "string \<Rightarrow> entry \<Rightarrow> gossipMsg" where
  "set_msg key e = \<lparr>gm_type = ''set'', gm_key = key, gm_value = e_value e, gm_expiresAt = e_expiresAt e,
     gm_clock = e_clock e, gm_topic = []\<rparr>"

definition gossip_broadcastSet :: "gob_encoder \<Rightarrow> gossipTransport \<Rightarrow> string \<Rightarrow> entry \<Rightarrow> gossipTransport" where
  "gossip_broadcastSet enc g key e = gossip_broadcast enc g (set_msg key e)"

definition gossip_broadcastDelete :: "gob_encoder \<Rightarrow> gossipTransport \<Rightarrow> string \<Rightarrow> gossipTransport" where
  "gossip_broadcastDelete enc g key =
     gossip_broadcast enc g \<lparr>gm_type = ''delete'', gm_key = key, gm_value = GNil, gm_expiresAt = None,
       gm_clock = zeroClock, gm_topic = []\<rparr>"

definition gossip_broadcastPublish :: "gob_encoder \<Rightarrow> gossipTransport \<Rightarrow> string \<Rightarrow> gval \<Rightarrow> gossipTransport" where
  "gossip_broadcastPublish enc g topic payload =
     gossip_broadcast enc g \<lparr>gm_type = ''publish'', gm_key = [], gm_value = payload, gm_expiresAt = None,
       gm_clock = zeroClock, gm_topic = topic\<rparr>"

text \<open>The calls a store made on its transport, executed in order.\<close>

fun gossip_sync :: "gob_encoder \<Rightarrow> gossipTransport \<Rightarrow> sync_call \<Rightarrow> gossipTransport" where
  "gossip_sync enc g (SyncSet k e) = gossip_broadcastSet enc g k e"
| "gossip_sync enc g (SyncDelete k) = gossip_broadcastDelete enc g k"
| "gossip_sync enc g (SyncPublish t v) = gossip_broadcastPublish enc g t v"

definition gossip_stop :: "gossipTransport \<Rightarrow> go_panic + gossipTransport" where
  "gossip_stop g = (if g_done g then Inl CloseOfClosedChannel else Inr (g\<lparr>g_done := True\<rparr>))"

section \<open>The Redis adapter\<close>

record redisDelta =
  rd_type :: string
  rd_key :: string
  rd_value :: "string option" \<comment> \<open>raw JSON; \<^const>\<open>None\<close> when omitted\<close>
  rd_expiresAt :: int
  rd_topic :: string

type_synonym json_marshal = "gval \<Rightarrow> string option"
type_synonym json_unmarshal = "string \<Rightarrow> gval option"

definition redis_value :: "json_unmarshal \<Rightarrow> redisDelta \<Rightarrow> gval option" where
  "redis_value unm d = (case rd_value d of None \<Rightarrow> None | Some raw \<Rightarrow> unm raw)"

definition redis_applyDelta :: "json_unmarshal \<Rightarrow> Store \<Rightarrow> redisDelta \<Rightarrow> Store" where
  "redis_applyDelta unm s d =
     (if rd_type d = ''set'' then
        (case redis_value unm d of
           None \<Rightarrow> s
         | Some value \<Rightarrow>
             applyRemoteSet s (rd_key d) value (if rd_expiresAt d > 0 then Some (rd_expiresAt d) else None) zeroClock)
      else if rd_type d = ''delete'' then applyRemoteDelete s (rd_key d)
      else if rd_type d = ''publish'' then
        (case redis_value unm d of None \<Rightarrow> s | Some value \<Rightarrow> applyRemotePublish s (rd_topic d) value)
      else s)"

definition redis_applyMsg :: "(string \<Rightarrow> redisDelta option) \<Rightarrow> json_unmarshal \<Rightarrow> Store \<Rightarrow> string \<Rightarrow> Store" where
  "redis_applyMsg dec unm s raw = (case dec raw of None \<Rightarrow> s | Some d \<Rightarrow> redis_applyDelta unm s d)"

text \<open>The delta published for a call; a value that cannot be marshalled travels without \<open>v\<close>.\<close>

fun redis_sync :: "json_marshal \<Rightarrow> sync_call \<Rightarrow> redisDelta" where
  "redis_sync mar (SyncSet k e) =
     \<lparr>rd_type = ''set'', rd_key = k, rd_value = mar (e_value e),
      rd_expiresAt = (case e_expiresAt e of None \<Rightarrow> 0 | Some x \<Rightarrow> x), rd_topic = []\<rparr>"
| "redis_sync mar (SyncDelete k) = \<lparr>rd_type = ''delete'', rd_key = k, rd_value = None, rd_expiresAt = 0, rd_topic = []\<rparr>"
| "redis_sync mar (SyncPublish t v) =
     \<lparr>rd_type = ''publish'', rd_key = [], rd_value = mar v, rd_expiresAt = 0, rd_topic = t\<rparr>"

section \<open>Lemmas on frames\<close>

lemma of_char_byteAt: "(of_char (byteAt n i) :: nat) = n div 256 ^ i mod 256"
  by (simp add: byteAt_def of_char_of)

lemma getUint_32: "getUint (putUint32 w) = unat w"
proof -
  let ?n = "unat w"
  have join: "m div 256 * 256 + m mod 256 = m" for m :: nat by simp
  have "?n < 2 ^ 32" using unsigned_less [of w, where ?'a = nat] by simp
  then have top: "?n div 256 div 256 div 256 mod 256 = ?n div 256 div 256 div 256" by simp
  have "m div 16777216 = m div 256 div 256 div 256" "m div 65536 = m div 256 div 256" for m :: nat
    by (simp_all add: div_mult2_eq [symmetric])
  then have "getUint (putUint32 w) = ((?n div 256 div 256 div 256 mod 256 * 256 + ?n div 256 div 256 mod 256) * 256
      + ?n div 256 mod 256) * 256 + ?n mod 256"
    by (simp add: getUint_def putUint32_def of_char_byteAt)
  then show ?thesis by (simp only: top join)
qed

lemma getUint_16: "getUint (putUint16 w) = unat w"
proof -
  have "unat w < 2 ^ 16" using unsigned_less [of w, where ?'a = nat] by simp
  then show ?thesis by (simp add: getUint_def putUint16_def of_char_byteAt)
qed

lemma length_put [simp]: "length (putUint32 w) = 4" "length (putUint16 v) = 2"
  by (simp_all add: putUint32_def putUint16_def)

lemma readMsgFrame_write:
  assumes "length b \<le> maxGossipMsgBytes"
  shows "readMsgFrame (writeMsgFrame [] b @ rest) = Inr (b, rest)"
proof -
  have "unat (of_nat (length b) :: u32) = length b"
    using assms by (simp add: maxGossipMsgBytes_def unat_of_nat)
  then show ?thesis using assms
    by (simp add: readMsgFrame_def writeMsgFrame_def readFull_def getUint_32 Let_def)
qed

lemma readFrame_write:
  assumes "length b < 2 ^ 16"
  shows "readFrame (writeFrame [] b @ rest) mx = (if length b \<le> mx then Inr (b, rest) else Inl (FrameTooLarge (length b) mx))"
proof -
  have "unat (of_nat (length b) :: u16) = length b" using assms by (simp add: unat_of_nat)
  then show ?thesis
    by (simp add: readFrame_def writeFrame_def readFull_def getUint_16 Let_def)
qed

lemma writeMsgFrame_append: "writeMsgFrame w b = w @ writeMsgFrame [] b"
  by (simp add: writeMsgFrame_def)

section \<open>Properties\<close>

text \<open>The promise of the gob codec: an encoded message decodes to itself.\<close>

definition codec_faithful :: "gob_encoder \<Rightarrow> gob_decoder \<Rightarrow> bool" where
  "codec_faithful enc dec = (\<forall>m b. enc m = Some b \<longrightarrow> dec b = Some m)"

definition sendable :: "gob_encoder \<Rightarrow> gossipMsg \<Rightarrow> bool" where
  "sendable enc m = (case enc m of None \<Rightarrow> False | Some b \<Rightarrow> length b \<le> maxGossipMsgBytes)"

definition send_or_skip :: "gob_encoder \<Rightarrow> string \<Rightarrow> gossipMsg \<Rightarrow> string" where
  "send_or_skip enc conn m = (case peerConn_send enc conn m of Inl _ \<Rightarrow> conn | Inr c \<Rightarrow> c)"

lemma send_or_skip_append: "send_or_skip enc conn m = conn @ send_or_skip enc [] m"
  using writeMsgFrame_append [of conn]
  by (auto simp: send_or_skip_def peerConn_send_def split: option.splits)

lemma foldl_send_append: "foldl (send_or_skip enc) conn ms = conn @ foldl (send_or_skip enc) [] ms"
proof (induction ms arbitrary: conn)
  case (Cons m ms)
  show ?case using Cons [of "send_or_skip enc conn m"] Cons [of "send_or_skip enc [] m"]
    by (simp add: send_or_skip_append [of _ conn])
qed simp

lemma readLoop_frame:
  assumes "codec_faithful enc dec" and "sendable enc m"
  shows "readLoop dec (send_or_skip enc [] m @ rest) s = readLoop dec rest (gossip_applyMsg s m)"
proof -
  obtain b where b: "enc m = Some b" "length b \<le> maxGossipMsgBytes"
    using assms(2) by (auto simp: sendable_def split: option.splits)
  then have "dec b = Some m" using assms(1) by (simp add: codec_faithful_def)
  with b show ?thesis
    by (subst readLoop.simps) (simp add: send_or_skip_def peerConn_send_def readMsgFrame_write)
qed

lemma readLoop_end: "readLoop dec [] s = s"
  by (subst readLoop.simps) (simp add: readMsgFrame_def readFull_def)

lemma readLoop_sent:
  "codec_faithful enc dec \<Longrightarrow>
   readLoop dec (foldl (send_or_skip enc) [] ms) s = foldl gossip_applyMsg s (filter (sendable enc) ms)"
proof (induction ms arbitrary: s)
  case (Cons m ms)
  have "\<not> sendable enc m \<Longrightarrow> send_or_skip enc [] m = []"
    by (auto simp: sendable_def send_or_skip_def peerConn_send_def split: option.splits)
  with Cons show ?case
    using foldl_send_append [of enc "send_or_skip enc [] m" ms] readLoop_frame [of enc dec m]
    by (cases "sendable enc m") auto
qed (simp add: readLoop_end)

text \<open>
  C2. The gossip stream is a faithful queue: whatever messages are sent one after the other on a
  connection, the peer that reads the bytes to the end applies exactly those that encode to at most
  8 MiB, once each and in the order they were sent; the others are refused at the sender and leave
  the stream intact.
\<close>

theorem gossip_stream_roundtrip:
  assumes "codec_faithful enc dec"
  shows "readLoop dec (foldl (send_or_skip enc) [] ms) s = foldl gossip_applyMsg s (filter (sendable enc) ms)"
  using assms by (rule readLoop_sent)

text \<open>
  A node with a secret accepts a connection exactly when the peer's hello carries the same
  secret; everything the peer sent after it is left for the message loop. Both secrets must be
  shorter than 64 KiB, the range of the two-byte length.
\<close>

theorem handshake_accepts_iff:
  assumes "secret \<noteq> []" and "length secret < 2 ^ 16" and "length peer < 2 ^ 16"
  shows "snd (gossip_handshake secret (writeFrame [] peer @ rest)) = Inr rest' \<longleftrightarrow> peer = secret \<and> rest' = rest"
  using assms by (auto simp: gossip_handshake_def readFrame_write)

theorem handshake_accepts_iff_witness:
  "snd (gossip_handshake ''key'' (writeFrame [] ''key'' @ ''x'')) = Inr ''x''
   \<and> snd (gossip_handshake ''key'' (writeFrame [] ''kez'' @ ''x'')) \<noteq> Inr ''x''"
  using handshake_accepts_iff [of "''key''" "''key''" "''x''" "''x''"]
    handshake_accepts_iff [of "''key''" "''kez''" "''x''" "''x''"] by simp

text \<open>
  A secret whose length is a multiple of 65536 cannot authenticate: the two-byte length prefix
  wraps to 0, so each side reads an empty secret from the other and rejects it, although both are
  configured alike.
\<close>

theorem handshake_long_secret_fails:
  assumes "secret \<noteq> []" and "length secret mod 2 ^ 16 = 0"
  shows "snd (gossip_handshake secret (fst (gossip_handshake secret []) @ rest)) = Inl SecretMismatch"
proof -
  have "unat (of_nat (length secret) :: u16) = 0" using assms(2) by (simp add: unat_of_nat)
  then show ?thesis
    using assms(1) by (simp add: gossip_handshake_def writeFrame_def readFrame_def readFull_def getUint_16 Let_def)
qed

theorem handshake_long_secret_fails_witness:
  "snd (gossip_handshake (replicate 65536 CHR ''k'') (fst (gossip_handshake (replicate 65536 CHR ''k'') []) @ ''x''))
     = Inl SecretMismatch"
proof (rule handshake_long_secret_fails)
  show "replicate 65536 CHR ''k'' \<noteq> []" using length_replicate [of 65536 "CHR ''k''"] by (metis list.size(3) zero_neq_numeral)
qed (simp only: length_replicate, simp)

text \<open>
  Under the Redis adapter a key that was written locally ignores every later remote write: the
  adapter applies deltas with the zero clock, and the clock of a local write, whose own component is
  at least 1, is after it.
\<close>

theorem redis_local_write_sticks:
  assumes "store_inv s" and "vc_localTS (s_clock s) \<noteq> -1" and "rd_type d = ''set''"
  shows "live_view (redis_applyDelta unm (Store_Set s now k v ttl) d) t k = live_view (Store_Set s now k v ttl) t k"
proof -
  let ?e = "\<lparr>e_value = v, e_expiresAt = expiry_from now ttl, e_clock = fst (Tick (s_clock s))\<rparr>"
  have "vec_wf (vc_clocks (s_clock s))" using assms(1) by (simp add: store_inv_def vc_inv_def)
  moreover have "vc_localTS (s_clock s) + 1 > 0"
    using word_less_add_1 [OF assms(2)] by (metis word_gt_0 word_not_simps(1))
  ultimately have "After (e_clock ?e) zeroClock"
    using After_zeroClock [of "fst (Tick (s_clock s))" "vc_nodeID (s_clock s)"] by simp
  then have "map_of (s_data (applyRemoteSet (Store_Set s now k v ttl) (rd_key d) w x zeroClock)) k
      = map_of (s_data (Store_Set s now k v ttl)) k" for w x
    by (simp add: map_of_applyRemoteSet data_Set entry_lww.lww_apply_def remote_entry_def)
  with assms(3) show ?thesis
    by (simp add: redis_applyDelta_def live_view_def split: option.splits)
qed

text \<open>
  A local Set reaches a connected peer: if the store uses gossip and the set message encodes
  within the limit, the call the store makes on its transport puts bytes on every connection from
  which a peer that did not hold the key shows the same value with the same expiry time.
\<close>

theorem set_replicates:
  assumes "codec_faithful enc dec" and "s_transport s = GossipTransport"
    and "sendable enc (set_msg k \<lparr>e_value = v, e_expiresAt = expiry_from now ttl, e_clock = fst (Tick (s_clock s))\<rparr>)"
    and "map_of (s_data peer) k = None" and "map_of (g_conns g) a = Some []"
  shows "\<exists>bytes. map_of (g_conns (gossip_sync enc g (last (s_out (Store_Set s now k v ttl))))) a = Some bytes
    \<and> live_view (readLoop dec bytes peer) t k = live_view (Store_Set s now k v ttl) t k"
proof -
  let ?e = "\<lparr>e_value = v, e_expiresAt = expiry_from now ttl, e_clock = fst (Tick (s_clock s))\<rparr>"
  have c: "last (s_out (Store_Set s now k v ttl)) = SyncSet k ?e"
    using assms(2) by (simp add: Store_Set_def syncSet_def sync_to_peers_def Let_def split: prod.splits)
  have bytes: "map_of (g_conns (gossip_sync enc g (SyncSet k ?e))) a = Some (send_or_skip enc [] (set_msg k ?e))"
    using assms(5) by (simp add: gossip_broadcastSet_def gossip_broadcast_def map_of_map send_or_skip_def)
  from readLoop_frame [OF assms(1,3), of "[]" peer]
  have "readLoop dec (send_or_skip enc [] (set_msg k ?e)) peer = gossip_applyMsg peer (set_msg k ?e)"
    by (simp add: readLoop_end)
  moreover have "live_view (gossip_applyMsg peer (set_msg k ?e)) t k = live_view (Store_Set s now k v ttl) t k"
    using assms(4) by (simp add: set_msg_def gossip_applyMsg_def live_view_def map_of_applyRemoteSet data_Set
        entry_lww.lww_apply_def remote_entry_def)
  ultimately show ?thesis using bytes c by auto
qed

text \<open>A codec for the one message the examples send.\<close>

definition demo_msg :: gossipMsg where
  "demo_msg = set_msg ''k'' \<lparr>e_value = GInt64 7, e_expiresAt = None, e_clock = fst (Tick (NewVectorClock ''n1''))\<rparr>"

definition demo_enc :: gob_encoder where
  "demo_enc m = (if m = demo_msg then Some ''gob'' else None)"

definition demo_dec :: gob_decoder where
  "demo_dec b = (if b = ''gob'' then Some demo_msg else None)"

lemma demo_codec_faithful: "codec_faithful demo_enc demo_dec"
  by (simp add: codec_faithful_def demo_enc_def demo_dec_def)

lemma demo_sendable: "sendable demo_enc demo_msg"
  by (simp add: sendable_def demo_enc_def maxGossipMsgBytes_def)

theorem gossip_stream_roundtrip_witness:
  "readLoop demo_dec (foldl (send_or_skip demo_enc) [] [demo_msg, demo_msg]) plain_store
     = gossip_applyMsg (gossip_applyMsg plain_store demo_msg) demo_msg"
  using gossip_stream_roundtrip [OF demo_codec_faithful, of "[demo_msg, demo_msg]" plain_store] demo_sendable
  by simp

theorem redis_local_write_sticks_witness:
  "live_view (redis_applyDelta (\<lambda>_. Some GNil) (Store_Set plain_store 0 ''k'' (GInt64 7) 0)
      \<lparr>rd_type = ''set'', rd_key = ''k'', rd_value = Some ''null'', rd_expiresAt = 0, rd_topic = []\<rparr>) 5 ''k''
   = Some (GInt64 7, None)"
proof -
  have "vc_localTS (s_clock plain_store) \<noteq> -1"
    by (simp add: plain_store_def Store_New_def plain_options_def NewVectorClock_def Let_def)
  then show ?thesis
    by (subst redis_local_write_sticks) (simp_all add: view_Set expiry_from_def time_passed_def)
qed

theorem set_replicates_witness:
  "\<exists>bytes. map_of (g_conns (gossip_sync demo_enc ((newGossipTransport [] [''p''] [])\<lparr>g_conns := [(''p'', [])]\<rparr>)
        (last (s_out (Store_Set (plain_store\<lparr>s_transport := GossipTransport\<rparr>) 0 ''k'' (GInt64 7) 0))))) ''p'' = Some bytes
    \<and> live_view (readLoop demo_dec bytes plain_store) 5 ''k'' = Some (GInt64 7, None)"
proof -
  let ?s = "plain_store\<lparr>s_transport := GossipTransport\<rparr>"
  have clk: "s_clock ?s = NewVectorClock ''n1''" and dat: "map_of (s_data plain_store) ''k'' = None"
    by (simp_all add: plain_store_def Store_New_def plain_options_def Let_def)
  have "sendable demo_enc (set_msg ''k'' \<lparr>e_value = GInt64 7, e_expiresAt = expiry_from 0 0, e_clock = fst (Tick (s_clock ?s))\<rparr>)"
    using demo_sendable by (simp add: demo_msg_def clk expiry_from_def del: select_convs)
  from set_replicates [OF demo_codec_faithful _ this dat, of "(newGossipTransport [] [''p''] [])\<lparr>g_conns := [(''p'', [])]\<rparr>" "''p''" 5]
  show ?thesis by (simp add: view_Set expiry_from_def time_passed_def)
qed

end
