(* ===== verification/Presence.thy ===== *)
theory Presence
  imports Store_Spec
begin

text \<open>
  Model of \<open>framework/realtime/presence.go\<close>: who is online in a channel, kept as keys with a TTL in
  the memory store. A \<open>PresenceInfo\<close> is stored as a struct value; entries that arrive from another
  node as a JSON object are converted by \<open>conv\<close>, the composition of \<open>json.Marshal\<close> and
  \<open>json.Unmarshal\<close> into the struct.
\<close>

section \<open>Data\<close>

record PresenceInfo =
  pi_UserID :: i64
  pi_ConnID :: string
  pi_Meta :: "(string, gval) gomap"

definition presencePrefix :: string where "presencePrefix = ''oni:presence:''"
definition presenceTTL :: duration where "presenceTTL = 5 * minute"

text \<open>The value \<open>any(info)\<close>.\<close>

definition pi_val :: "PresenceInfo \<Rightarrow> gval" where
  "pi_val info = GStruct ''realtime.PresenceInfo''
     [(''UserID'', GInt64 (pi_UserID info)), (''ConnID'', GString (pi_ConnID info)), (''Meta'', GMap (pi_Meta info))]"

type_synonym pi_conv = "(string, gval) gomap \<Rightarrow> PresenceInfo option"

fun pi_of_struct :: "(string \<times> gval) list \<Rightarrow> PresenceInfo option" where
  "pi_of_struct [(_, GInt64 u), (_, GString c), (_, GMap m)] = Some \<lparr>pi_UserID = u, pi_ConnID = c, pi_Meta = m\<rparr>"
| "pi_of_struct _ = None"

definition toPresenceInfo :: "pi_conv \<Rightarrow> gval \<Rightarrow> PresenceInfo option" where
  "toPresenceInfo conv v =
     (case v of
        GStruct name fs \<Rightarrow> if name = ''realtime.PresenceInfo'' then pi_of_struct fs else None
      | GMap m \<Rightarrow> conv m
      | _ \<Rightarrow> None)"

section \<open>Keys\<close>

definition sanitizeChannel :: "string \<Rightarrow> string" where
  "sanitizeChannel ch = map (\<lambda>c. if c = CHR ''.'' \<or> c = CHR ''/'' \<or> c = CHR '' '' then CHR ''_'' else c) ch"

definition presenceKey :: "string \<Rightarrow> string \<Rightarrow> string" where
  "presenceKey channel connID = presencePrefix @ sanitizeChannel channel @ '':'' @ connID"

definition extractChannel :: "string \<Rightarrow> string" where
  "extractChannel key = ReplaceByte CHR ''_'' ''.'' (hd (SplitOn CHR '':'' (TrimPrefix key presencePrefix)))"

section \<open>Operations\<close>

definition Presence_Join :: "Store \<Rightarrow> gotime \<Rightarrow> string \<Rightarrow> PresenceInfo \<Rightarrow> Store" where
  "Presence_Join mem now channel info =
     Store_Publish (Store_Set mem now (presenceKey channel (pi_ConnID info)) (pi_val info) presenceTTL)
       (''oni:presence.join.'' @ channel) (pi_val info)"

definition Presence_Leave :: "Store \<Rightarrow> gotime \<Rightarrow> string \<Rightarrow> string \<Rightarrow> Store" where
  "Presence_Leave mem now channel connID =
     (let key = presenceKey channel connID
      in case Store_Get mem now key of
           (None, mem1) \<Rightarrow> mem1
         | (Some info, mem1) \<Rightarrow> Store_Publish (Store_Delete mem1 key) (''oni:presence.leave.'' @ channel) info)"

fun members_loop :: "pi_conv \<Rightarrow> gotime \<Rightarrow> string list \<Rightarrow> Store \<Rightarrow> PresenceInfo list \<times> Store" where
  "members_loop conv now [] mem = ([], mem)"
| "members_loop conv now (k # ks) mem =
     (let (v, mem1) = Store_Get mem now k;
          (rest, mem2) = members_loop conv now ks mem1
      in (case v of None \<Rightarrow> rest | Some w \<Rightarrow> (case toPresenceInfo conv w of None \<Rightarrow> rest | Some info \<Rightarrow> info # rest), mem2))"

definition Presence_Members :: "pi_conv \<Rightarrow> Store \<Rightarrow> gotime \<Rightarrow> string \<Rightarrow> PresenceInfo list \<times> Store" where
  "Presence_Members conv mem now channel =
     members_loop conv now (Store_Keys mem now (presencePrefix @ sanitizeChannel channel @ '':*'')) mem"

definition Presence_Count :: "pi_conv \<Rightarrow> Store \<Rightarrow> gotime \<Rightarrow> string \<Rightarrow> nat \<times> Store" where
  "Presence_Count conv mem now channel = (let (ms, mem1) = Presence_Members conv mem now channel in (length ms, mem1))"

definition Presence_Refresh :: "Store \<Rightarrow> gotime \<Rightarrow> string \<Rightarrow> string \<Rightarrow> Store" where
  "Presence_Refresh mem now channel connID = snd (Store_Expire mem now (presenceKey channel connID) presenceTTL)"

definition leave_key :: "gotime \<Rightarrow> string \<Rightarrow> Store \<Rightarrow> Store" where
  "leave_key now k mem =
     (case Store_Get mem now k of
        (None, mem1) \<Rightarrow> mem1
      | (Some v, mem1) \<Rightarrow> Store_Publish (Store_Delete mem1 k) (''oni:presence.leave.'' @ extractChannel k) v)"

definition Presence_LeaveAll :: "Store \<Rightarrow> gotime \<Rightarrow> string \<Rightarrow> Store" where
  "Presence_LeaveAll mem now connID =
     fold (leave_key now) (Store_Keys mem now (presencePrefix @ ''*:'' @ connID)) mem"

section \<open>Lemmas\<close>

lemma toPresenceInfo_val [simp]: "toPresenceInfo conv (pi_val info) = Some info"
  by (simp add: toPresenceInfo_def pi_val_def)

lemma view_Publish [simp]: "live_view (Store_Publish s topic v) t k = live_view s t k"
  by (simp add: live_view_def Store_Publish_def syncPublish_def)

lemma Get_evict_live: "live_view s now k \<noteq> None \<Longrightarrow> Get_evict s now k = s"
  by (auto simp: live_view_def Get_evict_def entry_expired_def split: option.splits if_splits)

lemma members_loop_live:
  "\<forall>k \<in> set ks. live_view mem now k \<noteq> None \<Longrightarrow>
   members_loop conv now ks mem =
     (List.map_filter (\<lambda>k. Option.bind (live_view mem now k) (\<lambda>(v, _). toPresenceInfo conv v)) ks, mem)"
  by (induction ks) (auto simp: Get_eq Get_evict_live map_filter_simps Let_def split: option.splits)

lemma Members_eq:
  assumes "store_inv mem"
  shows "Presence_Members conv mem now ch =
     (List.map_filter (\<lambda>k. Option.bind (live_view mem now k) (\<lambda>(v, _). toPresenceInfo conv v))
        (Store_Keys mem now (presencePrefix @ sanitizeChannel ch @ '':*'')), mem)"
  unfolding Presence_Members_def using set_Store_Keys [OF assms] by (intro members_loop_live) auto

lemma set_Members:
  assumes "store_inv mem"
  shows "set (fst (Presence_Members conv mem now ch)) =
    {info. \<exists>k v x. live_view mem now k = Some (v, x) \<and> toPresenceInfo conv v = Some info
       \<and> glob_spec (presencePrefix @ sanitizeChannel ch @ '':*'') k}"
  unfolding Members_eq [OF assms]
  by (force simp: map_filter_def set_Store_Keys [OF assms] globMatch_iff split: option.splits prod.splits bind_splits)

lemma glob_spec_lit: "CHR ''*'' \<notin> set p \<Longrightarrow> glob_spec (p @ q) s \<longleftrightarrow> (\<exists>r. s = p @ r \<and> glob_spec q r)"
  by (induction p arbitrary: s) auto

lemma glob_spec_all [simp]: "glob_spec ''*'' s"
  by simp

lemma glob_spec_self: "glob_spec q r \<Longrightarrow> glob_spec (p @ q) (p @ r)"
proof (induction p)
  case (Cons c p)
  then have "glob_spec (p @ q) (p @ r)" by simp
  then show ?case by (cases "c = CHR ''*''") (auto intro: exI [of _ "[c]"])
qed simp

lemma star_not_sanitized [simp]: "CHR ''*'' \<in> set (sanitizeChannel ch) \<longleftrightarrow> CHR ''*'' \<in> set ch"
  "CHR '':'' \<in> set (sanitizeChannel ch) \<longleftrightarrow> CHR '':'' \<in> set ch"
  by (auto simp: sanitizeChannel_def split: if_splits)

lemma view_leave_key: "live_view (leave_key now k mem) now k' = (if k' = k then None else live_view mem now k')"
  by (auto simp: leave_key_def Get_eq view_Delete view_Get_evict split: option.splits)

lemma view_leave_keys:
  "live_view (fold (leave_key now) ks mem) now k = (if k \<in> set ks then None else live_view mem now k)"
  by (induction ks arbitrary: mem) (auto simp: view_leave_key)

section \<open>Properties\<close>

text \<open>
  A member is listed from the moment it joins until its TTL of five minutes has passed: right
  after Join and at any time within the TTL, Members of that channel contains the member.
\<close>

theorem join_is_listed:
  assumes "store_inv mem" and "now \<le> t" and "t \<le> now + presenceTTL"
  shows "info \<in> set (fst (Presence_Members conv (Presence_Join mem now ch info) t ch))"
proof -
  let ?k = "presenceKey ch (pi_ConnID info)" and ?mem = "Presence_Join mem now ch info"
  have inv: "store_inv ?mem" using assms(1) by (simp add: Presence_Join_def)
  have "map_option fst (live_view ?mem t ?k) = Some (pi_val info)"
    using assms(3) mem_kv.view_after_set [of presenceTTL t now mem ?k "pi_val info"] by (simp add: Presence_Join_def)
  moreover have "glob_spec (presencePrefix @ sanitizeChannel ch @ '':*'') ?k"
    unfolding presenceKey_def append_assoc [symmetric]
    using glob_spec_self [of "''*''" "pi_ConnID info" "presencePrefix @ sanitizeChannel ch @ '':''"] by simp
  ultimately show ?thesis unfolding set_Members [OF inv] by fastforce
qed

theorem join_is_listed_witness:
  "\<lparr>pi_UserID = 7, pi_ConnID = ''conn-1'', pi_Meta = []\<rparr> \<in> set (fst (Presence_Members (\<lambda>_. None)
     (Presence_Join plain_store 0 ''room.1'' \<lparr>pi_UserID = 7, pi_ConnID = ''conn-1'', pi_Meta = []\<rparr>) 1000 ''room.1''))"
  by (rule join_is_listed) (simp_all add: presenceTTL_def)

text \<open>
  Presence is kept per channel as long as names are plain: for channels and connection IDs
  without colons and without stars, the scan for one channel finds the key of another exactly when
  the two names agree after dots, slashes and blanks have become underscores.
\<close>

theorem presence_isolation:
  assumes "CHR ''*'' \<notin> set ch" and "CHR '':'' \<notin> set ch" and "CHR '':'' \<notin> set ch'"
  shows "globMatch (presencePrefix @ sanitizeChannel ch @ '':*'') (presenceKey ch' c)
    \<longleftrightarrow> sanitizeChannel ch = sanitizeChannel ch'"
proof -
  have star: "CHR ''*'' \<notin> set (presencePrefix @ sanitizeChannel ch @ '':'')"
    using assms(1) by (auto simp: presencePrefix_def)
  have "globMatch (presencePrefix @ sanitizeChannel ch @ '':*'') (presenceKey ch' c)
      \<longleftrightarrow> (\<exists>r. sanitizeChannel ch' @ CHR '':'' # c = sanitizeChannel ch @ CHR '':'' # r)"
    using glob_spec_lit [OF star, of "''*''" "presenceKey ch' c"]
    by (simp add: globMatch_iff presenceKey_def)
  also have "\<dots> \<longleftrightarrow> sanitizeChannel ch = sanitizeChannel ch'"
  proof
    assume "\<exists>r. sanitizeChannel ch' @ CHR '':'' # c = sanitizeChannel ch @ CHR '':'' # r"
    then obtain r where "sanitizeChannel ch' @ CHR '':'' # c = sanitizeChannel ch @ CHR '':'' # r" ..
    then have "hd (SplitOn CHR '':'' (sanitizeChannel ch' @ CHR '':'' # c)) = hd (SplitOn CHR '':'' (sanitizeChannel ch @ CHR '':'' # r))"
      by simp
    then show "sanitizeChannel ch = sanitizeChannel ch'" using assms(2,3) by (simp add: SplitOn_word_sep)
  qed auto
  finally show ?thesis .
qed

theorem presence_isolation_witness:
  "\<not> globMatch (presencePrefix @ sanitizeChannel ''room.1'' @ '':*'') (presenceKey ''room.12'' ''conn-1'')"
  using presence_isolation [of "''room.1''" "''room.12''" "''conn-1''"] by (simp add: sanitizeChannel_def)

text \<open>
  Members of a channel also lists members of other channels: whoever joins \<open>ch:x\<close> is listed in
  \<open>ch\<close>, and channels that differ only in dots, slashes, blanks and underscores share their members.
\<close>

theorem presence_leaks:
  assumes "store_inv mem"
  shows "info \<in> set (fst (Presence_Members conv (Presence_Join mem now (ch @ '':'' @ x) info) now ch))
    \<and> (sanitizeChannel ch = sanitizeChannel ch' \<longrightarrow> Presence_Members conv mem now ch = Presence_Members conv mem now ch')"
proof
  let ?k = "presenceKey (ch @ '':'' @ x) (pi_ConnID info)" and ?mem = "Presence_Join mem now (ch @ '':'' @ x) info"
  have inv: "store_inv ?mem" using assms by (simp add: Presence_Join_def)
  have "map_option fst (live_view ?mem now ?k) = Some (pi_val info)"
    using mem_kv.view_after_set [of presenceTTL now now mem ?k "pi_val info"]
    by (simp add: Presence_Join_def presenceTTL_def)
  moreover have "?k = (presencePrefix @ sanitizeChannel ch @ '':'') @ (sanitizeChannel x @ '':'' @ pi_ConnID info)"
    by (simp add: presenceKey_def sanitizeChannel_def)
  then have "glob_spec (presencePrefix @ sanitizeChannel ch @ '':*'') ?k"
    using glob_spec_self [of "''*''" "sanitizeChannel x @ '':'' @ pi_ConnID info" "presencePrefix @ sanitizeChannel ch @ '':''"]
    by simp
  ultimately show "info \<in> set (fst (Presence_Members conv ?mem now ch))" unfolding set_Members [OF inv] by fastforce
qed (simp add: Presence_Members_def)

theorem presence_leaks_witness:
  "\<lparr>pi_UserID = 7, pi_ConnID = ''conn-1'', pi_Meta = []\<rparr> \<in> set (fst (Presence_Members (\<lambda>_. None)
     (Presence_Join plain_store 0 (''room'' @ '':'' @ ''private'') \<lparr>pi_UserID = 7, pi_ConnID = ''conn-1'', pi_Meta = []\<rparr>) 0 ''room''))"
  using presence_leaks [OF store_inv_plain, of "\<lparr>pi_UserID = 7, pi_ConnID = ''conn-1'', pi_Meta = []\<rparr>" "\<lambda>_. None" 0 "''room''" "''private''"]
  by blast

text \<open>
  LeaveAll removes a connection everywhere and nobody else: afterwards no channel has a live key
  of that connection, and every key that does not end in a colon and this connection's ID keeps its
  value.
\<close>

theorem leave_all_complete:
  assumes "store_inv mem" and "CHR ''*'' \<notin> set c"
  shows "live_view (Presence_LeaveAll mem now c) now (presenceKey ch c) = None
    \<and> (\<not> HasSuffix k ('':'' @ c) \<longrightarrow> live_view (Presence_LeaveAll mem now c) now k = live_view mem now k)"
proof -
  have star: "CHR ''*'' \<notin> set presencePrefix" by (simp add: presencePrefix_def)
  have c: "glob_spec ('':'' @ c) r \<longleftrightarrow> r = '':'' @ c" for r
    using glob_spec_lit [of "'':'' @ c" "[]" r] assms(2) by simp
  have match: "globMatch (presencePrefix @ ''*:'' @ c) k \<longleftrightarrow> (\<exists>a. k = presencePrefix @ a @ '':'' @ c)" for k
    using glob_spec_lit [OF star, of "''*:'' @ c" k] c by (auto simp: globMatch_iff)
  have "globMatch (presencePrefix @ ''*:'' @ c) (presenceKey ch c)"
    unfolding match by (auto simp: presenceKey_def)
  moreover have "\<not> globMatch (presencePrefix @ ''*:'' @ c) k" if "\<not> HasSuffix k ('':'' @ c)"
    using that unfolding match HasSuffix_iff by (metis append.assoc)
  ultimately show ?thesis
    unfolding Presence_LeaveAll_def view_leave_keys set_Store_Keys [OF assms(1)]
    by (cases "live_view mem now (presenceKey ch c)") auto
qed

theorem leave_all_complete_witness:
  "live_view (Presence_LeaveAll (Presence_Join plain_store 0 ''room'' \<lparr>pi_UserID = 7, pi_ConnID = ''conn-1'', pi_Meta = []\<rparr>) 5 ''conn-1'')
     5 (presenceKey ''room'' ''conn-1'') = None"
  using leave_all_complete [of "Presence_Join plain_store 0 ''room'' \<lparr>pi_UserID = 7, pi_ConnID = ''conn-1'', pi_Meta = []\<rparr>" "''conn-1''" 5 "''room''"]
  by (simp add: Presence_Join_def)

end
