(* ===== verification/Event_Ring.thy ===== *)
theory Event_Ring
  imports Oni_Prelude
begin

text \<open>
  Model of \<open>framework/realtime/resume.go\<close> and of the event type of \<open>framework/realtime/event.go\<close>: the
  per-channel ring buffer from which a reconnecting client is served. A slot that was never written
  is \<^const>\<open>None\<close> (a nil pointer); the modulo of an empty ring is the division panic. The locale
  \<open>last_n_log\<close> is the contract of the buffer towards the hub: it keeps the last \<open>cap\<close> events.
\<close>

section \<open>Events\<close>

record Event =
  ev_ID :: string
  ev_Type :: string
  ev_Channel :: string
  ev_Payload :: string \<comment> \<open>raw JSON\<close>
  ev_Params :: "(string, string) gomap"
  ev_ConnID :: string
  ev_UserID :: int
  ev_Ts :: int

definition padHex :: "nat \<Rightarrow> nat \<Rightarrow> string" where
  "padHex w n = (let s = hexOf n in replicate (w - length s) CHR ''0'' @ s)"

text \<open>\<open>newEventID\<close> with the process-wide counter as state.\<close>

definition newEventID :: "gotime \<Rightarrow> nat \<Rightarrow> string \<times> nat" where
  "newEventID now eventCounter =
     (let ts = nat (now div 1000000); n = eventCounter + 1 in (padHex 13 ts @ padHex 8 n, n))"

definition unix_seconds :: "gotime \<Rightarrow> int" where
  "unix_seconds now = now div second"

section \<open>Ring buffer\<close>

record ringBuffer =
  rb_events :: "Event option list"
  rb_start :: nat
  rb_count :: nat
  rb_cap :: nat

definition newRingBuffer :: "nat \<Rightarrow> ringBuffer" where
  "newRingBuffer capacity = \<lparr>rb_events = replicate capacity None, rb_start = 0, rb_count = 0, rb_cap = capacity\<rparr>"

definition ring_push :: "ringBuffer \<Rightarrow> Event \<Rightarrow> go_panic + ringBuffer" where
  "ring_push rb e =
     (if rb_cap rb = 0 then Inl DivideByZero
      else let pos = (rb_start rb + rb_count rb) mod rb_cap rb
           in if pos \<ge> length (rb_events rb) then Inl IndexOutOfRange
              else let rb1 = rb\<lparr>rb_events := (rb_events rb)[pos := Some e]\<rparr>
                   in Inr (if rb_count rb1 = rb_cap rb1 then rb1\<lparr>rb_start := (rb_start rb1 + 1) mod rb_cap rb1\<rparr>
                           else rb1\<lparr>rb_count := rb_count rb1 + 1\<rparr>))"

definition too_old :: "gotime \<Rightarrow> Event \<Rightarrow> bool" where
  "too_old cutoff e = (ev_Ts e > 0 \<and> ev_Ts e * second < cutoff)"

text \<open>
  The loop of \<open>since\<close>: \<open>n\<close> iterations left from index \<open>i\<close>, with the window collected so far and the
  marker (\<^const>\<open>None\<close> for -1).
\<close>

fun since_loop ::
  "ringBuffer \<Rightarrow> string \<Rightarrow> gotime \<Rightarrow> nat \<Rightarrow> nat \<Rightarrow> Event list \<Rightarrow> nat option \<Rightarrow> Event list \<times> nat option" where
  "since_loop rb lastID cutoff i 0 window markerAt = (window, markerAt)"
| "since_loop rb lastID cutoff i (Suc n) window markerAt =
     (case rb_events rb ! ((rb_start rb + i) mod rb_cap rb) of
        None \<Rightarrow> since_loop rb lastID cutoff (Suc i) n window markerAt
      | Some e \<Rightarrow>
          if too_old cutoff e then since_loop rb lastID cutoff (Suc i) n window markerAt
          else let window' = window @ [e]
               in since_loop rb lastID cutoff (Suc i) n window'
                    (if lastID \<noteq> [] \<and> ev_ID e = lastID then Some (length window' - 1) else markerAt))"

definition ring_since :: "ringBuffer \<Rightarrow> string \<Rightarrow> gotime \<Rightarrow> Event list" where
  "ring_since rb lastID cutoff =
     (let (window, markerAt) = since_loop rb lastID cutoff 0 (rb_count rb) [] None
      in if lastID = [] then window
         else case markerAt of Some m \<Rightarrow> drop (m + 1) window | None \<Rightarrow> window)"

section \<open>Event buffer\<close>

record EventBuffer =
  eb_channels :: "(string, ringBuffer) gomap"
  eb_maxSize :: nat
  eb_maxAge :: duration

definition NewEventBuffer :: "int \<Rightarrow> duration \<Rightarrow> EventBuffer" where
  "NewEventBuffer maxSize maxAge =
     \<lparr>eb_channels = [], eb_maxSize = (if maxSize \<le> 0 then 512 else nat maxSize),
      eb_maxAge = (if maxAge \<le> 0 then 2 * minute else maxAge)\<rparr>"

definition EventBuffer_Push :: "EventBuffer \<Rightarrow> string \<Rightarrow> Event \<Rightarrow> go_panic + EventBuffer" where
  "EventBuffer_Push eb channel e =
     (let rb = (case map_of (eb_channels eb) channel of None \<Rightarrow> newRingBuffer (eb_maxSize eb) | Some rb \<Rightarrow> rb)
      in case ring_push rb e of
           Inl p \<Rightarrow> Inl p
         | Inr rb' \<Rightarrow> Inr (eb\<lparr>eb_channels := AList.update channel rb' (eb_channels eb)\<rparr>))"

definition EventBuffer_Since :: "EventBuffer \<Rightarrow> gotime \<Rightarrow> string \<Rightarrow> string \<Rightarrow> Event list" where
  "EventBuffer_Since eb now channel lastID =
     (case map_of (eb_channels eb) channel of
        None \<Rightarrow> []
      | Some rb \<Rightarrow> ring_since rb lastID (now - eb_maxAge eb))"

section \<open>The contract\<close>

definition last_n :: "nat \<Rightarrow> 'a list \<Rightarrow> 'a list" where
  "last_n n xs = drop (length xs - n) xs"

lemma last_n_snoc:
  assumes "length xs \<le> n" and "0 < n"
  shows "last_n n (xs @ [x]) = (if length xs = n then tl xs @ [x] else xs @ [x])"
  using assms by (auto simp: last_n_def drop_Suc Suc_diff_le)

lemma last_n_last_n: "last_n n (last_n n xs @ ys) = last_n n (xs @ ys)"
proof (cases "length xs \<le> n")
  case False
  then show ?thesis by (auto simp: last_n_def add.commute)
qed (simp add: last_n_def)

locale last_n_log =
  fixes inv :: "'b \<Rightarrow> bool"
    and contents :: "'b \<Rightarrow> 'e list"
    and capacity :: "'b \<Rightarrow> nat"
    and push :: "'b \<Rightarrow> 'e \<Rightarrow> go_panic + 'b"
  assumes push_ok: "inv b \<Longrightarrow> \<exists>b'. push b e = Inr b' \<and> inv b' \<and> capacity b' = capacity b
      \<and> contents b' = last_n (capacity b) (contents b @ [e])"
begin

fun push_all :: "'b \<Rightarrow> 'e list \<Rightarrow> go_panic + 'b" where
  "push_all b [] = Inr b"
| "push_all b (e # es) = (case push b e of Inl p \<Rightarrow> Inl p | Inr b' \<Rightarrow> push_all b' es)"

lemma push_all_contents:
  "inv b \<Longrightarrow> contents b = last_n (capacity b) (contents b) \<Longrightarrow>
   \<exists>b'. push_all b es = Inr b' \<and> inv b' \<and> capacity b' = capacity b
      \<and> contents b' = last_n (capacity b) (contents b @ es)"
proof (induction es arbitrary: b)
  case (Cons e es)
  from push_ok [OF Cons.prems(1)] obtain b1 where
    b1: "push b e = Inr b1" "inv b1" "capacity b1 = capacity b" "contents b1 = last_n (capacity b) (contents b @ [e])"
    by blast
  moreover have "contents b1 = last_n (capacity b1) (contents b1)"
    using b1(3,4) last_n_last_n [of "capacity b" "contents b @ [e]" "[]"] by simp
  ultimately obtain b' where "push_all b1 es = Inr b'" "inv b'" "capacity b' = capacity b1"
    "contents b' = last_n (capacity b1) (contents b1 @ es)"
    using Cons.IH by blast
  with b1 show ?case by (simp add: last_n_last_n)
qed simp

end

section \<open>The ring implements it\<close>

definition ring_inv :: "ringBuffer \<Rightarrow> bool" where
  "ring_inv rb = (rb_cap rb > 0 \<and> length (rb_events rb) = rb_cap rb \<and> rb_start rb < rb_cap rb \<and> rb_count rb \<le> rb_cap rb
     \<and> (\<forall>i < rb_count rb. rb_events rb ! ((rb_start rb + i) mod rb_cap rb) \<noteq> None))"

definition ring_at :: "ringBuffer \<Rightarrow> nat \<Rightarrow> Event" where
  "ring_at rb i = the (rb_events rb ! ((rb_start rb + i) mod rb_cap rb))"

definition ring_contents :: "ringBuffer \<Rightarrow> Event list" where
  "ring_contents rb = map (ring_at rb) [0..<rb_count rb]"

lemma ring_inv_new [simp]: "0 < n \<Longrightarrow> ring_inv (newRingBuffer n)"
  by (simp add: ring_inv_def newRingBuffer_def)

lemma ring_contents_new [simp]: "ring_contents (newRingBuffer n) = []"
  by (simp add: ring_contents_def newRingBuffer_def)

lemma mod_add_neq:
  assumes "i < j" and "j < i + (c::nat)"
  shows "(s + i) mod c \<noteq> (s + j) mod c"
proof
  assume "(s + i) mod c = (s + j) mod c"
  then have "c dvd (s + j) - (s + i)" using assms(1) by (metis add_le_cancel_left less_imp_le mod_eq_dvd_iff_nat)
  then have "c dvd j - i" by simp
  with assms show False by (auto dest: dvd_imp_le)
qed

lemma ring_push_room:
  assumes "ring_inv rb" and "rb_count rb < rb_cap rb"
  shows "\<exists>rb'. ring_push rb e = Inr rb' \<and> ring_inv rb' \<and> rb_cap rb' = rb_cap rb \<and> ring_contents rb' = ring_contents rb @ [e]"
proof -
  let ?pos = "(rb_start rb + rb_count rb) mod rb_cap rb"
  let ?rb' = "rb\<lparr>rb_events := (rb_events rb)[?pos := Some e], rb_count := rb_count rb + 1\<rparr>"
  have pos: "?pos < length (rb_events rb)" using assms by (simp add: ring_inv_def)
  have other: "(rb_start rb + i) mod rb_cap rb \<noteq> ?pos" if "i < rb_count rb" for i
    using mod_add_neq [OF that, of "rb_cap rb" "rb_start rb"] assms(2) by simp
  have "ring_push rb e = Inr ?rb'" using assms pos by (auto simp: ring_push_def ring_inv_def Let_def not_le)
  moreover have "ring_inv ?rb'" using assms pos other by (auto simp: ring_inv_def less_Suc_eq nth_list_update)
  moreover have "ring_contents ?rb' = ring_contents rb @ [e]"
    using pos by (auto simp: ring_contents_def ring_at_def nth_list_update) (metis other)
  ultimately show ?thesis by simp
qed

lemma ring_push_full:
  assumes "ring_inv rb" and "rb_count rb = rb_cap rb"
  shows "\<exists>rb'. ring_push rb e = Inr rb' \<and> ring_inv rb' \<and> rb_cap rb' = rb_cap rb \<and> ring_contents rb' = tl (ring_contents rb) @ [e]"
proof -
  let ?c = "rb_cap rb" and ?s = "rb_start rb"
  let ?rb' = "rb\<lparr>rb_events := (rb_events rb)[?s := Some e], rb_start := (?s + 1) mod ?c\<rparr>"
  have c: "0 < ?c" "?s < ?c" "length (rb_events rb) = ?c" using assms(1) by (simp_all add: ring_inv_def)
  then have "(?s + rb_count rb) mod ?c = ?s" using assms(2) by simp
  with c assms(2) have push: "ring_push rb e = Inr ?rb'" by (simp add: ring_push_def Let_def)
  have idx: "((?s + 1) mod ?c + i) mod ?c = (?s + Suc i) mod ?c" for i by (simp add: mod_simps)
  have old: "(?s + Suc i) mod ?c \<noteq> ?s" if "Suc i < ?c" for i
    using mod_add_neq [of 0 "Suc i" ?c ?s] that c by simp
  have last: "(?s + ?c) mod ?c = ?s" using c by simp
  have slot: "rb_events ?rb' ! (((?s + 1) mod ?c + i) mod ?c) =
      (if Suc i < ?c then rb_events rb ! ((?s + Suc i) mod ?c) else Some e)" if "i < ?c" for i
  proof (cases "Suc i < ?c")
    case True
    have "(?s + Suc i) mod ?c < length (rb_events rb)" using c by simp
    then have "(rb_events rb)[?s := Some e] ! ((?s + Suc i) mod ?c) = rb_events rb ! ((?s + Suc i) mod ?c)"
      using old [OF True] by (metis nth_list_update_neq)
    with True show ?thesis unfolding idx by simp
  next
    case False
    with that have "Suc i = ?c" by simp
    with last c idx [of i] show ?thesis by (simp add: nth_list_update)
  qed
  have "ring_inv ?rb'"
    using assms c slot by (auto simp: ring_inv_def)
  moreover have "ring_contents ?rb' = tl (ring_contents rb) @ [e]"
  proof (rule nth_equalityI)
    show "length (ring_contents ?rb') = length (tl (ring_contents rb) @ [e])" using assms c by (simp add: ring_contents_def)
    fix i assume "i < length (ring_contents ?rb')"
    then have i: "i < ?c" using assms by (simp add: ring_contents_def)
    then show "ring_contents ?rb' ! i = (tl (ring_contents rb) @ [e]) ! i"
      using slot [OF i] assms(2) by (auto simp: ring_contents_def ring_at_def nth_append nth_tl)
  qed
  ultimately show ?thesis using push by simp
qed

lemma length_ring_contents [simp]: "length (ring_contents rb) = rb_count rb"
  by (simp add: ring_contents_def)

lemma ring_push_last_n:
  assumes "ring_inv rb"
  shows "\<exists>rb'. ring_push rb e = Inr rb' \<and> ring_inv rb' \<and> rb_cap rb' = rb_cap rb
    \<and> ring_contents rb' = last_n (rb_cap rb) (ring_contents rb @ [e])"
proof -
  have "rb_count rb \<le> rb_cap rb" "0 < rb_cap rb" using assms by (simp_all add: ring_inv_def)
  then show ?thesis
    using ring_push_room [OF assms] ring_push_full [OF assms] last_n_snoc [of "ring_contents rb" "rb_cap rb" e]
    by (cases "rb_count rb = rb_cap rb") auto
qed

interpretation ring_log: last_n_log ring_inv ring_contents rb_cap ring_push
  by unfold_locales (rule ring_push_last_n)

section \<open>Replay\<close>

text \<open>The events after the last one with the given ID, all of them when there is none.\<close>

fun after_last :: "('a \<Rightarrow> bool) \<Rightarrow> 'a list \<Rightarrow> 'a list" where
  "after_last P [] = []"
| "after_last P (x # xs) = (if \<exists>y \<in> set xs. P y then after_last P xs else if P x then xs else x # xs)"

lemma after_last_none: "\<forall>x \<in> set xs. \<not> P x \<Longrightarrow> after_last P xs = xs"
  by (induction xs) auto

lemma after_last_split: "\<forall>x \<in> set ys. \<not> P x \<Longrightarrow> P y \<Longrightarrow> after_last P (xs @ y # ys) = ys"
  by (induction xs) auto

definition marker_ok :: "string \<Rightarrow> Event list \<Rightarrow> nat option \<Rightarrow> bool" where
  "marker_ok lastID window m = (case m of
      None \<Rightarrow> \<forall>e \<in> set window. ev_ID e \<noteq> lastID
    | Some i \<Rightarrow> i < length window \<and> ev_ID (window ! i) = lastID \<and> (\<forall>e \<in> set (drop (Suc i) window). ev_ID e \<noteq> lastID))"

lemma marker_ok_snoc:
  "marker_ok lastID w m \<Longrightarrow> marker_ok lastID (w @ [e]) (if ev_ID e = lastID then Some (length w) else m)"
  by (auto simp: marker_ok_def nth_append split: option.splits)

lemma since_loop_spec:
  assumes "ring_inv rb" and "i + n = rb_count rb" and "lastID \<noteq> []" and "marker_ok lastID w m"
  shows "\<exists>m'. since_loop rb lastID cutoff i n w m =
      (w @ filter (\<lambda>e. \<not> too_old cutoff e) (map (ring_at rb) [i..<rb_count rb]), m')
    \<and> marker_ok lastID (w @ filter (\<lambda>e. \<not> too_old cutoff e) (map (ring_at rb) [i..<rb_count rb])) m'"
  using assms(2,4)
proof (induction n arbitrary: i w m)
  case (Suc n)
  have slot: "rb_events rb ! ((rb_start rb + i) mod rb_cap rb) = Some (ring_at rb i)"
    using assms(1) Suc.prems(1) by (auto simp: ring_inv_def ring_at_def)
  have upt: "[i..<rb_count rb] = i # [Suc i..<rb_count rb]" using Suc.prems(1) by (simp add: upt_conv_Cons)
  show ?case
  proof (cases "too_old cutoff (ring_at rb i)")
    case True
    with Suc.IH [of "Suc i" w m] Suc.prems slot upt show ?thesis by simp
  next
    case False
    let ?m = "if ev_ID (ring_at rb i) = lastID then Some (length w) else m"
    have step: "since_loop rb lastID cutoff i (Suc n) w m = since_loop rb lastID cutoff (Suc i) n (w @ [ring_at rb i]) ?m"
      using False slot assms(3) by (simp add: Let_def)
    have "Suc i + n = rb_count rb" using Suc.prems(1) by simp
    from Suc.IH [OF this marker_ok_snoc [OF Suc.prems(2)]] False
    show ?thesis unfolding step upt by simp
  qed
qed simp

lemma since_loop_all:
  assumes "ring_inv rb" and "i + n = rb_count rb"
  shows "fst (since_loop rb [] cutoff i n w m) = w @ filter (\<lambda>e. \<not> too_old cutoff e) (map (ring_at rb) [i..<rb_count rb])"
  using assms(2)
proof (induction n arbitrary: i w m)
  case (Suc n)
  have slot: "rb_events rb ! ((rb_start rb + i) mod rb_cap rb) = Some (ring_at rb i)"
    using assms(1) Suc.prems by (auto simp: ring_inv_def ring_at_def)
  have "[i..<rb_count rb] = i # [Suc i..<rb_count rb]" using Suc.prems by (simp add: upt_conv_Cons)
  then show ?case using Suc slot by (simp add: Let_def)
qed simp

lemma ring_since_spec:
  assumes "ring_inv rb"
  shows "ring_since rb lastID cutoff =
    (let w = filter (\<lambda>e. \<not> too_old cutoff e) (ring_contents rb)
     in if lastID = [] then w else after_last (\<lambda>e. ev_ID e = lastID) w)"
proof (cases "lastID = []")
  case True
  then show ?thesis using since_loop_all [OF assms, of 0 "rb_count rb" cutoff "[]" None]
    by (simp add: ring_since_def ring_contents_def Let_def case_prod_beta)
next
  case False
  let ?w = "filter (\<lambda>e. \<not> too_old cutoff e) (ring_contents rb)"
  from since_loop_spec [OF assms, of 0 "rb_count rb" lastID "[]" None cutoff] False
  obtain m where m: "since_loop rb lastID cutoff 0 (rb_count rb) [] None = (?w, m)" "marker_ok lastID ?w m"
    by (auto simp: marker_ok_def ring_contents_def)
  show ?thesis
  proof (cases m)
    case None
    with m False show ?thesis by (simp add: ring_since_def marker_ok_def after_last_none)
  next
    case (Some i)
    with m(2) have i: "i < length ?w" "ev_ID (?w ! i) = lastID" "\<forall>e \<in> set (drop (Suc i) ?w). ev_ID e \<noteq> lastID"
      by (auto simp: marker_ok_def)
    have "?w = take i ?w @ ?w ! i # drop (Suc i) ?w" using i(1) by (rule id_take_nth_drop)
    then have "after_last (\<lambda>e. ev_ID e = lastID) ?w = drop (Suc i) ?w"
      using after_last_split [of "drop (Suc i) ?w" "\<lambda>e. ev_ID e = lastID" "?w ! i" "take i ?w"] i by metis
    with m Some False show ?thesis by (simp add: ring_since_def)
  qed
qed

section \<open>Properties\<close>

text \<open>Pushing a list of events to one channel of a buffer.\<close>

fun buffer_push_all :: "EventBuffer \<Rightarrow> string \<Rightarrow> Event list \<Rightarrow> go_panic + EventBuffer" where
  "buffer_push_all eb channel [] = Inr eb"
| "buffer_push_all eb channel (e # es) =
     (case EventBuffer_Push eb channel e of Inl p \<Rightarrow> Inl p | Inr eb' \<Rightarrow> buffer_push_all eb' channel es)"

lemma buffer_push_all_ring:
  assumes "es \<noteq> []"
  shows "buffer_push_all eb channel es =
    (case ring_log.push_all (case map_of (eb_channels eb) channel of None \<Rightarrow> newRingBuffer (eb_maxSize eb) | Some rb \<Rightarrow> rb) es of
       Inl p \<Rightarrow> Inl p | Inr rb \<Rightarrow> Inr (eb\<lparr>eb_channels := AList.update channel rb (eb_channels eb)\<rparr>))"
  using assms
proof (induction es arbitrary: eb)
  case (Cons e es)
  then show ?case
    by (cases "es = []") (auto simp: EventBuffer_Push_def Let_def split: sum.splits)
qed simp

text \<open>
  C16. The event buffer keeps, per channel, exactly the last \<open>maxSize\<close> events in order, never panics
  and serves a reconnecting client as follows: of the kept events younger than \<open>maxAge\<close> it replays
  those after the client's last event, and all of them when that event is no longer there. So a
  kept event published after the client's last one is never missed.
\<close>

theorem event_buffer_replay:
  assumes "es \<noteq> []" and "lastID \<noteq> []"
  shows "\<exists>eb. buffer_push_all (NewEventBuffer mx age) channel es = Inr eb
    \<and> EventBuffer_Since eb now channel lastID =
        after_last (\<lambda>e. ev_ID e = lastID)
          (filter (\<lambda>e. \<not> too_old (now - eb_maxAge (NewEventBuffer mx age)) e)
             (last_n (eb_maxSize (NewEventBuffer mx age)) es))"
proof -
  let ?eb = "NewEventBuffer mx age"
  have "0 < eb_maxSize ?eb" by (simp add: NewEventBuffer_def)
  then have inv: "ring_inv (newRingBuffer (eb_maxSize ?eb))" by simp
  have cap: "rb_cap (newRingBuffer n) = n" for n by (simp add: newRingBuffer_def)
  from ring_log.push_all_contents [OF inv, of es] obtain rb where rb:
    "ring_log.push_all (newRingBuffer (eb_maxSize ?eb)) es = Inr rb" "ring_inv rb"
    "ring_contents rb = last_n (eb_maxSize ?eb) es"
    by (auto simp: cap last_n_def)
  have "eb_channels ?eb = []" by (simp add: NewEventBuffer_def)
  then have "buffer_push_all ?eb channel es = Inr (?eb\<lparr>eb_channels := [(channel, rb)]\<rparr>)"
    using buffer_push_all_ring [OF assms(1), of ?eb channel] rb(1) by simp
  moreover have "EventBuffer_Since (?eb\<lparr>eb_channels := [(channel, rb)]\<rparr>) now channel lastID =
      ring_since rb lastID (now - eb_maxAge ?eb)"
    by (simp add: EventBuffer_Since_def)
  ultimately show ?thesis
    using assms(2) rb(3) by (auto simp: ring_since_spec [OF rb(2)] Let_def)
qed

definition demo_event :: "string \<Rightarrow> Event" where
  "demo_event i = \<lparr>ev_ID = i, ev_Type = ''t'', ev_Channel = ''c'', ev_Payload = [], ev_Params = [],
     ev_ConnID = [], ev_UserID = 0, ev_Ts = 0\<rparr>"

theorem event_buffer_replay_witness:
  "\<exists>eb. buffer_push_all (NewEventBuffer 3 0) ''c'' (map demo_event [''1'', ''2'', ''3'', ''4'']) = Inr eb
    \<and> EventBuffer_Since eb 0 ''c'' ''3'' = [demo_event ''4''] \<and> EventBuffer_Since eb 0 ''c'' ''1'' = map demo_event [''2'', ''3'', ''4'']"
proof -
  let ?es = "map demo_event [''1'', ''2'', ''3'', ''4'']"
  have v: "last_n (eb_maxSize (NewEventBuffer 3 0)) ?es = map demo_event [''2'', ''3'', ''4'']"
    "\<not> too_old t (demo_event i)" for t i
    by (simp_all add: NewEventBuffer_def last_n_def too_old_def demo_event_def)
  from event_buffer_replay [of ?es "''3''" 3 0 "''c''" 0] event_buffer_replay [of ?es "''1''" 3 0 "''c''" 0] v
  show ?thesis by (auto simp: demo_event_def)
qed

end
