(* ===== verification/Channel_Router.thy ===== *)
theory Channel_Router
  imports Oni_Prelude
begin

text \<open>
  Model of \<open>framework/realtime/router.go\<close>: channel patterns such as \<open>chat.{room}\<close>, their matching
  and the first-match dispatch table. Handlers are user code and stand as numbers.
\<close>

section \<open>Data\<close>

record routeSegment =
  rs_lit :: string
  rs_param :: string

record channelRoute =
  cr_pattern :: string
  cr_segments :: "routeSegment list"
  cr_handler :: nat

record eventRouter =
  er_routes :: "channelRoute list"

section \<open>Operations\<close>

definition channel_segment :: "string \<Rightarrow> routeSegment" where
  "channel_segment p =
     (if length p > 2 \<and> hd p = CHR ''{'' \<and> last p = CHR ''}''
      then \<lparr>rs_lit = [], rs_param = butlast (tl p)\<rparr> else \<lparr>rs_lit = p, rs_param = []\<rparr>)"

definition parseChannelPattern :: "string \<Rightarrow> routeSegment list" where
  "parseChannelPattern pattern = map channel_segment (SplitOn CHR ''.'' pattern)"

fun channel_match_loop :: "routeSegment list \<Rightarrow> string list \<Rightarrow> (string, string) gomap \<Rightarrow> (string, string) gomap option" where
  "channel_match_loop (ps # pss) (c # cs) params =
     (if rs_param ps \<noteq> [] then channel_match_loop pss cs (AList.update (rs_param ps) c params)
      else if rs_lit ps \<noteq> c then None
      else channel_match_loop pss cs params)"
| "channel_match_loop _ _ params = Some params"

definition channelRoute_match :: "channelRoute \<Rightarrow> string \<Rightarrow> (string, string) gomap option" where
  "channelRoute_match r channel =
     (let chSegs = SplitOn CHR ''.'' channel
      in if length (cr_segments r) \<noteq> length chSegs then None else channel_match_loop (cr_segments r) chSegs [])"

definition newEventRouter :: eventRouter where
  "newEventRouter = \<lparr>er_routes = []\<rparr>"

definition eventRouter_Register :: "eventRouter \<Rightarrow> string \<Rightarrow> nat \<Rightarrow> eventRouter" where
  "eventRouter_Register er pattern fn =
     er\<lparr>er_routes := er_routes er @ [\<lparr>cr_pattern = pattern, cr_segments = parseChannelPattern pattern, cr_handler = fn\<rparr>]\<rparr>"

definition eventRouter_Match :: "eventRouter \<Rightarrow> string \<Rightarrow> (nat \<times> (string, string) gomap) option" where
  "eventRouter_Match er channel =
     first_some (\<lambda>r. case channelRoute_match r channel of
                      None \<Rightarrow> None | Some params \<Rightarrow> Some (cr_handler r, params)) (er_routes er)"

section \<open>What a pattern means\<close>

text \<open>The channel obtained from a pattern by filling its parameters.\<close>

definition seg_text :: "(string \<Rightarrow> string) \<Rightarrow> routeSegment \<Rightarrow> string" where
  "seg_text env ps = (if rs_param ps \<noteq> [] then env (rs_param ps) else rs_lit ps)"

definition fill_channel :: "routeSegment list \<Rightarrow> (string \<Rightarrow> string) \<Rightarrow> string" where
  "fill_channel segs env = Join ''.'' (map (seg_text env) segs)"

definition seg_params :: "routeSegment list \<Rightarrow> string list" where
  "seg_params segs = filter (\<lambda>p. p \<noteq> []) (map rs_param segs)"

lemma seg_params_Nil [simp]: "seg_params [] = []"
  by (simp add: seg_params_def)

lemma seg_params_Cons:
  "seg_params (s # ss) = (if rs_param s \<noteq> [] then rs_param s # seg_params ss else seg_params ss)"
  by (simp add: seg_params_def)

lemma match_loop_filled:
  "channel_match_loop segs (map (seg_text env) segs) acc = Some m \<Longrightarrow>
   map_of m p = (if p \<in> set (seg_params segs) then Some (env p) else map_of acc p)"
  by (induction segs arbitrary: acc) (auto simp: seg_text_def seg_params_Cons split: if_splits)

lemma match_loop_fills: "\<exists>m. channel_match_loop segs (map (seg_text env) segs) acc = Some m"
  by (induction segs arbitrary: acc) (auto simp: seg_text_def)

lemma match_loop_keeps:
  "channel_match_loop segs cs acc = Some m \<Longrightarrow> length segs = length cs \<Longrightarrow> p \<notin> set (seg_params segs) \<Longrightarrow>
   map_of m p = map_of acc p"
  by (induction segs cs acc rule: channel_match_loop.induct) (auto simp: seg_params_Cons split: if_splits)

lemma match_loop_sound:
  "channel_match_loop segs cs acc = Some m \<Longrightarrow> length segs = length cs \<Longrightarrow> distinct (seg_params segs) \<Longrightarrow>
   map (seg_text (\<lambda>p. the (map_of m p))) segs = cs"
proof (induction segs cs acc rule: channel_match_loop.induct)
  case (1 ps pss c cs params)
  show ?case
  proof (cases "rs_param ps \<noteq> []")
    case True
    with "1.prems" have m: "channel_match_loop pss cs (AList.update (rs_param ps) c params) = Some m" by simp
    from True "1.prems" have "rs_param ps \<notin> set (seg_params pss)" by (simp add: seg_params_Cons)
    with match_loop_keeps [OF m] "1.prems" have "map_of m (rs_param ps) = Some c" by simp
    with "1.IH"(1) [OF True m] "1.prems" True show ?thesis by (simp add: seg_text_def seg_params_Cons)
  next
    case False
    with "1.prems" "1.IH"(2) show ?thesis by (auto simp: seg_text_def seg_params_Cons split: if_splits)
  qed
qed auto

lemma no_dot_literals: "s \<in> set (parseChannelPattern p) \<Longrightarrow> CHR ''.'' \<notin> set (rs_lit s)"
  using SplitOn_parts_no_sep [of _ "CHR ''.''" p] by (auto simp: parseChannelPattern_def channel_segment_def)

section \<open>Properties\<close>

text \<open>
  Matching inverts filling: a channel matches a pattern with distinct parameters and captures
  \<open>m\<close> only if filling the pattern with \<open>m\<close> gives the channel back; and every filling of a pattern
  with values free of dots matches and captures exactly those values.
\<close>

theorem channel_match_roundtrip:
  assumes "cr_segments r = parseChannelPattern pat"
  shows "(channelRoute_match r ch = Some m \<longrightarrow> distinct (seg_params (cr_segments r)) \<longrightarrow>
            fill_channel (cr_segments r) (\<lambda>p. the (map_of m p)) = ch)
    \<and> ((\<forall>p. CHR ''.'' \<notin> set (env p)) \<longrightarrow>
        (\<exists>m'. channelRoute_match r (fill_channel (cr_segments r) env) = Some m'
           \<and> (\<forall>p. map_of m' p = (if p \<in> set (seg_params (cr_segments r)) then Some (env p) else None))))"
proof (intro conjI impI)
  assume "channelRoute_match r ch = Some m" and d: "distinct (seg_params (cr_segments r))"
  then have l: "length (cr_segments r) = length (SplitOn CHR ''.'' ch)"
    and m: "channel_match_loop (cr_segments r) (SplitOn CHR ''.'' ch) [] = Some m"
    by (auto simp: channelRoute_match_def Let_def split: if_splits)
  from match_loop_sound [OF m l d] show "fill_channel (cr_segments r) (\<lambda>p. the (map_of m p)) = ch"
    by (simp add: fill_channel_def Join_SplitOn)
next
  assume env: "\<forall>p. CHR ''.'' \<notin> set (env p)"
  let ?ws = "map (seg_text env) (cr_segments r)"
  have "?ws \<noteq> []" using assms by (simp add: parseChannelPattern_def)
  moreover have "\<forall>w \<in> set ?ws. CHR ''.'' \<notin> set w"
    using env assms no_dot_literals by (auto simp: seg_text_def)
  ultimately have "SplitOn CHR ''.'' (fill_channel (cr_segments r) env) = ?ws"
    unfolding fill_channel_def by (rule SplitOn_Join)
  then have eq: "channelRoute_match r (fill_channel (cr_segments r) env) = channel_match_loop (cr_segments r) ?ws []"
    by (simp add: channelRoute_match_def)
  from match_loop_fills [of "cr_segments r" env "[]"] obtain m' where m': "channel_match_loop (cr_segments r) ?ws [] = Some m'"
    by blast
  with match_loop_filled [OF m'] show "\<exists>m'. channelRoute_match r (fill_channel (cr_segments r) env) = Some m'
           \<and> (\<forall>p. map_of m' p = (if p \<in> set (seg_params (cr_segments r)) then Some (env p) else None))"
    unfolding eq by auto
qed

theorem channel_match_roundtrip_witness:
  "\<exists>m'. channelRoute_match \<lparr>cr_pattern = ''chat.{room}'', cr_segments = parseChannelPattern ''chat.{room}'', cr_handler = 0\<rparr>
       (fill_channel (parseChannelPattern ''chat.{room}'') (\<lambda>_. ''lobby'')) = Some m' \<and> map_of m' ''room'' = Some ''lobby''"
proof -
  have "''room'' \<in> set (seg_params (parseChannelPattern ''chat.{room}''))" by code_simp
  with channel_match_roundtrip [of "\<lparr>cr_pattern = ''chat.{room}'', cr_segments = parseChannelPattern ''chat.{room}'', cr_handler = 0\<rparr>"
      "''chat.{room}''" "''x''" "[]" "\<lambda>_. ''lobby''"]
  show ?thesis by auto
qed

text \<open>
  Dispatch is first match: the router returns the handler of the earliest registered pattern
  that matches the channel, with what that pattern captured, and nothing exactly when none matches.
\<close>

theorem eventRouter_Match_first:
  "(eventRouter_Match er ch = Some (h, params) \<longleftrightarrow>
      (\<exists>before r after. er_routes er = before @ r # after \<and> (\<forall>q \<in> set before. channelRoute_match q ch = None)
         \<and> channelRoute_match r ch = Some params \<and> cr_handler r = h))
   \<and> (eventRouter_Match er ch = None \<longleftrightarrow> (\<forall>r \<in> set (er_routes er). channelRoute_match r ch = None))"
  unfolding eventRouter_Match_def first_some_Some first_some_None
  by (fastforce split: option.splits)

end
