(* ===== verification/Realtime_Hub.thy ===== *)
theory Realtime_Hub
  imports Presence Event_Ring Channel_Router
begin

text \<open>
  Model of \<open>framework/realtime/hub.go\<close>, of the connection object of \<open>framework/realtime/conn.go\<close> and of
  the constructors of \<open>framework/realtime/event.go\<close>. Connection objects live in \<open>h_objs\<close>; \<open>h_conns\<close> are the
  registered IDs. User code (channel handlers, connect and disconnect hooks) and the JSON codec come
  in the record \<open>hub_env\<close>: a callback may do anything to the hub and returns an error text or nothing.
  The socket itself is outside: the model ends at the connection's send queue, and \<open>dispatch\<close> starts
  from the bytes of one message.

  Event objects are shared pointers in the source, and \<open>Encode\<close> writes the time stamp of an event
  that has none. The model writes it to the copies that the send queues and the resume buffer hold.
\<close>

section \<open>Data\<close>

record Conn =
  cn_id :: string
  cn_send :: "string gochan"
  cn_UserID :: int
  cn_lastEventID :: string
  cn_subs :: "string list"
  cn_meta :: "(string, gval) gomap"
  cn_cancelled :: bool

record Hub =
  h_mem :: "Store option"
  h_router :: eventRouter
  h_buffer :: EventBuffer
  h_objs :: "(string, Conn) gomap"
  h_conns :: "string list"
  h_connectHandlers :: "nat list"
  h_disconnectHandlers :: "nat list"
  h_presencePatterns :: "string list"
  h_memorySub :: "nat option"
  h_eventCounter :: nat
  h_connCounter :: nat
  h_done :: bool
  h_panic :: "go_panic option"

record hub_env =
  env_handler :: "nat \<Rightarrow> Hub \<Rightarrow> string \<Rightarrow> Event \<Rightarrow> string option \<times> Hub"
  env_connect :: "nat \<Rightarrow> Hub \<Rightarrow> string \<Rightarrow> string option \<times> Hub"
  env_disconnect :: "nat \<Rightarrow> Hub \<Rightarrow> string \<Rightarrow> Hub"
  env_marshal :: "Event \<Rightarrow> string option"
  env_unmarshal :: "string \<Rightarrow> Event option"
  env_marshal_any :: "gval \<Rightarrow> string option"
  env_quote :: "string \<Rightarrow> string"
  env_presence_conv :: pi_conv

definition sendBufSize :: nat where "sendBufSize = 256"

section \<open>Connections\<close>

definition newConn :: "string \<Rightarrow> int \<Rightarrow> string \<Rightarrow> Conn" where
  "newConn connid userID lastEventID =
     \<lparr>cn_id = connid, cn_send = chan_make sendBufSize, cn_UserID = userID, cn_lastEventID = lastEventID,
      cn_subs = [], cn_meta = [], cn_cancelled = False\<rparr>"

definition Conn_Set :: "Conn \<Rightarrow> string \<Rightarrow> gval \<Rightarrow> Conn" where
  "Conn_Set c key value = c\<lparr>cn_meta := AList.update key value (cn_meta c)\<rparr>"

definition Conn_Get :: "Conn \<Rightarrow> string \<Rightarrow> gval option" where
  "Conn_Get c key = map_of (cn_meta c) key"

definition Conn_Subscribe :: "Conn \<Rightarrow> string \<Rightarrow> Conn" where
  "Conn_Subscribe c channel = c\<lparr>cn_subs := (if channel \<in> set (cn_subs c) then cn_subs c else cn_subs c @ [channel])\<rparr>"


definition Conn_IsSubscribed :: "Conn \<Rightarrow> string \<Rightarrow> bool" where
  "Conn_IsSubscribed c channel = (channel \<in> set (cn_subs c))"

definition Conn_Close :: "Conn \<Rightarrow> Conn" where
  "Conn_Close c = c\<lparr>cn_cancelled := True\<rparr>"

section \<open>Events\<close>

definition stamp :: "gotime \<Rightarrow> Event \<Rightarrow> Event" where
  "stamp now e = (if ev_Ts e = 0 then e\<lparr>ev_Ts := unix_seconds now\<rparr> else e)"

definition Event_Encode :: "hub_env \<Rightarrow> gotime \<Rightarrow> Event \<Rightarrow> string option" where
  "Event_Encode env now e = env_marshal env (stamp now e)"

definition blank_event :: "string \<Rightarrow> gotime \<Rightarrow> Event" where
  "blank_event ty now = \<lparr>ev_ID = [], ev_Type = ty, ev_Channel = [], ev_Payload = [], ev_Params = [],
     ev_ConnID = [], ev_UserID = 0, ev_Ts = unix_seconds now\<rparr>"

text \<open>\<open>NewEvent\<close>; the counter advances only when the payload could be marshalled.\<close>

definition NewEvent :: "hub_env \<Rightarrow> gotime \<Rightarrow> nat \<Rightarrow> string \<Rightarrow> string \<Rightarrow> gval \<Rightarrow> (Event \<times> nat) option" where
  "NewEvent env now counter eventType channel payload =
     (case env_marshal_any env payload of
        None \<Rightarrow> None
      | Some b \<Rightarrow> (let (i, counter') = newEventID now counter
                   in Some ((blank_event eventType now)\<lparr>ev_ID := i, ev_Channel := channel, ev_Payload := b\<rparr>, counter')))"

section \<open>Sending\<close>

text \<open>A non-blocking send on the connection's queue; the queue is never closed by the source.\<close>

definition queue_bytes :: "Conn \<Rightarrow> string \<Rightarrow> bool \<times> Conn" where
  "queue_bytes c b =
     (case chan_trySend (cn_send c) b of Inl _ \<Rightarrow> (False, c) | Inr (ch, ok) \<Rightarrow> (ok, c\<lparr>cn_send := ch\<rparr>))"

definition Conn_Send :: "hub_env \<Rightarrow> gotime \<Rightarrow> Conn \<Rightarrow> Event \<Rightarrow> bool \<times> Conn" where
  "Conn_Send env now c e = (case Event_Encode env now e of None \<Rightarrow> (False, c) | Some b \<Rightarrow> queue_bytes c b)"

definition Conn_sendError :: "hub_env \<Rightarrow> gotime \<Rightarrow> Conn \<Rightarrow> string \<Rightarrow> Conn" where
  "Conn_sendError env now c msg =
     (let e = (blank_event ''oni:error'' now)\<lparr>ev_Payload := ''{\"error\":'' @ env_quote env msg @ ''}''\<rparr>;
          b = (case Event_Encode env now e of None \<Rightarrow> [] | Some b \<Rightarrow> b)
      in snd (queue_bytes c b))"

text \<open>Run a method on the connection object behind a pointer.\<close>

definition on_conn :: "Hub \<Rightarrow> string \<Rightarrow> (Conn \<Rightarrow> Conn) \<Rightarrow> Hub" where
  "on_conn h i f = (case map_of (h_objs h) i of None \<Rightarrow> h | Some c \<Rightarrow> h\<lparr>h_objs := AList.update i (f c) (h_objs h)\<rparr>)"

definition hub_send :: "hub_env \<Rightarrow> gotime \<Rightarrow> Hub \<Rightarrow> string \<Rightarrow> Event \<Rightarrow> Hub" where
  "hub_send env now h i e = on_conn h i (\<lambda>c. snd (Conn_Send env now c e))"

definition hub_sendError :: "hub_env \<Rightarrow> gotime \<Rightarrow> Hub \<Rightarrow> string \<Rightarrow> string \<Rightarrow> Hub" where
  "hub_sendError env now h i msg = on_conn h i (\<lambda>c. Conn_sendError env now c msg)"

definition isSubscribed :: "Hub \<Rightarrow> string \<Rightarrow> string \<Rightarrow> bool" where
  "isSubscribed h channel i = (case map_of (h_objs h) i of None \<Rightarrow> False | Some c \<Rightarrow> Conn_IsSubscribed c channel)"

definition pushToChannel :: "hub_env \<Rightarrow> gotime \<Rightarrow> Hub \<Rightarrow> string \<Rightarrow> Event \<Rightarrow> Hub" where
  "pushToChannel env now h channel e =
     foldl (\<lambda>h i. hub_send env now h i e) h (filter (isSubscribed h channel) (h_conns h))"

section \<open>Construction and registration\<close>

text \<open>Handler 0 of the store's pub/sub stands for \<open>handleRemoteBroadcast\<close>.\<close>

definition Hub_New :: "Store option \<Rightarrow> int \<Rightarrow> duration \<Rightarrow> Hub" where
  "Hub_New mem bufSize bufAge =
     (let (sub, mem') = (case mem of None \<Rightarrow> (None, None)
                         | Some s \<Rightarrow> (let (i, s') = Store_Subscribe s ''oni:broadcast:**'' 0 in (Some i, Some s')))
      in \<lparr>h_mem = mem', h_router = newEventRouter,
          h_buffer = NewEventBuffer (if bufSize \<le> 0 then 512 else bufSize) (if bufAge \<le> 0 then 2 * minute else bufAge),
          h_objs = [], h_conns = [], h_connectHandlers = [], h_disconnectHandlers = [], h_presencePatterns = [],
          h_memorySub = sub, h_eventCounter = 0, h_connCounter = 0, h_done = False, h_panic = None\<rparr>)"

definition Hub_Channel :: "Hub \<Rightarrow> string \<Rightarrow> nat \<Rightarrow> Hub" where
  "Hub_Channel h pattern fn = h\<lparr>h_router := eventRouter_Register (h_router h) pattern fn\<rparr>"

definition Hub_Presence :: "Hub \<Rightarrow> string \<Rightarrow> Hub" where
  "Hub_Presence h pattern = h\<lparr>h_presencePatterns := h_presencePatterns h @ [pattern]\<rparr>"

definition Hub_OnConnect :: "Hub \<Rightarrow> nat \<Rightarrow> Hub" where
  "Hub_OnConnect h fn = h\<lparr>h_connectHandlers := h_connectHandlers h @ [fn]\<rparr>"

definition Hub_OnDisconnect :: "Hub \<Rightarrow> nat \<Rightarrow> Hub" where
  "Hub_OnDisconnect h fn = h\<lparr>h_disconnectHandlers := h_disconnectHandlers h @ [fn]\<rparr>"

definition hub_register :: "Hub \<Rightarrow> Conn \<Rightarrow> Hub" where
  "hub_register h c = h\<lparr>h_objs := AList.update (cn_id c) c (h_objs h),
     h_conns := (if cn_id c \<in> set (h_conns h) then h_conns h else h_conns h @ [cn_id c])\<rparr>"

definition hub_unregister :: "hub_env \<Rightarrow> gotime \<Rightarrow> Hub \<Rightarrow> string \<Rightarrow> Hub" where
  "hub_unregister env now h i =
     (let h1 = h\<lparr>h_conns := filter (\<lambda>j. j \<noteq> i) (h_conns h)\<rparr>;
          h2 = (case h_mem h1 of None \<Rightarrow> h1 | Some mem \<Rightarrow> h1\<lparr>h_mem := Some (Presence_LeaveAll mem now i)\<rparr>)
      in foldl (\<lambda>h fn. env_disconnect env fn h i) h2 (h_disconnectHandlers h2))"

section \<open>Presence\<close>



definition Hub_RoomSize :: "hub_env \<Rightarrow> gotime \<Rightarrow> Hub \<Rightarrow> string \<Rightarrow> nat \<times> Hub" where
  "Hub_RoomSize env now h channel =
     (case h_mem h of
        Some mem \<Rightarrow> (let (n, mem') = Presence_Count (env_presence_conv env) mem now channel in (n, h\<lparr>h_mem := Some mem'\<rparr>))
      | None \<Rightarrow> (length (filter (isSubscribed h channel) (h_conns h)), h))"

definition Hub_Members :: "hub_env \<Rightarrow> gotime \<Rightarrow> Hub \<Rightarrow> string \<Rightarrow> PresenceInfo list \<times> Hub" where
  "Hub_Members env now h channel =
     (case h_mem h of
        Some mem \<Rightarrow> (let (ms, mem') = Presence_Members (env_presence_conv env) mem now channel in (ms, h\<lparr>h_mem := Some mem'\<rparr>))
      | None \<Rightarrow> ([], h))"

section \<open>Broadcast\<close>

definition buffer_event :: "Hub \<Rightarrow> string \<Rightarrow> Event \<Rightarrow> Hub" where
  "buffer_event h channel e =
     (case EventBuffer_Push (h_buffer h) channel e of
        Inl p \<Rightarrow> h\<lparr>h_panic := Some p\<rparr>
      | Inr eb \<Rightarrow> h\<lparr>h_buffer := eb\<rparr>)"

definition publish_remote :: "hub_env \<Rightarrow> gotime \<Rightarrow> Hub \<Rightarrow> string \<Rightarrow> Event \<Rightarrow> Hub" where
  "publish_remote env now h channel e =
     (case h_mem h of
        None \<Rightarrow> h
      | Some mem \<Rightarrow>
          h\<lparr>h_mem := Some (Store_Publish mem (''oni:broadcast:'' @ channel)
              (GBytes (case Event_Encode env now e of None \<Rightarrow> [] | Some b \<Rightarrow> b)))\<rparr>)"

definition encoded_somewhere :: "Hub \<Rightarrow> string \<Rightarrow> bool" where
  "encoded_somewhere h channel = (h_mem h \<noteq> None \<or> filter (isSubscribed h channel) (h_conns h) \<noteq> [])"

definition Hub_BroadcastEvent :: "hub_env \<Rightarrow> gotime \<Rightarrow> Hub \<Rightarrow> string \<Rightarrow> Event \<Rightarrow> Hub" where
  "Hub_BroadcastEvent env now h channel e =
     (let (e1, h1) = (if ev_ID e = [] then (let (i, n) = newEventID now (h_eventCounter h)
                                            in (e\<lparr>ev_ID := i\<rparr>, h\<lparr>h_eventCounter := n\<rparr>))
                      else (e, h));
          h2 = buffer_event h1 channel (if encoded_somewhere h1 channel then stamp now e1 else e1);
          h3 = pushToChannel env now h2 channel e1
      in publish_remote env now h3 channel e1)"

definition Hub_Broadcast :: "hub_env \<Rightarrow> gotime \<Rightarrow> Hub \<Rightarrow> string \<Rightarrow> gval \<Rightarrow> bool \<times> Hub" where
  "Hub_Broadcast env now h channel payload =
     (case NewEvent env now (h_eventCounter h) ''broadcast'' channel payload of
        None \<Rightarrow> (False, h)
      | Some (e, n) \<Rightarrow>
          (let (i, n') = newEventID now n;
               e1 = e\<lparr>ev_ID := i\<rparr>;
               h1 = buffer_event (h\<lparr>h_eventCounter := n'\<rparr>) channel
                      (if encoded_somewhere h channel then stamp now e1 else e1);
               h2 = pushToChannel env now h1 channel e1
           in (True, publish_remote env now h2 channel e1)))"

definition Hub_Push :: "hub_env \<Rightarrow> gotime \<Rightarrow> Hub \<Rightarrow> string \<Rightarrow> Event \<Rightarrow> bool \<times> Hub" where
  "Hub_Push env now h connID e =
     (if connID \<notin> set (h_conns h) then (False, h)
      else case map_of (h_objs h) connID of
             None \<Rightarrow> (False, h)
           | Some c \<Rightarrow> (fst (Conn_Send env now c e), hub_send env now h connID e))"

text \<open>The subscription handler on the memory store for broadcasts of other nodes.\<close>

definition handleRemoteBroadcast :: "hub_env \<Rightarrow> gotime \<Rightarrow> Hub \<Rightarrow> string \<Rightarrow> gval \<Rightarrow> Hub" where
  "handleRemoteBroadcast env now h topic payload =
     (let channel = (if length topic > length ''oni:broadcast:'' then drop (length ''oni:broadcast:'') topic else []);
          b = (case payload of GBytes v \<Rightarrow> Some v | GString v \<Rightarrow> Some v | v \<Rightarrow> env_marshal_any env v)
      in case Option.bind b (env_unmarshal env) of
           None \<Rightarrow> h
         | Some e \<Rightarrow> pushToChannel env now h channel (e\<lparr>ev_Channel := channel\<rparr>))"

section \<open>Replay and dispatch\<close>

definition stamp_buffered :: "gotime \<Rightarrow> string \<Rightarrow> Event list \<Rightarrow> Hub \<Rightarrow> Hub" where
  "stamp_buffered now ch sent h =
     (case map_of (eb_channels (h_buffer h)) ch of
        None \<Rightarrow> h
      | Some rb \<Rightarrow>
          h\<lparr>h_buffer := (h_buffer h)\<lparr>eb_channels := AList.update ch
              (rb\<lparr>rb_events := map (map_option (\<lambda>e. if e \<in> set sent then stamp now e else e)) (rb_events rb)\<rparr>)
              (eb_channels (h_buffer h))\<rparr>\<rparr>)"

definition replay_channel :: "hub_env \<Rightarrow> gotime \<Rightarrow> string \<Rightarrow> string \<Rightarrow> Hub \<Rightarrow> string \<Rightarrow> Hub" where
  "replay_channel env now i lastEventID h ch =
     (let missed = EventBuffer_Since (h_buffer h) now ch lastEventID
      in stamp_buffered now ch missed (foldl (\<lambda>h e. hub_send env now h i e) h missed))"

definition replayMissed :: "hub_env \<Rightarrow> gotime \<Rightarrow> Hub \<Rightarrow> string \<Rightarrow> string \<Rightarrow> Hub" where
  "replayMissed env now h i lastEventID =
     foldl (replay_channel env now i lastEventID) h (case map_of (h_objs h) i of None \<Rightarrow> [] | Some c \<Rightarrow> cn_subs c)"





section \<open>Connecting and shutting down\<close>

fun run_connect_hooks :: "hub_env \<Rightarrow> gotime \<Rightarrow> nat list \<Rightarrow> Hub \<Rightarrow> string \<Rightarrow> bool \<times> Hub" where
  "run_connect_hooks env now [] h i = (True, h)"
| "run_connect_hooks env now (fn # fns) h i =
     (case env_connect env fn h i of
        (Some err, h1) \<Rightarrow> (False, hub_unregister env now (hub_sendError env now h1 i err) i)
      | (None, h1) \<Rightarrow> run_connect_hooks env now fns h1 i)"

text \<open>
  \<open>ServeHTTP\<close> up to the start of the I/O loops. \<open>auth\<close> is the result of \<open>AuthFunc\<close> on the request
  (\<^const>\<open>None\<close>: rejected with 401); the result says whether the connection is open.
\<close>

definition Hub_ServeHTTP :: "hub_env \<Rightarrow> gotime \<Rightarrow> Hub \<Rightarrow> int option \<Rightarrow> string \<Rightarrow> string option \<times> Hub" where
  "Hub_ServeHTTP env now h auth lastEventID =
     (case auth of
        None \<Rightarrow> (None, h)
      | Some userID \<Rightarrow>
          (let n = h_connCounter h + 1;
               i = ''conn-'' @ hexOf n;
               h1 = hub_register (h\<lparr>h_connCounter := n\<rparr>) (newConn i userID lastEventID);
               (ok, h2) = run_connect_hooks env now (h_connectHandlers h1) h1 i
           in if \<not> ok then (None, h2)
              else let h3 = (if lastEventID \<noteq> [] then replayMissed env now h2 i lastEventID else h2);
                       ack = (blank_event ''oni:connect'' now)\<lparr>ev_Payload :=
                         ''{\"conn_id\":'' @ env_quote env i @ '',\"user_id\":'' @ itoa userID @ ''}''\<rparr>
                   in (Some i, hub_send env now h3 i ack)))"

definition Hub_Shutdown :: "Hub \<Rightarrow> Hub" where
  "Hub_Shutdown h =
     (let h1 = h\<lparr>h_done := True\<rparr>;
          h2 = (case (h_memorySub h1, h_mem h1) of
                  (Some i, Some mem) \<Rightarrow> h1\<lparr>h_mem := Some (mem\<lparr>s_pubsub := cancel (s_pubsub mem) i\<rparr>)\<rparr>
                | _ \<Rightarrow> h1)
      in foldl (\<lambda>h i. on_conn h i Conn_Close) h2 (h_conns h2))"

definition Hub_ConnCount :: "Hub \<Rightarrow> nat" where
  "Hub_ConnCount h = length (h_conns h)"

section \<open>Lemmas\<close>

lemma map_of_on_conn:
  "map_of (h_objs (on_conn h i f)) j = (if j = i then map_option f (map_of (h_objs h) i) else map_of (h_objs h) j)"
  by (simp add: on_conn_def split: option.splits)

lemma on_conn_fields [simp]:
  "h_conns (on_conn h i f) = h_conns h" "h_mem (on_conn h i f) = h_mem h" "h_buffer (on_conn h i f) = h_buffer h"
  "h_router (on_conn h i f) = h_router h" "h_presencePatterns (on_conn h i f) = h_presencePatterns h"
  by (simp_all add: on_conn_def split: option.splits)

lemma queue_bytes_subs [simp]: "cn_subs (snd (queue_bytes c b)) = cn_subs c"
  by (simp add: queue_bytes_def split: sum.splits prod.splits)

lemma Conn_Send_subs [simp]: "cn_subs (snd (Conn_Send env now c e)) = cn_subs c"
  by (simp add: Conn_Send_def split: option.splits)

lemma Conn_sendError_subs [simp]: "cn_subs (Conn_sendError env now c msg) = cn_subs c"
  by (simp add: Conn_sendError_def Let_def)

lemma isSubscribed_on_conn:
  "(\<And>c. cn_subs (f c) = cn_subs c) \<Longrightarrow> isSubscribed (on_conn h i f) ch j = isSubscribed h ch j"
  by (simp add: isSubscribed_def map_of_on_conn Conn_IsSubscribed_def split: option.splits)


lemma isSubscribed_sendError [simp]: "isSubscribed (hub_sendError env now h i msg) ch j = isSubscribed h ch j"
  by (simp add: hub_sendError_def isSubscribed_on_conn)

lemma hub_send_fields [simp]:
  "h_mem (hub_send env now h i e) = h_mem h" "h_mem (hub_sendError env now h i msg) = h_mem h"
  "h_conns (hub_send env now h i e) = h_conns h" "h_buffer (hub_send env now h i e) = h_buffer h"
  by (simp_all add: hub_send_def hub_sendError_def)



lemma foldl_send:
  "distinct is \<Longrightarrow>
   map_of (h_objs (foldl (\<lambda>h i. hub_send env now h i e) h is)) j =
     (if j \<in> set is then map_option (\<lambda>c. snd (Conn_Send env now c e)) (map_of (h_objs h) j) else map_of (h_objs h) j)"
  by (induction "is" arbitrary: h) (auto simp: hub_send_def map_of_on_conn)

lemma pushToChannel_objs:
  "distinct (h_conns h) \<Longrightarrow>
   map_of (h_objs (pushToChannel env now h ch e)) j =
     (if j \<in> set (h_conns h) \<and> isSubscribed h ch j then map_option (\<lambda>c. snd (Conn_Send env now c e)) (map_of (h_objs h) j)
      else map_of (h_objs h) j)"
  by (simp add: pushToChannel_def foldl_send)

lemma buffer_event_fields [simp]:
  "h_objs (buffer_event h ch e) = h_objs h" "h_conns (buffer_event h ch e) = h_conns h"
  by (simp_all add: buffer_event_def split: sum.splits)

lemma isSubscribed_cong: "h_objs h = h_objs h' \<Longrightarrow> isSubscribed h = isSubscribed h'"
  by (intro ext) (simp add: isSubscribed_def)

lemma publish_remote_objs [simp]: "h_objs (publish_remote env now h ch e) = h_objs h"
  by (simp add: publish_remote_def split: option.splits)

lemma Conn_Send_room:
  assumes "Event_Encode env now e = Some b" and "\<not> chan_closed (cn_send c)"
  shows "snd (Conn_Send env now c e) =
    (if length (chan_buf (cn_send c)) < chan_cap (cn_send c)
     then c\<lparr>cn_send := (cn_send c)\<lparr>chan_buf := chan_buf (cn_send c) @ [b]\<rparr>\<rparr> else c)"
  using assms by (simp add: Conn_Send_def queue_bytes_def chan_trySend_def)

lemma broadcast_topic_never_matches:
  assumes "ch \<noteq> ''**''"
  shows "topicMatches ''oni:broadcast:**'' (''oni:broadcast:'' @ ch) = Some False"
proof -
  have split: "SplitOn CHR ''.'' ''oni:broadcast:**'' = [''oni:broadcast:**'']" by simp
  have "\<not> list_all2 seg_ok [''oni:broadcast:**''] (SplitOn CHR ''.'' (''oni:broadcast:'' @ ch))"
  proof
    assume "list_all2 seg_ok [''oni:broadcast:**''] (SplitOn CHR ''.'' (''oni:broadcast:'' @ ch))"
    then obtain t where t: "SplitOn CHR ''.'' (''oni:broadcast:'' @ ch) = [t]" "seg_ok ''oni:broadcast:**'' t"
      by (auto simp: list_all2_Cons1)
    from t(1) have "t = ''oni:broadcast:'' @ ch" using Join_SplitOn [of "CHR ''.''" "''oni:broadcast:'' @ ch"] by simp
    with t(2) assms show False by (simp add: seg_ok_def)
  qed
  then show ?thesis unfolding topicMatches_iff split by simp
qed

section \<open>Properties\<close>


text \<open>
  C34. A broadcast reaches exactly the registered subscribers: every registered connection that is
  subscribed to the channel and has room in its send queue gets the encoded event appended once;
  every other connection is left as it was.
\<close>

theorem broadcast_delivers:
  assumes "distinct (h_conns h)" and "ev_ID e \<noteq> []" and "Event_Encode env now e = Some b"
    and "map_of (h_objs h) j = Some c" and "\<not> chan_closed (cn_send c)"
  shows "map_of (h_objs (Hub_BroadcastEvent env now h ch e)) j = Some
    (if j \<in> set (h_conns h) \<and> Conn_IsSubscribed c ch \<and> length (chan_buf (cn_send c)) < chan_cap (cn_send c)
     then c\<lparr>cn_send := (cn_send c)\<lparr>chan_buf := chan_buf (cn_send c) @ [b]\<rparr>\<rparr> else c)"
proof -
  let ?h = "buffer_event h ch (if encoded_somewhere h ch then stamp now e else e)"
  have "isSubscribed ?h ch j = Conn_IsSubscribed c ch"
    using assms(4) by (simp add: isSubscribed_def)
  then have "map_of (h_objs (pushToChannel env now ?h ch e)) j =
      (if j \<in> set (h_conns h) \<and> Conn_IsSubscribed c ch then Some (snd (Conn_Send env now c e)) else Some c)"
    using assms(1,4) by (subst pushToChannel_objs) simp_all
  then show ?thesis
    using assms(2,3,5) by (simp add: Hub_BroadcastEvent_def Let_def Conn_Send_room)
qed

text \<open>
  Cross-node broadcasts are never delivered: the hub subscribes to \<open>oni:broadcast:**\<close>, which is one
  segment for the matcher, so a message published by a peer under \<open>oni:broadcast:\<close> and a channel name
  (other than the two stars) never enters the queue of the hub's subscription.
\<close>

theorem remote_broadcast_lost:
  assumes "store_inv mem" and "h = Hub_New (Some mem) bufSize bufAge" and "h_mem h = Some mem'"
    and "h_memorySub h = Some i" and "ch \<noteq> ''**''"
  shows "map_of (ps_objs (s_pubsub (applyRemotePublish mem' (''oni:broadcast:'' @ ch) v))) i = map_of (ps_objs (s_pubsub mem')) i"
proof -
  have mem': "mem' = snd (Store_Subscribe mem ''oni:broadcast:**'' 0)" and i: "i = fst (Store_Subscribe mem ''oni:broadcast:**'' 0)"
    using assms(2-4) by (auto simp: Hub_New_def split: prod.splits)
  have inv: "ps_inv (s_pubsub mem')"
    using store_inv_Subscribe [OF assms(1)] unfolding mem' store_inv_def by blast
  obtain sub where sub: "map_of (ps_objs (s_pubsub mem')) i = Some sub" "sub_topic sub = ''oni:broadcast:**''"
    by (simp add: mem' i Store_Subscribe_def subscribe_def Let_def)
  from publish_object [OF inv sub(1), of "''oni:broadcast:'' @ ch" v] show ?thesis
    using sub broadcast_topic_never_matches [OF assms(5)] by (simp add: applyRemotePublish_def)
qed

text \<open>
  The \<open>last_event_id\<close> of a reconnecting client has no effect on its own: replay serves the channels
  the connection is subscribed to, and without connect hooks a new connection has none, so what the
  client gets does not depend on the ID and is only the acknowledgement.
\<close>

theorem resume_on_connect_is_empty:
  assumes "h_connectHandlers h = []"
  shows "\<exists>i ack. Hub_ServeHTTP env now h (Some uid) lastID =
      (Some i, hub_send env now (hub_register (h\<lparr>h_connCounter := h_connCounter h + 1\<rparr>) (newConn i uid lastID)) i ack)"
proof -
  let ?i = "''conn-'' @ hexOf (h_connCounter h + 1)"
  let ?h = "hub_register (h\<lparr>h_connCounter := h_connCounter h + 1\<rparr>) (newConn ?i uid lastID)"
  have "replayMissed env now ?h ?i lastID = ?h"
    by (simp add: replayMissed_def hub_register_def newConn_def)
  moreover have "h_connectHandlers ?h = []" using assms by (simp add: hub_register_def)
  ultimately show ?thesis unfolding Hub_ServeHTTP_def by (auto simp: Let_def)
qed

section \<open>A concrete hub\<close>

text \<open>One connection, one guarded channel pattern whose handler refuses user 0; messages are event types.\<close>

definition demo_env :: hub_env where
  "demo_env = \<lparr>env_handler = (\<lambda>_ h i e. (if ev_UserID e = 0 then Some ''denied'' else None, h)),
     env_connect = (\<lambda>_ h i. (None, h)), env_disconnect = (\<lambda>_ h i. h),
     env_marshal = (\<lambda>e. Some (ev_Type e)),
     env_unmarshal = (\<lambda>m. Some ((blank_event ''oni:subscribe'' 0)\<lparr>ev_Channel := m\<rparr>)),
     env_marshal_any = (\<lambda>_. None), env_quote = (\<lambda>s. s), env_presence_conv = (\<lambda>_. None)\<rparr>"

definition demo_hub :: "int \<Rightarrow> Hub" where
  "demo_hub uid = hub_register (Hub_Channel (Hub_New None 0 0) ''user.{id}'' 1) (newConn ''conn-1'' uid [])"


theorem broadcast_delivers_witness:
  "map_of (h_objs (Hub_BroadcastEvent demo_env 5 (on_conn (demo_hub 3) ''conn-1'' (\<lambda>c. Conn_Subscribe c ''news'')) ''news'' (demo_event ''7''))) ''conn-1''
   = Some ((Conn_Subscribe (newConn ''conn-1'' 3 []) ''news'')\<lparr>cn_send := \<lparr>chan_buf = [''t''], chan_cap = 256, chan_closed = False\<rparr>\<rparr>)"
proof -
  let ?h = "on_conn (demo_hub 3) ''conn-1'' (\<lambda>c. Conn_Subscribe c ''news'')"
  have "map_of (h_objs ?h) ''conn-1'' = Some (Conn_Subscribe (newConn ''conn-1'' 3 []) ''news'')"
    by (simp add: map_of_on_conn demo_hub_def hub_register_def newConn_def)
  moreover have "h_conns ?h = [''conn-1'']"
    by (simp add: demo_hub_def hub_register_def newConn_def Hub_Channel_def Hub_New_def)
  moreover have "Event_Encode demo_env 5 (demo_event ''7'') = Some ''t''"
    by (simp add: Event_Encode_def demo_env_def stamp_def demo_event_def)
  ultimately show ?thesis
    by (subst broadcast_delivers [where b = "''t''"])
       (auto simp: demo_event_def newConn_def Conn_Subscribe_def Conn_IsSubscribed_def chan_make_def sendBufSize_def)
qed

theorem remote_broadcast_lost_witness:
  "\<exists>mem'. h_mem (Hub_New (Some plain_store) 0 0) = Some mem'
    \<and> map_of (ps_objs (s_pubsub (applyRemotePublish mem' (''oni:broadcast:'' @ ''chat.room1'') (GBytes ''x'')))) 1
      = map_of (ps_objs (s_pubsub mem')) 1"
proof -
  have sub: "h_memorySub (Hub_New (Some plain_store) 0 0) = Some 1"
    by (simp add: Hub_New_def plain_store_def Store_New_def plain_options_def Store_Subscribe_def subscribe_def newPubSub_def Let_def)
  obtain mem' where m: "h_mem (Hub_New (Some plain_store) 0 0) = Some mem'"
    by (cases "Store_Subscribe plain_store ''oni:broadcast:**'' 0") (auto simp: Hub_New_def)
  from remote_broadcast_lost [OF store_inv_plain refl m sub, of "''chat.room1''" "GBytes ''x''"] m show ?thesis by auto
qed

theorem resume_on_connect_is_empty_witness:
  "\<exists>i ack. Hub_ServeHTTP demo_env 0 (demo_hub 3) (Some 4) ''0001'' =
      (Some i, hub_send demo_env 0 (hub_register ((demo_hub 3)\<lparr>h_connCounter := h_connCounter (demo_hub 3) + 1\<rparr>) (newConn i 4 ''0001'')) i ack)"
  by (rule resume_on_connect_is_empty) (simp add: demo_hub_def hub_register_def Hub_Channel_def Hub_New_def)

end
