(* ===== verification/Http_Core.thy ===== *)
theory Http_Core
  imports Oni_Prelude
begin

text \<open>
  Model of the request, response and context objects of \<open>framework/http\<close> (\<open>request.go\<close>,
  \<open>response.go\<close>, \<open>context.go\<close>, \<open>trustedproxy.go\<close>) and of handlers and middleware as functions. The
  underlying \<open>http.ResponseWriter\<close> is the record \<open>wire\<close>: headers set after the status line went out
  change \<open>w_header\<close> but not what was sent. The JSON encoder is the field \<open>cx_json\<close> of the context;
  contexts are extensible records, so that other components add their own per-request values.
\<close>

section \<open>Headers\<close>

text \<open>\<open>textproto.CanonicalMIMEHeaderKey\<close> on header names without blanks.\<close>

fun canon_loop :: "bool \<Rightarrow> string \<Rightarrow> string" where
  "canon_loop up [] = []"
| "canon_loop up (c # s) = (if up then upperByte c else lowerByte c) # canon_loop (c = CHR ''-'') s"

definition canonHeader :: "string \<Rightarrow> string" where
  "canonHeader s = canon_loop True s"

type_synonym header = "(string, string list) gomap"

definition Header_Get :: "header \<Rightarrow> string \<Rightarrow> string" where
  "Header_Get h k = (case map_of h (canonHeader k) of None \<Rightarrow> [] | Some vs \<Rightarrow> (case vs of [] \<Rightarrow> [] | v # _ \<Rightarrow> v))"

definition Header_Set :: "header \<Rightarrow> string \<Rightarrow> string \<Rightarrow> header" where
  "Header_Set h k v = AList.update (canonHeader k) [v] h"

definition Header_Add :: "header \<Rightarrow> string \<Rightarrow> string \<Rightarrow> header" where
  "Header_Add h k v =
     AList.update (canonHeader k) ((case map_of h (canonHeader k) of None \<Rightarrow> [] | Some vs \<Rightarrow> vs) @ [v]) h"

definition Header_Values :: "header \<Rightarrow> string \<Rightarrow> string list" where
  "Header_Values h k = (case map_of h (canonHeader k) of None \<Rightarrow> [] | Some vs \<Rightarrow> vs)"

lemma Header_Get_Set [simp]:
  "Header_Get (Header_Set h k v) k' = (if canonHeader k' = canonHeader k then v else Header_Get h k')"
  by (simp add: Header_Get_def Header_Set_def)

lemma Header_Get_Add [simp]:
  "canonHeader k' \<noteq> canonHeader k \<Longrightarrow> Header_Get (Header_Add h k v) k' = Header_Get h k'"
  by (simp add: Header_Get_def Header_Add_def)

section \<open>The underlying writer\<close>

record wire =
  w_header :: header
  w_sent :: "(int \<times> header) option" \<comment> \<open>status and headers that went out\<close>
  w_body :: string
  w_discard :: bool \<comment> \<open>the writer of an implicit HEAD, which drops the body\<close>

definition new_wire :: wire where
  "new_wire = \<lparr>w_header = [], w_sent = None, w_body = [], w_discard = False\<rparr>"

definition wire_WriteHeader :: "wire \<Rightarrow> int \<Rightarrow> wire" where
  "wire_WriteHeader w code = (case w_sent w of None \<Rightarrow> w\<lparr>w_sent := Some (code, w_header w)\<rparr> | Some _ \<Rightarrow> w)"

definition wire_Write :: "wire \<Rightarrow> string \<Rightarrow> wire" where
  "wire_Write w b =
     (if w_discard w then w else (wire_WriteHeader w 200)\<lparr>w_body := w_body w @ b\<rparr>)"

section \<open>Response\<close>

record Response =
  rp_wire :: wire
  rp_status :: int
  rp_size :: nat
  rp_committed :: bool

definition newResponse :: "wire \<Rightarrow> Response" where
  "newResponse w = \<lparr>rp_wire = w, rp_status = 200, rp_size = 0, rp_committed = False\<rparr>"

definition Response_WriteHeader :: "Response \<Rightarrow> int \<Rightarrow> Response" where
  "Response_WriteHeader r code =
     (if rp_committed r then r
      else r\<lparr>rp_status := code, rp_wire := wire_WriteHeader (rp_wire r) code, rp_committed := True\<rparr>)"

definition Response_Write :: "Response \<Rightarrow> string \<Rightarrow> Response" where
  "Response_Write r b =
     (let r1 = (if \<not> rp_committed r then Response_WriteHeader r 200 else r)
      in r1\<lparr>rp_wire := wire_Write (rp_wire r1) b, rp_size := rp_size r1 + length b\<rparr>)"

definition Response_Unwrap :: "Response \<Rightarrow> wire" where
  "Response_Unwrap r = rp_wire r"

definition Response_Wrap :: "Response \<Rightarrow> wire \<Rightarrow> Response" where
  "Response_Wrap r w = r\<lparr>rp_wire := w, rp_size := 0, rp_committed := False, rp_status := 200\<rparr>"

section \<open>Request\<close>

record Request =
  rq_Method :: string
  rq_Path :: string
  rq_Query :: header
  rq_Header :: header
  rq_Form :: "(string, string) gomap"
  rq_Cookies :: "(string, string) gomap"
  rq_RemoteAddr :: string
  rq_TLS :: bool
  rq_params :: "(string, string) gomap"

definition Request_Param :: "'a Request_scheme \<Rightarrow> string \<Rightarrow> string" where
  "Request_Param r name = (case map_of (rq_params r) name of None \<Rightarrow> [] | Some v \<Rightarrow> v)"

definition Request_Params :: "'a Request_scheme \<Rightarrow> (string, string) gomap" where
  "Request_Params r = fold (\<lambda>(k, v) out. AList.update k v out) (rq_params r) []"

text \<open>\<open>net.SplitHostPort\<close>: the host, or \<^const>\<open>None\<close> for an error.\<close>

definition lastIndexByte :: "char \<Rightarrow> string \<Rightarrow> nat option" where
  "lastIndexByte c s = (case Index (rev s) [c] of None \<Rightarrow> None | Some i \<Rightarrow> Some (length s - 1 - i))"

definition SplitHost :: "string \<Rightarrow> string option" where
  "SplitHost hp =
     (case lastIndexByte CHR '':'' hp of
        None \<Rightarrow> None
      | Some i \<Rightarrow>
          if hp \<noteq> [] \<and> hd hp = CHR ''[''
          then (case Index hp '']'' of
                  None \<Rightarrow> None
                | Some e \<Rightarrow>
                    if e + 1 \<noteq> i then None
                    else if CHR ''['' \<in> set (drop 1 hp) \<or> CHR '']'' \<in> set (drop (e + 1) hp) then None
                    else Some (take (e - 1) (drop 1 hp)))
          else if CHR '':'' \<in> set (take i hp) \<or> CHR ''['' \<in> set hp \<or> CHR '']'' \<in> set hp then None
          else Some (take i hp))"

definition remoteIP :: "'a Request_scheme \<Rightarrow> string" where
  "remoteIP r = (case SplitHost (rq_RemoteAddr r) of None \<Rightarrow> rq_RemoteAddr r | Some h \<Rightarrow> h)"

text \<open>
  Trusted proxies: \<open>'n\<close> are parsed networks, and \<open>parseIP\<close> (is it IPv4), \<open>parseCIDR\<close> and \<open>contains\<close> are
  the functions of package \<open>net\<close>.
\<close>

record 'n proxyConfig =
  px_nets :: "'n list"
  px_trustAll :: bool

record 'n netlib =
  nl_parseIP :: "string \<Rightarrow> bool option"
  nl_parseCIDR :: "string \<Rightarrow> 'n option"
  nl_contains :: "'n \<Rightarrow> string \<Rightarrow> bool"

definition proxy_cidr :: "'n netlib \<Rightarrow> string \<Rightarrow> string" where
  "proxy_cidr nl c =
     (if \<not> Contains c ''/'' then (case nl_parseIP nl c of Some True \<Rightarrow> c @ ''/32'' | Some False \<Rightarrow> c @ ''/128'' | None \<Rightarrow> c)
      else c)"

fun parse_proxies :: "'n netlib \<Rightarrow> string list \<Rightarrow> 'n list \<Rightarrow> 'n list option" where
  "parse_proxies nl [] acc = Some acc"
| "parse_proxies nl (c0 # cs) acc =
     (let c = TrimSpace c0
      in if c = [] then parse_proxies nl cs acc
         else case nl_parseCIDR nl (proxy_cidr nl c) of
                None \<Rightarrow> None
              | Some n \<Rightarrow> parse_proxies nl cs (acc @ [n]))"

text \<open>The new value of the global configuration; \<^const>\<open>None\<close> is the error, which leaves it as it was.\<close>

definition SetTrustedProxies :: "'n netlib \<Rightarrow> string list \<Rightarrow> 'n proxyConfig option" where
  "SetTrustedProxies nl cidrs =
     (if length cidrs = 1 \<and> TrimSpace (hd cidrs) = ''*'' then Some \<lparr>px_nets = [], px_trustAll = True\<rparr>
      else case parse_proxies nl cidrs [] of
             None \<Rightarrow> None
           | Some ns \<Rightarrow> Some \<lparr>px_nets = ns, px_trustAll = False\<rparr>)"

definition ipInNets :: "'n netlib \<Rightarrow> string \<Rightarrow> 'n list \<Rightarrow> bool" where
  "ipInNets nl ip nets = (nl_parseIP nl ip \<noteq> None \<and> (\<exists>n \<in> set nets. nl_contains nl n ip))"

definition Request_IP :: "'n netlib \<Rightarrow> 'n proxyConfig option \<Rightarrow> 'a Request_scheme \<Rightarrow> string" where
  "Request_IP nl cfg r =
     (let peer = remoteIP r;
          trusted = (case cfg of None \<Rightarrow> False | Some c \<Rightarrow> px_trustAll c \<or> ipInNets nl peer (px_nets c))
      in if trusted \<and> Header_Get (rq_Header r) ''X-Real-IP'' \<noteq> []
           then TrimSpace (Header_Get (rq_Header r) ''X-Real-IP'')
         else if trusted \<and> Header_Get (rq_Header r) ''X-Forwarded-For'' \<noteq> []
           then TrimSpace (hd (SplitOn CHR '','' (Header_Get (rq_Header r) ''X-Forwarded-For'')))
         else peer)"

definition Request_IsSecure :: "'a Request_scheme \<Rightarrow> bool" where
  "Request_IsSecure r = (rq_TLS r \<or> EqualFold (Header_Get (rq_Header r) ''X-Forwarded-Proto'') ''https'')"

definition Request_WantsJSON :: "'a Request_scheme \<Rightarrow> bool" where
  "Request_WantsJSON r = (let accept = Header_Get (rq_Header r) ''Accept''
     in Contains accept ''application/json'' \<or> Contains accept ''*/*'')"

definition Request_BearerToken :: "'a Request_scheme \<Rightarrow> string" where
  "Request_BearerToken r = (let auth = Header_Get (rq_Header r) ''Authorization''
     in if HasPrefix auth ''Bearer '' then TrimPrefix auth ''Bearer '' else [])"

section \<open>Context\<close>

datatype http_error = HTTPError int string | OtherError string

text \<open>How a handler ends: nil, an error, or a panic with a value.\<close>

datatype hresult = HNil | HErr http_error | HPanic string

record Context =
  cx_req :: Request
  cx_resp :: Response
  cx_store :: "(string, gval) gomap"
  cx_json :: "gval \<Rightarrow> string"

type_synonym 'c handler = "'c \<Rightarrow> hresult \<times> 'c"
type_synonym 'c middleware = "'c handler \<Rightarrow> 'c handler"

definition NewContext :: "wire \<Rightarrow> Request \<Rightarrow> (string, string) gomap \<Rightarrow> (gval \<Rightarrow> string) \<Rightarrow> Context" where
  "NewContext w r params json =
     \<lparr>cx_req = r\<lparr>rq_params := params\<rparr>, cx_resp = newResponse w, cx_store = [], cx_json = json\<rparr>"

definition on_resp :: "(Response \<Rightarrow> Response) \<Rightarrow> 'a Context_scheme \<Rightarrow> 'a Context_scheme" where
  "on_resp f c = c\<lparr>cx_resp := f (cx_resp c)\<rparr>"

definition setHeader :: "string \<Rightarrow> string \<Rightarrow> 'a Context_scheme \<Rightarrow> 'a Context_scheme" where
  "setHeader k v = on_resp (\<lambda>r. r\<lparr>rp_wire := (rp_wire r)\<lparr>w_header := Header_Set (w_header (rp_wire r)) k v\<rparr>\<rparr>)"

definition addHeader :: "string \<Rightarrow> string \<Rightarrow> 'a Context_scheme \<Rightarrow> 'a Context_scheme" where
  "addHeader k v = on_resp (\<lambda>r. r\<lparr>rp_wire := (rp_wire r)\<lparr>w_header := Header_Add (w_header (rp_wire r)) k v\<rparr>\<rparr>)"

definition Context_Set :: "'a Context_scheme \<Rightarrow> string \<Rightarrow> gval \<Rightarrow> 'a Context_scheme" where
  "Context_Set c key v = c\<lparr>cx_store := AList.update key v (cx_store c)\<rparr>"

definition Context_Get :: "'a Context_scheme \<Rightarrow> string \<Rightarrow> gval option" where
  "Context_Get c key = map_of (cx_store c) key"

definition Context_JSON :: "int \<Rightarrow> gval \<Rightarrow> 'a Context_scheme handler" where
  "Context_JSON status v c =
     (let c1 = setHeader ''Content-Type'' ''application/json; charset=utf-8'' c;
          c2 = on_resp (\<lambda>r. Response_WriteHeader r status) c1
      in (HNil, on_resp (\<lambda>r. Response_Write r (cx_json c v)) c2))"

definition Context_String :: "int \<Rightarrow> string \<Rightarrow> 'a Context_scheme handler" where
  "Context_String status txt c =
     (let c1 = setHeader ''Content-Type'' ''text/plain; charset=utf-8'' c;
          c2 = on_resp (\<lambda>r. Response_WriteHeader r status) c1
      in (HNil, on_resp (\<lambda>r. Response_Write r txt) c2))"

definition Context_HTML :: "int \<Rightarrow> string \<Rightarrow> 'a Context_scheme handler" where
  "Context_HTML status html c =
     (let c1 = setHeader ''Content-Type'' ''text/html; charset=utf-8'' c;
          c2 = on_resp (\<lambda>r. Response_WriteHeader r status) c1
      in (HNil, on_resp (\<lambda>r. Response_Write r html) c2))"

definition Context_NoContent :: "'a Context_scheme handler" where
  "Context_NoContent c = (HNil, on_resp (\<lambda>r. Response_WriteHeader r 204) c)"

definition Context_Header :: "'a Context_scheme \<Rightarrow> string \<Rightarrow> string" where
  "Context_Header c name = Header_Get (rq_Header (cx_req c)) name"

definition Context_Query :: "'a Context_scheme \<Rightarrow> string \<Rightarrow> string" where
  "Context_Query c name = (case map_of (rq_Query (cx_req c)) name of Some (v # _) \<Rightarrow> v | _ \<Rightarrow> [])"

definition Context_QueryD :: "'a Context_scheme \<Rightarrow> string \<Rightarrow> string \<Rightarrow> string" where
  "Context_QueryD c name def = (let v = Context_Query c name in if v \<noteq> [] then v else def)"

definition Context_IsJSON :: "'a Context_scheme \<Rightarrow> bool" where
  "Context_IsJSON c = Contains (Context_Header c ''Content-Type'') ''application/json''"

definition Context_IsAJAX :: "'a Context_scheme \<Rightarrow> bool" where
  "Context_IsAJAX c = (Context_Header c ''X-Requested-With'' = ''XMLHttpRequest'')"

definition Context_Abort :: "int \<Rightarrow> string \<Rightarrow> hresult" where
  "Context_Abort status message = HErr (HTTPError status message)"

section \<open>Lemmas\<close>

named_theorems httpsimps \<open>definitions of the response operations\<close>

lemmas [httpsimps] = on_resp_def setHeader_def addHeader_def Response_WriteHeader_def Response_Write_def
  wire_WriteHeader_def wire_Write_def Context_JSON_def Context_NoContent_def Let_def

text \<open>The status line goes out once: later writes do not change what was sent.\<close>

lemma sent_once:
  "w_sent (rp_wire r) = Some x \<Longrightarrow> w_sent (rp_wire (Response_WriteHeader r code)) = Some x"
  "w_sent (rp_wire r) = Some x \<Longrightarrow> w_sent (rp_wire (Response_Write r b)) = Some x"
  by (simp_all add: httpsimps)

definition resp_inv :: "Response \<Rightarrow> bool" where
  "resp_inv r = ((rp_committed r \<longrightarrow> w_sent (rp_wire r) \<noteq> None)
     \<and> (\<forall>code h. rp_committed r \<longrightarrow> w_sent (rp_wire r) = Some (code, h) \<longrightarrow> rp_status r = code)
     \<and> (\<not> rp_committed r \<longrightarrow> w_sent (rp_wire r) = None \<and> w_body (rp_wire r) = [] \<and> rp_status r = 200))"

lemma resp_inv_new: "w_sent w = None \<Longrightarrow> w_body w = [] \<Longrightarrow> resp_inv (newResponse w)"
  by (simp add: resp_inv_def newResponse_def)

lemma resp_inv_WriteHeader: "resp_inv r \<Longrightarrow> resp_inv (Response_WriteHeader r code)"
  by (simp add: resp_inv_def httpsimps)

lemma resp_inv_Write: "resp_inv r \<Longrightarrow> resp_inv (Response_Write r b)"
  by (auto simp: resp_inv_def httpsimps)

section \<open>Properties\<close>

text \<open>
  Without trusted proxies the client cannot choose its address: \<open>IP\<close> returns the host part of the
  peer's address whatever headers the request carries, and the same holds when proxies are configured
  but the peer is none of them.
\<close>

theorem IP_not_spoofable:
  assumes "case cfg of None \<Rightarrow> True | Some c \<Rightarrow> \<not> px_trustAll c \<and> \<not> ipInNets nl (remoteIP r) (px_nets c)"
  shows "Request_IP nl cfg (r\<lparr>rq_Header := hs\<rparr>) = remoteIP r"
  using assms by (simp add: Request_IP_def Let_def remoteIP_def split: option.splits)

theorem IP_not_spoofable_witness:
  "Request_IP \<lparr>nl_parseIP = (\<lambda>_. Some True), nl_parseCIDR = (\<lambda>s. Some s), nl_contains = (\<lambda>n ip. n = ip)\<rparr>
     (Some \<lparr>px_nets = [''10.0.0.1''], px_trustAll = False\<rparr>)
     (\<lparr>rq_Method = ''GET'', rq_Path = ''/'', rq_Query = [], rq_Header = [], rq_Form = [], rq_Cookies = [],
       rq_RemoteAddr = ''1.2.3.4:99'', rq_TLS = False, rq_params = []\<rparr>
        \<lparr>rq_Header := [(''X-Real-Ip'', [''6.6.6.6''])]\<rparr>) = ''1.2.3.4''"
  by (subst IP_not_spoofable) (simp_all add: ipInNets_def remoteIP_def SplitHost_def lastIndexByte_def HasPrefix_def)

end
