(* ===== verification/Http_Router.thy ===== *)
theory Http_Router
  imports Http_Core
begin

text \<open>
  Model of \<open>framework/routing\<close> (\<open>trie.go\<close>, \<open>router.go\<close>, \<open>route.go\<close>, \<open>group.go\<close>). Handlers, middleware and
  error handlers are user code: routes hold their numbers, and the functions \<open>hf\<close>, \<open>mf\<close> and \<open>ef\<close> give
  their meaning. A compiled route and its \<open>Route\<close> share one index into \<open>rr_compiled\<close> and \<open>rr_all\<close>; the
  table per method holds these indices, as the source holds pointers.
\<close>

section \<open>Patterns\<close>

record segment =
  sg_lit :: string
  sg_param :: string
  sg_wild :: bool

definition splitPath :: "string \<Rightarrow> string list" where
  "splitPath p0 =
     (let p = TrimSuffix (TrimPrefix p0 ''/'') ''/'' in if p = [] then [] else SplitOn CHR ''/'' p)"

definition path_segment :: "string \<Rightarrow> segment" where
  "path_segment p =
     (if HasPrefix p ''*'' then \<lparr>sg_lit = [], sg_param = (if drop 1 p = [] then ''*'' else drop 1 p), sg_wild = True\<rparr>
      else if HasPrefix p '':'' then \<lparr>sg_lit = [], sg_param = drop 1 p, sg_wild = False\<rparr>
      else if HasPrefix p ''{'' \<and> HasSuffix p ''}'' then \<lparr>sg_lit = [], sg_param = take (length p - 2) (drop 1 p), sg_wild = False\<rparr>
      else \<lparr>sg_lit = p, sg_param = [], sg_wild = False\<rparr>)"

text \<open>The \<open>break\<close> after a wildcard leaves the \<open>switch\<close>, not the loop: later segments are kept.\<close>

definition parsePattern :: "string \<Rightarrow> segment list" where
  "parsePattern pattern = map path_segment (filter (\<lambda>p. p \<noteq> []) (splitPath pattern))"

fun match_segments :: "segment list \<Rightarrow> string list \<Rightarrow> (string, string) gomap \<Rightarrow> (string, string) gomap option" where
  "match_segments [] parts params = (if parts = [] then Some params else None)"
| "match_segments (seg # segs) parts params =
     (if sg_wild seg then Some (AList.update (sg_param seg) (Join ''/'' parts) params)
      else if sg_param seg \<noteq> [] then
        (case parts of [] \<Rightarrow> None | p # ps \<Rightarrow> match_segments segs ps (AList.update (sg_param seg) p params))
      else
        (case parts of [] \<Rightarrow> None | p # ps \<Rightarrow> if p \<noteq> sg_lit seg then None else match_segments segs ps params))"

section \<open>Routes and the router\<close>

record compiledRoute =
  rt_method :: string
  rt_pattern :: string
  rt_segments :: "segment list"
  rt_handler :: nat
  rt_middleware :: "nat list"
  rt_name :: string

record Route =
  ro_method :: string
  ro_path :: string
  ro_handler :: nat
  ro_middlewares :: "nat list"
  ro_name :: string

datatype handler_ref = DefaultHandler | CustomHandler nat

record Router =
  rr_routes :: "(string, nat list) gomap"
  rr_compiled :: "compiledRoute list"
  rr_all :: "Route list"
  rr_named :: "(string, nat) gomap"
  rr_middleware :: "nat list"
  rr_notFound :: handler_ref
  rr_onError :: handler_ref

definition Router_New :: Router where
  "Router_New = \<lparr>rr_routes = [], rr_compiled = [], rr_all = [], rr_named = [], rr_middleware = [],
     rr_notFound = DefaultHandler, rr_onError = DefaultHandler\<rparr>"

definition Router_Use :: "Router \<Rightarrow> nat list \<Rightarrow> Router" where
  "Router_Use r mw = r\<lparr>rr_middleware := rr_middleware r @ mw\<rparr>"

definition Router_NotFound :: "Router \<Rightarrow> nat \<Rightarrow> Router" where
  "Router_NotFound r h = r\<lparr>rr_notFound := CustomHandler h\<rparr>"

definition Router_OnError :: "Router \<Rightarrow> nat \<Rightarrow> Router" where
  "Router_OnError r h = r\<lparr>rr_onError := CustomHandler h\<rparr>"

definition routes_of :: "Router \<Rightarrow> string \<Rightarrow> nat list" where
  "routes_of r method = (case map_of (rr_routes r) method of None \<Rightarrow> [] | Some is \<Rightarrow> is)"

text \<open>\<open>addRoute\<close>; the index is the returned \<open>*Route\<close>.\<close>

definition addRoute :: "Router \<Rightarrow> string \<Rightarrow> string \<Rightarrow> nat \<Rightarrow> nat list \<Rightarrow> nat \<times> Router" where
  "addRoute r method pattern h mw =
     (let i = length (rr_compiled r);
          cr = \<lparr>rt_method = ToUpper method, rt_pattern = pattern, rt_segments = parsePattern pattern, rt_handler = h,
                rt_middleware = mw, rt_name = []\<rparr>;
          route = \<lparr>ro_method = rt_method cr, ro_path = pattern, ro_handler = h, ro_middlewares = mw, ro_name = []\<rparr>
      in (i, r\<lparr>rr_routes := AList.update (rt_method cr) (routes_of r (rt_method cr) @ [i]) (rr_routes r),
               rr_compiled := rr_compiled r @ [cr], rr_all := rr_all r @ [route]\<rparr>))"

definition Router_Get :: "Router \<Rightarrow> string \<Rightarrow> nat \<Rightarrow> nat list \<Rightarrow> nat \<times> Router" where
  "Router_Get r path h mw = addRoute r ''GET'' path h mw"

definition Router_Post :: "Router \<Rightarrow> string \<Rightarrow> nat \<Rightarrow> nat list \<Rightarrow> nat \<times> Router" where
  "Router_Post r path h mw = addRoute r ''POST'' path h mw"

definition Router_Put :: "Router \<Rightarrow> string \<Rightarrow> nat \<Rightarrow> nat list \<Rightarrow> nat \<times> Router" where
  "Router_Put r path h mw = addRoute r ''PUT'' path h mw"

definition Router_Patch :: "Router \<Rightarrow> string \<Rightarrow> nat \<Rightarrow> nat list \<Rightarrow> nat \<times> Router" where
  "Router_Patch r path h mw = addRoute r ''PATCH'' path h mw"

definition Router_Delete :: "Router \<Rightarrow> string \<Rightarrow> nat \<Rightarrow> nat list \<Rightarrow> nat \<times> Router" where
  "Router_Delete r path h mw = addRoute r ''DELETE'' path h mw"

definition Router_Head :: "Router \<Rightarrow> string \<Rightarrow> nat \<Rightarrow> nat list \<Rightarrow> nat \<times> Router" where
  "Router_Head r path h mw = addRoute r ''HEAD'' path h mw"

definition Router_Options :: "Router \<Rightarrow> string \<Rightarrow> nat \<Rightarrow> nat list \<Rightarrow> nat \<times> Router" where
  "Router_Options r path h mw = addRoute r ''OPTIONS'' path h mw"

definition any_methods :: "string list" where
  "any_methods = [''GET'', ''POST'', ''PUT'', ''PATCH'', ''DELETE'', ''HEAD'', ''OPTIONS'']"

definition Router_Any :: "Router \<Rightarrow> string \<Rightarrow> nat \<Rightarrow> nat list \<Rightarrow> Router" where
  "Router_Any r path h mw = foldl (\<lambda>r m. snd (addRoute r m path h mw)) r any_methods"

definition registerNamed :: "Router \<Rightarrow> string \<Rightarrow> nat \<Rightarrow> Router" where
  "registerNamed r name i = r\<lparr>rr_named := AList.update name i (rr_named r)\<rparr>"

definition Route_Name :: "Router \<Rightarrow> nat \<Rightarrow> string \<Rightarrow> Router" where
  "Route_Name r i name =
     registerNamed (r\<lparr>rr_all := (rr_all r)[i := (rr_all r ! i)\<lparr>ro_name := name\<rparr>],
                      rr_compiled := (rr_compiled r)[i := (rr_compiled r ! i)\<lparr>rt_name := name\<rparr>]\<rparr>) name i"

definition Route_Middleware :: "Router \<Rightarrow> nat \<Rightarrow> nat list \<Rightarrow> Router" where
  "Route_Middleware r i mw =
     r\<lparr>rr_all := (rr_all r)[i := (rr_all r ! i)\<lparr>ro_middlewares := ro_middlewares (rr_all r ! i) @ mw\<rparr>],
       rr_compiled := (rr_compiled r)[i := (rr_compiled r ! i)\<lparr>rt_middleware := rt_middleware (rr_compiled r ! i) @ mw\<rparr>]\<rparr>"

section \<open>Groups\<close>

record Group =
  gr_prefix :: string
  gr_middlewares :: "nat list"

definition Router_Group :: "string \<Rightarrow> nat list \<Rightarrow> Group" where
  "Router_Group prefix mw = \<lparr>gr_prefix = prefix, gr_middlewares = mw\<rparr>"

definition Group_Use :: "Group \<Rightarrow> nat list \<Rightarrow> Group" where
  "Group_Use g mw = g\<lparr>gr_middlewares := gr_middlewares g @ mw\<rparr>"

definition Group_Group :: "Group \<Rightarrow> string \<Rightarrow> Group" where
  "Group_Group g prefix = \<lparr>gr_prefix = gr_prefix g @ prefix, gr_middlewares = gr_middlewares g\<rparr>"

definition Group_handle :: "Group \<Rightarrow> Router \<Rightarrow> string \<Rightarrow> string \<Rightarrow> nat \<Rightarrow> nat list \<Rightarrow> nat \<times> Router" where
  "Group_handle g r method path h extra = addRoute r method (gr_prefix g @ path) h (gr_middlewares g @ extra)"

definition Group_Get :: "Group \<Rightarrow> Router \<Rightarrow> string \<Rightarrow> nat \<Rightarrow> nat list \<Rightarrow> nat \<times> Router" where
  "Group_Get g r path h mw = Group_handle g r ''GET'' path h mw"

definition Group_Post :: "Group \<Rightarrow> Router \<Rightarrow> string \<Rightarrow> nat \<Rightarrow> nat list \<Rightarrow> nat \<times> Router" where
  "Group_Post g r path h mw = Group_handle g r ''POST'' path h mw"

definition Group_Put :: "Group \<Rightarrow> Router \<Rightarrow> string \<Rightarrow> nat \<Rightarrow> nat list \<Rightarrow> nat \<times> Router" where
  "Group_Put g r path h mw = Group_handle g r ''PUT'' path h mw"

definition Group_Patch :: "Group \<Rightarrow> Router \<Rightarrow> string \<Rightarrow> nat \<Rightarrow> nat list \<Rightarrow> nat \<times> Router" where
  "Group_Patch g r path h mw = Group_handle g r ''PATCH'' path h mw"

definition Group_Delete :: "Group \<Rightarrow> Router \<Rightarrow> string \<Rightarrow> nat \<Rightarrow> nat list \<Rightarrow> nat \<times> Router" where
  "Group_Delete g r path h mw = Group_handle g r ''DELETE'' path h mw"

definition Group_Head :: "Group \<Rightarrow> Router \<Rightarrow> string \<Rightarrow> nat \<Rightarrow> nat list \<Rightarrow> nat \<times> Router" where
  "Group_Head g r path h mw = Group_handle g r ''HEAD'' path h mw"

definition Group_Options :: "Group \<Rightarrow> Router \<Rightarrow> string \<Rightarrow> nat \<Rightarrow> nat list \<Rightarrow> nat \<times> Router" where
  "Group_Options g r path h mw = Group_handle g r ''OPTIONS'' path h mw"

definition Group_Any :: "Group \<Rightarrow> Router \<Rightarrow> string \<Rightarrow> nat \<Rightarrow> nat list \<Rightarrow> Router" where
  "Group_Any g r path h mw = foldl (\<lambda>r m. snd (Group_handle g r m path h mw)) r any_methods"

section \<open>URL generation\<close>

datatype url_error = NoSuchRoute string | MissingParam string string

fun url_params :: "string list \<Rightarrow> (string, string) gomap \<Rightarrow> (string, string) gomap" where
  "url_params (k # v # rest) kv = url_params rest (AList.update k v kv)"
| "url_params _ kv = kv"

fun url_segments :: "string \<Rightarrow> (string, string) gomap \<Rightarrow> segment list \<Rightarrow> url_error + string" where
  "url_segments name kv [] = Inr []"
| "url_segments name kv (seg # segs) =
     (let part = (if sg_wild seg then Inr (case map_of kv (sg_param seg) of None \<Rightarrow> [] | Some v \<Rightarrow> v)
                  else if sg_param seg \<noteq> [] then
                    (case map_of kv (sg_param seg) of None \<Rightarrow> Inl (MissingParam (sg_param seg) name) | Some v \<Rightarrow> Inr v)
                  else Inr (sg_lit seg))
      in case part of
           Inl e \<Rightarrow> Inl e
         | Inr t \<Rightarrow> (case url_segments name kv segs of Inl e \<Rightarrow> Inl e | Inr rest \<Rightarrow> Inr (CHR ''/'' # t @ rest)))"

definition Router_URL :: "Router \<Rightarrow> string \<Rightarrow> string list \<Rightarrow> url_error + string" where
  "Router_URL r name params =
     (case map_of (rr_named r) name of
        None \<Rightarrow> Inl (NoSuchRoute name)
      | Some i \<Rightarrow> url_segments name (url_params params []) (rt_segments (rr_compiled r ! i)))"

section \<open>Dispatch\<close>

definition compiledRoute_match :: "compiledRoute \<Rightarrow> string \<Rightarrow> (string, string) gomap option" where
  "compiledRoute_match cr path = match_segments (rt_segments cr) (splitPath path) []"

definition matchRoute :: "Router \<Rightarrow> nat list \<Rightarrow> string \<Rightarrow> (nat \<times> (string, string) gomap) option" where
  "matchRoute r is path =
     first_some (\<lambda>i. map_option (\<lambda>p. (i, p)) (compiledRoute_match (rr_compiled r ! i) path)) is"

definition allowedMethods :: "Router \<Rightarrow> string \<Rightarrow> string list" where
  "allowedMethods r path =
     (let methods = map fst (filter (\<lambda>(m, is). matchRoute r is path \<noteq> None) (rr_routes r))
      in sortStrings (if ''GET'' \<in> set methods \<and> ''HEAD'' \<notin> set methods then methods @ [''HEAD''] else methods))"

text \<open>What \<open>ServeHTTP\<close> decides under the lock.\<close>

datatype decision =
    RunRoute nat "(string, string) gomap" bool
  | AutoOptions "string list"
  | MethodNotAllowed "string list"
  | RouteNotFound

definition router_decide :: "Router \<Rightarrow> string \<Rightarrow> string \<Rightarrow> decision" where
  "router_decide r method path0 =
     (let path = (if path0 = [] then ''/'' else path0);
          matched = matchRoute r (routes_of r method) path;
          headFallback = (matched = None \<and> method = ''HEAD'');
          matched' = (if headFallback then matchRoute r (routes_of r ''GET'') path else matched)
      in case matched' of
           Some (i, params) \<Rightarrow> RunRoute i params headFallback
         | None \<Rightarrow>
             (let allowed = allowedMethods r path
              in if allowed \<noteq> [] then (if method = ''OPTIONS'' then AutoOptions allowed else MethodNotAllowed allowed)
                 else RouteNotFound))"

definition runWithMiddleware :: "(nat \<Rightarrow> 'c middleware) \<Rightarrow> nat list \<Rightarrow> 'c handler \<Rightarrow> 'c handler" where
  "runWithMiddleware mf mw h = foldr mf mw h"

definition methodNotAllowed :: "string list \<Rightarrow> 'a Context_scheme handler" where
  "methodNotAllowed allowed c =
     Context_JSON 405 (GMap [(''error'', GString ''method not allowed''), (''allowed'', GSlice (map GString allowed))])
       (setHeader ''Allow'' (Join '', '' allowed) c)"

definition autoOptions :: "string list \<Rightarrow> 'a Context_scheme handler" where
  "autoOptions allowed c =
     (if rp_committed (cx_resp c) then (HNil, c)
      else Context_NoContent (setHeader ''Allow'' (Join '', '' allowed) c))"

definition defaultNotFound :: "'a Context_scheme handler" where
  "defaultNotFound c = Context_JSON 404 (GMap [(''error'', GString ''not found''), (''path'', GString (rq_Path (cx_req c)))]) c"

definition defaultErrorHandler :: "http_error \<Rightarrow> 'a Context_scheme \<Rightarrow> 'a Context_scheme" where
  "defaultErrorHandler err c =
     (let (code, msg) = (case err of HTTPError code msg \<Rightarrow> (code, msg) | OtherError _ \<Rightarrow> (500, ''internal server error''))
      in snd (Context_JSON code (GMap [(''error'', GString msg)]) c))"

definition finish :: "(nat \<Rightarrow> http_error \<Rightarrow> Context \<Rightarrow> Context) \<Rightarrow> Router \<Rightarrow> hresult \<times> Context \<Rightarrow> hresult \<times> Context" where
  "finish ef r out =
     (case out of
        (HErr e, c) \<Rightarrow> (HNil, case rr_onError r of DefaultHandler \<Rightarrow> defaultErrorHandler e c | CustomHandler i \<Rightarrow> ef i e c)
      | _ \<Rightarrow> out)"

definition Router_ServeHTTP ::
  "(nat \<Rightarrow> Context handler) \<Rightarrow> (nat \<Rightarrow> Context middleware) \<Rightarrow> (nat \<Rightarrow> http_error \<Rightarrow> Context \<Rightarrow> Context) \<Rightarrow>
   (gval \<Rightarrow> string) \<Rightarrow> Router \<Rightarrow> wire \<Rightarrow> Request \<Rightarrow> hresult \<times> Context" where
  "Router_ServeHTTP hf mf ef json r w req =
     (case router_decide r (rq_Method req) (rq_Path req) of
        RunRoute i params headFallback \<Rightarrow>
          (let w' = (if headFallback then w\<lparr>w_discard := True\<rparr> else w);
               cr = rr_compiled r ! i
           in finish ef r (runWithMiddleware mf (rr_middleware r @ rt_middleware cr) (hf (rt_handler cr))
                (NewContext w' req params json)))
      | AutoOptions allowed \<Rightarrow>
          finish ef r (runWithMiddleware mf (rr_middleware r) (autoOptions allowed) (NewContext w req [] json))
      | MethodNotAllowed allowed \<Rightarrow>
          finish ef r (runWithMiddleware mf (rr_middleware r) (methodNotAllowed allowed) (NewContext w req [] json))
      | RouteNotFound \<Rightarrow>
          finish ef r (runWithMiddleware mf (rr_middleware r)
            (case rr_notFound r of DefaultHandler \<Rightarrow> defaultNotFound | CustomHandler i \<Rightarrow> hf i) (NewContext w req [] json)))"

section \<open>Lemmas on matching\<close>

definition path_matches :: "Router \<Rightarrow> string \<Rightarrow> string \<Rightarrow> bool" where
  "path_matches r method path = (\<exists>i \<in> set (routes_of r method). compiledRoute_match (rr_compiled r ! i) path \<noteq> None)"

definition router_inv :: "Router \<Rightarrow> bool" where
  "router_inv r = (distinct (map fst (rr_routes r)) \<and> length (rr_all r) = length (rr_compiled r)
     \<and> (\<forall>m is. map_of (rr_routes r) m = Some is \<longrightarrow> is \<noteq> [] \<and> (\<forall>i \<in> set is. i < length (rr_compiled r) \<and> rt_method (rr_compiled r ! i) = m)))"

lemma router_inv_New [simp]: "router_inv Router_New"
  by (simp add: router_inv_def Router_New_def)

lemma router_inv_addRoute:
  assumes "router_inv r"
  shows "router_inv (snd (addRoute r method pattern h mw))"
  using assms unfolding router_inv_def
  by (auto simp: addRoute_def Let_def distinct_update routes_of_def nth_append less_Suc_eq split: option.splits)

lemma matchRoute_None: "matchRoute r (routes_of r m) path = None \<longleftrightarrow> \<not> path_matches r m path"
  by (simp add: matchRoute_def first_some_None path_matches_def)

lemma matchRoute_Some:
  "matchRoute r is path = Some (i, params) \<Longrightarrow>
   i \<in> set is \<and> compiledRoute_match (rr_compiled r ! i) path = Some params"
  by (auto simp: matchRoute_def first_some_Some)

lemma set_allowedMethods:
  assumes "router_inv r"
  shows "m \<in> set (allowedMethods r path) \<longleftrightarrow> path_matches r m path \<or> (m = ''HEAD'' \<and> path_matches r ''GET'' path)"
proof -
  have d: "distinct (map fst (rr_routes r))" using assms by (simp add: router_inv_def)
  have m: "m \<in> fst ` set (filter (\<lambda>(m, is). matchRoute r is path \<noteq> None) (rr_routes r)) \<longleftrightarrow> path_matches r m path" for m
    unfolding keys_filter_iff [OF d] matchRoute_None [symmetric, THEN arg_cong [of _ _ Not], unfolded not_not]
    by (auto simp: routes_of_def matchRoute_def path_matches_def first_some_None split: option.splits)
  show ?thesis unfolding allowedMethods_def Let_def set_map [symmetric]
    using m [of m] m [of "''GET''"] m [of "''HEAD''"] by auto
qed

lemma concat_slash: "ts \<noteq> [] \<Longrightarrow> concat (map (\<lambda>t. CHR ''/'' # t) ts) = CHR ''/'' # Join ''/'' ts"
  by (induction ts) (auto simp: Join_Cons)

lemma Join_last_char:
  "ts \<noteq> [] \<Longrightarrow> \<forall>t \<in> set ts. t \<noteq> [] \<and> CHR ''/'' \<notin> set t \<Longrightarrow> Join ''/'' ts \<noteq> [] \<and> last (Join ''/'' ts) \<noteq> CHR ''/''"
  by (induction ts) (auto simp: Join_Cons last_in_set split: if_splits, metis last_in_set)

lemma splitPath_parts:
  assumes "ts \<noteq> []" and "\<forall>t \<in> set ts. t \<noteq> [] \<and> CHR ''/'' \<notin> set t"
  shows "splitPath (CHR ''/'' # Join ''/'' ts) = ts"
proof -
  have "TrimPrefix (CHR ''/'' # Join ''/'' ts) ''/'' = Join ''/'' ts"
    using TrimPrefix_append [of "''/''" "Join ''/'' ts"] by simp
  moreover have "\<not> HasSuffix (Join ''/'' ts) ''/''"
    using Join_last_char [OF assms] by (auto simp: HasSuffix_iff)
  moreover have "SplitOn CHR ''/'' (Join ''/'' ts) = ts" using assms by (intro SplitOn_Join) auto
  ultimately show ?thesis using Join_last_char [OF assms] by (simp add: splitPath_def TrimSuffix_def)
qed

definition path_seg_text :: "(string, string) gomap \<Rightarrow> segment \<Rightarrow> string" where
  "path_seg_text kv seg = (if sg_param seg \<noteq> [] then the (map_of kv (sg_param seg)) else sg_lit seg)"

lemma url_segments_plain:
  "url_segments name kv segs = Inr url \<Longrightarrow> \<forall>seg \<in> set segs. \<not> sg_wild seg \<Longrightarrow>
   url = concat (map (\<lambda>t. CHR ''/'' # t) (map (path_seg_text kv) segs))
   \<and> (\<forall>seg \<in> set segs. sg_param seg \<noteq> [] \<longrightarrow> map_of kv (sg_param seg) \<noteq> None)"
proof (induction segs arbitrary: url)
  case (Cons seg segs)
  then show ?case
    by (auto simp: path_seg_text_def Let_def split: if_splits option.splits sum.splits)
qed simp

lemma match_segments_filled:
  "\<forall>seg \<in> set segs. \<not> sg_wild seg \<Longrightarrow>
   \<exists>m. match_segments segs (map (path_seg_text kv) segs) acc = Some m
     \<and> (\<forall>p. map_of m p = (if p \<noteq> [] \<and> p \<in> sg_param ` set segs then Some (the (map_of kv p)) else map_of acc p))"
proof (induction segs arbitrary: acc)
  case (Cons seg segs)
  show ?case
  proof (cases "sg_param seg \<noteq> []")
    case True
    from Cons obtain m where "match_segments segs (map (path_seg_text kv) segs) (AList.update (sg_param seg) (the (map_of kv (sg_param seg))) acc) = Some m"
      "\<forall>p. map_of m p = (if p \<noteq> [] \<and> p \<in> sg_param ` set segs then Some (the (map_of kv p))
          else map_of (AList.update (sg_param seg) (the (map_of kv (sg_param seg))) acc) p)"
      by (metis list.set_intros(2))
    moreover have "path_seg_text kv seg = the (map_of kv (sg_param seg))" using True by (simp add: path_seg_text_def)
    ultimately show ?thesis using True Cons.prems by (intro exI [of _ m]) auto
  next
    case False
    then have "path_seg_text kv seg = sg_lit seg" by (simp add: path_seg_text_def)
    moreover from Cons obtain m where "match_segments segs (map (path_seg_text kv) segs) acc = Some m"
      "\<forall>p. map_of m p = (if p \<noteq> [] \<and> p \<in> sg_param ` set segs then Some (the (map_of kv p)) else map_of acc p)"
      by (metis list.set_intros(2))
    ultimately show ?thesis using False Cons.prems by (intro exI [of _ m]) auto
  qed
qed simp

section \<open>Properties\<close>

text \<open>
  C13. The router's decision is complete and sound: it runs a route only if that route was registered
  for the request's method (or for GET, when the method is HEAD and no HEAD route matches) and its
  pattern matches the path with the captured parameters; it answers 405 with exactly the sorted
  methods under which the path exists, never listing the request's own; and it answers not found
  exactly when the path matches no route of any method.
\<close>

theorem router_decide_spec:
  assumes "router_inv r" and "path \<noteq> []"
  shows "(\<forall>i params fb. router_decide r m path = RunRoute i params fb \<longrightarrow>
             i \<in> set (routes_of r (if fb then ''GET'' else m)) \<and> (fb \<longrightarrow> m = ''HEAD'' \<and> \<not> path_matches r ''HEAD'' path)
             \<and> compiledRoute_match (rr_compiled r ! i) path = Some params)
    \<and> (\<forall>al. router_decide r m path = MethodNotAllowed al \<or> router_decide r m path = AutoOptions al \<longrightarrow>
             sorted al \<and> m \<notin> set al
             \<and> (\<forall>m'. m' \<in> set al \<longleftrightarrow> path_matches r m' path \<or> (m' = ''HEAD'' \<and> path_matches r ''GET'' path)))
    \<and> (router_decide r m path = RouteNotFound \<longleftrightarrow> (\<forall>m'. \<not> path_matches r m' path))"
proof -
  let ?M = "matchRoute r (routes_of r m) path" and ?G = "matchRoute r (routes_of r ''GET'') path"
  have empty: "allowedMethods r path = [] \<longleftrightarrow> (\<forall>m'. \<not> path_matches r m' path)"
    using set_allowedMethods [OF assms(1), of _ path] by (metis all_not_in_conv list.set(1) set_empty)
  have sorted: "sorted (allowedMethods r path)" by (simp add: allowedMethods_def Let_def)
  consider (own) i p where "?M = Some (i, p)" | (head) i p where "?M = None" "m = ''HEAD''" "?G = Some (i, p)"
    | (none) "?M = None" "m = ''HEAD'' \<longrightarrow> ?G = None" by (metis not_Some_eq surj_pair)
  then show ?thesis
  proof cases
    case own
    then have "path_matches r m path" using matchRoute_None [of r m path] by auto
    moreover have d: "router_decide r m path = RunRoute i p False" using own assms(2) by (simp add: router_decide_def)
    ultimately show ?thesis unfolding d using matchRoute_Some [OF own] by auto
  next
    case head
    then have "path_matches r ''GET'' path" "\<not> path_matches r ''HEAD'' path"
      using matchRoute_None [of r "''GET''" path] matchRoute_None [of r m path] by auto
    moreover have d: "router_decide r m path = RunRoute i p True" using head assms(2) by (simp add: router_decide_def)
    ultimately show ?thesis unfolding d using matchRoute_Some [OF head(3)] head(2) by auto
  next
    case none
    then have no: "\<not> path_matches r m path" "m = ''HEAD'' \<longrightarrow> \<not> path_matches r ''GET'' path"
      using matchRoute_None [of r m path] matchRoute_None [of r "''GET''" path] by auto
    have d: "router_decide r m path = (if allowedMethods r path \<noteq> [] then
        (if m = ''OPTIONS'' then AutoOptions (allowedMethods r path) else MethodNotAllowed (allowedMethods r path)) else RouteNotFound)"
    proof (cases "m = ''HEAD''")
      case True
      with none have "?G = None" by blast
      with True none(1) assms(2) show ?thesis by (simp add: router_decide_def Let_def)
    qed (use none(1) assms(2) in \<open>simp add: router_decide_def Let_def\<close>)
    have al: "m \<notin> set (allowedMethods r path)" using no set_allowedMethods [OF assms(1), of m path] by auto
    show ?thesis
      using empty sorted al set_allowedMethods [OF assms(1), of _ path]
      unfolding d by (simp split: if_splits) blast
  qed
qed

text \<open>
  URL generation inverts matching: for a named route without wildcards whose parameters are given
  non-empty values without slashes, the generated URL is matched by that route, which captures
  exactly the given values.
\<close>

theorem url_match_roundtrip:
  assumes "map_of (rr_named r) name = Some i" and "Router_URL r name params = Inr url"
    and "rt_segments (rr_compiled r ! i) \<noteq> []"
    and "\<forall>seg \<in> set (rt_segments (rr_compiled r ! i)). \<not> sg_wild seg
           \<and> path_seg_text (url_params params []) seg \<noteq> [] \<and> CHR ''/'' \<notin> set (path_seg_text (url_params params []) seg)"
  shows "\<exists>m. compiledRoute_match (rr_compiled r ! i) url = Some m
    \<and> (\<forall>seg \<in> set (rt_segments (rr_compiled r ! i)). sg_param seg \<noteq> [] \<longrightarrow>
         map_of m (sg_param seg) = map_of (url_params params []) (sg_param seg))"
proof -
  let ?segs = "rt_segments (rr_compiled r ! i)" and ?kv = "url_params params []"
  let ?ts = "map (path_seg_text ?kv) ?segs"
  have u: "url_segments name ?kv ?segs = Inr url" using assms(1,2) by (simp add: Router_URL_def)
  with url_segments_plain [OF this] assms(4) have url: "url = concat (map (\<lambda>t. CHR ''/'' # t) ?ts)"
    and given: "\<forall>seg \<in> set ?segs. sg_param seg \<noteq> [] \<longrightarrow> map_of ?kv (sg_param seg) \<noteq> None" by auto
  have "splitPath url = ?ts"
    unfolding url using assms(3,4) by (subst concat_slash) (simp, rule splitPath_parts, auto)
  then have "compiledRoute_match (rr_compiled r ! i) url = match_segments ?segs ?ts []"
    by (simp add: compiledRoute_match_def)
  moreover from match_segments_filled [of ?segs ?kv "[]"] assms(4) obtain m where
    "match_segments ?segs ?ts [] = Some m"
    "\<forall>p. map_of m p = (if p \<noteq> [] \<and> p \<in> sg_param ` set ?segs then Some (the (map_of ?kv p)) else None)" by auto
  ultimately show ?thesis using given by force
qed

text \<open>
  Middleware runs in order: if every middleware records itself and calls the next handler, a
  matched request passes the global middleware in registration order, then the route's own, then the
  handler, once each.
\<close>

theorem middleware_order:
  assumes "\<And>i next c. mf i next c = next (visit i c)"
    and "router_decide r (rq_Method req) (rq_Path req) = RunRoute i params False"
  shows "Router_ServeHTTP hf mf ef json r w req =
    finish ef r (hf (rt_handler (rr_compiled r ! i))
      (fold visit (rr_middleware r @ rt_middleware (rr_compiled r ! i)) (NewContext w req params json)))"
proof -
  have "runWithMiddleware mf mw h c = h (fold visit mw c)" for mw h c
    by (induction mw arbitrary: c) (simp_all add: runWithMiddleware_def assms(1))
  then show ?thesis using assms(2) by (simp add: Router_ServeHTTP_def Let_def)
qed

section \<open>A concrete router\<close>

definition demo_router :: Router where
  "demo_router =
     (let (i, r) = addRoute (Router_Use Router_New [1]) ''get'' ''/users/:id'' 7 [2] in Route_Name r i ''user'')"

definition demo_request :: "string \<Rightarrow> string \<Rightarrow> Request" where
  "demo_request method path = \<lparr>rq_Method = method, rq_Path = path, rq_Query = [], rq_Header = [], rq_Form = [], rq_Cookies = [],
     rq_RemoteAddr = ''1.2.3.4:99'', rq_TLS = False, rq_params = []\<rparr>"

lemma router_inv_Name: "router_inv r \<Longrightarrow> i < length (rr_compiled r) \<Longrightarrow> router_inv (Route_Name r i name)"
  by (auto simp: router_inv_def Route_Name_def registerNamed_def nth_list_update)

lemma router_inv_demo: "router_inv demo_router"
proof -
  have "router_inv (snd (addRoute (Router_Use Router_New [1]) ''get'' ''/users/:id'' 7 [2]))"
    by (rule router_inv_addRoute) (simp add: router_inv_def Router_Use_def Router_New_def)
  moreover have "fst (addRoute (Router_Use Router_New [1]) ''get'' ''/users/:id'' 7 [2])
      < length (rr_compiled (snd (addRoute (Router_Use Router_New [1]) ''get'' ''/users/:id'' 7 [2])))"
    by (simp add: addRoute_def Let_def)
  ultimately show ?thesis unfolding demo_router_def by (simp add: case_prod_beta router_inv_Name)
qed

theorem router_decide_spec_witness:
  "router_decide demo_router ''POST'' ''/users/42'' = MethodNotAllowed [''GET'', ''HEAD'']
   \<and> path_matches demo_router ''GET'' ''/users/42'' \<and> \<not> path_matches demo_router ''POST'' ''/users/42''"
proof -
  have d: "router_decide demo_router ''POST'' ''/users/42'' = MethodNotAllowed [''GET'', ''HEAD'']" by code_simp
  with router_decide_spec [OF router_inv_demo, of "''/users/42''" "''POST''"]
  have m: "m' \<in> set [''GET'', ''HEAD''] \<longleftrightarrow> path_matches demo_router m' ''/users/42''
      \<or> (m' = ''HEAD'' \<and> path_matches demo_router ''GET'' ''/users/42'')" for m' by blast
  from m [of "''GET''"] m [of "''POST''"] d show ?thesis by simp
qed

theorem url_match_roundtrip_witness:
  "Router_URL demo_router ''user'' [''id'', ''42''] = Inr ''/users/42''
   \<and> (\<exists>m. compiledRoute_match (rr_compiled demo_router ! 0) ''/users/42'' = Some m \<and> map_of m ''id'' = Some ''42'')"
proof -
  have u: "Router_URL demo_router ''user'' [''id'', ''42''] = Inr ''/users/42''" by code_simp
  moreover have "map_of (rr_named demo_router) ''user'' = Some 0" by code_simp
  moreover have "rt_segments (rr_compiled demo_router ! 0) =
      [\<lparr>sg_lit = ''users'', sg_param = [], sg_wild = False\<rparr>, \<lparr>sg_lit = [], sg_param = ''id'', sg_wild = False\<rparr>]" by code_simp
  ultimately show ?thesis
    using url_match_roundtrip [of demo_router "''user''" 0 "[''id'', ''42'']" "''/users/42''"]
    by (simp add: path_seg_text_def)
qed

theorem middleware_order_witness:
  "cx_store (snd (Router_ServeHTTP (\<lambda>_ c. (HNil, c)) (\<lambda>i next c. next (Context_Set c ''last'' (GInt (of_nat i)))) (\<lambda>_ _ c. c)
      (\<lambda>_. []) demo_router new_wire (demo_request ''GET'' ''/users/42''))) = [(''last'', GInt 2)]"
proof -
  have d: "router_decide demo_router (rq_Method (demo_request ''GET'' ''/users/42'')) (rq_Path (demo_request ''GET'' ''/users/42''))
      = RunRoute 0 [(''id'', ''42'')] False" by code_simp
  have r: "rr_middleware demo_router = [1]" "rt_middleware (rr_compiled demo_router ! 0) = [2]" by code_simp+
  show ?thesis
    by (subst middleware_order [where visit = "\<lambda>i c. Context_Set c ''last'' (GInt (of_nat i))", OF _ d])
       (simp_all add: r finish_def NewContext_def Context_Set_def)
qed

end
