(* ===== verification/Job_Queue.thy ===== *)
theory Job_Queue
  imports Oni_Prelude
begin

text \<open>
  Model of \<open>framework/queue\<close> (\<open>queue.go\<close>, \<open>job.go\<close>) and of its memory driver \<open>drivers/memory.go\<close>. The Go
  interface \<open>Driver\<close> is a record of functions on a driver state; the locale \<open>queue_driver\<close> states the
  contract the manager relies on, and the memory driver interprets it. A job is user code: \<open>qe_handle\<close>
  gives how an attempt at a time ends (success, error, panic), and \<open>qe_decode\<close> is \<open>json.Unmarshal\<close> into
  what the factory made. Workers run concurrently; \<open>q_step\<close> splits a worker at its driver calls.
\<close>

section \<open>Data\<close>

record Payload =
  py_Class :: string
  py_Data :: string
  py_ID :: string
  py_Attempts :: int
  py_MaxAttempts :: int
  py_Queue :: string
  py_AvailableAt :: gotime

datatype queue_error = UnknownJobClass string | UnmarshalJob string | MarshalJob | DriverError

text \<open>\<open>Pop\<close> returns the payload, \<^const>\<open>None\<close> for nil, or an error.\<close>

record 'd Driver =
  drv_Push :: "'d \<Rightarrow> gotime \<Rightarrow> string \<Rightarrow> Payload \<Rightarrow> queue_error option \<times> 'd"
  drv_Pop :: "'d \<Rightarrow> gotime \<Rightarrow> string \<Rightarrow> (queue_error + Payload option) \<times> 'd"
  drv_Dead :: "'d \<Rightarrow> gotime \<Rightarrow> Payload \<Rightarrow> queue_error option \<times> 'd"
  drv_Release :: "'d \<Rightarrow> gotime \<Rightarrow> Payload \<Rightarrow> duration \<Rightarrow> queue_error option \<times> 'd"

datatype job_outcome = JobNil | JobError string | JobPanic string

record 'j queue_env =
  qe_registry :: "(string, nat) gomap"
  qe_decode :: "nat \<Rightarrow> string \<Rightarrow> 'j option"
  qe_handle :: "'j \<Rightarrow> gotime \<Rightarrow> job_outcome"

record QueueOptions =
  qo_Queues :: "string list"
  qo_Workers :: int
  qo_PollInterval :: duration

section \<open>Jobs and the manager\<close>

definition queue_Register :: "'j queue_env \<Rightarrow> string \<Rightarrow> nat \<Rightarrow> 'j queue_env" where
  "queue_Register env class factory = env\<lparr>qe_registry := AList.update class factory (qe_registry env)\<rparr>"

definition Payload_Unmarshal :: "'j queue_env \<Rightarrow> Payload \<Rightarrow> queue_error + 'j" where
  "Payload_Unmarshal env p =
     (case map_of (qe_registry env) (py_Class p) of
        None \<Rightarrow> Inl (UnknownJobClass (py_Class p))
      | Some factory \<Rightarrow>
          (case qe_decode env factory (py_Data p) of None \<Rightarrow> Inl (UnmarshalJob (py_Class p)) | Some j \<Rightarrow> Inr j))"

definition NewManager_opts :: "QueueOptions \<Rightarrow> QueueOptions" where
  "NewManager_opts o0 =
     (let o1 = (if qo_Workers o0 \<le> 0 then o0\<lparr>qo_Workers := 5\<rparr> else o0);
          o2 = (if qo_PollInterval o1 \<le> 0 then o1\<lparr>qo_PollInterval := second\<rparr> else o1)
      in if qo_Queues o2 = [] then o2\<lparr>qo_Queues := [''default'']\<rparr> else o2)"

text \<open>
  \<open>Dispatch\<close>, with the dynamic type name, the result of \<open>json.Marshal\<close> and the random ID as arguments;
  \<open>mx\<close> is \<open>opts[0].MaxAttempts\<close>, 0 when there are no options.
\<close>

definition Manager_Dispatch ::
  "'d Driver \<Rightarrow> 'd \<Rightarrow> gotime \<Rightarrow> string \<Rightarrow> string \<Rightarrow> string option \<Rightarrow> string \<Rightarrow> duration \<Rightarrow> int \<Rightarrow> queue_error option \<times> 'd" where
  "Manager_Dispatch D d now queue class marshalled jobid delay mx =
     (case marshalled of
        None \<Rightarrow> (Some MarshalJob, d)
      | Some b \<Rightarrow>
          drv_Push D d now queue
            \<lparr>py_Class = class, py_Data = b, py_ID = jobid, py_Attempts = 0, py_MaxAttempts = (if mx > 0 then mx else 3),
             py_Queue = queue, py_AvailableAt = now + delay\<rparr>)"

definition safeHandle :: "'j queue_env \<Rightarrow> gotime \<Rightarrow> 'j \<Rightarrow> string option" where
  "safeHandle env now j =
     (case qe_handle env j now of
        JobNil \<Rightarrow> None
      | JobError e \<Rightarrow> Some e
      | JobPanic v \<Rightarrow> Some (''queue: job panicked: '' @ v))"

text \<open>\<open>time.Duration(1<<uint(p.Attempts)) * time.Second\<close> in 64-bit arithmetic.\<close>

definition backoff :: "int \<Rightarrow> duration" where
  "backoff attempts = sint (push_bit (unat (word_of_int attempts :: u64)) 1 * 1000000000 :: i64)"

text \<open>\<open>process\<close>; the boolean says that the job is finished.\<close>

definition process :: "'d Driver \<Rightarrow> 'j queue_env \<Rightarrow> gotime \<Rightarrow> 'd \<Rightarrow> Payload \<Rightarrow> bool \<times> 'd" where
  "process D env now d p0 =
     (let p = p0\<lparr>py_Attempts := py_Attempts p0 + 1\<rparr>
      in case Payload_Unmarshal env p of
           Inl _ \<Rightarrow> (False, snd (drv_Dead D d now p))
         | Inr job \<Rightarrow>
             (case safeHandle env now job of
                None \<Rightarrow> (True, d)
              | Some _ \<Rightarrow>
                  if py_Attempts p \<ge> py_MaxAttempts p then (False, snd (drv_Dead D d now p))
                  else (False, snd (drv_Release D d now p (backoff (py_Attempts p))))))"

section \<open>The memory driver\<close>

record Memory =
  mem_queues :: "(string, Payload list) gomap"
  mem_dead :: "Payload list"

definition NewMemory :: Memory where
  "NewMemory = \<lparr>mem_queues = [], mem_dead = []\<rparr>"

definition mem_items :: "Memory \<Rightarrow> string \<Rightarrow> Payload list" where
  "mem_items m q = (case map_of (mem_queues m) q of None \<Rightarrow> [] | Some ps \<Rightarrow> ps)"

definition Memory_Push :: "Memory \<Rightarrow> gotime \<Rightarrow> string \<Rightarrow> Payload \<Rightarrow> queue_error option \<times> Memory" where
  "Memory_Push m now q p = (None, m\<lparr>mem_queues := AList.update q (mem_items m q @ [p]) (mem_queues m)\<rparr>)"

fun pop_ready :: "gotime \<Rightarrow> Payload list \<Rightarrow> (Payload \<times> Payload list) option" where
  "pop_ready now [] = None"
| "pop_ready now (p # ps) =
     (if py_AvailableAt p < now \<or> py_AvailableAt p = now then Some (p, ps)
      else map_option (\<lambda>(r, rest). (r, p # rest)) (pop_ready now ps))"

definition Memory_Pop :: "Memory \<Rightarrow> gotime \<Rightarrow> string \<Rightarrow> (queue_error + Payload option) \<times> Memory" where
  "Memory_Pop m now q =
     (case pop_ready now (mem_items m q) of
        None \<Rightarrow> (Inr None, m)
      | Some (p, rest) \<Rightarrow> (Inr (Some p), m\<lparr>mem_queues := AList.update q rest (mem_queues m)\<rparr>))"

definition Memory_Dead :: "Memory \<Rightarrow> gotime \<Rightarrow> Payload \<Rightarrow> queue_error option \<times> Memory" where
  "Memory_Dead m now p = (None, m\<lparr>mem_dead := mem_dead m @ [p]\<rparr>)"

definition Memory_Release :: "Memory \<Rightarrow> gotime \<Rightarrow> Payload \<Rightarrow> duration \<Rightarrow> queue_error option \<times> Memory" where
  "Memory_Release m now p delay = Memory_Push m now (py_Queue p) (p\<lparr>py_AvailableAt := now + delay\<rparr>)"

definition Memory_DeadLetters :: "Memory \<Rightarrow> Payload list" where
  "Memory_DeadLetters m = mem_dead m"

definition Memory_Size :: "Memory \<Rightarrow> string \<Rightarrow> nat" where
  "Memory_Size m q = length (mem_items m q)"

definition memory_driver :: "Memory Driver" where
  "memory_driver = \<lparr>drv_Push = Memory_Push, drv_Pop = Memory_Pop, drv_Dead = Memory_Dead, drv_Release = Memory_Release\<rparr>"

section \<open>Draining a queue\<close>

text \<open>
  The loop of \<open>processAll\<close> on one queue of the memory driver, with the clock advancing by \<open>tick n\<close> before
  the \<open>n\<close>-th round. It stops at the first empty pop. Its measure: every round either removes a payload for
  good or re-queues one whose remaining attempts went down.
\<close>

definition attempts_left :: "Payload \<Rightarrow> nat" where
  "attempts_left p = Suc (nat (py_MaxAttempts p - py_Attempts p))"

definition work_left :: "Memory \<Rightarrow> nat" where
  "work_left m = sum_list (map (\<lambda>(q, ps). sum_list (map attempts_left ps)) (mem_queues m))"

function drain :: "'j queue_env \<Rightarrow> (nat \<Rightarrow> gotime) \<Rightarrow> string \<Rightarrow> nat \<Rightarrow> Memory \<Rightarrow> nat \<times> Memory" where
  "drain env clock q n m =
     (case Memory_Pop m (clock n) q of
        (Inr (Some p), m1) \<Rightarrow> drain env clock q (n + 1) (snd (process memory_driver env (clock n) m1 p))
      | _ \<Rightarrow> (n, m))"
  by pat_completeness auto

lemma pop_ready_mset: "pop_ready now ps = Some (p, rest) \<Longrightarrow> mset ps = add_mset p (mset rest) \<and> py_AvailableAt p \<le> now"
  by (induction ps arbitrary: rest) (auto split: if_splits)

lemma pop_ready_first:
  "pop_ready now ps = Some (p, rest) \<Longrightarrow>
   \<exists>us vs. ps = us @ p # vs \<and> rest = us @ vs \<and> (\<forall>u \<in> set us. now < py_AvailableAt u)"
proof (induction ps arbitrary: rest)
  case (Cons a ps)
  show ?case
  proof (cases "py_AvailableAt a < now \<or> py_AvailableAt a = now")
    case True
    with Cons.prems show ?thesis by (intro exI [of _ "[]"] exI [of _ ps]) auto
  next
    case False
    with Cons.prems obtain rest' where "pop_ready now ps = Some (p, rest')" "rest = a # rest'" by auto
    moreover from Cons.IH [OF this(1)] obtain us vs where
      "ps = us @ p # vs" "rest' = us @ vs" "\<forall>u \<in> set us. now < py_AvailableAt u" by blast
    ultimately show ?thesis using False by (intro exI [of _ "a # us"] exI [of _ vs]) auto
  qed
qed simp

lemma pop_ready_None: "pop_ready now ps = None \<longleftrightarrow> (\<forall>p \<in> set ps. now < py_AvailableAt p)"
  by (induction ps) (auto split: option.splits)

lemma sum_list_update:
  "sum_list (map (\<lambda>(q, ps). f ps) (AList.update k v m)) + (case map_of m k of None \<Rightarrow> 0 | Some w \<Rightarrow> f w)
     = sum_list (map (\<lambda>(q, ps). f ps) m) + (f v :: nat)"
  by (induction m) auto

lemma work_left_update:
  "work_left (m\<lparr>mem_queues := AList.update q ps (mem_queues m)\<rparr>) + sum_list (map attempts_left (mem_items m q))
     = work_left m + sum_list (map attempts_left ps)"
  using sum_list_update [of "\<lambda>ps. sum_list (map attempts_left ps)" q ps "mem_queues m"]
  by (auto simp: work_left_def mem_items_def split: option.splits)

lemma work_left_pop:
  assumes "Memory_Pop m now q = (Inr (Some p), m1)"
  shows "work_left m = work_left m1 + attempts_left p"
proof -
  from assms obtain rest where p: "pop_ready now (mem_items m q) = Some (p, rest)"
    and m1: "m1 = m\<lparr>mem_queues := AList.update q rest (mem_queues m)\<rparr>"
    by (auto simp: Memory_Pop_def split: option.splits)
  have "sum_list (map attempts_left (mem_items m q)) = attempts_left p + sum_list (map attempts_left rest)"
    using pop_ready_mset [OF p] by (metis mset_map sum_mset.insert sum_mset_sum_list image_mset_add_mset)
  with work_left_update [where m = m and q = q and ps = rest] m1 show ?thesis by simp
qed

lemma work_left_push: "work_left (snd (Memory_Push m now q p)) = work_left m + attempts_left p"
  using work_left_update [where m = m and q = q and ps = "mem_items m q @ [p]"] by (simp add: Memory_Push_def)

lemma work_left_process: "work_left (snd (process memory_driver env now m p)) < work_left m + attempts_left p"
proof -
  have "work_left (snd (Memory_Dead m now p')) = work_left m" for p'
    by (simp add: Memory_Dead_def work_left_def)
  then show ?thesis
    using work_left_push [of m now "py_Queue p"]
    by (auto simp: process_def Let_def memory_driver_def Memory_Release_def attempts_left_def
        split: sum.splits option.splits)
qed

lemma work_left_round:
  "(Inr (Some p), m1) = Memory_Pop m now q \<Longrightarrow> work_left (snd (process memory_driver env now' m1 p)) < work_left m"
  using work_left_process [of env now' m1 p] work_left_pop [of m now q p m1] by simp

termination drain
  by (relation "measure (\<lambda>(env, clock, q, n, m). work_left m)") (auto intro: work_left_round)

declare drain.simps [simp del]

text \<open>\<open>processAll\<close>: the queues in priority order.\<close>

fun processAll :: "'j queue_env \<Rightarrow> (nat \<Rightarrow> gotime) \<Rightarrow> string list \<Rightarrow> nat \<Rightarrow> Memory \<Rightarrow> nat \<times> Memory" where
  "processAll env clock [] n m = (n, m)"
| "processAll env clock (q # qs) n m = (let (n', m') = drain env clock q n m in processAll env clock qs n' m')"

section \<open>The driver contract\<close>

text \<open>
  What the manager relies on: the payloads a driver holds as a multiset and its dead letters, and how
  the four operations act on them.
\<close>

locale queue_driver =
  fixes D :: "'d Driver"
    and held :: "'d \<Rightarrow> Payload multiset"
    and dead :: "'d \<Rightarrow> Payload multiset"
  assumes push_law: "held (snd (drv_Push D d now q p)) = add_mset p (held d) \<and> dead (snd (drv_Push D d now q p)) = dead d"
    and pop_some: "drv_Pop D d now q = (Inr (Some p), d') \<Longrightarrow> held d = add_mset p (held d') \<and> dead d' = dead d"
    and dead_law: "held (snd (drv_Dead D d now p)) = held d \<and> dead (snd (drv_Dead D d now p)) = add_mset p (dead d)"
    and release_law: "\<exists>p'. py_ID p' = py_ID p \<and> py_Attempts p' = py_Attempts p \<and> py_MaxAttempts p' = py_MaxAttempts p
        \<and> held (snd (drv_Release D d now p delay)) = add_mset p' (held d) \<and> dead (snd (drv_Release D d now p delay)) = dead d"
begin

definition ids :: "Payload multiset \<Rightarrow> string multiset" where
  "ids ps = image_mset py_ID ps"

lemma process_conserves:
  "ids (held (snd (process D env now d p))) + ids (dead (snd (process D env now d p)))
     + (if fst (process D env now d p) then {#py_ID p#} else {#})
   = add_mset (py_ID p) (ids (held d) + ids (dead d))"
proof -
  let ?p = "p\<lparr>py_Attempts := py_Attempts p + 1\<rparr>"
  obtain p' where p': "py_ID p' = py_ID p" "held (snd (drv_Release D d now ?p (backoff (py_Attempts ?p)))) = add_mset p' (held d)"
    "dead (snd (drv_Release D d now ?p (backoff (py_Attempts ?p)))) = dead d"
    using release_law [of ?p d now "backoff (py_Attempts ?p)"] by auto
  then show ?thesis
    using dead_law [of d now ?p]
    by (auto simp: process_def Let_def ids_def split: sum.splits option.splits)
qed

definition attempts_ok :: "Payload multiset \<Rightarrow> bool" where
  "attempts_ok ps = (\<forall>p \<in># ps. 0 \<le> py_Attempts p \<and> py_Attempts p < py_MaxAttempts p)"

lemma process_attempts:
  assumes "attempts_ok (held d)" and "0 \<le> py_Attempts p" and "py_Attempts p < py_MaxAttempts p"
  shows "attempts_ok (held (snd (process D env now d p)))"
proof -
  let ?p = "p\<lparr>py_Attempts := py_Attempts p + 1\<rparr>"
  obtain p' where p': "py_Attempts p' = py_Attempts p + 1" "py_MaxAttempts p' = py_MaxAttempts p"
    "held (snd (drv_Release D d now ?p (backoff (py_Attempts ?p)))) = add_mset p' (held d)"
    using release_law [of ?p d now "backoff (py_Attempts ?p)"] by auto
  with assms show ?thesis
    using dead_law [of d now ?p]
    by (auto simp: process_def Let_def attempts_ok_def split: sum.splits option.splits)
qed

end

definition mem_held :: "Memory \<Rightarrow> Payload multiset" where
  "mem_held m = sum_list (map (\<lambda>(q, ps). mset ps) (mem_queues m))"

lemma mem_held_update:
  "mem_held (m\<lparr>mem_queues := AList.update q ps (mem_queues m)\<rparr>) + mset (mem_items m q) = mem_held m + mset ps"
proof -
  have "sum_list (map (\<lambda>(q, ps). mset ps) (AList.update q ps qs)) + mset (case map_of qs q of None \<Rightarrow> [] | Some w \<Rightarrow> w)
      = sum_list (map (\<lambda>(q, ps). mset ps) qs) + mset ps" for qs :: "(string, Payload list) gomap"
    by (induction qs) auto
  then show ?thesis by (simp add: mem_held_def mem_items_def)
qed

lemma mem_held_push: "mem_held (snd (Memory_Push m now q p)) = add_mset p (mem_held m)"
  using mem_held_update [where m = m and q = q and ps = "mem_items m q @ [p]"] by (simp add: Memory_Push_def)

lemma mem_held_pop:
  assumes "Memory_Pop m now q = (Inr (Some p), m')"
  shows "mem_held m = add_mset p (mem_held m') \<and> mem_dead m' = mem_dead m"
proof -
  from assms obtain rest where p: "pop_ready now (mem_items m q) = Some (p, rest)"
    and m': "m' = m\<lparr>mem_queues := AList.update q rest (mem_queues m)\<rparr>"
    by (auto simp: Memory_Pop_def split: option.splits)
  with mem_held_update [where m = m and q = q and ps = rest] pop_ready_mset [OF p] show ?thesis by simp
qed

interpretation memory_q: queue_driver memory_driver mem_held "\<lambda>m. mset (mem_dead m)"
proof
  fix d :: Memory and now q p d' delay
  show "mem_held (snd (drv_Push memory_driver d now q p)) = add_mset p (mem_held d)
      \<and> mset (mem_dead (snd (drv_Push memory_driver d now q p))) = mset (mem_dead d)"
    by (simp add: memory_driver_def mem_held_push) (simp add: Memory_Push_def)
  show "drv_Pop memory_driver d now q = (Inr (Some p), d') \<Longrightarrow>
      mem_held d = add_mset p (mem_held d') \<and> mset (mem_dead d') = mset (mem_dead d)"
    using mem_held_pop [of d now q p d'] by (simp add: memory_driver_def)
  show "mem_held (snd (drv_Dead memory_driver d now p)) = mem_held d
      \<and> mset (mem_dead (snd (drv_Dead memory_driver d now p))) = add_mset p (mset (mem_dead d))"
    by (simp add: memory_driver_def Memory_Dead_def mem_held_def)
  show "\<exists>p'. py_ID p' = py_ID p \<and> py_Attempts p' = py_Attempts p \<and> py_MaxAttempts p' = py_MaxAttempts p
        \<and> mem_held (snd (drv_Release memory_driver d now p delay)) = add_mset p' (mem_held d)
        \<and> mset (mem_dead (snd (drv_Release memory_driver d now p delay))) = mset (mem_dead d)"
    by (intro exI [of _ "p\<lparr>py_AvailableAt := now + delay\<rparr>"])
       (simp add: memory_driver_def Memory_Release_def mem_held_push, simp add: Memory_Push_def)
qed

section \<open>Workers\<close>

text \<open>
  The system: a driver, the payloads that workers hold between \<open>Pop\<close> and the end of \<open>process\<close>, the IDs of
  finished jobs and of all jobs ever dispatched. Any number of workers may interleave.
\<close>

record q_sys =
  qs_driver :: Memory
  qs_inflight :: "Payload multiset"
  qs_done :: "string multiset"
  qs_dispatched :: "string multiset"

inductive q_step :: "'j queue_env \<Rightarrow> q_sys \<Rightarrow> q_sys \<Rightarrow> bool" for env where
  q_dispatch:
    "Manager_Dispatch memory_driver (qs_driver \<sigma>) now queue class (Some b) jobid delay mx = (None, d') \<Longrightarrow>
     q_step env \<sigma> (\<sigma>\<lparr>qs_driver := d', qs_dispatched := add_mset jobid (qs_dispatched \<sigma>)\<rparr>)"
| q_pop:
    "drv_Pop memory_driver (qs_driver \<sigma>) now q = (Inr (Some p), d') \<Longrightarrow>
     q_step env \<sigma> (\<sigma>\<lparr>qs_driver := d', qs_inflight := add_mset p (qs_inflight \<sigma>)\<rparr>)"
| q_process:
    "p \<in># qs_inflight \<sigma> \<Longrightarrow> process memory_driver env now (qs_driver \<sigma>) p = (fin, d') \<Longrightarrow>
     q_step env \<sigma> (\<sigma>\<lparr>qs_driver := d', qs_inflight := qs_inflight \<sigma> - {#p#},
        qs_done := (if fin then add_mset (py_ID p) (qs_done \<sigma>) else qs_done \<sigma>)\<rparr>)"

inductive q_reachable :: "'j queue_env \<Rightarrow> q_sys \<Rightarrow> bool" for env where
  q_start: "q_reachable env \<lparr>qs_driver = NewMemory, qs_inflight = {#}, qs_done = {#}, qs_dispatched = {#}\<rparr>"
| q_next: "q_reachable env \<sigma> \<Longrightarrow> q_step env \<sigma> \<tau> \<Longrightarrow> q_reachable env \<tau>"

definition q_all_ids :: "q_sys \<Rightarrow> string multiset" where
  "q_all_ids \<sigma> = image_mset py_ID (mem_held (qs_driver \<sigma>)) + image_mset py_ID (qs_inflight \<sigma>)
     + image_mset py_ID (mset (mem_dead (qs_driver \<sigma>))) + qs_done \<sigma>"

definition q_attempts_ok :: "q_sys \<Rightarrow> bool" where
  "q_attempts_ok \<sigma> = (memory_q.attempts_ok (mem_held (qs_driver \<sigma>)) \<and> memory_q.attempts_ok (qs_inflight \<sigma>))"

lemma q_step_conserves:
  assumes "q_step env \<sigma> \<tau>" and "q_all_ids \<sigma> = qs_dispatched \<sigma>"
  shows "q_all_ids \<tau> = qs_dispatched \<tau>"
  using assms(1)
proof cases
  case (q_dispatch now queue cls b jobid delay mx d')
  let ?p = "\<lparr>py_Class = cls, py_Data = b, py_ID = jobid, py_Attempts = 0, py_MaxAttempts = (if mx > 0 then mx else 3),
     py_Queue = queue, py_AvailableAt = now + delay\<rparr>"
  from q_dispatch have "d' = snd (drv_Push memory_driver (qs_driver \<sigma>) now queue ?p)"
    by (simp add: Manager_Dispatch_def prod_eq_iff)
  then have "mem_held d' = add_mset ?p (mem_held (qs_driver \<sigma>))" "mset (mem_dead d') = mset (mem_dead (qs_driver \<sigma>))"
    using memory_q.push_law by blast+
  with q_dispatch(1) assms(2) show ?thesis by (simp add: q_all_ids_def)
next
  case (q_pop now q p d')
  from memory_q.pop_some [OF q_pop(2)] q_pop(1) assms(2) show ?thesis by (simp add: q_all_ids_def)
next
  case (q_process p now fin d')
  obtain rest where rest: "qs_inflight \<sigma> = add_mset p rest" using q_process(2) by (metis mset_add)
  from memory_q.process_conserves [of env now "qs_driver \<sigma>" p]
  have "image_mset py_ID (mem_held d') + image_mset py_ID (mset (mem_dead d')) + (if fin then {#py_ID p#} else {#})
      = add_mset (py_ID p) (image_mset py_ID (mem_held (qs_driver \<sigma>)) + image_mset py_ID (mset (mem_dead (qs_driver \<sigma>))))"
    by (simp add: q_process(3) memory_q.ids_def)
  with q_process(1) rest assms(2) show ?thesis
    by (cases fin) (simp_all add: q_all_ids_def add.assoc add.left_commute add.commute)
qed

lemma q_step_attempts:
  assumes "q_step env \<sigma> \<tau>" and "q_attempts_ok \<sigma>"
  shows "q_attempts_ok \<tau>"
  using assms(1)
proof cases
  case (q_dispatch now queue cls b jobid delay mx d')
  let ?p = "\<lparr>py_Class = cls, py_Data = b, py_ID = jobid, py_Attempts = 0, py_MaxAttempts = (if mx > 0 then mx else 3),
     py_Queue = queue, py_AvailableAt = now + delay\<rparr>"
  from q_dispatch have "d' = snd (drv_Push memory_driver (qs_driver \<sigma>) now queue ?p)"
    by (simp add: Manager_Dispatch_def prod_eq_iff)
  then have "mem_held d' = add_mset ?p (mem_held (qs_driver \<sigma>))" using memory_q.push_law by blast
  with q_dispatch(1) assms(2) show ?thesis by (simp add: q_attempts_ok_def memory_q.attempts_ok_def)
next
  case (q_pop now q p d')
  from memory_q.pop_some [OF q_pop(2)] q_pop(1) assms(2) show ?thesis
    by (simp add: q_attempts_ok_def memory_q.attempts_ok_def)
next
  case (q_process p now fin d')
  have held: "memory_q.attempts_ok (mem_held (qs_driver \<sigma>))" and infl: "memory_q.attempts_ok (qs_inflight \<sigma>)"
    using assms(2) unfolding q_attempts_ok_def by blast+
  from infl q_process(2) have "0 \<le> py_Attempts p" "py_Attempts p < py_MaxAttempts p"
    unfolding memory_q.attempts_ok_def by blast+
  from memory_q.process_attempts [OF held this, of env now] have "memory_q.attempts_ok (mem_held d')"
    by (simp add: q_process(3))
  moreover from infl have "memory_q.attempts_ok (qs_inflight \<sigma> - {#p#})"
    unfolding memory_q.attempts_ok_def by (meson in_diffD)
  ultimately show ?thesis using q_process(1) by (simp add: q_attempts_ok_def)
qed

lemma q_reachable_inv: "q_reachable env \<sigma> \<Longrightarrow> q_all_ids \<sigma> = qs_dispatched \<sigma> \<and> q_attempts_ok \<sigma>"
proof (induction rule: q_reachable.induct)
  case q_start
  show ?case by (simp add: q_all_ids_def NewMemory_def mem_held_def q_attempts_ok_def memory_q.attempts_ok_def)
next
  case (q_next \<sigma> \<tau>)
  then show ?case using q_step_conserves q_step_attempts by blast
qed

section \<open>Properties\<close>

text \<open>
  C8. No job is lost or duplicated: in every interleaving of dispatches and workers on the memory
  driver, each dispatched job is at any time in exactly one place: waiting in a queue, held by a
  worker, finished, or among the dead letters; and every waiting job has attempts left.
\<close>

theorem jobs_conserved:
  assumes "q_reachable env \<sigma>"
  shows "image_mset py_ID (mem_held (qs_driver \<sigma>)) + image_mset py_ID (qs_inflight \<sigma>)
      + image_mset py_ID (mset (mem_dead (qs_driver \<sigma>))) + qs_done \<sigma> = qs_dispatched \<sigma>
    \<and> (\<forall>p \<in># mem_held (qs_driver \<sigma>). 0 \<le> py_Attempts p \<and> py_Attempts p < py_MaxAttempts p)"
  using q_reachable_inv [OF assms] unfolding q_all_ids_def q_attempts_ok_def memory_q.attempts_ok_def by blast

definition demo_queue_env :: "nat queue_env" where
  "demo_queue_env = \<lparr>qe_registry = [(''Ping'', 0)], qe_decode = (\<lambda>_ _. Some 0), qe_handle = (\<lambda>_ _. JobError ''no'')\<rparr>"

definition demo_payload :: "int \<Rightarrow> Payload" where
  "demo_payload n = \<lparr>py_Class = ''Ping'', py_Data = ''{}'', py_ID = ''j1'', py_Attempts = n, py_MaxAttempts = 3,
     py_Queue = ''default'', py_AvailableAt = 0\<rparr>"

theorem jobs_conserved_witness:
  "\<exists>\<sigma>. q_reachable demo_queue_env \<sigma> \<and> qs_dispatched \<sigma> = {#''j1''#}
    \<and> image_mset py_ID (mem_held (qs_driver \<sigma>)) = {#''j1''#}"
proof -
  have r: "q_reachable demo_queue_env \<lparr>qs_driver = \<lparr>mem_queues = [(''default'', [demo_payload 0])], mem_dead = []\<rparr>,
      qs_inflight = {#}, qs_done = {#}, qs_dispatched = {#''j1''#}\<rparr>"
    using q_next [OF q_start q_dispatch [of "\<lparr>qs_driver = NewMemory, qs_inflight = {#}, qs_done = {#}, qs_dispatched = {#}\<rparr>"
          0 "''default''" "''Ping''" "''{}''" "''j1''" 0 0 "\<lparr>mem_queues = [(''default'', [demo_payload 0])], mem_dead = []\<rparr>"], of demo_queue_env]
    by (simp add: Manager_Dispatch_def memory_driver_def Memory_Push_def NewMemory_def mem_items_def demo_payload_def)
  show ?thesis using jobs_conserved [OF r] by (intro exI conjI) (rule r, simp_all)
qed

text \<open>
  The backoff is \<open>2 ^ n\<close> seconds as intended for up to 33 attempts and then leaves the 64-bit range:
  after 34 attempts the product is negative, so the job is ready again at once.
\<close>

theorem backoff_range:
  "(\<forall>n \<le> 33. backoff (int n) = 2 ^ n * second) \<and> backoff 34 < 0"
proof
  have "\<forall>n \<in> set [0..<34]. backoff (int n) = 2 ^ n * second" by code_simp
  then show "\<forall>n \<le> 33. backoff (int n) = 2 ^ n * second" by auto
  show "backoff 34 < 0" by code_simp
qed

text \<open>
  Popping is first-in first-out among the ready jobs: what is popped is ready, every job before it
  in the queue is not, the others keep their order, and nothing is returned exactly when no job is
  ready.
\<close>

theorem Pop_first_ready:
  "(Memory_Pop m now q = (Inr (Some p), m') \<longrightarrow>
      (\<exists>us vs. mem_items m q = us @ p # vs \<and> mem_items m' q = us @ vs \<and> py_AvailableAt p \<le> now
         \<and> (\<forall>u \<in> set us. now < py_AvailableAt u)))
   \<and> (fst (Memory_Pop m now q) = Inr None \<longleftrightarrow> (\<forall>u \<in> set (mem_items m q). now < py_AvailableAt u))"
proof (intro conjI impI)
  assume "Memory_Pop m now q = (Inr (Some p), m')"
  then obtain rest where "pop_ready now (mem_items m q) = Some (p, rest)"
    "m' = m\<lparr>mem_queues := AList.update q rest (mem_queues m)\<rparr>"
    by (auto simp: Memory_Pop_def split: option.splits)
  with pop_ready_first [of now "mem_items m q" p rest] pop_ready_mset [of now "mem_items m q" p rest]
  show "\<exists>us vs. mem_items m q = us @ p # vs \<and> mem_items m' q = us @ vs \<and> py_AvailableAt p \<le> now
         \<and> (\<forall>u \<in> set us. now < py_AvailableAt u)"
    by (auto simp: mem_items_def)
next
  show "fst (Memory_Pop m now q) = Inr None \<longleftrightarrow> (\<forall>u \<in> set (mem_items m q). now < py_AvailableAt u)"
    using pop_ready_None [of now "mem_items m q"] by (auto simp: Memory_Pop_def split: option.splits)
qed

theorem Pop_first_ready_witness:
  "\<exists>us vs. mem_items \<lparr>mem_queues = [(''default'', [demo_payload 0])], mem_dead = []\<rparr> ''default'' = us @ demo_payload 0 # vs"
  using Pop_first_ready [of "\<lparr>mem_queues = [(''default'', [demo_payload 0])], mem_dead = []\<rparr>" 5 "''default''" "demo_payload 0"
      "\<lparr>mem_queues = [(''default'', [])], mem_dead = []\<rparr>"]
  by (auto simp: Memory_Pop_def mem_items_def demo_payload_def)



text \<open>
  A job whose class is not registered goes to the dead letters on its first attempt. Dispatch
  stores the dynamic type name, so a job registered under a bare name as the documentation shows is
  never run.
\<close>

theorem unregistered_job_dies:
  assumes "map_of (qe_registry env) (py_Class p) = None"
  shows "process memory_driver env now m p = (False, m\<lparr>mem_dead := mem_dead m @ [p\<lparr>py_Attempts := py_Attempts p + 1\<rparr>]\<rparr>)"
  using assms by (simp add: process_def Payload_Unmarshal_def memory_driver_def Memory_Dead_def Let_def)

theorem unregistered_job_dies_witness:
  "mem_dead (snd (process memory_driver demo_queue_env 0 NewMemory ((demo_payload 0)\<lparr>py_Class := ''*main.Ping''\<rparr>)))
     = [(demo_payload 1)\<lparr>py_Class := ''*main.Ping''\<rparr>]"
  by (subst unregistered_job_dies) (simp_all add: demo_queue_env_def demo_payload_def NewMemory_def)

end
