(* ===== verification/Redis_Queue.thy ===== *)
theory Redis_Queue
  imports Job_Queue
begin

text \<open>
  The Redis queue driver of \<open>framework/queue/drivers/redis.go\<close>: a list of ready jobs and a sorted set of delayed jobs per queue.

  The Redis server is a record of commands on a state of its own; what the driver relies on is the locale \<open>redis_server\<close>, which sees a list
  and a map from members to scores behind every key. The promotion script runs atomically on the server and is the composition of the commands
  it calls. \<open>rs_down\<close> says when a call from the client fails, for instance because the connection is lost. JSON is an argument.
\<close>

section \<open>Commands\<close>

record 'r redis =
  rs_LPush :: "string \<Rightarrow> string \<Rightarrow> 'r \<Rightarrow> 'r"
  rs_RPop :: "string \<Rightarrow> 'r \<Rightarrow> string option \<times> 'r"
  rs_LRange :: "string \<Rightarrow> nat \<Rightarrow> 'r \<Rightarrow> string list" \<comment> \<open>the first \<open>n\<close>\<close>
  rs_ZAdd :: "string \<Rightarrow> int \<Rightarrow> string \<Rightarrow> 'r \<Rightarrow> 'r"
  rs_ZRangeByScore :: "string \<Rightarrow> int \<Rightarrow> 'r \<Rightarrow> string list" \<comment> \<open>up to a score\<close>
  rs_ZRem :: "string \<Rightarrow> string \<Rightarrow> 'r \<Rightarrow> nat \<times> 'r"
  rs_down :: "'r \<Rightarrow> bool"

record payload_codec =
  pc_Marshal :: "Payload \<Rightarrow> string option"
  pc_Unmarshal :: "string \<Rightarrow> Payload option"

section \<open>The driver\<close>

definition deadQueue :: string where "deadQueue = ''oni:queue:dead''"

definition redisKey :: "string \<Rightarrow> string" where "redisKey q = ''oni:queue:'' @ q"

definition delayKey :: "string \<Rightarrow> string" where "delayKey q = ''oni:queue:'' @ q @ '':delayed''"

definition unixTime :: "gotime \<Rightarrow> int" where "unixTime t = t div second"

text \<open>The loop of the promotion script.\<close>

fun promote_items :: "'r redis \<Rightarrow> string \<Rightarrow> string \<Rightarrow> string list \<Rightarrow> 'r \<Rightarrow> 'r" where
  "promote_items R zkey lkey [] r = r"
| "promote_items R zkey lkey (item # items) r =
     (case rs_ZRem R zkey item r of
        (n, r1) \<Rightarrow> promote_items R zkey lkey items (if n = 1 then rs_LPush R lkey item r1 else r1))"

definition promoteScript :: "'r redis \<Rightarrow> string \<Rightarrow> string \<Rightarrow> int \<Rightarrow> 'r \<Rightarrow> 'r" where
  "promoteScript R zkey lkey now r = promote_items R zkey lkey (rs_ZRangeByScore R zkey now r) r"

definition promoteDelayed :: "'r redis \<Rightarrow> gotime \<Rightarrow> string \<Rightarrow> 'r \<Rightarrow> 'r" where
  "promoteDelayed R now q r = (if rs_down R r then r else promoteScript R (delayKey q) (redisKey q) (unixTime now) r)"

definition Redis_Push :: "'r redis \<Rightarrow> payload_codec \<Rightarrow> 'r \<Rightarrow> gotime \<Rightarrow> string \<Rightarrow> Payload \<Rightarrow> queue_error option \<times> 'r" where
  "Redis_Push R pc r now q p =
     (case pc_Marshal pc p of
        None \<Rightarrow> (Some MarshalJob, r)
      | Some data \<Rightarrow>
          if rs_down R r then (Some DriverError, r)
          else if now < py_AvailableAt p then (None, rs_ZAdd R (delayKey q) (unixTime (py_AvailableAt p)) data r)
          else (None, rs_LPush R (redisKey q) data r))"

definition Redis_Pop :: "'r redis \<Rightarrow> payload_codec \<Rightarrow> 'r \<Rightarrow> gotime \<Rightarrow> string \<Rightarrow> (queue_error + Payload option) \<times> 'r" where
  "Redis_Pop R pc r0 now q =
     (let r = promoteDelayed R now q r0
      in if rs_down R r then (Inl DriverError, r)
         else (case rs_RPop R (redisKey q) r of
                 (None, r1) \<Rightarrow> (Inr None, r1)
               | (Some data, r1) \<Rightarrow> (case pc_Unmarshal pc data of None \<Rightarrow> (Inl (UnmarshalJob data), r1) | Some p \<Rightarrow> (Inr (Some p), r1))))"

definition Redis_Dead :: "'r redis \<Rightarrow> payload_codec \<Rightarrow> 'r \<Rightarrow> gotime \<Rightarrow> Payload \<Rightarrow> queue_error option \<times> 'r" where
  "Redis_Dead R pc r now p =
     (case pc_Marshal pc p of
        None \<Rightarrow> (Some MarshalJob, r)
      | Some data \<Rightarrow> if rs_down R r then (Some DriverError, r) else (None, rs_LPush R deadQueue data r))"

definition Redis_Release :: "'r redis \<Rightarrow> payload_codec \<Rightarrow> 'r \<Rightarrow> gotime \<Rightarrow> Payload \<Rightarrow> duration \<Rightarrow> queue_error option \<times> 'r" where
  "Redis_Release R pc r now p delay =
     (let p1 = p\<lparr>py_AvailableAt := now + delay\<rparr> in Redis_Push R pc r now (py_Queue p1) p1)"

definition Redis_DeadLetters :: "'r redis \<Rightarrow> payload_codec \<Rightarrow> 'r \<Rightarrow> nat \<Rightarrow> queue_error + Payload list" where
  "Redis_DeadLetters R pc r n =
     (if rs_down R r then Inl DriverError else Inr (List.map_filter (pc_Unmarshal pc) (rs_LRange R deadQueue n r)))"

definition redis_driver :: "'r redis \<Rightarrow> payload_codec \<Rightarrow> 'r Driver" where
  "redis_driver R pc = \<lparr>drv_Push = Redis_Push R pc, drv_Pop = Redis_Pop R pc, drv_Dead = Redis_Dead R pc, drv_Release = Redis_Release R pc\<rparr>"


section \<open>What the driver relies on\<close>

text \<open>The jobs a queue holds, as the texts stored for them, seen through the lists and sorted sets of a server.\<close>

definition stored_jobs :: "('r \<Rightarrow> string \<Rightarrow> string list) \<Rightarrow> ('r \<Rightarrow> string \<Rightarrow> string \<rightharpoonup> int) \<Rightarrow> 'r \<Rightarrow> string \<Rightarrow> string multiset" where
  "stored_jobs rlist rzset r q = mset (rlist r (redisKey q)) + mset_set (dom (rzset r (delayKey q)))"

definition keys_ok :: "('r \<Rightarrow> string \<Rightarrow> string list) \<Rightarrow> ('r \<Rightarrow> string \<Rightarrow> string \<rightharpoonup> int) \<Rightarrow> 'r \<Rightarrow> string \<Rightarrow> bool" where
  "keys_ok rlist rzset r q \<longleftrightarrow> rzset r (redisKey q) = Map.empty \<and> rlist r (delayKey q) = []"

text \<open>
  Lists and sorted sets of Redis. A key holds one kind of value, so the laws of the list commands ask that the key is no sorted set, and the other
  way round.
\<close>

locale redis_server =
  fixes R :: "'r redis" and rlist :: "'r \<Rightarrow> string \<Rightarrow> string list" and rzset :: "'r \<Rightarrow> string \<Rightarrow> string \<rightharpoonup> int"
  assumes zset_finite: "finite (dom (rzset r k))"
    and lpush_law: "rzset r k = Map.empty \<Longrightarrow> rlist (rs_LPush R k x r) = (rlist r)(k := x # rlist r k) \<and> rzset (rs_LPush R k x r) = rzset r"
    and rpop_law: "rzset r k = Map.empty \<Longrightarrow> rs_RPop R k r = (y, r') \<Longrightarrow>
      rzset r' = rzset r \<and> y = (if rlist r k = [] then None else Some (last (rlist r k))) \<and> rlist r' = (rlist r)(k := butlast (rlist r k))"
    and zadd_law: "rlist r k = [] \<Longrightarrow> rzset (rs_ZAdd R k s m r) = (rzset r)(k := (rzset r k)(m \<mapsto> s)) \<and> rlist (rs_ZAdd R k s m r) = rlist r"
    and zrange_law: "rlist r k = [] \<Longrightarrow> distinct (rs_ZRangeByScore R k s r) \<and> set (rs_ZRangeByScore R k s r) = {m. \<exists>t \<le> s. rzset r k m = Some t}
      \<and> sorted (map (\<lambda>m. the (rzset r k m)) (rs_ZRangeByScore R k s r))"
    and zrem_law: "rlist r k = [] \<Longrightarrow> rs_ZRem R k m r = (n, r') \<Longrightarrow>
      n = (if rzset r k m = None then 0 else 1) \<and> rzset r' = (rzset r)(k := (rzset r k)(m := None)) \<and> rlist r' = rlist r"
begin

lemma promote_items_spec:
  assumes "distinct items" and "set items \<subseteq> dom (rzset r z)" and "rlist r z = []" and "rzset r l = Map.empty" and "z \<noteq> l"
  shows "rlist (promote_items R z l items r) = (rlist r)(l := rev items @ rlist r l)
    \<and> rzset (promote_items R z l items r) = (rzset r)(z := (rzset r z) |` (- set items))"
  using assms
proof (induction items arbitrary: r)
  case (Cons i items)
  obtain n r1 where rem: "rs_ZRem R z i r = (n, r1)" by fastforce
  from zrem_law [OF Cons.prems(3) rem] Cons.prems(2)
  have r1: "n = 1" "rzset r1 = (rzset r)(z := (rzset r z)(i := None))" "rlist r1 = rlist r" by auto
  let ?r2 = "rs_LPush R l i r1"
  have "rzset r1 l = Map.empty" using r1(2) Cons.prems(4,5) by simp
  from lpush_law [OF this] r1 have r2: "rlist ?r2 = (rlist r)(l := i # rlist r l)" "rzset ?r2 = (rzset r)(z := (rzset r z)(i := None))" by simp_all
  have "rlist (promote_items R z l items ?r2) = (rlist ?r2)(l := rev items @ rlist ?r2 l)
    \<and> rzset (promote_items R z l items ?r2) = (rzset ?r2)(z := (rzset ?r2 z) |` (- set items))"
    using Cons.prems r2 by (intro Cons.IH) auto
  then show ?case using rem r1(1) r2 by (auto simp: fun_eq_iff restrict_map_def)
qed (auto simp: fun_eq_iff restrict_map_def)

lemma delayed_other_key: "delayKey q \<noteq> redisKey q"
  by (simp add: delayKey_def redisKey_def)

lemma promote_spec:
  assumes "keys_ok rlist rzset r q" and "\<not> rs_down R r"
    and due_def: "due = rs_ZRangeByScore R (delayKey q) (unixTime now) r"
  shows "rlist (promoteDelayed R now q r) (redisKey q) = rev due @ rlist r (redisKey q)
    \<and> rzset (promoteDelayed R now q r) (delayKey q) = (rzset r (delayKey q)) |` (- set due)
    \<and> keys_ok rlist rzset (promoteDelayed R now q r) q \<and> stored_jobs rlist rzset (promoteDelayed R now q r) q = stored_jobs rlist rzset r q"
proof -
  have k: "rlist r (delayKey q) = []" "rzset r (redisKey q) = Map.empty" using assms(1) by (simp_all add: keys_ok_def)
  from zrange_law [OF k(1)] have due: "distinct due" "set due \<subseteq> dom (rzset r (delayKey q))" by (auto simp: due_def)
  let ?r = "promoteDelayed R now q r"
  have r: "?r = promote_items R (delayKey q) (redisKey q) due r" using assms(2) by (simp add: promoteDelayed_def promoteScript_def due_def)
  from promote_items_spec [OF due k delayed_other_key]
  have s: "rlist ?r = (rlist r)(redisKey q := rev due @ rlist r (redisKey q))" "rzset ?r = (rzset r)(delayKey q := (rzset r (delayKey q)) |` (- set due))"
    unfolding r by blast+
  have "dom (rzset r (delayKey q)) = set due \<union> dom ((rzset r (delayKey q)) |` (- set due))" using due(2) by (auto simp: restrict_map_def split: if_splits)
  moreover have "finite (dom (rzset r (delayKey q) |` (- set due)))" using zset_finite [of ?r "delayKey q"] s by simp
  ultimately have "mset_set (dom (rzset r (delayKey q))) = mset due + mset_set (dom (rzset r (delayKey q) |` (- set due)))"
    using due(1) mset_set_Union [of "set due" "dom (rzset r (delayKey q) |` (- set due))"] by (simp add: mset_set_set)
  with s k delayed_other_key [of q] show ?thesis by (simp add: stored_jobs_def keys_ok_def)
qed

lemma pop_spec:
  assumes "keys_ok rlist rzset r q" and "\<not> rs_down R r" and "\<not> rs_down R (promoteDelayed R now q r)" and "Redis_Pop R pc r now q = (res, r')"
    and "ready = rev (rs_ZRangeByScore R (delayKey q) (unixTime now) r) @ rlist r (redisKey q)"
  shows "keys_ok rlist rzset r' q \<and>
    (if ready = [] then res = Inr None \<and> stored_jobs rlist rzset r' q = stored_jobs rlist rzset r q
     else stored_jobs rlist rzset r q = add_mset (last ready) (stored_jobs rlist rzset r' q) \<and> rlist r' (redisKey q) = butlast ready
       \<and> res = (case pc_Unmarshal pc (last ready) of None \<Rightarrow> Inl (UnmarshalJob (last ready)) | Some p \<Rightarrow> Inr (Some p)))"
proof -
  let ?r = "promoteDelayed R now q r"
  from promote_spec [OF assms(1,2) refl, of now]
  have p: "rlist ?r (redisKey q) = ready" "keys_ok rlist rzset ?r q" "stored_jobs rlist rzset ?r q = stored_jobs rlist rzset r q" by (simp_all add: assms(5))
  obtain y r1 where pop: "rs_RPop R (redisKey q) ?r = (y, r1)" by fastforce
  have "rzset ?r (redisKey q) = Map.empty" using p(2) by (simp add: keys_ok_def)
  from rpop_law [OF this pop] p(1)
  have r1: "rzset r1 = rzset ?r" "y = (if ready = [] then None else Some (last ready))" "rlist r1 = (rlist ?r)(redisKey q := butlast ready)" by simp_all
  have r': "r' = r1" using assms(3,4) pop by (auto simp: Redis_Pop_def Let_def split: option.splits)
  have res: "res = (case y of None \<Rightarrow> Inr None | Some data \<Rightarrow> (case pc_Unmarshal pc data of None \<Rightarrow> Inl (UnmarshalJob data) | Some p \<Rightarrow> Inr (Some p)))"
    using assms(3,4) pop by (auto simp: Redis_Pop_def Let_def split: option.splits)
  have k: "keys_ok rlist rzset r1 q" using p(2) r1 delayed_other_key [of q] by (simp add: keys_ok_def)
  show ?thesis
  proof (cases "ready = []")
    case True
    with p(1) r1 have "rlist r1 = rlist ?r" by (metis butlast.simps(1) fun_upd_triv)
    with True p r1 res r' k show ?thesis by (simp add: stored_jobs_def)
  next
    case False
    then have "mset ready = add_mset (last ready) (mset (butlast ready))" by (metis append_butlast_last_id mset_append union_mset_add_mset_right mset.simps add.right_neutral)
    with False p r1 res r' k show ?thesis by (simp add: stored_jobs_def delayed_other_key)
  qed
qed

lemma push_spec:
  assumes "keys_ok rlist rzset r q" and "\<not> rs_down R r" and "pc_Marshal pc p = Some data" and "rzset r (delayKey q) data = None"
    and "Redis_Push R pc r now q p = (e, r')"
  shows "e = None \<and> keys_ok rlist rzset r' q \<and> stored_jobs rlist rzset r' q = add_mset data (stored_jobs rlist rzset r q)
    \<and> (if now < py_AvailableAt p then rzset r' (delayKey q) = (rzset r (delayKey q))(data \<mapsto> unixTime (py_AvailableAt p)) \<and> rlist r' = rlist r
       else rlist r' (redisKey q) = data # rlist r (redisKey q) \<and> rzset r' = rzset r)"
proof -
  have k: "rlist r (delayKey q) = []" "rzset r (redisKey q) = Map.empty" using assms(1) by (simp_all add: keys_ok_def)
  show ?thesis
  proof (cases "now < py_AvailableAt p")
    case True
    with assms have r': "r' = rs_ZAdd R (delayKey q) (unixTime (py_AvailableAt p)) data r" "e = None" by (auto simp: Redis_Push_def)
    with zadd_law [OF k(1)] True k delayed_other_key [of q] assms(4) zset_finite [of r "delayKey q"] show ?thesis
      by (simp add: stored_jobs_def keys_ok_def domIff)
  next
    case False
    with assms have r': "r' = rs_LPush R (redisKey q) data r" "e = None" by (auto simp: Redis_Push_def)
    with lpush_law [OF k(2)] False k delayed_other_key [of q] show ?thesis by (simp add: stored_jobs_def keys_ok_def)
  qed
qed

end


section \<open>A server in memory\<close>

record mem_redis =
  mr_lists :: "(string, string list) gomap"
  mr_zsets :: "(string, (string, int) gomap) gomap"

definition mr_list :: "mem_redis \<Rightarrow> string \<Rightarrow> string list" where
  "mr_list r k = (case map_of (mr_lists r) k of Some l \<Rightarrow> l | None \<Rightarrow> [])"

definition mr_zset :: "mem_redis \<Rightarrow> string \<Rightarrow> (string, int) gomap" where
  "mr_zset r k = (case map_of (mr_zsets r) k of Some z \<Rightarrow> z | None \<Rightarrow> [])"

definition due_members :: "(string, int) gomap \<Rightarrow> int \<Rightarrow> string list" where
  "due_members z s = (let m = AList.clearjunk z in sort_key (\<lambda>x. the (map_of m x)) (map fst (filter (\<lambda>(x, t). t \<le> s) m)))"

definition memory_redis :: "mem_redis redis" where
  "memory_redis =
     \<lparr>rs_LPush = (\<lambda>k x r. r\<lparr>mr_lists := AList.update k (x # mr_list r k) (mr_lists r)\<rparr>),
      rs_RPop = (\<lambda>k r. (if mr_list r k = [] then None else Some (last (mr_list r k)),
        r\<lparr>mr_lists := AList.update k (butlast (mr_list r k)) (mr_lists r)\<rparr>)),
      rs_LRange = (\<lambda>k n r. take n (mr_list r k)),
      rs_ZAdd = (\<lambda>k s m r. r\<lparr>mr_zsets := AList.update k (AList.update m s (mr_zset r k)) (mr_zsets r)\<rparr>),
      rs_ZRangeByScore = (\<lambda>k s r. due_members (mr_zset r k) s),
      rs_ZRem = (\<lambda>k m r. (if map_of (mr_zset r k) m = None then 0 else 1, r\<lparr>mr_zsets := AList.update k (AList.delete m (mr_zset r k)) (mr_zsets r)\<rparr>)),
      rs_down = (\<lambda>r. False)\<rparr>"

lemma mr_list_update [simp]: "mr_list (r\<lparr>mr_lists := AList.update k l (mr_lists r)\<rparr>) = (mr_list r)(k := l)"
  by (auto simp: mr_list_def fun_eq_iff)

lemma mr_zset_update [simp]: "mr_zset (r\<lparr>mr_zsets := AList.update k z (mr_zsets r)\<rparr>) = (mr_zset r)(k := z)"
  by (auto simp: mr_zset_def fun_eq_iff)

lemma mr_other [simp]: "mr_zset (r\<lparr>mr_lists := ls\<rparr>) = mr_zset r" "mr_list (r\<lparr>mr_zsets := zs\<rparr>) = mr_list r"
  by (simp_all add: mr_zset_def mr_list_def fun_eq_iff)

lemma due_members_spec:
  "distinct (due_members z s) \<and> set (due_members z s) = {m. \<exists>t \<le> s. map_of z m = Some t} \<and> sorted (map (\<lambda>m. the (map_of z m)) (due_members z s))"
proof -
  let ?m = "AList.clearjunk z"
  have d: "distinct (map fst ?m)" by simp
  then have "distinct (map fst (filter (\<lambda>(x, t). t \<le> s) ?m))" by (simp add: distinct_map_filter)
  moreover have "(x, t) \<in> set ?m \<longleftrightarrow> map_of z x = Some t" for x t using d map_of_clearjunk [of z] by (metis map_of_eq_Some_iff)
  ultimately show ?thesis by (force simp: due_members_def Let_def map_of_clearjunk)
qed

interpretation memory_redis: redis_server memory_redis mr_list "\<lambda>r k. map_of (mr_zset r k)"
proof (unfold_locales, goal_cases)
  case 1 show ?case by (rule finite_dom_map_of)
next
  case 2 show ?case by (simp add: memory_redis_def)
next
  case (3 r k y r') then show ?case by (auto simp: memory_redis_def)
next
  case 4 show ?case by (auto simp: memory_redis_def fun_eq_iff)
next
  case (5 r k s) show ?case using due_members_spec [of "mr_zset r k" s] by (simp add: memory_redis_def)
next
  case (6 r k m n r') then show ?case by (auto simp: memory_redis_def fun_eq_iff delete_conv')
qed

section \<open>Properties\<close>

definition codec_ok :: "payload_codec \<Rightarrow> bool" where
  "codec_ok pc \<longleftrightarrow> (\<forall>p data. pc_Marshal pc p = Some data \<longrightarrow> pc_Unmarshal pc data = Some p)"

text \<open>
  C9. A pop takes exactly one job off the queue: first the due delayed jobs are moved behind the ready ones, each once and by due time, then the job that
  has been ready longest is removed and returned, and every other job is kept. The answer is empty only when nothing is ready and nothing is due.
\<close>

theorem redis_pop_exact:
  assumes "redis_server R rlist rzset" and "keys_ok rlist rzset r q" and "\<not> rs_down R r" and "\<not> rs_down R (promoteDelayed R now q r)"
    and "Redis_Pop R pc r now q = (res, r')"
    and "ready = rev (rs_ZRangeByScore R (delayKey q) (unixTime now) r) @ rlist r (redisKey q)"
  shows "keys_ok rlist rzset r' q \<and>
    (if ready = [] then res = Inr None \<and> stored_jobs rlist rzset r' q = stored_jobs rlist rzset r q
     else stored_jobs rlist rzset r q = add_mset (last ready) (stored_jobs rlist rzset r' q) \<and> rlist r' (redisKey q) = butlast ready
       \<and> res = (case pc_Unmarshal pc (last ready) of None \<Rightarrow> Inl (UnmarshalJob (last ready)) | Some p \<Rightarrow> Inr (Some p)))"
  by (rule redis_server.pop_spec [OF assms])

definition demo_codec :: payload_codec where
  "demo_codec = \<lparr>pc_Marshal = (\<lambda>p. Some (py_ID p)), pc_Unmarshal = (\<lambda>s. Some (demo_payload 3\<lparr>py_ID := s\<rparr>))\<rparr>"

definition demo_redis :: mem_redis where
  "demo_redis = \<lparr>mr_lists = [(''oni:queue:mail'', [''b'', ''a''])], mr_zsets = [(''oni:queue:mail:delayed'', [(''late'', 99), (''soon'', 5)])]\<rparr>"

theorem redis_pop_exact_witness:
  "\<exists>r'. Redis_Pop memory_redis demo_codec demo_redis (7 * second) ''mail'' = (Inr (Some (demo_payload 3\<lparr>py_ID := ''a''\<rparr>)), r')
    \<and> mr_list r' ''oni:queue:mail'' = [''soon'', ''b'']"
proof -
  obtain res r' where pop: "Redis_Pop memory_redis demo_codec demo_redis (7 * second) ''mail'' = (res, r')" by fastforce
  have k: "keys_ok mr_list (\<lambda>r k. map_of (mr_zset r k)) demo_redis ''mail''"
    by (simp add: keys_ok_def demo_redis_def mr_list_def mr_zset_def redisKey_def delayKey_def)
  have due: "rs_ZRangeByScore memory_redis (delayKey ''mail'') (unixTime (7 * second)) demo_redis = [''soon'']" by code_simp
  have l: "mr_list demo_redis (redisKey ''mail'') = [''b'', ''a'']" by (simp add: demo_redis_def mr_list_def redisKey_def)
  have up: "\<not> rs_down memory_redis r" for r by (simp add: memory_redis_def)
  have "[''soon'', ''b'', ''a''] = rev (rs_ZRangeByScore memory_redis (delayKey ''mail'') (unixTime (7 * second)) demo_redis) @ mr_list demo_redis (redisKey ''mail'')"
    unfolding due l by simp
  from redis_pop_exact [OF memory_redis.redis_server_axioms k up up pop this] show ?thesis
    unfolding pop by (simp add: demo_codec_def redisKey_def)
qed

lemma singleton_list: "distinct xs \<Longrightarrow> set xs = {x} \<Longrightarrow> xs = [x]"
  by (cases xs; cases "tl xs") auto

text \<open>
  Delayed jobs can run early: due times are stored in whole seconds, rounded down, so a job that is due later in the current second is handed out at
  once. The memory driver never hands out a job before its time.
\<close>

theorem redis_pops_early:
  assumes "redis_server R rlist rzset" and "codec_ok pc" and "pc_Marshal pc p = Some data"
    and "rlist r = (\<lambda>k. [])" and "rzset r = (\<lambda>k. Map.empty)" and "\<And>r. \<not> rs_down R r"
    and "now < py_AvailableAt p" and "unixTime (py_AvailableAt p) = unixTime now"
  shows "fst (Redis_Pop R pc (snd (Redis_Push R pc r now q p)) now q) = Inr (Some p)"
proof -
  obtain e r1 where push: "Redis_Push R pc r now q p = (e, r1)" by fastforce
  have k: "keys_ok rlist rzset r q" using assms(4,5) by (simp add: keys_ok_def)
  have fresh: "rzset r (delayKey q) data = None" using assms(5) by simp
  from redis_server.push_spec [OF assms(1) k assms(6,3) fresh push] assms(4,5,7)
  have r1: "keys_ok rlist rzset r1 q" "rzset r1 (delayKey q) = [data \<mapsto> unixTime (py_AvailableAt p)]" "rlist r1 = (\<lambda>k. [])" by simp_all
  let ?due = "rs_ZRangeByScore R (delayKey q) (unixTime now) r1"
  have "distinct ?due" "set ?due = {data}" using redis_server.zrange_law [OF assms(1), of r1 "delayKey q" "unixTime now"] r1 assms(8) by auto
  then have due: "?due = [data]" by (rule singleton_list)
  obtain res r2 where pop: "Redis_Pop R pc r1 now q = (res, r2)" by fastforce
  from redis_server.pop_spec [OF assms(1) r1(1) assms(6,6) pop refl] due r1(3) assms(2,3) have "res = Inr (Some p)"
    by (simp add: codec_ok_def)
  with push pop show ?thesis by simp
qed

definition one_codec :: "Payload \<Rightarrow> payload_codec" where
  "one_codec p = \<lparr>pc_Marshal = (\<lambda>p'. if p' = p then Some ''job'' else None), pc_Unmarshal = (\<lambda>s. Some p)\<rparr>"

abbreviation soon_job :: Payload where
  "soon_job \<equiv> demo_payload 0\<lparr>py_AvailableAt := 900000000\<rparr>"

theorem redis_pops_early_witness:
  "fst (Redis_Pop memory_redis (one_codec soon_job) (snd (Redis_Push memory_redis (one_codec soon_job) \<lparr>mr_lists = [], mr_zsets = []\<rparr> 0 ''mail'' soon_job)) 0 ''mail'')
   = Inr (Some soon_job)"
  by (rule redis_pops_early [OF memory_redis.redis_server_axioms, where data = "''job''"])
     (auto simp: codec_ok_def one_codec_def mr_list_def mr_zset_def fun_eq_iff memory_redis_def unixTime_def demo_payload_def split: if_splits)

end
