(* ===== verification/Sessions.thy ===== *)
theory Sessions
  imports Http_Core
begin

text \<open>
  Model of sessions and authentication: \<open>framework/session/session.go\<close>, its memory store
  \<open>session/drivers/memory.go\<close>, \<open>framework/auth/guard.go\<close> and the middleware \<open>middleware/auth.go\<close> and
  \<open>middleware/csrf.go\<close>. The interface \<open>Store\<close> is a record of functions on a store state, with its contract in
  the locale \<open>session_store\<close>. A handler runs on a pair of the store state and the request context; the
  context extends \<open>Context\<close> by the session objects of the request (a heap, because two middlewares may
  each load an object for the same session) and by the values under the keys \<open>_oni_session\<close> and \<open>_oni_user\<close>.

  Random IDs are arguments (\<^const>\<open>None\<close>: the generator failed). The user provider, bcrypt and the JWT
  library are code outside the repository and appear as the record \<open>auth_env\<close>.
\<close>

section \<open>Data\<close>

type_synonym sess_data = "(string, gval) gomap"

record SessConfig =
  sc_CookieName :: string
  sc_Domain :: string
  sc_Path :: string
  sc_Secure :: bool
  sc_HTTPOnly :: bool
  sc_SameSite :: string
  sc_TTL :: duration

definition DefaultConfig :: SessConfig where
  "DefaultConfig = \<lparr>sc_CookieName = ''oni_session'', sc_Domain = [], sc_Path = ''/'', sc_Secure = True, sc_HTTPOnly = True,
     sc_SameSite = ''Lax'', sc_TTL = 2 * hour\<rparr>"

record Session =
  se_ID :: string
  se_data :: sess_data
  se_dirty :: bool
  se_isNew :: bool

record 's SessionStore =
  ss_Get :: "'s \<Rightarrow> gotime \<Rightarrow> string \<Rightarrow> string + sess_data option"
  ss_Set :: "'s \<Rightarrow> gotime \<Rightarrow> string \<Rightarrow> sess_data \<Rightarrow> duration \<Rightarrow> string option \<times> 's"
  ss_Delete :: "'s \<Rightarrow> string \<Rightarrow> string option \<times> 's"
  ss_Regenerate :: "'s \<Rightarrow> gotime \<Rightarrow> string option \<Rightarrow> string \<Rightarrow> (string + string) \<times> 's"

record User =
  us_ID :: i64
  us_Email :: string
  us_Password :: string

record Claims =
  cl_UserID :: i64
  cl_Email :: string

record auth_env =
  ae_FindByID :: "i64 \<Rightarrow> string + User option"
  ae_FindByEmail :: "string \<Rightarrow> string + User option"
  ae_bcrypt :: "string \<Rightarrow> string \<Rightarrow> bool"
  ae_jwt_parse :: "string \<Rightarrow> gotime \<Rightarrow> string \<Rightarrow> Claims option"
  ae_jwt_sign :: "string \<Rightarrow> Claims \<Rightarrow> gotime \<Rightarrow> string"
  ae_sprint :: "gval \<Rightarrow> string"

record AuthContext = Context +
  ax_heap :: "Session list"
  ax_session :: "nat option"
  ax_user :: "User option"

type_synonym 's web = "'s \<times> AuthContext"

section \<open>The memory store\<close>

record sess_entry =
  sn_data :: sess_data
  sn_expiresAt :: gotime

record MemoryStore =
  ms_entries :: "(string, sess_entry) gomap"

definition NewMemoryStore :: MemoryStore where
  "NewMemoryStore = \<lparr>ms_entries = []\<rparr>"

definition MemoryStore_Get :: "MemoryStore \<Rightarrow> gotime \<Rightarrow> string \<Rightarrow> string + sess_data option" where
  "MemoryStore_Get s now i =
     (case map_of (ms_entries s) i of
        None \<Rightarrow> Inr None
      | Some e \<Rightarrow> if now > sn_expiresAt e then Inr None else Inr (Some (sn_data e)))"

definition MemoryStore_Set :: "MemoryStore \<Rightarrow> gotime \<Rightarrow> string \<Rightarrow> sess_data \<Rightarrow> duration \<Rightarrow> string option \<times> MemoryStore" where
  "MemoryStore_Set s now i data ttl0 =
     (let ttl = (if ttl0 \<le> 0 then 2 * hour else ttl0)
      in (None, s\<lparr>ms_entries := AList.update i \<lparr>sn_data = data, sn_expiresAt = now + ttl\<rparr> (ms_entries s)\<rparr>))"

definition MemoryStore_Delete :: "MemoryStore \<Rightarrow> string \<Rightarrow> string option \<times> MemoryStore" where
  "MemoryStore_Delete s i = (None, s\<lparr>ms_entries := AList.delete i (ms_entries s)\<rparr>)"

definition MemoryStore_Regenerate :: "MemoryStore \<Rightarrow> gotime \<Rightarrow> string option \<Rightarrow> string \<Rightarrow> (string + string) \<times> MemoryStore" where
  "MemoryStore_Regenerate s now rand oldID =
     (let found = map_of (ms_entries s) oldID;
          s1 = (case found of None \<Rightarrow> s | Some _ \<Rightarrow> s\<lparr>ms_entries := AList.delete oldID (ms_entries s)\<rparr>)
      in case rand of
           None \<Rightarrow> (Inl ''rand'', s1)
         | Some newID \<Rightarrow>
             (Inr newID, case found of None \<Rightarrow> s1 | Some e \<Rightarrow> snd (MemoryStore_Set s1 now newID (sn_data e) (sn_expiresAt e - now))))"

definition MemoryStore_evict :: "MemoryStore \<Rightarrow> gotime \<Rightarrow> MemoryStore" where
  "MemoryStore_evict s now = s\<lparr>ms_entries := filter (\<lambda>(i, e). \<not> now > sn_expiresAt e) (ms_entries s)\<rparr>"

definition memory_sessions :: "MemoryStore SessionStore" where
  "memory_sessions = \<lparr>ss_Get = MemoryStore_Get, ss_Set = MemoryStore_Set, ss_Delete = MemoryStore_Delete,
     ss_Regenerate = MemoryStore_Regenerate\<rparr>"

section \<open>Session objects\<close>

definition Session_Get :: "Session \<Rightarrow> string \<Rightarrow> gval option" where
  "Session_Get s key = map_of (se_data s) key"

definition Session_Set :: "Session \<Rightarrow> string \<Rightarrow> gval \<Rightarrow> Session" where
  "Session_Set s key v = s\<lparr>se_data := AList.update key v (se_data s), se_dirty := True\<rparr>"

definition Session_Delete :: "Session \<Rightarrow> string \<Rightarrow> Session" where
  "Session_Delete s key = s\<lparr>se_data := AList.delete key (se_data s), se_dirty := True\<rparr>"

definition Session_Has :: "Session \<Rightarrow> string \<Rightarrow> bool" where
  "Session_Has s key = (map_of (se_data s) key \<noteq> None)"

definition Session_Flash :: "Session \<Rightarrow> string \<Rightarrow> gval \<Rightarrow> Session" where
  "Session_Flash s key v = Session_Set s (''_flash_'' @ key) v"

definition Session_GetFlash :: "Session \<Rightarrow> string \<Rightarrow> gval option \<times> Session" where
  "Session_GetFlash s key =
     (case Session_Get s (''_flash_'' @ key) of
        None \<Rightarrow> (None, s)
      | Some v \<Rightarrow> (Some v, Session_Delete s (''_flash_'' @ key)))"

definition Session_Regenerate :: "'s SessionStore \<Rightarrow> 's \<Rightarrow> gotime \<Rightarrow> string option \<Rightarrow> Session \<Rightarrow> (string option \<times> Session) \<times> 's" where
  "Session_Regenerate S st now rand s =
     (case ss_Regenerate S st now rand (se_ID s) of
        (Inl e, st1) \<Rightarrow> ((Some e, s), st1)
      | (Inr newID, st1) \<Rightarrow> ((None, s\<lparr>se_ID := newID, se_dirty := True\<rparr>), st1))"

section \<open>The session manager\<close>

definition cookie_string :: "SessConfig \<Rightarrow> string \<Rightarrow> int \<Rightarrow> string" where
  "cookie_string cfg v maxAge =
     sc_CookieName cfg @ ''='' @ v
     @ (if sc_Path cfg \<noteq> [] then ''; Path='' @ sc_Path cfg else [])
     @ (if sc_Domain cfg \<noteq> [] then ''; Domain='' @ sc_Domain cfg else [])
     @ (if maxAge > 0 then ''; Max-Age='' @ itoa maxAge else if maxAge < 0 then ''; Max-Age=0'' else [])
     @ (if sc_HTTPOnly cfg then ''; HttpOnly'' else []) @ (if sc_Secure cfg then ''; Secure'' else [])
     @ (if sc_SameSite cfg \<noteq> [] then ''; SameSite='' @ sc_SameSite cfg else [])"

definition setCookie :: "SessConfig \<Rightarrow> string \<Rightarrow> 'a Context_scheme \<Rightarrow> 'a Context_scheme" where
  "setCookie cfg i c = addHeader ''Set-Cookie'' (cookie_string cfg i (sc_TTL cfg div second)) c"

definition alloc :: "Session \<Rightarrow> AuthContext \<Rightarrow> nat \<times> AuthContext" where
  "alloc s c = (length (ax_heap c), c\<lparr>ax_heap := ax_heap c @ [s]\<rparr>)"

definition Manager_create :: "SessConfig \<Rightarrow> string option \<Rightarrow> AuthContext \<Rightarrow> (string + nat) \<times> AuthContext" where
  "Manager_create cfg rand c =
     (case rand of
        None \<Rightarrow> (Inl ''rand'', c)
      | Some i \<Rightarrow>
          (let (ptr, c1) = alloc \<lparr>se_ID = i, se_data = [], se_dirty = True, se_isNew = True\<rparr> c
           in (Inr ptr, setCookie cfg i c1)))"

definition Manager_Start :: "'s SessionStore \<Rightarrow> SessConfig \<Rightarrow> gotime \<Rightarrow> string option \<Rightarrow> 's web \<Rightarrow> (string + nat) \<times> AuthContext" where
  "Manager_Start S cfg now rand w =
     (case w of (st, c) \<Rightarrow>
        (case map_of (rq_Cookies (cx_req c)) (sc_CookieName cfg) of
           None \<Rightarrow> Manager_create cfg rand c
         | Some i \<Rightarrow>
             if i = [] then Manager_create cfg rand c
             else (case ss_Get S st now i of
                     Inr (Some data) \<Rightarrow>
                       (let (ptr, c1) = alloc \<lparr>se_ID = i, se_data = data, se_dirty = False, se_isNew = False\<rparr> c in (Inr ptr, c1))
                   | _ \<Rightarrow> Manager_create cfg rand c)))"

definition Manager_Save :: "'s SessionStore \<Rightarrow> SessConfig \<Rightarrow> gotime \<Rightarrow> nat \<Rightarrow> 's web \<Rightarrow> string option \<times> 's web" where
  "Manager_Save S cfg now ptr w =
     (case w of (st, c) \<Rightarrow>
        (let sess = ax_heap c ! ptr
         in if \<not> se_dirty sess then (None, (st, c))
            else case ss_Set S st now (se_ID sess) (se_data sess) (sc_TTL cfg) of
                   (Some e, st1) \<Rightarrow> (Some e, (st1, c))
                 | (None, st1) \<Rightarrow>
                     (None, (st1, (setCookie cfg (se_ID sess) c)\<lparr>ax_heap := (ax_heap c)[ptr := sess\<lparr>se_dirty := False\<rparr>]\<rparr>))))"

definition Manager_Destroy :: "'s SessionStore \<Rightarrow> SessConfig \<Rightarrow> nat \<Rightarrow> 's web \<Rightarrow> string option \<times> 's web" where
  "Manager_Destroy S cfg ptr w =
     (case w of (st, c) \<Rightarrow>
        (let sess = ax_heap c ! ptr
         in case ss_Delete S st (se_ID sess) of
              (Some e, st1) \<Rightarrow> (Some e, (st1, c))
            | (None, st1) \<Rightarrow>
                (None, (st1, (addHeader ''Set-Cookie''
                    (cookie_string (cfg\<lparr>sc_Domain := [], sc_HTTPOnly := True, sc_Secure := False, sc_SameSite := []\<rparr>) [] (-1)) c)
                    \<lparr>ax_heap := (ax_heap c)[ptr := sess\<lparr>se_data := []\<rparr>]\<rparr>))))"

section \<open>The guard\<close>

datatype auth_error = InvalidCredentials | InvalidToken | JWTNotConfigured | AuthWrapped string

definition minJWTSecretLen :: nat where "minJWTSecretLen = 32"

text \<open>\<open>Attempt\<close> with a session that may be nil; the new session ID is drawn only on success.\<close>

definition Guard_Attempt ::
  "auth_env \<Rightarrow> 's SessionStore \<Rightarrow> gotime \<Rightarrow> string option \<Rightarrow> 's \<Rightarrow> string \<Rightarrow> string \<Rightarrow> Session option
     \<Rightarrow> (auth_error + User) \<times> Session option \<times> 's" where
  "Guard_Attempt env S now rand st email password sess =
     (case ae_FindByEmail env email of
        Inl e \<Rightarrow> (Inl (AuthWrapped e), sess, st)
      | Inr None \<Rightarrow> (Inl InvalidCredentials, sess, st)
      | Inr (Some user) \<Rightarrow>
          if \<not> ae_bcrypt env (us_Password user) password then (Inl InvalidCredentials, sess, st)
          else (case sess of
                  None \<Rightarrow> (Inr user, None, st)
                | Some s \<Rightarrow>
                    (case Session_Regenerate S st now rand s of
                       ((Some e, s1), st1) \<Rightarrow> (Inl (AuthWrapped e), Some s1, st1)
                     | ((None, s1), st1) \<Rightarrow> (Inr user, Some (Session_Set s1 ''_auth_user_id'' (GInt64 (us_ID user))), st1))))"

definition Guard_UserFromSession :: "auth_env \<Rightarrow> Session \<Rightarrow> string + User option" where
  "Guard_UserFromSession env sess =
     (case Session_Get sess ''_auth_user_id'' of
        None \<Rightarrow> Inr None
      | Some (GInt64 n) \<Rightarrow> ae_FindByID env n
      | Some (GInt n) \<Rightarrow> ae_FindByID env n
      | Some (GFloat64 q) \<Rightarrow> ae_FindByID env (float64_to_int64 q)
      | Some _ \<Rightarrow> Inr None)"

definition Guard_Check :: "auth_env \<Rightarrow> Session \<Rightarrow> bool" where
  "Guard_Check env sess = (case Guard_UserFromSession env sess of Inr (Some _) \<Rightarrow> True | _ \<Rightarrow> False)"

definition Guard_Logout :: "Session \<Rightarrow> Session" where
  "Guard_Logout sess = Session_Delete sess ''_auth_user_id''"

definition Guard_IssueToken :: "auth_env \<Rightarrow> string \<Rightarrow> gotime \<Rightarrow> User \<Rightarrow> duration \<Rightarrow> auth_error + string" where
  "Guard_IssueToken env secret now user ttl =
     (if length secret < minJWTSecretLen then Inl JWTNotConfigured
      else Inr (ae_jwt_sign env secret \<lparr>cl_UserID = us_ID user, cl_Email = us_Email user\<rparr> (now + ttl)))"

definition Guard_ParseToken :: "auth_env \<Rightarrow> string \<Rightarrow> gotime \<Rightarrow> string \<Rightarrow> auth_error + Claims" where
  "Guard_ParseToken env secret now token =
     (if length secret < minJWTSecretLen then Inl JWTNotConfigured
      else case ae_jwt_parse env secret now token of None \<Rightarrow> Inl (AuthWrapped ''jwt'') | Some c \<Rightarrow> Inr c)"

definition Guard_UserFromToken :: "auth_env \<Rightarrow> string \<Rightarrow> gotime \<Rightarrow> string \<Rightarrow> auth_error + User option" where
  "Guard_UserFromToken env secret now token =
     (case Guard_ParseToken env secret now token of
        Inl e \<Rightarrow> Inl e
      | Inr c \<Rightarrow> (case ae_FindByID env (cl_UserID c) of Inl e \<Rightarrow> Inl (AuthWrapped e) | Inr u \<Rightarrow> Inr u))"

section \<open>Middleware\<close>

definition lift_handler :: "AuthContext handler \<Rightarrow> 's web handler" where
  "lift_handler h w = (case w of (st, c) \<Rightarrow> (case h c of (r, c1) \<Rightarrow> (r, (st, c1))))"

text \<open>\<open>http.Redirect\<close> to a clean absolute path: the status and the \<open>Location\<close> header.\<close>

definition Context_Redirect :: "int \<Rightarrow> string \<Rightarrow> 'a Context_scheme handler" where
  "Context_Redirect status url c = (HNil, on_resp (\<lambda>r. Response_WriteHeader r status) (setHeader ''Location'' url c))"

definition CurrentSession :: "AuthContext \<Rightarrow> Session option" where
  "CurrentSession c = (case ax_session c of None \<Rightarrow> None | Some ptr \<Rightarrow> Some (ax_heap c ! ptr))"

definition CurrentUser :: "AuthContext \<Rightarrow> User option" where
  "CurrentUser c = ax_user c"

definition mw_Auth :: "auth_env \<Rightarrow> 's SessionStore \<Rightarrow> SessConfig \<Rightarrow> gotime \<Rightarrow> string option \<Rightarrow> 's web middleware" where
  "mw_Auth env S cfg now rand next w =
     (case Manager_Start S cfg now rand w of
        (Inl _, c1) \<Rightarrow> (HErr (HTTPError 500 ''session error''), (fst w, c1))
      | (Inr ptr, c1) \<Rightarrow>
          (let c2 = c1\<lparr>ax_session := Some ptr\<rparr>
           in case Guard_UserFromSession env (ax_heap c2 ! ptr) of
                Inl _ \<Rightarrow> (HErr (HTTPError 500 ''auth error''), (fst w, c2))
              | Inr None \<Rightarrow>
                  if Context_IsJSON c2 \<or> Context_IsAJAX c2
                  then lift_handler (Context_JSON 401 (GMap [(''error'', GString ''unauthenticated'')])) (fst w, c2)
                  else lift_handler (Context_Redirect 302 ''/login'') (fst w, c2)
              | Inr (Some user) \<Rightarrow> next (fst w, c2\<lparr>ax_user := Some user\<rparr>)))"

definition mw_AuthJWT :: "auth_env \<Rightarrow> string \<Rightarrow> gotime \<Rightarrow> 's web middleware" where
  "mw_AuthJWT env secret now next w =
     (let c = snd w; token = Request_BearerToken (cx_req c);
          deny = (\<lambda>msg. lift_handler (Context_JSON 401 (GMap [(''error'', GString msg)])) w)
      in if token = [] then deny ''missing bearer token''
         else case Guard_UserFromToken env secret now token of
                Inl _ \<Rightarrow> deny ''invalid or expired token''
              | Inr None \<Rightarrow> deny ''unauthenticated''
              | Inr (Some user) \<Rightarrow> next (fst w, c\<lparr>ax_user := Some user\<rparr>))"

definition mw_Session :: "'s SessionStore \<Rightarrow> SessConfig \<Rightarrow> gotime \<Rightarrow> string option \<Rightarrow> 's web middleware" where
  "mw_Session S cfg now rand next w =
     (case Manager_Start S cfg now rand w of
        (Inl _, c1) \<Rightarrow> next (fst w, c1)
      | (Inr ptr, c1) \<Rightarrow>
          (case next (fst w, c1\<lparr>ax_session := Some ptr\<rparr>) of
             (HPanic p, w1) \<Rightarrow> (HPanic p, w1)
           | (r, w1) \<Rightarrow> (r, snd (Manager_Save S cfg now ptr w1))))"

definition secureCompare :: "string \<Rightarrow> string \<Rightarrow> bool" where
  "secureCompare a b = (if a = [] \<or> b = [] then False else a = b)"

definition mw_CSRF :: "auth_env \<Rightarrow> 's web middleware" where
  "mw_CSRF env next w =
     (let c = snd w
      in if rq_Method (cx_req c) \<in> {''GET'', ''HEAD'', ''OPTIONS''} then next w
         else case CurrentSession c of
                None \<Rightarrow> (HErr (HTTPError 403 ''CSRF: no session''), w)
              | Some sess \<Rightarrow>
                  (case Session_Get sess ''_csrf_token'' of
                     None \<Rightarrow> (HErr (HTTPError 403 ''CSRF: missing token''), w)
                   | Some storedRaw \<Rightarrow>
                       (let requestToken =
                              (if Context_Header c ''X-CSRF-Token'' = []
                               then (case map_of (rq_Form (cx_req c)) ''_token'' of None \<Rightarrow> [] | Some v \<Rightarrow> v)
                               else Context_Header c ''X-CSRF-Token'')
                        in if \<not> secureCompare (ae_sprint env storedRaw) requestToken
                           then (HErr (HTTPError 403 ''CSRF token mismatch''), w)
                           else next w)))"

definition CSRFToken :: "auth_env \<Rightarrow> string option \<Rightarrow> AuthContext \<Rightarrow> string \<times> AuthContext" where
  "CSRFToken env rand c =
     (case ax_session c of
        None \<Rightarrow> ([], c)
      | Some ptr \<Rightarrow>
          (case Session_Get (ax_heap c ! ptr) ''_csrf_token'' of
             Some tok \<Rightarrow> (ae_sprint env tok, c)
           | None \<Rightarrow>
               (case rand of
                  None \<Rightarrow> ([], c)
                | Some tok \<Rightarrow> (tok, c\<lparr>ax_heap := (ax_heap c)[ptr := Session_Set (ax_heap c ! ptr) ''_csrf_token'' (GString tok)]\<rparr>))))"

section \<open>The store contract\<close>

locale session_store =
  fixes S :: "'s SessionStore"
    and live :: "'s \<Rightarrow> gotime \<Rightarrow> string \<Rightarrow> sess_data option"
  assumes get_law: "ss_Get S st now i = Inr (live st now i)"
    and set_law: "0 < ttl \<Longrightarrow> fst (ss_Set S st now i d ttl) = None
        \<and> live (snd (ss_Set S st now i d ttl)) t j = (if j = i then (if t \<le> now + ttl then Some d else None) else live st t j)"
    and delete_law: "fst (ss_Delete S st i) = None \<and> live (snd (ss_Delete S st i)) t j = (if j = i then None else live st t j)"
    and regenerate_id: "fst (ss_Regenerate S st now (Some new) old) = Inr new"
    and regenerate_law: "new \<noteq> old \<Longrightarrow> live (snd (ss_Regenerate S st now (Some new) old)) t old = None
        \<and> (j \<noteq> old \<longrightarrow> j \<noteq> new \<longrightarrow> live (snd (ss_Regenerate S st now (Some new) old)) t j = live st t j)
        \<and> (live st now old = Some d \<longrightarrow> live (snd (ss_Regenerate S st now (Some new) old)) now new = Some d)"
begin

lemma Regenerate_session:
  "Session_Regenerate S st now (Some new) s
      = ((None, s\<lparr>se_ID := new, se_dirty := True\<rparr>), snd (ss_Regenerate S st now (Some new) (se_ID s)))"
  using regenerate_id [of st now new "se_ID s"] by (cases "ss_Regenerate S st now (Some new) (se_ID s)") (simp add: Session_Regenerate_def)

lemma Attempt_success:
  assumes "Guard_Attempt env S now (Some new) st email pw (Some sess) = (Inr user, sess', st')" and "new \<noteq> se_ID sess"
  shows "ae_FindByEmail env email = Inr (Some user)" and "ae_bcrypt env (us_Password user) pw"
    and "live st' t (se_ID sess) = None"
    and "sess' = Some (Session_Set (sess\<lparr>se_ID := new, se_dirty := True\<rparr>) ''_auth_user_id'' (GInt64 (us_ID user)))"
  using assms regenerate_law [OF assms(2), of st now]
  by (auto simp: Guard_Attempt_def Regenerate_session split: sum.splits option.splits if_splits)

lemma Attempt_failure:
  assumes "Guard_Attempt env S now (Some new) st email pw (Some sess) = (Inl e, sess', st')"
  shows "sess' = Some sess \<and> st' = st"
  using assms by (auto simp: Guard_Attempt_def Regenerate_session split: sum.splits option.splits if_splits)

end

definition ms_live :: "MemoryStore \<Rightarrow> gotime \<Rightarrow> string \<Rightarrow> sess_data option" where
  "ms_live s now i = (case map_of (ms_entries s) i of None \<Rightarrow> None | Some e \<Rightarrow> if now > sn_expiresAt e then None else Some (sn_data e))"

lemma ms_live_Get: "MemoryStore_Get s now i = Inr (ms_live s now i)"
  by (simp add: MemoryStore_Get_def ms_live_def split: option.splits)

lemma ms_live_Set:
  "ms_live (snd (MemoryStore_Set s now i d ttl)) t j =
     (if j = i then (if t \<le> now + (if ttl \<le> 0 then 2 * hour else ttl) then Some d else None) else ms_live s t j)"
  by (simp add: MemoryStore_Set_def ms_live_def Let_def)

lemma ms_live_Delete: "ms_live (snd (MemoryStore_Delete s i)) t j = (if j = i then None else ms_live s t j)"
  by (simp add: MemoryStore_Delete_def ms_live_def)

lemma ms_Regenerate_entries:
  "new \<noteq> old \<Longrightarrow> map_of (ms_entries (snd (MemoryStore_Regenerate s now (Some new) old))) j =
     (if j = old then None
      else if j = new then (case map_of (ms_entries s) old of None \<Rightarrow> map_of (ms_entries s) new
         | Some e \<Rightarrow> Some \<lparr>sn_data = sn_data e, sn_expiresAt = now + (if sn_expiresAt e - now \<le> 0 then 2 * hour else sn_expiresAt e - now)\<rparr>)
      else map_of (ms_entries s) j)"
  by (auto simp: MemoryStore_Regenerate_def MemoryStore_Set_def Let_def split: option.splits)

interpretation memory_sess: session_store memory_sessions ms_live
proof
  fix st :: MemoryStore and now i ttl d t j new old
  show "ss_Get memory_sessions st now i = Inr (ms_live st now i)"
    by (simp add: memory_sessions_def ms_live_Get)
  show "0 < ttl \<Longrightarrow> fst (ss_Set memory_sessions st now i d ttl) = None
      \<and> ms_live (snd (ss_Set memory_sessions st now i d ttl)) t j = (if j = i then (if t \<le> now + ttl then Some d else None) else ms_live st t j)"
    by (simp add: memory_sessions_def ms_live_Set) (simp add: MemoryStore_Set_def)
  show "fst (ss_Delete memory_sessions st i) = None
      \<and> ms_live (snd (ss_Delete memory_sessions st i)) t j = (if j = i then None else ms_live st t j)"
    by (simp add: memory_sessions_def ms_live_Delete) (simp add: MemoryStore_Delete_def)
  show "fst (ss_Regenerate memory_sessions st now (Some new) old) = Inr new"
    by (simp add: memory_sessions_def MemoryStore_Regenerate_def Let_def)
  show "new \<noteq> old \<Longrightarrow> ms_live (snd (ss_Regenerate memory_sessions st now (Some new) old)) t old = None
      \<and> (j \<noteq> old \<longrightarrow> j \<noteq> new \<longrightarrow> ms_live (snd (ss_Regenerate memory_sessions st now (Some new) old)) t j = ms_live st t j)
      \<and> (ms_live st now old = Some d \<longrightarrow> ms_live (snd (ss_Regenerate memory_sessions st now (Some new) old)) now new = Some d)"
    by (auto simp: memory_sessions_def ms_live_def ms_Regenerate_entries split: option.splits if_splits)
qed

section \<open>Properties\<close>

text \<open>
  C35. Login rotates the session: when Attempt succeeds on the memory store, the user exists and the
  password verifies, the old session ID is no longer valid at any time, and the session carries the
  new ID and the user's ID; when it fails, session and store are unchanged.
\<close>

theorem login_rotates_session:
  assumes "new \<noteq> se_ID sess"
    and "Guard_Attempt env memory_sessions now (Some new) st email pw (Some sess) = (r, sess', st')"
  shows "(\<forall>user. r = Inr user \<longrightarrow>
      ae_FindByEmail env email = Inr (Some user) \<and> ae_bcrypt env (us_Password user) pw
      \<and> (\<forall>t. MemoryStore_Get st' t (se_ID sess) = Inr None)
      \<and> (\<exists>s'. sess' = Some s' \<and> se_ID s' = new \<and> Session_Get s' ''_auth_user_id'' = Some (GInt64 (us_ID user))))
    \<and> (\<forall>e. r = Inl e \<longrightarrow> sess' = Some sess \<and> st' = st)"
proof (intro conjI allI impI)
  fix user assume "r = Inr user"
  note ok = memory_sess.Attempt_success [OF assms(2) [unfolded this] assms(1)]
  then show "ae_FindByEmail env email = Inr (Some user)" "ae_bcrypt env (us_Password user) pw"
    "\<exists>s'. sess' = Some s' \<and> se_ID s' = new \<and> Session_Get s' ''_auth_user_id'' = Some (GInt64 (us_ID user))"
    by (auto simp: Session_Set_def Session_Get_def)
  show "MemoryStore_Get st' t (se_ID sess) = Inr None" for t using ok(3) by (simp add: ms_live_Get)
next
  fix e assume "r = Inl e"
  from memory_sess.Attempt_failure [OF assms(2) [unfolded this]]
  show "sess' = Some sess" "st' = st" by simp_all
qed

definition demo_auth :: auth_env where
  "demo_auth = \<lparr>ae_FindByID = (\<lambda>i. Inr (Some \<lparr>us_ID = i, us_Email = ''a@b'', us_Password = ''h''\<rparr>)),
     ae_FindByEmail = (\<lambda>e. Inr (Some \<lparr>us_ID = 1, us_Email = e, us_Password = ''h''\<rparr>)),
     ae_bcrypt = (\<lambda>h p. p = ''secret''), ae_jwt_parse = (\<lambda>_ _ _. Some \<lparr>cl_UserID = 1, cl_Email = ''a@b''\<rparr>),
     ae_jwt_sign = (\<lambda>_ _ _. ''t''), ae_sprint = (\<lambda>v. case v of GString s \<Rightarrow> s | _ \<Rightarrow> [])\<rparr>"

definition demo_sessions :: MemoryStore where
  "demo_sessions = \<lparr>ms_entries = [(''old'', \<lparr>sn_data = [(''_auth_user_id'', GInt64 1)], sn_expiresAt = 100\<rparr>)]\<rparr>"

definition demo_ctx :: "string \<Rightarrow> AuthContext" where
  "demo_ctx method = \<lparr>cx_req = \<lparr>rq_Method = method, rq_Path = ''/'', rq_Query = [], rq_Header = [], rq_Form = [],
        rq_Cookies = [(''oni_session'', ''old'')], rq_RemoteAddr = [], rq_TLS = False, rq_params = []\<rparr>,
      cx_resp = newResponse new_wire, cx_store = [], cx_json = (\<lambda>_. ''{}''), ax_heap = [], ax_session = None, ax_user = None\<rparr>"

theorem login_rotates_session_witness:
  "\<forall>t. MemoryStore_Get (snd (snd (Guard_Attempt demo_auth memory_sessions 5 (Some ''new'') demo_sessions ''a@b'' ''secret''
      (Some \<lparr>se_ID = ''old'', se_data = [], se_dirty = False, se_isNew = False\<rparr>)))) t ''old'' = Inr None"
proof -
  let ?s = "\<lparr>se_ID = ''old'', se_data = [], se_dirty = False, se_isNew = False\<rparr>"
  obtain u sess' st' where g: "Guard_Attempt demo_auth memory_sessions 5 (Some ''new'') demo_sessions ''a@b'' ''secret'' (Some ?s) = (Inr u, sess', st')"
    by (simp add: Guard_Attempt_def demo_auth_def Session_Regenerate_def memory_sessions_def MemoryStore_Regenerate_def Let_def)
  have n: "''new'' \<noteq> se_ID ?s" by simp
  from login_rotates_session [OF n g] g show ?thesis by simp
qed

text \<open>
  C36. The CSRF check fails closed: a request with a method other than GET, HEAD and OPTIONS reaches the
  handler only if the context has a session that stores a token and the request carries the same,
  non-empty token; otherwise the answer is a 403 error and nothing has changed.
\<close>

theorem csrf_fails_closed:
  assumes "rq_Method (cx_req (snd w)) \<notin> {''GET'', ''HEAD'', ''OPTIONS''}"
    and "\<not> (\<exists>sess v tok. CurrentSession (snd w) = Some sess \<and> Session_Get sess ''_csrf_token'' = Some v
           \<and> tok = ae_sprint env v \<and> tok \<noteq> []
           \<and> (Context_Header (snd w) ''X-CSRF-Token'' = tok
              \<or> (Context_Header (snd w) ''X-CSRF-Token'' = [] \<and> map_of (rq_Form (cx_req (snd w))) ''_token'' = Some tok)))"
  shows "\<exists>msg. mw_CSRF env next w = (HErr (HTTPError 403 msg), w)"
  using assms by (auto simp: mw_CSRF_def Let_def secureCompare_def split: option.splits)

theorem csrf_fails_closed_witness:
  "\<exists>msg. mw_CSRF demo_auth (\<lambda>w. (HNil, w)) (demo_sessions, demo_ctx ''POST'') = (HErr (HTTPError 403 msg), (demo_sessions, demo_ctx ''POST''))"
  by (rule csrf_fails_closed) (simp_all add: demo_ctx_def CurrentSession_def)

text \<open>
  A session cookie set by the session middleware after the handler is lost when the handler has
  answered: if the response has been committed when the handler returns, saving changes the headers but
  not those that were sent, so the client never learns a rotated session ID.
\<close>

theorem late_cookie_is_lost:
  assumes "Manager_Start S cfg now rand w = (Inr ptr, c1)"
    and "next (fst w, c1\<lparr>ax_session := Some ptr\<rparr>) = (HNil, (st2, c2))"
    and "w_sent (rp_wire (cx_resp c2)) = Some sent"
  shows "w_sent (rp_wire (cx_resp (snd (snd (mw_Session S cfg now rand next w))))) = Some sent"
proof -
  have "w_sent (rp_wire (cx_resp (snd (snd (Manager_Save S cfg now ptr (st2, c2)))))) = Some sent"
    using assms(3) by (auto simp: Manager_Save_def Let_def setCookie_def addHeader_def on_resp_def split: option.splits prod.splits)
  then show ?thesis using assms(1,2) by (simp add: mw_Session_def)
qed

text \<open>The handler that logs in and then answers with a JSON body.\<close>

definition login_handler :: "MemoryStore web handler" where
  "login_handler w =
     (case Guard_Attempt demo_auth memory_sessions 5 (Some ''new'') (fst w) ''a@b'' ''secret'' (CurrentSession (snd w)) of
        (_, Some s, st) \<Rightarrow>
          lift_handler (Context_JSON 200 GNil) (st, (snd w)\<lparr>ax_heap := (ax_heap (snd w))[the (ax_session (snd w)) := s]\<rparr>)
      | (_, None, st) \<Rightarrow> (HNil, (st, snd w)))"

theorem late_cookie_is_lost_witness:
  "w_sent (rp_wire (cx_resp (snd (snd (mw_Session memory_sessions DefaultConfig 5 None login_handler (demo_sessions, demo_ctx ''POST''))))))
     = Some (200, [(''Content-Type'', [''application/json; charset=utf-8''])])"
proof -
  let ?w = "(demo_sessions, demo_ctx ''POST'')"
  obtain c1 where s: "Manager_Start memory_sessions DefaultConfig 5 None ?w = (Inr 0, c1)"
    and c1: "c1 = (demo_ctx ''POST'')\<lparr>ax_heap := [\<lparr>se_ID = ''old'', se_data = [(''_auth_user_id'', GInt64 1)], se_dirty = False, se_isNew = False\<rparr>]\<rparr>"
    by (simp add: Manager_Start_def demo_ctx_def DefaultConfig_def memory_sessions_def MemoryStore_Get_def demo_sessions_def alloc_def)
  have "fst (login_handler (demo_sessions, c1\<lparr>ax_session := Some 0\<rparr>)) = HNil" unfolding c1 by code_simp
  then obtain st2 c2 where h: "login_handler (fst ?w, c1\<lparr>ax_session := Some 0\<rparr>) = (HNil, (st2, c2))"
    by (cases "login_handler (demo_sessions, c1\<lparr>ax_session := Some 0\<rparr>)") auto
  have "w_sent (rp_wire (cx_resp (snd (snd (login_handler (demo_sessions, c1\<lparr>ax_session := Some 0\<rparr>))))))
      = Some (200, [(''Content-Type'', [''application/json; charset=utf-8''])])" unfolding c1 by code_simp
  with h have "w_sent (rp_wire (cx_resp c2)) = Some (200, [(''Content-Type'', [''application/json; charset=utf-8''])])" by simp
  from late_cookie_is_lost [of memory_sessions DefaultConfig 5 None ?w 0 c1 login_handler, OF s h this] show ?thesis .
qed

text \<open>
  Session writes behind both the session and the auth middleware are lost: \<open>Auth\<close> loads a second
  object for the same session and the outer middleware saves its own, unmodified one, so a handler that
  changes the current session leaves the stored session as it was.
\<close>

theorem auth_loses_session_writes:
  assumes "map_of (rq_Cookies (cx_req c)) (sc_CookieName cfg) = Some i" and "i \<noteq> []"
    and "ms_live st now i = Some data" and "Guard_UserFromSession env \<lparr>se_ID = i, se_data = data, se_dirty = False, se_isNew = False\<rparr> = Inr (Some user)"
    and "\<And>st c. h (st, c) = (HNil, (st, c\<lparr>ax_heap := (ax_heap c)[the (ax_session c) := Session_Set (ax_heap c ! the (ax_session c)) k v]\<rparr>))"
  shows "fst (snd (mw_Session memory_sessions cfg now rand (mw_Auth env memory_sessions cfg now rand2 h) (st, c))) = st"
proof -
  let ?s = "\<lparr>se_ID = i, se_data = data, se_dirty = False, se_isNew = False\<rparr>"
  have start: "Manager_Start memory_sessions cfg now r (st, c') = (Inr (length (ax_heap c')), c'\<lparr>ax_heap := ax_heap c' @ [?s]\<rparr>)"
    if "cx_req c' = cx_req c" for r c'
    using that assms(1-3) by (simp add: Manager_Start_def memory_sess.get_law alloc_def)
  show ?thesis
    using assms(4) by (simp add: mw_Session_def mw_Auth_def start assms(5) Let_def Manager_Save_def nth_append)
qed

theorem auth_loses_session_writes_witness:
  "fst (snd (mw_Session memory_sessions DefaultConfig 5 None (mw_Auth demo_auth memory_sessions DefaultConfig 5 None
      (\<lambda>(st, c). (HNil, (st, c\<lparr>ax_heap := (ax_heap c)[the (ax_session c) := Session_Set (ax_heap c ! the (ax_session c)) ''cart'' GNil]\<rparr>))))
      (demo_sessions, demo_ctx ''POST''))) = demo_sessions"
  by (rule auth_loses_session_writes [where i = "''old''" and data = "[(''_auth_user_id'', GInt64 1)]"
        and user = "\<lparr>us_ID = 1, us_Email = ''a@b'', us_Password = ''h''\<rparr>"])
     (simp_all add: demo_ctx_def DefaultConfig_def ms_live_def demo_sessions_def Guard_UserFromSession_def Session_Get_def demo_auth_def)

text \<open>
  Regenerating an expired session revives it: the memory store deletes the old entry and stores its
  data under the new ID with a non-positive TTL, which it replaces by two hours.
\<close>

theorem regenerate_revives_expired:
  assumes "map_of (ms_entries s) old = Some e" and "sn_expiresAt e < now" and "new \<noteq> old"
  shows "MemoryStore_Get s now old = Inr None
    \<and> MemoryStore_Get (snd (MemoryStore_Regenerate s now (Some new) old)) (now + hour) new = Inr (Some (sn_data e))"
  using assms by (simp add: ms_live_Get ms_live_def ms_Regenerate_entries)

theorem regenerate_revives_expired_witness:
  "MemoryStore_Get (snd (MemoryStore_Regenerate demo_sessions 200 (Some ''new'') ''old'')) (200 + hour) ''new''
     = Inr (Some [(''_auth_user_id'', GInt64 1)])"
  using regenerate_revives_expired [of demo_sessions "''old''" "\<lparr>sn_data = [(''_auth_user_id'', GInt64 1)], sn_expiresAt = 100\<rparr>" 200 "''new''"]
  by (simp add: demo_sessions_def)

text \<open>
  C37. Bearer tokens fail closed: with a signing secret shorter than 32 bytes no token is accepted or
  issued, and the middleware runs the handler only for a token that the library accepts under the
  secret and whose user exists.
\<close>

theorem jwt_fails_closed:
  "(length secret < 32 \<longrightarrow> Guard_ParseToken env secret now token = Inl JWTNotConfigured
       \<and> Guard_IssueToken env secret now user ttl = Inl JWTNotConfigured)
   \<and> ((\<nexists>cl u. length secret \<ge> 32 \<and> ae_jwt_parse env secret now (Request_BearerToken (cx_req (snd w))) = Some cl
          \<and> ae_FindByID env (cl_UserID cl) = Inr (Some u)) \<longrightarrow>
      (\<exists>msg. mw_AuthJWT env secret now next w = lift_handler (Context_JSON 401 (GMap [(''error'', GString msg)])) w))"
  by (auto simp: Guard_ParseToken_def Guard_IssueToken_def minJWTSecretLen_def mw_AuthJWT_def Guard_UserFromToken_def Let_def
      split: option.splits sum.splits)

theorem jwt_fails_closed_witness:
  "Guard_ParseToken demo_auth ''short'' 0 ''x.y.z'' = Inl JWTNotConfigured"
  using jwt_fails_closed [of "''short''" demo_auth 0 "''x.y.z''" _ _ "((), demo_ctx ''GET'')"] by simp

end
