(* ===== verification/Rbac.thy ===== *)
theory Rbac
  imports Oni_Prelude
begin

text \<open>
  Model of \<open>framework/roles/rbac.go\<close>: roles with permission patterns, the permission check and gates. The
  function that resolves a user's roles, and the policies, are user code and appear as arguments.
\<close>

section \<open>Data\<close>

record Role =
  rl_Name :: string
  rl_Permissions :: "string list" \<comment> \<open>the keys of the map, without repetition\<close>

record RoleManager =
  rm_roles :: "(string, Role) gomap"

datatype 'e roles_error = ResolveError 'e | PolicyNotDefined string

section \<open>Permission patterns\<close>

text \<open>The loop over the pattern's segments from index \<open>i\<close>; \<open>n\<close> is their number.\<close>

fun wildcard_loop :: "string list \<Rightarrow> string list \<Rightarrow> bool" where
  "wildcard_loop [] ts = (ts = [])"
| "wildcard_loop (p # ps) ts =
     (if p = ''*'' \<and> ps = [] then ts \<noteq> []
      else case ts of
             [] \<Rightarrow> False
           | t # ts' \<Rightarrow> if p = ''*'' then wildcard_loop ps ts' else if p \<noteq> t then False else wildcard_loop ps ts')"

definition isWildcardMatch :: "string \<Rightarrow> string \<Rightarrow> bool" where
  "isWildcardMatch pattern target =
     (if pattern = [] then False
      else if pattern = ''*'' then True
      else if pattern = target then True
      else wildcard_loop (SplitOn CHR '':'' pattern) (SplitOn CHR '':'' target))"

definition matchesPermission :: "string list \<Rightarrow> string \<Rightarrow> bool" where
  "matchesPermission perms target = (target \<in> set perms \<or> (\<exists>p \<in> set perms. isWildcardMatch p target))"

section \<open>The manager\<close>

definition Roles_New :: RoleManager where
  "Roles_New = \<lparr>rm_roles = []\<rparr>"

definition Roles_Define :: "RoleManager \<Rightarrow> string \<Rightarrow> string list \<Rightarrow> RoleManager" where
  "Roles_Define m name permissions =
     m\<lparr>rm_roles := AList.update name \<lparr>rl_Name = name, rl_Permissions = remdups permissions\<rparr> (rm_roles m)\<rparr>"

definition Roles_HasRole :: "'e + string list \<Rightarrow> string \<Rightarrow> 'e + bool" where
  "Roles_HasRole userRoles role = (case userRoles of Inl e \<Rightarrow> Inl e | Inr rs \<Rightarrow> Inr (role \<in> set rs))"

fun can_loop :: "RoleManager \<Rightarrow> string list \<Rightarrow> string \<Rightarrow> bool" where
  "can_loop m [] permission = False"
| "can_loop m (r # rs) permission =
     (case map_of (rm_roles m) r of
        None \<Rightarrow> can_loop m rs permission
      | Some role \<Rightarrow> if matchesPermission (rl_Permissions role) permission then True else can_loop m rs permission)"

definition Roles_Can :: "RoleManager \<Rightarrow> 'e + string list \<Rightarrow> string \<Rightarrow> 'e roles_error + bool" where
  "Roles_Can m userRoles permission =
     (case userRoles of Inl e \<Rightarrow> Inl (ResolveError e) | Inr rs \<Rightarrow> Inr (can_loop m rs permission))"

text \<open>\<open>Cannot\<close> returns the negated answer together with the error.\<close>

definition Roles_Cannot :: "RoleManager \<Rightarrow> 'e + string list \<Rightarrow> string \<Rightarrow> bool \<times> 'e roles_error option" where
  "Roles_Cannot m userRoles permission =
     (case Roles_Can m userRoles permission of Inl e \<Rightarrow> (True, Some e) | Inr ok \<Rightarrow> (\<not> ok, None))"

fun all_permissions_loop :: "RoleManager \<Rightarrow> string list \<Rightarrow> string list \<Rightarrow> string list" where
  "all_permissions_loop m [] perms = perms"
| "all_permissions_loop m (r # rs) perms =
     (case map_of (rm_roles m) r of
        None \<Rightarrow> all_permissions_loop m rs perms
      | Some role \<Rightarrow> all_permissions_loop m rs (perms @ filter (\<lambda>p. p \<notin> set perms) (rl_Permissions role)))"

definition Roles_AllPermissions :: "RoleManager \<Rightarrow> 'e + string list \<Rightarrow> 'e + string list" where
  "Roles_AllPermissions m userRoles = (case userRoles of Inl e \<Rightarrow> Inl e | Inr rs \<Rightarrow> Inr (all_permissions_loop m rs []))"

section \<open>Gates\<close>

record 'r Gate =
  gt_policies :: "(string, i64 \<Rightarrow> 'r \<Rightarrow> string + bool) gomap"

definition NewGate :: "'r Gate" where
  "NewGate = \<lparr>gt_policies = []\<rparr>"

definition Gate_Define :: "'r Gate \<Rightarrow> string \<Rightarrow> (i64 \<Rightarrow> 'r \<Rightarrow> string + bool) \<Rightarrow> 'r Gate" where
  "Gate_Define g name policy = g\<lparr>gt_policies := AList.update name policy (gt_policies g)\<rparr>"

definition Gate_Allows :: "'r Gate \<Rightarrow> string \<Rightarrow> i64 \<Rightarrow> 'r \<Rightarrow> string roles_error + bool" where
  "Gate_Allows g name userID resource =
     (case map_of (gt_policies g) name of
        None \<Rightarrow> Inl (PolicyNotDefined name)
      | Some policy \<Rightarrow> (case policy userID resource of Inl e \<Rightarrow> Inl (ResolveError e) | Inr b \<Rightarrow> Inr b))"

section \<open>What a pattern grants\<close>

text \<open>
  A pattern segment matches itself, and a full-segment star any one segment; a star in last place
  stands for one or more segments.
\<close>

inductive grants :: "string list \<Rightarrow> string list \<Rightarrow> bool" where
  g_end: "grants [] []"
| g_rest: "ts \<noteq> [] \<Longrightarrow> grants [''*''] ts"
| g_star: "ps \<noteq> [] \<Longrightarrow> grants ps ts \<Longrightarrow> grants (''*'' # ps) (t # ts)"
| g_lit: "p \<noteq> ''*'' \<Longrightarrow> grants ps ts \<Longrightarrow> grants (p # ps) (p # ts)"

inductive_simps grants_Nil: "grants [] ts"
inductive_simps grants_Cons: "grants (p # ps) ts"

lemma wildcard_loop_grants: "wildcard_loop ps ts \<longleftrightarrow> grants ps ts"
  by (induction ps ts rule: wildcard_loop.induct)
     (auto simp: grants_Nil grants_Cons split: list.splits)

lemma grants_refl: "\<forall>p \<in> set ps. p \<noteq> ''*'' \<Longrightarrow> grants ps ps"
  by (induction ps) (auto intro: grants.intros)

lemma wildcard_loop_refl: "wildcard_loop ps ps"
  by (induction ps) auto

lemma isWildcardMatch_grants:
  "isWildcardMatch p t \<longleftrightarrow> p \<noteq> [] \<and> (p = ''*'' \<or> grants (SplitOn CHR '':'' p) (SplitOn CHR '':'' t))"
  using wildcard_loop_refl [of "SplitOn CHR '':'' p"]
  by (auto simp: isWildcardMatch_def wildcard_loop_grants)

lemma can_loop_iff:
  "can_loop m rs t \<longleftrightarrow> (\<exists>r \<in> set rs. \<exists>role. map_of (rm_roles m) r = Some role \<and> matchesPermission (rl_Permissions role) t)"
  by (induction rs) (auto split: option.splits)

lemma all_permissions_loop_spec:
  "distinct perms \<Longrightarrow> \<forall>r role. map_of (rm_roles m) r = Some role \<longrightarrow> distinct (rl_Permissions role) \<Longrightarrow>
   distinct (all_permissions_loop m rs perms)
   \<and> set (all_permissions_loop m rs perms) = set perms \<union>
       {p. \<exists>r \<in> set rs. \<exists>role. map_of (rm_roles m) r = Some role \<and> p \<in> set (rl_Permissions role)}"
proof (induction rs arbitrary: perms)
  case (Cons r rs)
  show ?case
  proof (cases "map_of (rm_roles m) r")
    case None
    with Cons show ?thesis by auto
  next
    case (Some role)
    let ?perms = "perms @ filter (\<lambda>p. p \<notin> set perms) (rl_Permissions role)"
    have "distinct ?perms" using Cons.prems Some by auto
    with Cons.IH [OF this Cons.prems(2)] Some show ?thesis by auto
  qed
qed simp

section \<open>Properties\<close>

text \<open>
  A permission is granted exactly when one of the user's defined roles lists it or lists a pattern
  that grants it: the single star, or a pattern that agrees segment by segment, where a full-segment
  star takes one segment and a final star one or more. A failing role lookup grants nothing.
\<close>

theorem Can_iff_granted:
  "Roles_Can m (Inr rs) t = Inr (\<exists>r \<in> set rs. \<exists>role. map_of (rm_roles m) r = Some role
      \<and> (\<exists>p \<in> set (rl_Permissions role). p = t \<or> p = ''*'' \<or> (p \<noteq> [] \<and> grants (SplitOn CHR '':'' p) (SplitOn CHR '':'' t))))
   \<and> Roles_Can m (Inl e) t = Inl (ResolveError e)
   \<and> Roles_Cannot m (Inl e) t = (True, Some (ResolveError e))"
  by (auto simp: Roles_Can_def Roles_Cannot_def can_loop_iff matchesPermission_def isWildcardMatch_grants)

text \<open>
  A star inside a segment is not a wildcard: a pattern whose segments are none of them a single star
  grants only itself.
\<close>

theorem partial_star_is_literal:
  assumes "\<forall>s \<in> set (SplitOn CHR '':'' p). s \<noteq> ''*''" and "p \<noteq> ''*''"
  shows "isWildcardMatch p t \<longleftrightarrow> p \<noteq> [] \<and> p = t"
proof -
  have lit: "grants ps ts \<Longrightarrow> \<forall>s \<in> set ps. s \<noteq> ''*'' \<Longrightarrow> ps = ts" for ps ts
    by (induction rule: grants.induct) auto
  have "SplitOn CHR '':'' p = SplitOn CHR '':'' t \<Longrightarrow> p = t" by (metis Join_SplitOn)
  with assms lit grants_refl [OF assms(1)] show ?thesis unfolding isWildcardMatch_grants by metis
qed

theorem partial_star_is_literal_witness: "\<not> isWildcardMatch ''user*'' ''users:delete''"
  using partial_star_is_literal [of "''user*''" "''users:delete''"] by simp

text \<open>
  \<open>AllPermissions\<close> lists each permission of the user's defined roles once and nothing else, for
  roles registered with \<open>Define\<close>.
\<close>

theorem AllPermissions_spec:
  assumes "\<forall>r role. map_of (rm_roles m) r = Some role \<longrightarrow> distinct (rl_Permissions role)"
  shows "\<exists>ps. Roles_AllPermissions m (Inr rs) = Inr ps \<and> distinct ps
    \<and> set ps = {p. \<exists>r \<in> set rs. \<exists>role. map_of (rm_roles m) r = Some role \<and> p \<in> set (rl_Permissions role)}"
  using all_permissions_loop_spec [of "[]" m rs] assms by (auto simp: Roles_AllPermissions_def)

theorem AllPermissions_spec_witness:
  "\<exists>ps. Roles_AllPermissions (Roles_Define Roles_New ''admin'' [''users:*'', ''users:*'', ''posts:*'']) (Inr [''admin'', ''ghost''] :: unit + string list) = Inr ps
    \<and> distinct ps \<and> set ps = {''users:*'', ''posts:*''}"
proof -
  let ?m = "Roles_Define Roles_New ''admin'' [''users:*'', ''users:*'', ''posts:*'']"
  have roles: "map_of (rm_roles ?m) r = (if r = ''admin'' then Some \<lparr>rl_Name = ''admin'', rl_Permissions = [''users:*'', ''posts:*'']\<rparr> else None)" for r
    by (simp add: Roles_Define_def Roles_New_def)
  then have "\<forall>r role. map_of (rm_roles ?m) r = Some role \<longrightarrow> distinct (rl_Permissions role)" by simp
  from AllPermissions_spec [OF this, of "[''admin'', ''ghost'']"] obtain ps where ps:
    "Roles_AllPermissions ?m (Inr [''admin'', ''ghost''] :: unit + string list) = Inr ps" "distinct ps"
    "set ps = {p. \<exists>r \<in> set [''admin'', ''ghost'']. \<exists>role. map_of (rm_roles ?m) r = Some role \<and> p \<in> set (rl_Permissions role)}"
    by blast
  have "\<dots> = set (rl_Permissions \<lparr>rl_Name = ''admin'', rl_Permissions = [''users:*'', ''posts:*'']\<rparr>)"
    unfolding roles by fastforce
  with ps(3) have eq: "set ps = {''users:*'', ''posts:*''}" by (simp only: Role.select_convs list.set)
  show ?thesis by (intro exI [of _ ps] conjI) (fact ps(1), fact ps(2), fact eq)
qed

end
