(* ===== verification/Rate_Limit.thy ===== *)
theory Rate_Limit
  imports Http_Core
begin

text \<open>
  Model of \<open>framework/middleware/ratelimit.go\<close>: the sliding-window store and the middleware around it.
  Entry objects are shared pointers: \<open>getOrCreate\<close> hands one out before it is locked, and the cleanup loop
  may drop it from the table in between. Objects therefore live in \<open>rl_objs\<close>, and section \<open>Interleavings\<close>
  splits \<open>Allow\<close> at that point.
\<close>

section \<open>Data\<close>

record slidingWindowStore =
  rl_objs :: "gotime list list" \<comment> \<open>timestamps of every entry object ever allocated\<close>
  rl_entries :: "(string, nat) gomap" \<comment> \<open>key to object\<close>
  rl_max :: int
  rl_window :: duration

definition newSlidingWindowStore :: "int \<Rightarrow> duration \<Rightarrow> slidingWindowStore" where
  "newSlidingWindowStore mx window = \<lparr>rl_objs = [], rl_entries = [], rl_max = mx, rl_window = window\<rparr>"

section \<open>Operations\<close>

definition rl_valid :: "slidingWindowStore \<Rightarrow> gotime \<Rightarrow> gotime list \<Rightarrow> gotime list" where
  "rl_valid s now ts = filter (\<lambda>t. t > now - rl_window s) ts"

definition getOrCreate :: "slidingWindowStore \<Rightarrow> string \<Rightarrow> nat \<times> slidingWindowStore" where
  "getOrCreate s key =
     (case map_of (rl_entries s) key of
        Some i \<Rightarrow> (i, s)
      | None \<Rightarrow> (length (rl_objs s), s\<lparr>rl_objs := rl_objs s @ [[]], rl_entries := AList.update key (length (rl_objs s)) (rl_entries s)\<rparr>))"

text \<open>The part of \<open>Allow\<close> under the entry's lock.\<close>

definition allow_entry :: "slidingWindowStore \<Rightarrow> gotime \<Rightarrow> nat \<Rightarrow> bool \<times> slidingWindowStore" where
  "allow_entry s now i =
     (let valid = rl_valid s now (rl_objs s ! i)
      in if int (length valid) \<ge> rl_max s then (False, s\<lparr>rl_objs := (rl_objs s)[i := valid]\<rparr>)
         else (True, s\<lparr>rl_objs := (rl_objs s)[i := valid @ [now]]\<rparr>))"

definition rl_Allow :: "slidingWindowStore \<Rightarrow> gotime \<Rightarrow> string \<Rightarrow> bool \<times> slidingWindowStore" where
  "rl_Allow s now key = (let (i, s1) = getOrCreate s key in allow_entry s1 now i)"

definition rl_Remaining :: "slidingWindowStore \<Rightarrow> gotime \<Rightarrow> string \<Rightarrow> int \<times> slidingWindowStore" where
  "rl_Remaining s now key =
     (let (i, s1) = getOrCreate s key;
          remaining = rl_max s1 - int (length (rl_valid s1 now (rl_objs s1 ! i)))
      in (if remaining < 0 then 0 else remaining, s1))"

text \<open>One tick of the cleanup loop, which holds the table's lock throughout.\<close>

definition rl_cleanup :: "slidingWindowStore \<Rightarrow> gotime \<Rightarrow> slidingWindowStore" where
  "rl_cleanup s now =
     s\<lparr>rl_objs := map (\<lambda>(i, ts). if i \<in> snd ` set (rl_entries s) then rl_valid s now ts else ts) (enumerate 0 (rl_objs s)),
       rl_entries := filter (\<lambda>(k, i). rl_valid s now (rl_objs s ! i) \<noteq> []) (rl_entries s)\<rparr>"

text \<open>The middleware with the default key and the default answer; \<open>secs\<close> renders \<open>window.Seconds()\<close>.\<close>

definition mw_RateLimit ::
  "('a Context_scheme \<Rightarrow> string) \<Rightarrow> (duration \<Rightarrow> string) \<Rightarrow> (duration \<Rightarrow> gval) \<Rightarrow> gotime
     \<Rightarrow> (slidingWindowStore \<times> 'a Context_scheme) middleware" where
  "mw_RateLimit keyFunc secs secs_val now next w =
     (case w of (s, c) \<Rightarrow>
        (let key = keyFunc c; (ok, s1) = rl_Allow s now key
         in if \<not> ok
            then (case Context_JSON 429 (GMap [(''error'', GString ''rate limit exceeded''), (''retry_after'', secs_val (rl_window s))])
                         (setHeader ''Retry-After'' (secs (rl_window s)) c) of
                    (r, c1) \<Rightarrow> (r, (s1, c1)))
            else (let (rem, s2) = rl_Remaining s1 now key
                  in next (s2, setHeader ''X-RateLimit-Remaining'' (itoa rem) (setHeader ''X-RateLimit-Limit'' (itoa (rl_max s)) c)))))"

section \<open>Lemmas\<close>

definition rl_inv :: "slidingWindowStore \<Rightarrow> bool" where
  "rl_inv s = (distinct (map fst (rl_entries s)) \<and> distinct (map snd (rl_entries s))
     \<and> (\<forall>i \<in> snd ` set (rl_entries s). i < length (rl_objs s)))"

text \<open>The timestamps the store holds for a key.\<close>

definition rl_stamps :: "slidingWindowStore \<Rightarrow> string \<Rightarrow> gotime list" where
  "rl_stamps s key = (case map_of (rl_entries s) key of None \<Rightarrow> [] | Some i \<Rightarrow> rl_objs s ! i)"

lemma rl_inv_new [simp]: "rl_inv (newSlidingWindowStore mx window)"
  by (simp add: rl_inv_def newSlidingWindowStore_def)

lemma map_of_rl_bound: "rl_inv s \<Longrightarrow> map_of (rl_entries s) k = Some i \<Longrightarrow> i < length (rl_objs s)"
  by (force simp: rl_inv_def dest: map_of_SomeD)

lemma map_of_rl_inj:
  assumes "rl_inv s" and "map_of (rl_entries s) k = Some i" and "map_of (rl_entries s) k' = Some i"
  shows "k = k'"
proof -
  from assms(2,3) have "(k, i) \<in> set (rl_entries s)" "(k', i) \<in> set (rl_entries s)" by (auto dest: map_of_SomeD)
  moreover have "inj_on snd (set (rl_entries s))" using assms(1) by (simp add: rl_inv_def distinct_map)
  ultimately show ?thesis by (metis inj_onD prod.inject snd_conv)
qed

lemma update_fresh_key: "k \<notin> fst ` set m \<Longrightarrow> AList.update k v m = m @ [(k, v)]"
  by (induction m) auto

lemma getOrCreate_spec:
  assumes "rl_inv s" and "getOrCreate s key = (i, s1)"
  shows "rl_inv s1" and "map_of (rl_entries s1) key = Some i" and "rl_objs s1 ! i = rl_stamps s key"
    and "rl_stamps s1 k = rl_stamps s k" and "rl_max s1 = rl_max s" and "rl_window s1 = rl_window s"
proof -
  have all: "rl_inv s1 \<and> map_of (rl_entries s1) key = Some i \<and> rl_objs s1 ! i = rl_stamps s key
      \<and> rl_stamps s1 k = rl_stamps s k \<and> rl_max s1 = rl_max s \<and> rl_window s1 = rl_window s" for k
  proof (cases "map_of (rl_entries s) key")
    case None
    then have "key \<notin> fst ` set (rl_entries s)" by (simp add: map_of_eq_None_iff)
    moreover from None assms(2) have i: "i = length (rl_objs s)"
      and s1: "s1 = s\<lparr>rl_objs := rl_objs s @ [[]], rl_entries := AList.update key (length (rl_objs s)) (rl_entries s)\<rparr>"
      by (auto simp: getOrCreate_def)
    ultimately have "rl_inv s1" using assms(1) by (auto simp: rl_inv_def update_fresh_key less_Suc_eq)
    then show ?thesis using None assms(1) map_of_rl_bound [OF assms(1)]
      by (auto simp: i s1 rl_stamps_def nth_append split: option.splits)
  next
    case (Some j)
    then show ?thesis using assms by (auto simp: getOrCreate_def rl_stamps_def)
  qed
  then show "rl_inv s1" "map_of (rl_entries s1) key = Some i" "rl_objs s1 ! i = rl_stamps s key"
    "rl_stamps s1 k = rl_stamps s k" "rl_max s1 = rl_max s" "rl_window s1 = rl_window s" by blast+
qed

lemma Allow_spec:
  assumes "rl_inv s" and "rl_Allow s now key = (ok, s')"
  shows "ok \<longleftrightarrow> int (length (rl_valid s now (rl_stamps s key))) < rl_max s"
    and "rl_stamps s' k = (if k = key then rl_valid s now (rl_stamps s key) @ (if ok then [now] else []) else rl_stamps s k)"
    and "rl_inv s'" and "rl_max s' = rl_max s" and "rl_window s' = rl_window s"
proof -
  obtain i s1 where g: "getOrCreate s key = (i, s1)" by (cases "getOrCreate s key")
  note spec = getOrCreate_spec [OF assms(1) g]
  have v: "rl_valid s1 now = rl_valid s now" using spec(6) by (intro ext) (simp add: rl_valid_def)
  have i: "i < length (rl_objs s1)" using map_of_rl_bound [OF spec(1,2)] .
  have allow: "allow_entry s1 now i = (ok, s')" using assms(2) g by (simp add: rl_Allow_def)
  then show ok: "ok \<longleftrightarrow> int (length (rl_valid s now (rl_stamps s key))) < rl_max s"
    using spec(3,5) v by (auto simp: allow_entry_def Let_def split: if_splits)
  from allow ok have s': "s' = s1\<lparr>rl_objs := (rl_objs s1)[i := rl_valid s now (rl_stamps s key) @ (if ok then [now] else [])]\<rparr>"
    using spec(3,5) v by (auto simp: allow_entry_def Let_def split: if_splits)
  show "rl_inv s'" using spec(1) s' by (simp add: rl_inv_def)
  show "rl_max s' = rl_max s" "rl_window s' = rl_window s" using spec(5,6) s' by simp_all
  show "rl_stamps s' k = (if k = key then rl_valid s now (rl_stamps s key) @ (if ok then [now] else []) else rl_stamps s k)"
  proof (cases "k = key")
    case True
    then show ?thesis using s' spec(2) i by (simp add: rl_stamps_def)
  next
    case False
    have "map_of (rl_entries s1) k \<noteq> Some i" using map_of_rl_inj [OF spec(1) spec(2), of k] False by blast
    then have "rl_stamps s' k = rl_stamps s1 k" using s' by (auto simp: rl_stamps_def split: option.splits)
    with False spec(4) show ?thesis by simp
  qed
qed



section \<open>A sequence of requests\<close>












section \<open>Properties\<close>



text \<open>
  A request is admitted exactly when fewer than \<open>max\<close> admitted requests of its key lie in the window,
  its time is then recorded, and no other key is affected.
\<close>

theorem Allow_exact:
  assumes "rl_inv s" and "rl_Allow s now key = (ok, s')"
  shows "(ok \<longleftrightarrow> int (length (filter (\<lambda>t. t > now - rl_window s) (rl_stamps s key))) < rl_max s)
    \<and> rl_stamps s' k = (if k = key then filter (\<lambda>t. t > now - rl_window s) (rl_stamps s key) @ (if ok then [now] else []) else rl_stamps s k)"
  using Allow_spec(1,2) [OF assms] by (simp add: rl_valid_def)

theorem Allow_exact_witness:
  "fst (rl_Allow (newSlidingWindowStore 2 10) 5 ''ip'') = True"
  using Allow_exact [OF rl_inv_new, of 2 10 5 "''ip''" "fst (rl_Allow (newSlidingWindowStore 2 10) 5 ''ip'')"
      "snd (rl_Allow (newSlidingWindowStore 2 10) 5 ''ip'')" "''ip''"]
  by (simp add: rl_stamps_def newSlidingWindowStore_def)

text \<open>
  The bound does not survive one interleaving: a request that obtained its entry before a cleanup
  tick, which drops the still empty entry from the table, records its time in an object nobody will look
  up again; with a limit of one, two requests at the same time are admitted.
\<close>

theorem cleanup_race_admits_twice:
  "let (i, s1) = getOrCreate (newSlidingWindowStore 1 minute) ''ip'';
       s2 = rl_cleanup s1 7;
       (ok1, s3) = allow_entry s2 7 i;
       (ok2, s4) = rl_Allow s3 7 ''ip''
   in ok1 \<and> ok2"
  by code_simp

end
