(* ===== verification/Sql_Grammar.thy ===== *)
theory Sql_Grammar
  imports Oni_Prelude
begin

text \<open>
  Model of \<open>framework/database/grammar.go\<close>: the two SQL dialects. The interface \<open>Grammar\<close> has two
  implementations without state, so a value of it is the driver it belongs to. Quote characters are written
  by their code: 0x22 is the double quote, 0x60 the backquote.
\<close>

section \<open>Data\<close>

datatype Driver = DriverPostgres | DriverMySQL

record ColumnDef =
  cd_Name :: string
  cd_Type :: string
  cd_PrimaryKey :: bool
  cd_AutoIncr :: bool
  cd_Nullable :: bool
  cd_Unique :: bool
  cd_Default :: string
  cd_Length :: int
  cd_FKTable :: string
  cd_FKCol :: string
  cd_FKOnDelete :: string

abbreviation quoteChar :: "Driver \<Rightarrow> char" where
  "quoteChar g \<equiv> (case g of DriverPostgres \<Rightarrow> CHR 0x22 | DriverMySQL \<Rightarrow> CHR 0x60)"

text \<open>A name between quote characters as the DDL templates write it, without escaping.\<close>

definition rawQuoted :: "Driver \<Rightarrow> string \<Rightarrow> string" where
  "rawQuoted g s = quoteChar g # s @ [quoteChar g]"

section \<open>Fragments\<close>

fun Placeholder :: "Driver \<Rightarrow> int \<Rightarrow> string" where
  "Placeholder DriverPostgres n = (if n \<le> 0 then ''?'' else CHR ''$'' # itoa n)"
| "Placeholder DriverMySQL n = ''?''"

definition QuoteIdent :: "Driver \<Rightarrow> string \<Rightarrow> string" where
  "QuoteIdent g s = quoteChar g # ReplaceByte (quoteChar g) [quoteChar g, quoteChar g] s @ [quoteChar g]"

section \<open>Column types\<close>

definition varchar :: "int \<Rightarrow> string" where
  "varchar l = ''VARCHAR('' @ itoa (if l \<le> 0 then 255 else l) @ '')''"

definition pgType :: "ColumnDef \<Rightarrow> string" where
  "pgType c =
     (let t = cd_Type c
      in if t = ''string'' then varchar (cd_Length c)
         else if t = ''text'' then ''TEXT''
         else if t = ''int'' then ''INTEGER''
         else if t = ''bigint'' then ''BIGINT''
         else if t = ''bool'' then ''BOOLEAN''
         else if t = ''float'' then ''DOUBLE PRECISION''
         else if t = ''decimal'' then ''DECIMAL(10,2)''
         else if t = ''json'' \<or> t = ''jsonb'' then ''JSONB''
         else if t = ''time'' \<or> t = ''timestamp'' then ''TIMESTAMPTZ''
         else if t = ''date'' then ''DATE''
         else if t = ''uuid'' then ''UUID''
         else if t = ''binary'' \<or> t = ''blob'' then ''BYTEA''
         else ToUpper t)"

definition myType :: "ColumnDef \<Rightarrow> string" where
  "myType c =
     (let t = cd_Type c
      in if t = ''string'' then varchar (cd_Length c)
         else if t = ''text'' then ''TEXT''
         else if t = ''int'' then ''INT''
         else if t = ''bigint'' then ''BIGINT''
         else if t = ''bool'' then ''TINYINT(1)''
         else if t = ''float'' then ''DOUBLE''
         else if t = ''decimal'' then ''DECIMAL(10,2)''
         else if t = ''json'' \<or> t = ''jsonb'' then ''JSON''
         else if t = ''time'' \<or> t = ''timestamp'' then ''DATETIME''
         else if t = ''date'' then ''DATE''
         else if t = ''uuid'' then ''VARCHAR(36)''
         else if t = ''binary'' \<or> t = ''blob'' then ''BLOB''
         else ToUpper t)"

definition pgColumnDef :: "ColumnDef \<Rightarrow> string" where
  "pgColumnDef c =
     rawQuoted DriverPostgres (cd_Name c) @ '' ''
     @ (if cd_AutoIncr c then ''BIGSERIAL'' else pgType c)
     @ (if \<not> cd_Nullable c then '' NOT NULL'' else [])
     @ (if cd_Unique c then '' UNIQUE'' else [])
     @ (if cd_Default c \<noteq> [] then '' DEFAULT '' @ cd_Default c else [])
     @ (if cd_FKTable c \<noteq> []
        then '' REFERENCES '' @ rawQuoted DriverPostgres (cd_FKTable c) @ ''('' @ rawQuoted DriverPostgres (cd_FKCol c) @ '')''
             @ (if cd_FKOnDelete c \<noteq> [] then '' ON DELETE '' @ cd_FKOnDelete c else [])
        else [])"

definition myColumnDef :: "ColumnDef \<Rightarrow> string" where
  "myColumnDef c =
     rawQuoted DriverMySQL (cd_Name c) @ '' '' @ myType c
     @ (if cd_AutoIncr c then '' AUTO_INCREMENT'' else [])
     @ (if \<not> cd_Nullable c then '' NOT NULL'' else [])
     @ (if cd_Unique c then '' UNIQUE'' else [])
     @ (if cd_Default c \<noteq> [] then '' DEFAULT '' @ cd_Default c else [])"

section \<open>Statements\<close>

fun DropTableSQL :: "Driver \<Rightarrow> string \<Rightarrow> string" where
  "DropTableSQL DriverPostgres table = ''DROP TABLE IF EXISTS '' @ rawQuoted DriverPostgres table @ '' CASCADE''"
| "DropTableSQL DriverMySQL table = ''DROP TABLE IF EXISTS '' @ rawQuoted DriverMySQL table"

definition columnDef :: "Driver \<Rightarrow> ColumnDef \<Rightarrow> string" where
  "columnDef g c = (case g of DriverPostgres \<Rightarrow> pgColumnDef c | DriverMySQL \<Rightarrow> myColumnDef c)"

definition CreateTableSQL :: "Driver \<Rightarrow> string \<Rightarrow> ColumnDef list \<Rightarrow> string" where
  "CreateTableSQL g table cols =
     (let pks = map (\<lambda>c. rawQuoted g (cd_Name c)) (filter cd_PrimaryKey cols);
          lines = map (\<lambda>c. ''  '' @ columnDef g c) cols
                  @ (if pks \<noteq> [] then [''  PRIMARY KEY ('' @ Join '', '' pks @ '')''] else [])
      in ''CREATE TABLE IF NOT EXISTS '' @ rawQuoted g table @ '' ('' @ [CHR 0x0A] @ Join ('','' @ [CHR 0x0A]) lines @ [CHR 0x0A] @ '')''
         @ (case g of DriverPostgres \<Rightarrow> [] | DriverMySQL \<Rightarrow> '' ENGINE=InnoDB DEFAULT CHARSET=utf8mb4 COLLATE=utf8mb4_unicode_ci''))"

definition AddColumnSQL :: "Driver \<Rightarrow> string \<Rightarrow> ColumnDef \<Rightarrow> string" where
  "AddColumnSQL g table c = ''ALTER TABLE '' @ rawQuoted g table @ '' ADD COLUMN '' @ columnDef g c"

fun DropColumnSQL :: "Driver \<Rightarrow> string \<Rightarrow> string \<Rightarrow> string" where
  "DropColumnSQL DriverPostgres table c =
     ''ALTER TABLE '' @ rawQuoted DriverPostgres table @ '' DROP COLUMN IF EXISTS '' @ rawQuoted DriverPostgres c"
| "DropColumnSQL DriverMySQL table c = ''ALTER TABLE '' @ rawQuoted DriverMySQL table @ '' DROP COLUMN '' @ rawQuoted DriverMySQL c"

definition AddIndexSQL :: "Driver \<Rightarrow> string \<Rightarrow> string list \<Rightarrow> bool \<Rightarrow> string" where
  "AddIndexSQL g table cols unique =
     (let name = ''idx_'' @ table @ ''_'' @ Join ''_'' cols
      in ''CREATE '' @ (if unique then ''UNIQUE '' else []) @ ''INDEX ''
         @ (case g of DriverPostgres \<Rightarrow> ''IF NOT EXISTS '' | DriverMySQL \<Rightarrow> [])
         @ rawQuoted g name @ '' ON '' @ rawQuoted g table @ '' ('' @ Join '', '' (map (rawQuoted g) cols) @ '')'')"

section \<open>Quoting\<close>

text \<open>
  How SQL reads a quoted identifier: after the opening quote, a doubled quote stands for one quote and a
  single one ends the identifier.
\<close>

fun readIdent :: "char \<Rightarrow> string \<Rightarrow> (string \<times> string) option" where
  "readIdent q [] = None"
| "readIdent q (c # s) =
     (if c \<noteq> q then map_option (\<lambda>(w, r). (c # w, r)) (readIdent q s)
      else case s of
             [] \<Rightarrow> Some ([], [])
           | d # s' \<Rightarrow> if d = q then map_option (\<lambda>(w, r). (q # w, r)) (readIdent q s') else Some ([], s))"

lemma readIdent_quoted:
  "r = [] \<or> hd r \<noteq> q \<Longrightarrow> readIdent q (ReplaceByte q [q, q] s @ q # r) = Some (s, r)"
proof (induction s)
  case Nil
  then show ?case by (cases r) auto
next
  case (Cons c s)
  then show ?case by (auto simp: ReplaceByte_Cons)
qed

text \<open>
  Quoting an identifier is safe for any name: an SQL reader that meets the quoted text reads back
  exactly that name and goes on with what follows, so no name can leave its quotes.
\<close>

theorem QuoteIdent_roundtrip:
  assumes "rest = [] \<or> hd rest \<noteq> quoteChar g"
  shows "\<exists>body. QuoteIdent g s @ rest = quoteChar g # body \<and> readIdent (quoteChar g) body = Some (s, rest)"
  using readIdent_quoted [OF assms, of s] by (simp add: QuoteIdent_def)

theorem QuoteIdent_roundtrip_witness:
  "\<exists>body. QuoteIdent DriverPostgres (''x'' @ [CHR 0x22] @ ''; DROP'') @ '' = 1'' = CHR 0x22 # body
    \<and> readIdent (CHR 0x22) body = Some (''x'' @ [CHR 0x22] @ ''; DROP'', '' = 1'')"
  using QuoteIdent_roundtrip [of "'' = 1''" DriverPostgres "''x'' @ [CHR 0x22] @ ''; DROP''"] by simp

end
