(* ===== verification/Sql_Builder.thy ===== *)
theory Sql_Builder
  imports Sql_Grammar "HOL-Library.Signed_Division"
begin

text \<open>
  Model of \<open>framework/database/builder.go\<close> and of \<open>Table\<close>, \<open>Raw\<close> and \<open>Transaction\<close> in \<open>db.go\<close>: the query
  builder as a record that the fluent methods update, the assembly of SQL text with its arguments, and the
  terminal methods. The pool of builders is not modelled: \<open>Table\<close> and \<open>Raw\<close> reset what they take from it.

  The database behind \<open>database/sql\<close> is a record of functions on a server state; a call says whether it goes
  through the transaction. Scanning rows into Go values, model hooks and eager loading are reflection or
  user code: terminal methods return the raw rows. Formatted times are arguments.
\<close>

section \<open>Data\<close>

datatype sql_error =
    UnsafeSelect string | UnsafeOrderBy string | UnsafeGroupBy string | UnsafePluck string
  | UpdateWithoutWhere | DeleteWithoutWhere | ErrNotFound | InsertNoColumns | InsertOfMap | SaveNoPrimaryKey | SaveNoColumns
  | DriverError string

record whereClause =
  wc_clause :: string
  wc_args :: "gval list"
  wc_or :: bool

record DB =
  db_driver :: Driver
  db_tx :: bool \<comment> \<open>whether the handle belongs to a transaction\<close>
  db_txDepth :: nat

record Builder =
  b_db :: DB
  b_table :: string
  b_wheres :: "whereClause list"
  b_selects :: "string list"
  b_orderBys :: "string list"
  b_limit :: i64
  b_offset :: i64
  b_joins :: "string list"
  b_groupBys :: "string list"
  b_having :: string
  b_havingArgs :: "gval list"
  b_withs :: "string list"
  b_rawSQL :: string
  b_rawArgs :: "gval list"
  b_withTrashed :: bool
  b_softDelete :: bool
  b_err :: "sql_error option"

abbreviation b_driver :: "Builder \<Rightarrow> Driver" where
  "b_driver b \<equiv> db_driver (b_db b)"

section \<open>Identifier sanitization\<close>

definition isLetter :: "char \<Rightarrow> bool" where
  "isLetter c = (c = CHR ''_'' \<or> between (CHR ''a'') (CHR ''z'') c \<or> between (CHR ''A'') (CHR ''Z'') c)"

fun ident_loop :: "nat \<Rightarrow> string \<Rightarrow> bool" where
  "ident_loop i [] = True"
| "ident_loop i (c # s) =
     (if isLetter c then ident_loop (i + 1) s
      else if i > 0 \<and> between (CHR ''0'') (CHR ''9'') c then ident_loop (i + 1) s
      else False)"

definition isSafeIdentSegment :: "string \<Rightarrow> bool" where
  "isSafeIdentSegment s = (if s = [] then False else ident_loop 0 s)"

fun column_parts :: "Driver \<Rightarrow> string list \<Rightarrow> string list option" where
  "column_parts g [] = Some []"
| "column_parts g (p0 # ps) =
     (let p = TrimSpace p0
      in if p = ''*'' \<and> ps = [] then Some [''*'']
         else if \<not> isSafeIdentSegment p then None
         else map_option (\<lambda>out. QuoteIdent g p # out) (column_parts g ps))"

definition quoteColumnRef :: "Driver \<Rightarrow> string \<Rightarrow> string option" where
  "quoteColumnRef g s0 =
     (let s = TrimSpace s0
      in if s = ''*'' then Some ''*''
         else let parts = SplitOn CHR ''.'' s
              in if length parts > 2 then None else map_option (Join ''.'') (column_parts g parts))"

definition quoteSelectExpr :: "Driver \<Rightarrow> string \<Rightarrow> string option" where
  "quoteSelectExpr g s =
     (case Fields (TrimSpace s) of
        [c] \<Rightarrow> quoteColumnRef g c
      | [c, al] \<Rightarrow>
          (case quoteColumnRef g c of
             None \<Rightarrow> None
           | Some col \<Rightarrow> if \<not> isSafeIdentSegment al then None else Some (col @ '' AS '' @ QuoteIdent g al))
      | [c, as, al] \<Rightarrow>
          if \<not> EqualFold as ''AS'' then None
          else (case quoteColumnRef g c of
                  None \<Rightarrow> None
                | Some col \<Rightarrow> if \<not> isSafeIdentSegment al then None else Some (col @ '' AS '' @ QuoteIdent g al))
      | _ \<Rightarrow> None)"

text \<open>One term of an order clause: the tokens after the column are the direction and the place of nulls.\<close>

definition order_nulls :: "string \<Rightarrow> string list \<Rightarrow> string option" where
  "order_nulls seg toks =
     (case toks of
        [] \<Rightarrow> Some seg
      | [_] \<Rightarrow> None
      | n # w # rest \<Rightarrow>
          if \<not> EqualFold n ''NULLS'' then None
          else let nl = ToUpper w
               in if nl \<noteq> ''FIRST'' \<and> nl \<noteq> ''LAST'' then None
                  else if rest \<noteq> [] then None else Some (seg @ '' NULLS '' @ nl))"

definition order_term :: "Driver \<Rightarrow> string \<Rightarrow> string option" where
  "order_term g part =
     (case Fields part of
        [] \<Rightarrow> None
      | c # toks \<Rightarrow>
          (case quoteColumnRef g c of
             None \<Rightarrow> None
           | Some col \<Rightarrow>
               (case toks of
                  [] \<Rightarrow> Some col
                | t # toks' \<Rightarrow>
                    let d = ToUpper t
                    in if d \<noteq> ''ASC'' \<and> d \<noteq> ''DESC'' then None else order_nulls (col @ '' '' @ d) toks')))"

fun order_terms :: "Driver \<Rightarrow> string list \<Rightarrow> string list option" where
  "order_terms g [] = Some []"
| "order_terms g (p # ps) =
     (case order_term g p of None \<Rightarrow> None | Some seg \<Rightarrow> map_option (\<lambda>out. seg # out) (order_terms g ps))"

definition sanitizeOrderBy :: "Driver \<Rightarrow> string \<Rightarrow> string option" where
  "sanitizeOrderBy g clause = map_option (Join '', '') (order_terms g (SplitOn CHR '','' clause))"

section \<open>Building a query\<close>

definition Builder_reset :: "DB \<Rightarrow> Builder" where
  "Builder_reset db =
     \<lparr>b_db = db, b_table = [], b_wheres = [], b_selects = [], b_orderBys = [], b_limit = 0, b_offset = 0, b_joins = [],
      b_groupBys = [], b_having = [], b_havingArgs = [], b_withs = [], b_rawSQL = [], b_rawArgs = [], b_withTrashed = False,
      b_softDelete = False, b_err = None\<rparr>"

definition DB_Table :: "DB \<Rightarrow> string \<Rightarrow> Builder" where
  "DB_Table db table = (Builder_reset db)\<lparr>b_table := table\<rparr>"

definition DB_Raw :: "DB \<Rightarrow> string \<Rightarrow> gval list \<Rightarrow> Builder" where
  "DB_Raw db sql args = (Builder_reset db)\<lparr>b_rawSQL := sql, b_rawArgs := args\<rparr>"

definition setErr :: "sql_error \<Rightarrow> Builder \<Rightarrow> Builder" where
  "setErr e b = (if b_err b = None then b\<lparr>b_err := Some e\<rparr> else b)"

fun Builder_Select :: "string list \<Rightarrow> Builder \<Rightarrow> Builder" where
  "Builder_Select [] b = b"
| "Builder_Select (c # cols) b =
     Builder_Select cols
       (case quoteSelectExpr (b_driver b) c of
          None \<Rightarrow> setErr (UnsafeSelect c) b
        | Some q \<Rightarrow> b\<lparr>b_selects := b_selects b @ [q]\<rparr>)"

definition SelectRaw :: "string \<Rightarrow> Builder \<Rightarrow> Builder" where
  "SelectRaw expr b = b\<lparr>b_selects := b_selects b @ [expr]\<rparr>"

definition Where :: "string \<Rightarrow> gval list \<Rightarrow> Builder \<Rightarrow> Builder" where
  "Where clause args b = b\<lparr>b_wheres := b_wheres b @ [\<lparr>wc_clause = clause, wc_args = args, wc_or = False\<rparr>]\<rparr>"

definition OrWhere :: "string \<Rightarrow> gval list \<Rightarrow> Builder \<Rightarrow> Builder" where
  "OrWhere clause args b = b\<lparr>b_wheres := b_wheres b @ [\<lparr>wc_clause = clause, wc_args = args, wc_or = True\<rparr>]\<rparr>"

definition WhereIn :: "string \<Rightarrow> gval list \<Rightarrow> Builder \<Rightarrow> Builder" where
  "WhereIn col values b =
     (if values = [] then Where ''1=0'' [] b
      else Where (QuoteIdent (b_driver b) col @ '' IN ('' @ Join '','' (map (\<lambda>_. ''?'') values) @ '')'') values b)"

definition WhereNotIn :: "string \<Rightarrow> gval list \<Rightarrow> Builder \<Rightarrow> Builder" where
  "WhereNotIn col values b =
     (if values = [] then b
      else Where (QuoteIdent (b_driver b) col @ '' NOT IN ('' @ Join '','' (map (\<lambda>_. ''?'') values) @ '')'') values b)"

definition WhereNull :: "string \<Rightarrow> Builder \<Rightarrow> Builder" where
  "WhereNull col b = Where (QuoteIdent (b_driver b) col @ '' IS NULL'') [] b"

definition WhereNotNull :: "string \<Rightarrow> Builder \<Rightarrow> Builder" where
  "WhereNotNull col b = Where (QuoteIdent (b_driver b) col @ '' IS NOT NULL'') [] b"

definition WhereRaw :: "string \<Rightarrow> gval list \<Rightarrow> Builder \<Rightarrow> Builder" where
  "WhereRaw clause args b = Where clause args b"

definition OrderBy :: "string \<Rightarrow> Builder \<Rightarrow> Builder" where
  "OrderBy clause b =
     (case sanitizeOrderBy (b_driver b) clause of
        None \<Rightarrow> setErr (UnsafeOrderBy clause) b
      | Some q \<Rightarrow> b\<lparr>b_orderBys := b_orderBys b @ [q]\<rparr>)"

definition OrderByRaw :: "string \<Rightarrow> Builder \<Rightarrow> Builder" where
  "OrderByRaw clause b = b\<lparr>b_orderBys := b_orderBys b @ [clause]\<rparr>"

definition Builder_Limit :: "i64 \<Rightarrow> Builder \<Rightarrow> Builder" where
  "Builder_Limit n b = b\<lparr>b_limit := n\<rparr>"

definition Builder_Offset :: "i64 \<Rightarrow> Builder \<Rightarrow> Builder" where
  "Builder_Offset n b = b\<lparr>b_offset := n\<rparr>"

definition Builder_Join :: "string \<Rightarrow> Builder \<Rightarrow> Builder" where
  "Builder_Join clause b = b\<lparr>b_joins := b_joins b @ [''JOIN '' @ clause]\<rparr>"

definition LeftJoin :: "string \<Rightarrow> Builder \<Rightarrow> Builder" where
  "LeftJoin clause b = b\<lparr>b_joins := b_joins b @ [''LEFT JOIN '' @ clause]\<rparr>"

fun GroupBy :: "string list \<Rightarrow> Builder \<Rightarrow> Builder" where
  "GroupBy [] b = b"
| "GroupBy (c # cols) b =
     GroupBy cols
       (case quoteColumnRef (b_driver b) c of
          None \<Rightarrow> setErr (UnsafeGroupBy c) b
        | Some q \<Rightarrow> b\<lparr>b_groupBys := b_groupBys b @ [q]\<rparr>)"

definition GroupByRaw :: "string \<Rightarrow> Builder \<Rightarrow> Builder" where
  "GroupByRaw expr b = b\<lparr>b_groupBys := b_groupBys b @ [expr]\<rparr>"

definition Having :: "string \<Rightarrow> gval list \<Rightarrow> Builder \<Rightarrow> Builder" where
  "Having clause args b = b\<lparr>b_having := clause, b_havingArgs := args\<rparr>"

definition With :: "string list \<Rightarrow> Builder \<Rightarrow> Builder" where
  "With relations b = b\<lparr>b_withs := b_withs b @ relations\<rparr>"

definition WithTrashed :: "Builder \<Rightarrow> Builder" where
  "WithTrashed b = b\<lparr>b_withTrashed := True\<rparr>"

definition SoftDelete :: "Builder \<Rightarrow> Builder" where
  "SoftDelete b = b\<lparr>b_softDelete := True\<rparr>"

section \<open>SQL assembly\<close>

definition where_part :: "nat \<Rightarrow> whereClause \<Rightarrow> string" where
  "where_part i w =
     (let clause = ''('' @ wc_clause w @ '')''
      in if i > 0 then (if wc_or w then ''OR '' @ clause else ''AND '' @ clause) else clause)"

definition buildWhere :: "Builder \<Rightarrow> string \<times> gval list" where
  "buildWhere b =
     (if b_wheres b = [] then ([], [])
      else (Join '' '' (map (\<lambda>(i, w). where_part i w) (enumerate 0 (b_wheres b))), concat (map wc_args (b_wheres b))))"

definition buildSelect :: "Builder \<Rightarrow> string \<times> gval list" where
  "buildSelect b =
     (if b_rawSQL b \<noteq> [] then (b_rawSQL b, b_rawArgs b)
      else
       (let (wh, wArgs) = buildWhere b;
            sdClause = (if b_softDelete b \<and> \<not> b_withTrashed b then QuoteIdent (b_driver b) ''deleted_at'' @ '' IS NULL'' else []);
            hasWhere = (wh \<noteq> [] \<or> sdClause \<noteq> [])
        in (''SELECT '' @ (if b_selects b \<noteq> [] then Join '', '' (b_selects b) else ''*'')
            @ '' FROM '' @ QuoteIdent (b_driver b) (b_table b)
            @ concat (map (\<lambda>j. '' '' @ j) (b_joins b))
            @ (if hasWhere
               then '' WHERE '' @ (if sdClause \<noteq> [] \<and> wh \<noteq> [] then sdClause @ '' AND ('' @ wh @ '')''
                                   else if sdClause \<noteq> [] then sdClause else wh)
               else [])
            @ (if b_groupBys b \<noteq> [] then '' GROUP BY '' @ Join '', '' (b_groupBys b) else [])
            @ (if b_having b \<noteq> [] then '' HAVING '' @ b_having b else [])
            @ (if b_orderBys b \<noteq> [] then '' ORDER BY '' @ Join '', '' (b_orderBys b) else [])
            @ (if sint (b_limit b) > 0 then '' LIMIT '' @ itoa (sint (b_limit b)) else [])
            @ (if sint (b_offset b) > 0 then '' OFFSET '' @ itoa (sint (b_offset b)) else []),
            (if hasWhere then wArgs else []) @ (if b_having b \<noteq> [] then b_havingArgs b else []))))"

definition buildCount :: "Builder \<Rightarrow> string \<times> gval list" where
  "buildCount b =
     (if b_groupBys b \<noteq> []
      then (case buildSelect (b\<lparr>b_selects := [''1''], b_orderBys := [], b_limit := 0, b_offset := 0\<rparr>) of
              (inner, args) \<Rightarrow> (''SELECT COUNT(*) FROM ('' @ inner @ '') AS _oni_count'', args))
      else buildSelect (b\<lparr>b_selects := [''COUNT(*)'']\<rparr>))"

definition buildInsert :: "Builder \<Rightarrow> string list \<Rightarrow> gval list \<Rightarrow> string \<times> gval list" where
  "buildInsert b cols vals =
     (''INSERT INTO '' @ QuoteIdent (b_driver b) (b_table b) @ '' ('' @ Join '', '' (map (QuoteIdent (b_driver b)) cols)
        @ '') VALUES ('' @ Join '', '' (map (\<lambda>_. ''?'') cols) @ '')'', vals)"

definition buildUpdate :: "Builder \<Rightarrow> string list \<Rightarrow> gval list \<Rightarrow> string \<times> gval list" where
  "buildUpdate b cols vals =
     (let (wh, wArgs) = buildWhere b
      in (''UPDATE '' @ QuoteIdent (b_driver b) (b_table b) @ '' SET ''
            @ Join '', '' (map (\<lambda>c. QuoteIdent (b_driver b) c @ '' = ?'') cols) @ (if wh \<noteq> [] then '' WHERE '' @ wh else []),
          vals @ wArgs))"

definition buildDelete :: "Builder \<Rightarrow> string \<times> gval list" where
  "buildDelete b =
     (let (wh, wArgs) = buildWhere b
      in (''DELETE FROM '' @ QuoteIdent (b_driver b) (b_table b) @ (if wh \<noteq> [] then '' WHERE '' @ wh else []), wArgs))"

definition buildDeleteStmt :: "string \<Rightarrow> Builder \<Rightarrow> string \<times> gval list" where
  "buildDeleteStmt now b = (if b_softDelete b then buildUpdate b [''deleted_at''] [GString now] else buildDelete b)"

function normalize_loop :: "nat \<Rightarrow> string \<Rightarrow> string" where
  "normalize_loop n q =
     (if q = [] then []
      else if hd q = CHR ''?'' then CHR ''$'' # itoa (int (n + 1)) @ normalize_loop (n + 1) (tl q)
      else fst (firstRune q) @ normalize_loop n (snd (firstRune q)))"
  by pat_completeness auto
termination by (relation "measure (\<lambda>(n, q). length q)") (auto simp: firstRune_shrinks)

declare normalize_loop.simps [simp del]

definition normalizePlaceholders :: "DB \<Rightarrow> string \<times> gval list \<Rightarrow> string \<times> gval list" where
  "normalizePlaceholders db qa =
     (if db_driver db \<noteq> DriverPostgres then qa else (normalize_loop 0 (fst qa), snd qa))"

section \<open>What the sanitizers let through\<close>

lemma ident_loop_chars: "ident_loop i s \<Longrightarrow> c \<in> set s \<Longrightarrow> isLetter c \<or> between (CHR ''0'') (CHR ''9'') c"
  by (induction i s rule: ident_loop.induct) (auto split: if_splits)

lemma quote_not_ident: "\<not> isLetter (quoteChar g)" "\<not> between (CHR ''0'') (CHR ''9'') (quoteChar g)"
  by (cases g; simp add: isLetter_def between_def less_eq_char_def)+

lemma QuoteIdent_safe:
  assumes "isSafeIdentSegment s"
  shows "QuoteIdent g s = rawQuoted g s"
proof -
  have "quoteChar g \<notin> set s"
    using assms ident_loop_chars [of 0 s "quoteChar g"] quote_not_ident [of g] by (auto simp: isSafeIdentSegment_def split: if_splits)
  then show ?thesis by (simp add: QuoteIdent_def rawQuoted_def ReplaceByte_id)
qed

text \<open>Column references, select items and order clauses made of safe identifiers between quotes.\<close>

inductive safe_ref :: "Driver \<Rightarrow> string \<Rightarrow> bool" for g where
  safe_star: "safe_ref g ''*''"
| safe_col: "isSafeIdentSegment c \<Longrightarrow> safe_ref g (rawQuoted g c)"
| safe_table_col: "isSafeIdentSegment t \<Longrightarrow> isSafeIdentSegment c \<Longrightarrow> safe_ref g (rawQuoted g t @ ''.'' @ rawQuoted g c)"
| safe_table_star: "isSafeIdentSegment t \<Longrightarrow> safe_ref g (rawQuoted g t @ ''.*'')"

definition safe_select :: "Driver \<Rightarrow> string \<Rightarrow> bool" where
  "safe_select g q \<longleftrightarrow> safe_ref g q \<or> (\<exists>r al. safe_ref g r \<and> isSafeIdentSegment al \<and> q = r @ '' AS '' @ rawQuoted g al)"

definition safe_order_term :: "Driver \<Rightarrow> string \<Rightarrow> bool" where
  "safe_order_term g q \<longleftrightarrow> (\<exists>r d n. safe_ref g r \<and> q = r @ d @ n \<and> d \<in> {[], '' ASC'', '' DESC''} \<and> n \<in> {[], '' NULLS FIRST'', '' NULLS LAST''})"

definition safe_order :: "Driver \<Rightarrow> string \<Rightarrow> bool" where
  "safe_order g q \<longleftrightarrow> (\<exists>ts. ts \<noteq> [] \<and> q = Join '', '' ts \<and> list_all (safe_order_term g) ts)"

lemma column_parts_1: "column_parts g [p] = Some out \<Longrightarrow> \<exists>q. out = [q] \<and> safe_ref g q"
  by (auto simp: Let_def QuoteIdent_safe intro: safe_ref.intros split: if_splits)

lemma column_parts_2: "column_parts g [p, r] = Some out \<Longrightarrow> safe_ref g (Join ''.'' out)"
  using safe_table_star [of "TrimSpace p" g] safe_table_col [of "TrimSpace p" "TrimSpace r" g]
  by (auto simp: Let_def QuoteIdent_safe split: if_splits)

lemma quoteColumnRef_safe:
  assumes "quoteColumnRef g s = Some q"
  shows "safe_ref g q"
proof (cases "TrimSpace s = ''*''")
  case True
  with assms have "q = ''*''" by (simp add: quoteColumnRef_def)
  then show ?thesis by (simp only: safe_star)
next
  case False
  let ?ps = "SplitOn CHR ''.'' (TrimSpace s)"
  from False assms obtain out where out: "length ?ps \<le> 2" "column_parts g ?ps = Some out" "q = Join ''.'' out"
    by (auto simp: quoteColumnRef_def Let_def split: if_splits)
  then consider p where "?ps = [p]" | p r where "?ps = [p, r]"
    using SplitOn_ne [of "CHR ''.''" "TrimSpace s"] by (cases ?ps; cases "tl ?ps") auto
  then show ?thesis using out column_parts_1 [of g] column_parts_2 [of g] by cases fastforce+
qed

lemma quoteSelectExpr_safe: "quoteSelectExpr g s = Some q \<Longrightarrow> safe_select g q"
  by (fastforce simp: quoteSelectExpr_def safe_select_def QuoteIdent_safe
        dest: quoteColumnRef_safe split: list.splits option.splits if_splits)

lemma order_nulls_safe:
  "order_nulls seg toks = Some q \<Longrightarrow> \<exists>n. q = seg @ n \<and> n \<in> {[], '' NULLS FIRST'', '' NULLS LAST''}"
  by (auto simp: order_nulls_def Let_def split: list.splits if_splits)

lemma order_term_safe:
  assumes "order_term g p = Some q"
  shows "safe_order_term g q"
proof -
  from assms obtain c toks col where c: "Fields p = c # toks" "quoteColumnRef g c = Some col"
    by (auto simp: order_term_def split: list.splits option.splits)
  show ?thesis
  proof (cases toks)
    case Nil
    with assms c have "q = col @ [] @ []" by (simp add: order_term_def)
    with quoteColumnRef_safe [OF c(2)] show ?thesis unfolding safe_order_term_def by blast
  next
    case (Cons t toks')
    with assms c have d: "ToUpper t = ''ASC'' \<or> ToUpper t = ''DESC''" "order_nulls (col @ '' '' @ ToUpper t) toks' = Some q"
      by (auto simp: order_term_def Let_def split: if_splits)
    from order_nulls_safe [OF d(2)] obtain n where "q = (col @ '' '' @ ToUpper t) @ n" "n \<in> {[], '' NULLS FIRST'', '' NULLS LAST''}"
      by blast
    moreover from d(1) have "'' '' @ ToUpper t \<in> {[], '' ASC'', '' DESC''}" by auto
    ultimately show ?thesis using quoteColumnRef_safe [OF c(2)] unfolding safe_order_term_def
      by (intro exI [of _ col] exI [of _ "'' '' @ ToUpper t"] exI [of _ n]) simp
  qed
qed

lemma order_terms_safe: "order_terms g ps = Some out \<Longrightarrow> list_all (safe_order_term g) out \<and> length out = length ps"
  by (induction ps arbitrary: out) (auto split: option.splits dest: order_term_safe)

lemma sanitizeOrderBy_safe:
  assumes "sanitizeOrderBy g clause = Some q"
  shows "safe_order g q"
proof -
  from assms obtain out where "order_terms g (SplitOn CHR '','' clause) = Some out" "q = Join '', '' out"
    by (auto simp: sanitizeOrderBy_def)
  with order_terms_safe [OF this(1)] show ?thesis
    unfolding safe_order_def using SplitOn_ne [of "CHR '',''" clause] by (metis length_0_conv)
qed

end
