(* ===== verification/Sql_Exec.thy ===== *)
theory Sql_Exec
  imports Sql_Builder
begin

text \<open>
  The terminal methods of \<open>framework/database/builder.go\<close> and the transactions of \<open>db.go\<close>, on a database
  server given as a record of functions (\<open>database/sql\<close> and the driver behind it). Every call carries a flag
  that says whether it goes through the transaction of the handle or through the connection pool.

  \<open>scan\<close> arguments stand for the reflection that turns rows into Go values, \<open>before\<close> and \<open>after\<close> arguments for
  the model's hooks. Builders are consumed by terminal methods and are not returned.
\<close>

section \<open>Data\<close>

record sql_rows =
  rw_cols :: "string list"
  rw_rows :: "gval list list"
  rw_err :: "string option"
  rw_close :: "string option"

record 'd sql_server =
  sv_query :: "bool \<Rightarrow> string \<Rightarrow> gval list \<Rightarrow> 'd \<Rightarrow> (string + sql_rows) \<times> 'd"
  sv_exec :: "bool \<Rightarrow> string \<Rightarrow> gval list \<Rightarrow> 'd \<Rightarrow> (string + i64) \<times> 'd" \<comment> \<open>with the last insert ID\<close>
  sv_begin :: "'d \<Rightarrow> string option \<times> 'd"
  sv_commit :: "'d \<Rightarrow> string option \<times> 'd"
  sv_rollback :: "'d \<Rightarrow> string option \<times> 'd"

record 'm Page =
  pg_Items :: "'m list"
  pg_Total :: i64
  pg_PerPage :: i64
  pg_CurrentPage :: i64
  pg_LastPage :: i64
  pg_From :: i64
  pg_To :: i64

record model_info =
  mi_cols :: "string list"
  mi_vals :: "gval list"
  mi_autoID :: bool
  mi_pkCol :: string
  mi_pkVal :: gval

datatype tx_result = TxOk | TxErr sql_error | TxPanic string

definition queryContext :: "'d sql_server \<Rightarrow> DB \<Rightarrow> string \<times> gval list \<Rightarrow> 'd \<Rightarrow> (string + sql_rows) \<times> 'd" where
  "queryContext sv db qa d = sv_query sv (db_tx db) (fst qa) (snd qa) d"

definition execContext :: "'d sql_server \<Rightarrow> DB \<Rightarrow> string \<times> gval list \<Rightarrow> 'd \<Rightarrow> (string + i64) \<times> 'd" where
  "execContext sv db qa d = sv_exec sv (db_tx db) (fst qa) (snd qa) d"

text \<open>Normalise, execute, and keep only the error.\<close>

definition exec_stmt :: "'d sql_server \<Rightarrow> DB \<Rightarrow> string \<times> gval list \<Rightarrow> 'd \<Rightarrow> sql_error option \<times> 'd" where
  "exec_stmt sv db qa d =
     (case execContext sv db (normalizePlaceholders db qa) d of
        (Inl e, d1) \<Rightarrow> (Some (DriverError e), d1)
      | (Inr _, d1) \<Rightarrow> (None, d1))"

section \<open>Reading\<close>

definition Builder_First ::
  "'d sql_server \<Rightarrow> (gval list \<Rightarrow> string + 'm) \<Rightarrow> Builder \<Rightarrow> 'd \<Rightarrow> (sql_error + 'm) \<times> 'd" where
  "Builder_First sv scan b d =
     (case b_err b of
        Some e \<Rightarrow> (Inl e, d)
      | None \<Rightarrow>
          (case queryContext sv (b_db b) (normalizePlaceholders (b_db b) (buildSelect (b\<lparr>b_limit := 1\<rparr>))) d of
             (Inl e, d1) \<Rightarrow> (Inl (DriverError e), d1)
           | (Inr rows, d1) \<Rightarrow>
               (case rw_rows rows of
                  [] \<Rightarrow> (Inl (case rw_err rows of Some e \<Rightarrow> DriverError e | None \<Rightarrow> ErrNotFound), d1)
                | row # _ \<Rightarrow>
                    (case scan row of
                       Inl e \<Rightarrow> (Inl (DriverError e), d1)
                     | Inr m \<Rightarrow> (case rw_close rows of Some e \<Rightarrow> (Inl (DriverError e), d1) | None \<Rightarrow> (Inr m, d1))))))"

definition Builder_All ::
  "'d sql_server \<Rightarrow> (sql_rows \<Rightarrow> string + 'm list) \<Rightarrow> Builder \<Rightarrow> 'd \<Rightarrow> (sql_error + 'm list) \<times> 'd" where
  "Builder_All sv scan b d =
     (case b_err b of
        Some e \<Rightarrow> (Inl e, d)
      | None \<Rightarrow>
          (case queryContext sv (b_db b) (normalizePlaceholders (b_db b) (buildSelect b)) d of
             (Inl e, d1) \<Rightarrow> (Inl (DriverError e), d1)
           | (Inr rows, d1) \<Rightarrow>
               (case scan rows of
                  Inl e \<Rightarrow> (Inl (DriverError e), d1)
                | Inr ms \<Rightarrow> (case rw_close rows of Some e \<Rightarrow> (Inl (DriverError e), d1) | None \<Rightarrow> (Inr ms, d1)))))"

definition Builder_Count ::
  "'d sql_server \<Rightarrow> (gval list \<Rightarrow> string + i64) \<Rightarrow> Builder \<Rightarrow> 'd \<Rightarrow> (sql_error + i64) \<times> 'd" where
  "Builder_Count sv scan b d =
     (case b_err b of
        Some e \<Rightarrow> (Inl e, d)
      | None \<Rightarrow>
          (case queryContext sv (b_db b) (normalizePlaceholders (b_db b) (buildCount b)) d of
             (Inl e, d1) \<Rightarrow> (Inl (DriverError e), d1)
           | (Inr rows, d1) \<Rightarrow>
               (case rw_rows rows of
                  [] \<Rightarrow> (case rw_err rows of Some e \<Rightarrow> Inl (DriverError e) | None \<Rightarrow> Inr 0, d1)
                | row # _ \<Rightarrow> (case scan row of Inl e \<Rightarrow> Inl (DriverError e) | Inr n \<Rightarrow> Inr n, d1))))"

definition Builder_Exists ::
  "'d sql_server \<Rightarrow> (gval list \<Rightarrow> string + i64) \<Rightarrow> Builder \<Rightarrow> 'd \<Rightarrow> (sql_error + bool) \<times> 'd" where
  "Builder_Exists sv scan b d =
     (case Builder_Count sv scan b d of
        (Inl e, d1) \<Rightarrow> (Inl e, d1)
      | (Inr n, d1) \<Rightarrow> (Inr (sint n > 0), d1))"

text \<open>The arithmetic of \<open>Paginate\<close> in Go's \<open>int\<close> and \<open>int64\<close>, 64 bits wide.\<close>

definition page_offset :: "i64 \<Rightarrow> i64 \<Rightarrow> i64" where
  "page_offset page perPage = (page - 1) * perPage"

definition last_page :: "i64 \<Rightarrow> i64 \<Rightarrow> i64" where
  "last_page tot perPage =
     (let lastPage0 = word_of_int (sint tot sdiv sint perPage);
          lastPage1 = (if sint tot smod sint perPage \<noteq> 0 then lastPage0 + 1 else lastPage0)
      in if sint lastPage1 < 1 then 1 else lastPage1)"

definition page_from :: "i64 \<Rightarrow> i64 \<Rightarrow> i64 \<Rightarrow> i64" where
  "page_from tot page perPage = (if tot = 0 then 0 else (page - 1) * perPage + 1)"

definition page_to :: "i64 \<Rightarrow> i64 \<Rightarrow> i64 \<Rightarrow> i64" where
  "page_to tot page perPage =
     (if tot = 0 then 0 else if sint (page * perPage) > sint tot then tot else page * perPage)"

definition count_builder :: "Builder \<Rightarrow> Builder" where
  "count_builder b =
     (Builder_reset (b_db b))\<lparr>b_table := b_table b, b_wheres := b_wheres b, b_joins := b_joins b, b_groupBys := b_groupBys b,
        b_having := b_having b, b_havingArgs := b_havingArgs b, b_withTrashed := b_withTrashed b, b_softDelete := b_softDelete b\<rparr>"

definition Paginate ::
  "'d sql_server \<Rightarrow> (gval list \<Rightarrow> string + i64) \<Rightarrow> (sql_rows \<Rightarrow> string + 'm list) \<Rightarrow> i64 \<Rightarrow> i64 \<Rightarrow> Builder \<Rightarrow> 'd
     \<Rightarrow> (sql_error + 'm Page) \<times> 'd" where
  "Paginate sv scan scanAll page0 perPage0 b d =
     (case b_err b of
        Some e \<Rightarrow> (Inl e, d)
      | None \<Rightarrow>
          (let page = (if sint page0 < 1 then 1 else page0);
               perPage = (if sint perPage0 < 1 then 15 else perPage0)
           in case Builder_Count sv scan (count_builder b) d of
                (Inl e, d1) \<Rightarrow> (Inl e, d1)
              | (Inr tot, d1) \<Rightarrow>
                  (case Builder_All sv scanAll (b\<lparr>b_limit := perPage, b_offset := page_offset page perPage\<rparr>) d1 of
                     (Inl e, d2) \<Rightarrow> (Inl e, d2)
                   | (Inr items, d2) \<Rightarrow>
                       (Inr \<lparr>pg_Items = items, pg_Total = tot, pg_PerPage = perPage, pg_CurrentPage = page,
                             pg_LastPage = last_page tot perPage, pg_From = page_from tot page perPage,
                             pg_To = page_to tot page perPage\<rparr>, d2))))"

definition Pluck ::
  "'d sql_server \<Rightarrow> (sql_rows \<Rightarrow> string + 'm list) \<Rightarrow> string \<Rightarrow> Builder \<Rightarrow> 'd \<Rightarrow> (sql_error + 'm list) \<times> 'd" where
  "Pluck sv scan col b d =
     (case b_err b of
        Some e \<Rightarrow> (Inl e, d)
      | None \<Rightarrow>
          (case quoteColumnRef (b_driver b) col of
             None \<Rightarrow> (Inl (UnsafePluck col), d)
           | Some q \<Rightarrow>
               (case queryContext sv (b_db b) (normalizePlaceholders (b_db b) (buildSelect (b\<lparr>b_selects := [q]\<rparr>))) d of
                  (Inl e, d1) \<Rightarrow> (Inl (DriverError e), d1)
                | (Inr rows, d1) \<Rightarrow> (case scan rows of Inl e \<Rightarrow> Inl (DriverError e) | Inr ms \<Rightarrow> Inr ms, d1))))"

definition Builder_Scan ::
  "'d sql_server \<Rightarrow> (gval list \<Rightarrow> string + 'm) \<Rightarrow> Builder \<Rightarrow> 'd \<Rightarrow> (sql_error + 'm option) \<times> 'd" where
  "Builder_Scan sv scan b d =
     (case b_err b of
        Some e \<Rightarrow> (Inl e, d)
      | None \<Rightarrow>
          (case queryContext sv (b_db b) (normalizePlaceholders (b_db b)
                  (if b_rawSQL b \<noteq> [] then (b_rawSQL b, b_rawArgs b) else buildSelect b)) d of
             (Inl e, d1) \<Rightarrow> (Inl (DriverError e), d1)
           | (Inr rows, d1) \<Rightarrow>
               (case rw_rows rows of
                  [] \<Rightarrow> (case rw_err rows of Some e \<Rightarrow> Inl (DriverError e) | None \<Rightarrow> Inr None, d1)
                | row # _ \<Rightarrow> (case scan row of Inl e \<Rightarrow> Inl (DriverError e) | Inr m \<Rightarrow> Inr (Some m), d1))))"

section \<open>Writing\<close>

text \<open>\<open>Insert\<close>; the result carries the generated ID. The RETURNING query goes to \<open>sqlDB\<close>, not to the transaction.\<close>

definition Builder_Insert ::
  "'d sql_server \<Rightarrow> (gval list \<Rightarrow> string + i64) \<Rightarrow> ('d \<Rightarrow> sql_error option \<times> 'd) \<Rightarrow> ('d \<Rightarrow> sql_error option \<times> 'd) \<Rightarrow> model_info
     \<Rightarrow> Builder \<Rightarrow> 'd \<Rightarrow> (sql_error + i64 option) \<times> 'd" where
  "Builder_Insert sv scan before after info b d =
     (case before d of
        (Some e, d1) \<Rightarrow> (Inl e, d1)
      | (None, d1) \<Rightarrow>
          if mi_cols info = [] then (Inl InsertNoColumns, d1)
          else
           (let qa = normalizePlaceholders (b_db b) (buildInsert b (mi_cols info) (mi_vals info));
                res =
                  (if mi_autoID info
                   then
                    (if b_driver b = DriverPostgres
                     then (case sv_query sv False (fst qa @ '' RETURNING '' @ rawQuoted DriverPostgres (mi_pkCol info)) (snd qa) d1 of
                             (Inl e, d2) \<Rightarrow> (Inl e, d2)
                           | (Inr rows, d2) \<Rightarrow>
                               (case rw_rows rows of
                                  [] \<Rightarrow> (Inl (case rw_err rows of Some e \<Rightarrow> e | None \<Rightarrow> ''sql: no rows in result set''), d2)
                                | row # _ \<Rightarrow> (map_sum id Some (scan row), d2)))
                     else (case execContext sv (b_db b) qa d1 of (r, d2) \<Rightarrow> (map_sum id Some r, d2)))
                   else (case execContext sv (b_db b) qa d1 of (r, d2) \<Rightarrow> (map_sum id (\<lambda>_. None) r, d2)))
            in case res of
                 (Inl e, d2) \<Rightarrow> (Inl (DriverError e), d2)
               | (Inr i, d2) \<Rightarrow> (case after d2 of (Some e, d3) \<Rightarrow> (Inl e, d3) | (None, d3) \<Rightarrow> (Inr i, d3))))"

text \<open>\<open>Insert\<close> of a \<open>map[string]any\<close> stops at the first test.\<close>

definition Builder_Insert_map :: "(string, gval) gomap \<Rightarrow> Builder \<Rightarrow> 'd \<Rightarrow> sql_error option \<times> 'd" where
  "Builder_Insert_map row b d = (Some InsertOfMap, d)"

text \<open>\<open>InsertMap\<close> also changes the caller's map.\<close>

definition stamp_row :: "string \<Rightarrow> (string, gval) gomap \<Rightarrow> (string, gval) gomap" where
  "stamp_row now row =
     (let row1 = (if map_of row ''created_at'' = None then AList.update ''created_at'' (GString now) row else row)
      in if map_of row1 ''updated_at'' = None then AList.update ''updated_at'' (GString now) row1 else row1)"

definition InsertMap ::
  "'d sql_server \<Rightarrow> string \<Rightarrow> (string, gval) gomap \<Rightarrow> Builder \<Rightarrow> 'd \<Rightarrow> (sql_error option \<times> (string, gval) gomap) \<times> 'd" where
  "InsertMap sv now row b d =
     (let row1 = stamp_row now row;
          cols = sortStrings (map fst row1);
          vals = map (\<lambda>k. case map_of row1 k of Some v \<Rightarrow> v | None \<Rightarrow> GNil) cols
      in case exec_stmt sv (b_db b) (buildInsert b cols vals) d of (e, d1) \<Rightarrow> ((e, row1), d1))"

definition Builder_Save ::
  "'d sql_server \<Rightarrow> ('d \<Rightarrow> sql_error option \<times> 'd) \<Rightarrow> ('d \<Rightarrow> sql_error option \<times> 'd) \<Rightarrow> model_info \<Rightarrow> Builder \<Rightarrow> 'd
     \<Rightarrow> sql_error option \<times> 'd" where
  "Builder_Save sv before after info b d =
     (case before d of
        (Some e, d1) \<Rightarrow> (Some e, d1)
      | (None, d1) \<Rightarrow>
          if mi_pkCol info = [] then (Some SaveNoPrimaryKey, d1)
          else if mi_cols info = [] then (Some SaveNoColumns, d1)
          else (case exec_stmt sv (b_db b) (buildUpdate (Where (mi_pkCol info @ '' = ?'') [mi_pkVal info] b) (mi_cols info) (mi_vals info)) d1 of
                  (Some e, d2) \<Rightarrow> (Some e, d2)
                | (None, d2) \<Rightarrow> after d2))"

definition Builder_Update :: "'d sql_server \<Rightarrow> (string, gval) gomap \<Rightarrow> Builder \<Rightarrow> 'd \<Rightarrow> sql_error option \<times> 'd" where
  "Builder_Update sv row b d =
     (case b_err b of
        Some e \<Rightarrow> (Some e, d)
      | None \<Rightarrow>
          if b_wheres b = [] \<and> b_rawSQL b = [] then (Some UpdateWithoutWhere, d)
          else exec_stmt sv (b_db b) (buildUpdate b (map fst row) (map snd row)) d)"

definition Builder_Delete :: "'d sql_server \<Rightarrow> string \<Rightarrow> Builder \<Rightarrow> 'd \<Rightarrow> sql_error option \<times> 'd" where
  "Builder_Delete sv now b d =
     (case b_err b of
        Some e \<Rightarrow> (Some e, d)
      | None \<Rightarrow>
          if b_wheres b = [] \<and> b_rawSQL b = [] then (Some DeleteWithoutWhere, d)
          else exec_stmt sv (b_db b) (buildDeleteStmt now b) d)"

definition ForceDelete :: "'d sql_server \<Rightarrow> string \<Rightarrow> Builder \<Rightarrow> 'd \<Rightarrow> sql_error option \<times> 'd" where
  "ForceDelete sv now b d = Builder_Delete sv now (b\<lparr>b_softDelete := False\<rparr>) d"

definition Builder_Exec :: "'d sql_server \<Rightarrow> Builder \<Rightarrow> 'd \<Rightarrow> sql_error option \<times> 'd" where
  "Builder_Exec sv b d = exec_stmt sv (b_db b) (if b_rawSQL b = [] then buildDelete b else (b_rawSQL b, b_rawArgs b)) d"

section \<open>Transactions\<close>

definition savepoint :: "DB \<Rightarrow> string" where
  "savepoint db = ''sp_'' @ itoa (int (db_txDepth db))"

definition TransactionContext ::
  "'d sql_server \<Rightarrow> DB \<Rightarrow> (DB \<Rightarrow> 'd \<Rightarrow> tx_result \<times> 'd) \<Rightarrow> 'd \<Rightarrow> tx_result \<times> 'd" where
  "TransactionContext sv db fn d =
     (if db_tx db
      then
       (case sv_exec sv True (''SAVEPOINT '' @ savepoint db) [] d of
          (Inl e, d1) \<Rightarrow> (TxErr (DriverError e), d1)
        | (Inr _, d1) \<Rightarrow>
            (case fn (db\<lparr>db_txDepth := db_txDepth db + 1\<rparr>) d1 of
               (TxErr e, d2) \<Rightarrow> (TxErr e, snd (sv_exec sv True (''ROLLBACK TO SAVEPOINT '' @ savepoint db) [] d2))
             | (TxPanic p, d2) \<Rightarrow> (TxPanic p, d2)
             | (TxOk, d2) \<Rightarrow>
                 (case sv_exec sv True (''RELEASE SAVEPOINT '' @ savepoint db) [] d2 of
                    (Inl e, d3) \<Rightarrow> (TxErr (DriverError e), d3)
                  | (Inr _, d3) \<Rightarrow> (TxOk, d3))))
      else
       (case sv_begin sv d of
          (Some e, d1) \<Rightarrow> (TxErr (DriverError e), d1)
        | (None, d1) \<Rightarrow>
            (case fn (db\<lparr>db_tx := True, db_txDepth := 1\<rparr>) d1 of
               (TxErr e, d2) \<Rightarrow> (TxErr e, snd (sv_rollback sv d2))
             | (TxPanic p, d2) \<Rightarrow> (TxErr (DriverError (''database: transaction panic: '' @ p)), snd (sv_rollback sv d2))
             | (TxOk, d2) \<Rightarrow>
                 (case sv_commit sv d2 of
                    (Some e, d3) \<Rightarrow> (TxErr (DriverError e), d3)
                  | (None, d3) \<Rightarrow> (TxOk, d3)))))"

end
