(* ===== verification/Sql_Spec.thy ===== *)
theory Sql_Spec
  imports Sql_Exec
begin

text \<open>
  Properties of the query builder: which text reaches the database (safe identifiers, matching
  placeholders, filtered writes), the arithmetic of pages, and what a transaction keeps.
\<close>

section \<open>Accepted identifiers\<close>

lemma space_heads: "w \<in> set unicodeSpaces \<Longrightarrow> w \<noteq> [] \<and> \<not> isLetter (hd w) \<and> \<not> isLetter (last w)
    \<and> \<not> between (CHR ''0'') (CHR ''9'') (hd w) \<and> \<not> between (CHR ''0'') (CHR ''9'') (last w)"
  unfolding unicodeSpaces_def by (auto simp: isLetter_def between_def less_eq_char_def)

lemma spaceLen_0: "(\<And>w. w \<in> set unicodeSpaces \<Longrightarrow> \<not> HasPrefix s w) \<Longrightarrow> spaceLen s = 0"
  and spaceLenEnd_0: "(\<And>w. w \<in> set unicodeSpaces \<Longrightarrow> \<not> HasSuffix s w) \<Longrightarrow> spaceLenEnd s = 0"
  by (auto simp: spaceLen_def spaceLenEnd_def find_None_iff split: option.splits)
     (metis find_None_iff option.distinct(1))+

abbreviation identChar :: "char \<Rightarrow> bool" where
  "identChar c \<equiv> isLetter c \<or> between (CHR ''0'') (CHR ''9'') c"

lemma TrimSpace_ident:
  assumes "s \<noteq> []" and "identChar (hd s)" and "identChar (last s)"
  shows "TrimSpace s = s"
proof -
  have "\<not> HasPrefix s w" "\<not> HasSuffix s w" if "w \<in> set unicodeSpaces" for w
    using space_heads [OF that] assms by (auto simp: HasPrefix_iff HasSuffix_iff)
  then have "spaceLen s = 0" "spaceLenEnd s = 0" by (auto intro!: spaceLen_0 spaceLenEnd_0)
  then show ?thesis by (simp add: TrimSpace_def TrimLeftSpace.simps TrimRightSpace.simps)
qed

lemma safe_ident_chars: "isSafeIdentSegment s \<Longrightarrow> s \<noteq> [] \<and> (\<forall>c \<in> set s. identChar c)"
  by (auto simp: isSafeIdentSegment_def dest: ident_loop_chars split: if_splits)

lemma dot_not_ident: "\<not> identChar CHR ''.''" "\<not> identChar CHR ''*''"
  by (simp_all add: isLetter_def between_def less_eq_char_def)

lemma TrimSpace_safe: "isSafeIdentSegment s \<Longrightarrow> TrimSpace s = s"
  using safe_ident_chars [of s] by (auto intro!: TrimSpace_ident)

lemma safe_ident_plain: "isSafeIdentSegment s \<Longrightarrow> s \<noteq> ''*'' \<and> CHR ''.'' \<notin> set s"
  using safe_ident_chars [of s] dot_not_ident by auto

lemma quoteColumnRef_accepts:
  assumes "isSafeIdentSegment t" and "isSafeIdentSegment c"
  shows "quoteColumnRef g c = Some (rawQuoted g c)" and "quoteColumnRef g (t @ ''.'' @ c) = Some (rawQuoted g t @ ''.'' @ rawQuoted g c)"
proof -
  note safe = assms [THEN safe_ident_plain] assms [THEN TrimSpace_safe] assms [THEN QuoteIdent_safe] assms [THEN safe_ident_chars]
  show "quoteColumnRef g c = Some (rawQuoted g c)"
    using assms safe by (simp add: quoteColumnRef_def SplitOn_no_sep)
  have "TrimSpace (t @ ''.'' @ c) = t @ ''.'' @ c"
    using safe by (intro TrimSpace_ident) (auto simp: hd_append last_append)
  moreover have "t @ ''.'' @ c \<noteq> ''*''" using safe by (cases t) auto
  ultimately show "quoteColumnRef g (t @ ''.'' @ c) = Some (rawQuoted g t @ ''.'' @ rawQuoted g c)"
    using assms safe by (simp add: quoteColumnRef_def SplitOn_word_sep SplitOn_no_sep)
qed

section \<open>Builders keep safe parts\<close>

lemma Select_frame [simp]:
  "b_db (Builder_Select cols b) = b_db b" "b_groupBys (Builder_Select cols b) = b_groupBys b"
  "b_orderBys (Builder_Select cols b) = b_orderBys b" "b_err b \<noteq> None \<Longrightarrow> b_err (Builder_Select cols b) \<noteq> None"
  by (induction cols arbitrary: b) (auto simp: setErr_def split: option.splits)

lemma Select_safe:
  "b_driver b = g \<Longrightarrow> list_all (safe_select g) (b_selects b) \<Longrightarrow> list_all (safe_select g) (b_selects (Builder_Select cols b))"
  by (induction cols arbitrary: b) (auto simp: setErr_def dest: quoteSelectExpr_safe split: option.splits)

lemma GroupBy_frame [simp]:
  "b_db (GroupBy cols b) = b_db b" "b_selects (GroupBy cols b) = b_selects b"
  "b_orderBys (GroupBy cols b) = b_orderBys b" "b_err b \<noteq> None \<Longrightarrow> b_err (GroupBy cols b) \<noteq> None"
  by (induction cols arbitrary: b) (auto simp: setErr_def split: option.splits)

lemma GroupBy_safe:
  "b_driver b = g \<Longrightarrow> list_all (safe_ref g) (b_groupBys b) \<Longrightarrow> list_all (safe_ref g) (b_groupBys (GroupBy cols b))"
  by (induction cols arbitrary: b) (auto simp: setErr_def dest: quoteColumnRef_safe split: option.splits)

lemma OrderBy_frame [simp]:
  "b_db (OrderBy clause b) = b_db b" "b_selects (OrderBy clause b) = b_selects b"
  "b_groupBys (OrderBy clause b) = b_groupBys b" "b_err b \<noteq> None \<Longrightarrow> b_err (OrderBy clause b) \<noteq> None"
  by (auto simp: OrderBy_def setErr_def split: option.splits)

lemma OrderBy_safe:
  "b_driver b = g \<Longrightarrow> list_all (safe_order g) (b_orderBys b) \<Longrightarrow> list_all (safe_order g) (b_orderBys (OrderBy clause b))"
  by (auto simp: OrderBy_def setErr_def dest: sanitizeOrderBy_safe split: option.splits)

lemma Select_length: "b_err (Builder_Select cols b) = None \<Longrightarrow> length (b_selects (Builder_Select cols b)) = length (b_selects b) + length cols"
proof (induction cols arbitrary: b)
  case (Cons c cols)
  show ?case
  proof (cases "quoteSelectExpr (b_driver b) c")
    case None
    have "b_err (setErr (UnsafeSelect c) b) \<noteq> None" by (auto simp: setErr_def)
    then show ?thesis using Cons.prems None Select_frame(4) [of "setErr (UnsafeSelect c) b" cols] by simp
  next
    case (Some q)
    then show ?thesis using Cons by simp
  qed
qed simp

section \<open>Placeholders\<close>

abbreviation qmarks :: "string \<Rightarrow> nat" where
  "qmarks s \<equiv> count_list s CHR ''?''"

text \<open>The text of a query with its runes written back, and the pieces between placeholders numbered.\<close>

function validRunes :: "string \<Rightarrow> string" where
  "validRunes q = (if q = [] then [] else fst (firstRune q) @ validRunes (snd (firstRune q)))"
  by pat_completeness auto
termination by (relation "measure length") (auto simp: firstRune_shrinks)

declare validRunes.simps [simp del]

fun numbered :: "nat \<Rightarrow> string list \<Rightarrow> string" where
  "numbered n [] = []"
| "numbered n [w] = w"
| "numbered n (w # v # ws) = w @ Placeholder DriverPostgres (int (n + 1)) @ numbered (n + 1) (v # ws)"

lemma qmark_no_continuation:
  "\<not> between (CHR 0x80) hi CHR ''?''" "\<not> between (if P then CHR 0xA0 else CHR 0x80) hi CHR ''?''"
  "\<not> between (if P then CHR 0x90 else CHR 0x80) hi CHR ''?''"
  by (simp_all add: between_def less_eq_char_def)

lemma runeLen_append:
  assumes "w \<noteq> []" and "rest = [] \<or> hd rest = CHR ''?''"
  shows "runeLen (w @ rest) = runeLen w"
proof (cases rest)
  case (Cons x r)
  with assms(2) have rest: "rest = CHR ''?'' # r" by simp
  consider a where "w = [a]" | a b where "w = [a, b]" | a b c where "w = [a, b, c]" | a b c d v where "w = a # b # c # d # v"
    using assms(1) by (metis list.exhaust)
  then show ?thesis unfolding rest
    by cases (simp_all only: runeLen_def append.simps list.case qmark_no_continuation simp_thms if_False split: list.split)
qed simp

lemma firstRune_append:
  "w \<noteq> [] \<Longrightarrow> rest = [] \<or> hd rest = CHR ''?'' \<Longrightarrow> firstRune (w @ rest) = (fst (firstRune w), snd (firstRune w) @ rest)"
  using runeLen_append [of w rest] runeLen_le [of w] by (auto simp: firstRune_def)

lemma firstRune_suffix: "set (snd (firstRune w)) \<subseteq> set w"
  by (cases w) (auto simp: firstRune_def dest: in_set_dropD)

lemma normalize_piece:
  "CHR ''?'' \<notin> set w \<Longrightarrow> rest = [] \<or> hd rest = CHR ''?'' \<Longrightarrow>
   normalize_loop n (w @ rest) = validRunes w @ normalize_loop n rest"
proof (induction w rule: validRunes.induct)
  case (1 w)
  show ?case
  proof (cases "w = []")
    case True
    then show ?thesis by (simp add: validRunes.simps)
  next
    case False
    have "CHR ''?'' \<notin> set (snd (firstRune w))" using firstRune_suffix [of w] "1.prems"(1) by blast
    moreover have "hd (w @ rest) \<noteq> CHR ''?''" using False "1.prems"(1) by (cases w) auto
    ultimately show ?thesis
      using "1.IH" [OF False] "1.prems"(2) False firstRune_append [OF False "1.prems"(2)]
      by (subst normalize_loop.simps, subst validRunes.simps) simp
  qed
qed

lemma normalize_numbered: "normalize_loop n q = numbered n (map validRunes (SplitOn CHR ''?'' q))"
proof (induction "length q" arbitrary: q n rule: less_induct)
  case less
  show ?case
  proof (cases "CHR ''?'' \<in> set q")
    case False
    then show ?thesis using normalize_piece [of q "[]" n] by (simp add: SplitOn_no_sep normalize_loop.simps)
  next
    case True
    then obtain w r where q: "q = w @ CHR ''?'' # r" "CHR ''?'' \<notin> set w" by (meson split_list_first)
    have "normalize_loop n q = validRunes w @ Placeholder DriverPostgres (int (n + 1)) @ normalize_loop (n + 1) r"
      using normalize_piece [of w "CHR ''?'' # r" n] q by (simp add: normalize_loop.simps [of n "CHR ''?'' # r"])
    also have "\<dots> = numbered n (map validRunes (SplitOn CHR ''?'' q))"
      using less [of r "n + 1"] q SplitOn_ne [of "CHR ''?''" r]
      by (cases "SplitOn CHR ''?'' r") (auto simp: SplitOn_word_sep)
    finally show ?thesis .
  qed
qed

lemma length_SplitOn: "length (SplitOn c s) = count_list s c + 1"
  by (induction s) (auto split: list.splits)

lemma qmarks_Join: "qmarks sep = 0 \<Longrightarrow> qmarks (Join sep ws) = sum_list (map qmarks ws)"
  by (induction ws) (auto simp: Join_Cons)

lemma qmarks_concat: "qmarks (concat ws) = sum_list (map qmarks ws)"
  by (induction ws) auto

lemma qmarks_natToBase: "qmarks (natToBase 10 n) = 0"
proof (induction n rule: less_induct)
  case (less n)
  have "digit d \<noteq> CHR ''?''" if "d < 10" for d
  proof -
    have "d \<in> {0, 1, 2, 3, 4, 5, 6, 7, 8, 9}" using that by auto
    then show ?thesis by (auto simp: digit_def char_of_def bit_simps)
  qed
  with less show ?case by (subst natToBase.simps) auto
qed

lemma qmarks_itoa [simp]: "qmarks (itoa i) = 0"
  by (simp add: itoa_def qmarks_natToBase)

lemma qmarks_QuoteIdent [simp]: "qmarks (QuoteIdent g s) = qmarks s"
proof -
  have "qmarks (ReplaceByte q [q, q] s) = qmarks s" if "q \<noteq> CHR ''?''" for q
    using that by (induction s) (auto simp: ReplaceByte_Cons)
  then show ?thesis by (cases g) (simp_all add: QuoteIdent_def)
qed

text \<open>
  A builder whose clauses carry as many arguments as they have placeholders, and no placeholder outside
  its conditions.
\<close>

definition args_match :: "Builder \<Rightarrow> bool" where
  "args_match b \<longleftrightarrow> b_rawSQL b = [] \<and> qmarks (b_table b) = 0
     \<and> list_all (\<lambda>w. qmarks (wc_clause w) = length (wc_args w)) (b_wheres b)
     \<and> (b_having b \<noteq> [] \<longrightarrow> qmarks (b_having b) = length (b_havingArgs b))
     \<and> list_all (\<lambda>x. qmarks x = 0) (b_selects b @ b_joins b @ b_groupBys b @ b_orderBys b)"

lemma sum_list_zero: "list_all (\<lambda>x. f x = (0::nat)) xs \<Longrightarrow> sum_list (map f xs) = 0"
  by (induction xs) auto

lemma qmarks_where:
  assumes "list_all (\<lambda>w. qmarks (wc_clause w) = length (wc_args w)) (b_wheres b)"
  shows "qmarks (fst (buildWhere b)) = length (snd (buildWhere b))"
proof -
  have "qmarks (where_part i w) = qmarks (wc_clause w)" for i w by (simp add: where_part_def Let_def)
  moreover have "sum_list (map (\<lambda>(i, w). qmarks (wc_clause w)) (enumerate n ws)) = length (concat (map wc_args ws))"
    if "list_all (\<lambda>w. qmarks (wc_clause w) = length (wc_args w)) ws" for n and ws :: "whereClause list"
    using that by (induction ws arbitrary: n) auto
  ultimately show ?thesis using assms
    by (simp add: buildWhere_def qmarks_Join comp_def case_prod_beta')
qed

lemma qmarks_select:
  assumes "args_match b"
  shows "qmarks (fst (buildSelect b)) = length (snd (buildSelect b))"
proof -
  have parts: "qmarks (Join '', '' (b_selects b)) = 0" "qmarks (Join '', '' (b_groupBys b)) = 0"
    "qmarks (Join '', '' (b_orderBys b)) = 0" "qmarks (concat (map (\<lambda>j. '' '' @ j) (b_joins b))) = 0"
    using assms by (auto simp: args_match_def qmarks_Join qmarks_concat comp_def sum_list_zero)
  have wh: "qmarks (fst (buildWhere b)) = length (snd (buildWhere b))"
    using assms by (auto simp: args_match_def intro: qmarks_where)
  have nil: "fst (buildWhere b) = [] \<Longrightarrow> snd (buildWhere b) = []" using wh by simp
  have qmarks_if: "qmarks (if P then x else y) = (if P then qmarks x else qmarks y)" for P x y by simp
  have clauses: "b_rawSQL b = []" "qmarks (b_table b) = 0"
    "(if b_having b \<noteq> [] then qmarks (b_having b) else 0) = length (if b_having b \<noteq> [] then b_havingArgs b else [])"
    using assms by (auto simp: args_match_def)
  have "qmarks (fst (buildSelect b)) = qmarks (fst (buildWhere b)) + (if b_having b \<noteq> [] then qmarks (b_having b) else 0)"
    using clauses(1,2) by (simp add: buildSelect_def case_prod_beta Let_def qmarks_if parts split del: if_split) (simp add: parts)
  moreover have "length (snd (buildSelect b)) = length (snd (buildWhere b)) + length (if b_having b \<noteq> [] then b_havingArgs b else [])"
    using clauses(1) nil by (auto simp: buildSelect_def case_prod_beta Let_def)
  ultimately show ?thesis using wh clauses(3) by simp
qed

section \<open>Properties\<close>

text \<open>
  C5. Column names, order and group clauses cannot inject SQL: whatever strings are passed to
  \<open>Select\<close>, \<open>GroupBy\<close> and \<open>OrderBy\<close>, either the query is refused and reading returns the error without
  calling the database, or every select item, group and order clause of the statement is built from
  quoted identifiers of letters, digits and underscores and from fixed keywords, one item for each
  column asked for.
\<close>

theorem sanitized_or_refused:
  "let b = OrderBy ord (GroupBy grp (Builder_Select cols (DB_Table db t))); g = db_driver db
   in (b_err b \<noteq> None \<and> (\<forall>sv scan d. \<exists>e. Builder_All sv scan b d = (Inl e, d)))
    \<or> (b_err b = None \<and> length (b_selects b) = length cols \<and> list_all (safe_select g) (b_selects b)
       \<and> list_all (safe_ref g) (b_groupBys b) \<and> list_all (safe_order g) (b_orderBys b))"
proof -
  let ?base = "Builder_Select cols (DB_Table db t)" and ?g = "db_driver db"
  let ?b = "OrderBy ord (GroupBy grp ?base)"
  have start: "b_db (DB_Table db t) = db" "b_selects (DB_Table db t) = []" "b_groupBys (DB_Table db t) = []" "b_orderBys (DB_Table db t) = []"
    by (simp_all add: DB_Table_def Builder_reset_def)
  show ?thesis
  proof (cases "b_err ?b")
    case None
    then have e0: "b_err ?base = None" using OrderBy_frame(4) GroupBy_frame(4) by blast
    from Select_length [OF e0] have "length (b_selects ?b) = length cols" using start by simp
    moreover have "list_all (safe_select ?g) (b_selects ?b)" using Select_safe [of "DB_Table db t" ?g cols] start by simp
    moreover have "list_all (safe_ref ?g) (b_groupBys ?b)" using GroupBy_safe [of ?base ?g grp] start by simp
    moreover have "list_all (safe_order ?g) (b_orderBys ?b)" using OrderBy_safe [of "GroupBy grp ?base" ?g ord] start by simp
    ultimately show ?thesis using None by (simp add: Let_def)
  next
    case (Some e)
    then show ?thesis by (simp add: Let_def Builder_All_def)
  qed
qed

text \<open>
  C31. Placeholders and arguments agree: for a builder whose conditions carry as many arguments as
  placeholders, the text of its SELECT has exactly one placeholder for each argument that is sent, and on
  PostgreSQL the n-th of them is rewritten to the number n, with nothing else changed but bytes that are
  not UTF-8.
\<close>

theorem placeholders_match_args:
  assumes "args_match b" and "b_driver b = DriverPostgres"
  shows "\<exists>parts. fst (buildSelect b) = Join ''?'' parts \<and> length parts = length (snd (buildSelect b)) + 1
    \<and> normalizePlaceholders (b_db b) (buildSelect b) = (numbered 0 (map validRunes parts), snd (buildSelect b))"
proof (intro exI conjI)
  let ?parts = "SplitOn CHR ''?'' (fst (buildSelect b))"
  show "fst (buildSelect b) = Join ''?'' ?parts" by (simp add: Join_SplitOn)
  show "length ?parts = length (snd (buildSelect b)) + 1" by (simp add: length_SplitOn qmarks_select assms(1))
  show "normalizePlaceholders (b_db b) (buildSelect b) = (numbered 0 (map validRunes ?parts), snd (buildSelect b))"
    using assms(2) by (simp add: normalizePlaceholders_def normalize_numbered)
qed

definition demo_db :: "Driver \<Rightarrow> DB" where
  "demo_db g = \<lparr>db_driver = g, db_tx = False, db_txDepth = 0\<rparr>"

theorem placeholders_match_args_witness:
  "\<exists>parts. length parts = 3 \<and> normalizePlaceholders (demo_db DriverPostgres)
      (buildSelect (WhereIn ''id'' [GInt 4, GInt 5] (DB_Table (demo_db DriverPostgres) ''users'')))
    = (numbered 0 (map validRunes parts), [GInt 4, GInt 5])"
proof -
  let ?b = "WhereIn ''id'' [GInt 4, GInt 5] (DB_Table (demo_db DriverPostgres) ''users'')"
  have "args_match ?b" "b_driver ?b = DriverPostgres" "b_db ?b = demo_db DriverPostgres" "snd (buildSelect ?b) = [GInt 4, GInt 5]"
    by (simp_all add: args_match_def WhereIn_def Where_def DB_Table_def Builder_reset_def demo_db_def buildSelect_def buildWhere_def
        where_part_def QuoteIdent_def ReplaceByte_def Let_def)
  with placeholders_match_args [of ?b] obtain parts where
    "length parts = 3" "normalizePlaceholders (demo_db DriverPostgres) (buildSelect ?b) = (numbered 0 (map validRunes parts), [GInt 4, GInt 5])"
    by (auto simp: numeral_3_eq_3)
  then show ?thesis by blast
qed

text \<open>
  C30. Updates and deletes are never unfiltered: \<open>Update\<close>, \<open>Delete\<close> and \<open>ForceDelete\<close> on a table either
  return an error without calling the database, or execute one statement that ends in a WHERE with the
  builder's non-empty conditions.
\<close>

theorem writes_are_filtered:
  assumes "b_rawSQL b = []"
    and "f \<in> {Builder_Update sv row, Builder_Delete sv now, ForceDelete sv now}"
  shows "(\<exists>e. f b d = (Some e, d)) \<or>
    (\<exists>stmt args. b_wheres b \<noteq> [] \<and> fst (buildWhere b) \<noteq> []
       \<and> f b d = exec_stmt sv (b_db b) (stmt @ '' WHERE '' @ fst (buildWhere b), args) d)"
proof (cases "b_err b = None \<and> b_wheres b \<noteq> []")
  case True
  then have wh: "fst (buildWhere b) \<noteq> []" "fst (buildWhere (b\<lparr>b_softDelete := False\<rparr>)) = fst (buildWhere b)"
    by (cases "b_wheres b"; simp add: buildWhere_def Join_Cons where_part_def Let_def)+
  have upd: "\<exists>stmt args. buildUpdate b cols vals = (stmt @ '' WHERE '' @ fst (buildWhere b), args)" for cols vals
    using wh(1) by (simp add: buildUpdate_def case_prod_beta)
  have del: "\<exists>stmt args. buildDelete b' = (stmt @ '' WHERE '' @ fst (buildWhere b), args)"
    if "fst (buildWhere b') = fst (buildWhere b)" for b'
    using wh(1) that by (simp add: buildDelete_def case_prod_beta)
  have run: ?thesis if "f b d = exec_stmt sv (b_db b) x d" "\<exists>stmt args. x = (stmt @ '' WHERE '' @ fst (buildWhere b), args)" for x
    using that True wh(1) by blast
  from assms(2) consider "f = Builder_Update sv row" | "f = Builder_Delete sv now" | "f = ForceDelete sv now" by blast
  then show ?thesis
  proof cases
    case 1
    with True show ?thesis by (intro run [OF _ upd]) (simp add: Builder_Update_def)
  next
    case 2
    have "\<exists>stmt args. buildDeleteStmt now b = (stmt @ '' WHERE '' @ fst (buildWhere b), args)"
      unfolding buildDeleteStmt_def using upd del [OF refl] by (simp split: if_split)
    with 2 True show ?thesis by (intro run) (simp add: Builder_Delete_def)
  next
    case 3
    with True show ?thesis by (intro run [OF _ del [OF wh(2)]]) (simp add: ForceDelete_def Builder_Delete_def buildDeleteStmt_def)
  qed
next
  case False
  with assms show ?thesis
    by (auto simp: Builder_Update_def Builder_Delete_def ForceDelete_def split: option.splits)
qed

text \<open>A server that records which statements are committed and which are pending in the transaction.\<close>

record log_state =
  lg_committed :: "string list"
  lg_pending :: "string list"

definition log_stmt :: "bool \<Rightarrow> string \<Rightarrow> log_state \<Rightarrow> log_state" where
  "log_stmt via q d = (if via then d\<lparr>lg_pending := lg_pending d @ [q]\<rparr> else d\<lparr>lg_committed := lg_committed d @ [q]\<rparr>)"

definition log_server :: "log_state sql_server" where
  "log_server =
     \<lparr>sv_query = (\<lambda>via q args d. (Inr \<lparr>rw_cols = [''?column?''], rw_rows = [[GInt64 1]], rw_err = None, rw_close = None\<rparr>, log_stmt via q d)),
      sv_exec = (\<lambda>via q args d. (Inr 1, log_stmt via q d)),
      sv_begin = (\<lambda>d. (None, d\<lparr>lg_pending := []\<rparr>)),
      sv_commit = (\<lambda>d. (None, \<lparr>lg_committed = lg_committed d @ lg_pending d, lg_pending = []\<rparr>)),
      sv_rollback = (\<lambda>d. (None, d\<lparr>lg_pending := []\<rparr>))\<rparr>"

theorem writes_are_filtered_witness:
  "\<exists>stmt args. Builder_Delete log_server ''now'' (Where ''id = ?'' [GInt 7] (DB_Table (demo_db DriverMySQL) ''users'')) \<lparr>lg_committed = [], lg_pending = []\<rparr>
     = exec_stmt log_server (demo_db DriverMySQL) (stmt @ '' WHERE '' @ ''(id = ?)'', args) \<lparr>lg_committed = [], lg_pending = []\<rparr>"
proof -
  let ?b = "Where ''id = ?'' [GInt 7] (DB_Table (demo_db DriverMySQL) ''users'')"
  have b: "b_rawSQL ?b = []" "b_err ?b = None" "b_wheres ?b \<noteq> []" "b_db ?b = demo_db DriverMySQL" "fst (buildWhere ?b) = ''(id = ?)''"
    by (simp_all add: Where_def DB_Table_def Builder_reset_def buildWhere_def where_part_def)
  have "fst (Builder_Delete log_server ''now'' ?b d) = None" for d
    using b(2,3) by (simp add: Builder_Delete_def exec_stmt_def execContext_def log_server_def)
  with writes_are_filtered [OF b(1), of "Builder_Delete log_server ''now''" log_server "[]" "''now''" "\<lparr>lg_committed = [], lg_pending = []\<rparr>"]
  show ?thesis unfolding b(4,5) by (metis fst_conv insertI1 insertI2 option.distinct(1))
qed

section \<open>Pages\<close>

lemma sint_i64: "- (2 ^ 63) \<le> i \<Longrightarrow> i < 2 ^ 63 \<Longrightarrow> sint (word_of_int i :: i64) = i"
  by (simp add: sint_sbintrunc' signed_take_bit_int_eq_self)

lemma last_page_eq:
  assumes "1 \<le> sint perPage" and "0 \<le> sint tot"
  shows "sint (last_page tot perPage) = max 1 ((sint tot + sint perPage - 1) div sint perPage)"
proof -
  let ?T = "sint tot" and ?n = "sint perPage"
  have T: "?T < 2 ^ 63" using sint_lt [of tot] by simp
  have q: "?T sdiv ?n = ?T div ?n" "?T smod ?n = ?T mod ?n"
    using assms by (simp_all add: signed_divide_int_def signed_modulo_int_def sgn_if)
  have split: "?T = ?n * (?T div ?n) + ?T mod ?n" by simp
  have pos: "0 \<le> ?T div ?n" using assms by (simp add: pos_imp_zdiv_nonneg_iff)
  then have mult: "?T div ?n \<le> ?n * (?T div ?n)" using assms(1) mult_right_mono [of 1 ?n "?T div ?n"] by simp
  show ?thesis
  proof (cases "?T mod ?n = 0")
    case True
    have "?T + ?n - 1 = (?n - 1) + ?n * (?T div ?n)" using split True by simp
    also have "\<dots> div ?n = ?T div ?n" using assms(1) by (subst div_mult_self2) (simp_all add: div_pos_pos_trivial)
    finally have "(?T + ?n - 1) div ?n = ?T div ?n" .
    moreover have "?T div ?n < 2 ^ 63" using split mult True T by linarith
    ultimately show ?thesis using True pos q by (simp add: last_page_def Let_def sint_i64)
  next
    case False
    then have m: "0 < ?T mod ?n" "?T mod ?n < ?n" using assms pos_mod_bound [of ?n ?T] pos_mod_sign [of ?n ?T] by linarith+
    have "?T + ?n - 1 = (?T mod ?n - 1) + ?n * (?T div ?n + 1)" using split by (simp add: distrib_left)
    also have "\<dots> div ?n = ?T div ?n + 1" using m by (subst div_mult_self2) (simp_all add: div_pos_pos_trivial)
    finally have c: "(?T + ?n - 1) div ?n = ?T div ?n + 1" .
    have "?T div ?n + 1 < 2 ^ 63" using split mult m T by linarith
    then have "sint (word_of_int (?T div ?n) + 1 :: i64) = ?T div ?n + 1" using sint_i64 [of "?T div ?n + 1"] pos by simp
    then show ?thesis using False pos q c by (simp add: last_page_def Let_def)
  qed
qed

text \<open>
  Pages partition the rows: as long as \<open>page * perPage\<close> fits 64 bits, the offset, first and last
  row and the number of pages that \<open>Paginate\<close> computes are the mathematical ones, and row number \<open>k\<close> of the
  result lies between \<open>From\<close> and \<open>To\<close> of exactly one page, which is one of \<open>1 .. LastPage\<close>.
\<close>

theorem pages_partition_rows:
  assumes "1 \<le> sint page" and "1 \<le> sint perPage" and "sint page * sint perPage < 2 ^ 63"
    and "1 \<le> k" and "k \<le> sint tot"
  shows "sint (page_offset page perPage) = (sint page - 1) * sint perPage
    \<and> (sint (page_from tot page perPage) \<le> k \<and> k \<le> sint (page_to tot page perPage)
         \<longleftrightarrow> sint page = (k - 1) div sint perPage + 1)
    \<and> (k - 1) div sint perPage + 1 \<le> sint (last_page tot perPage)"
proof -
  let ?p = "sint page" and ?n = "sint perPage" and ?T = "sint tot"
  have pn: "(?p - 1) * ?n = ?p * ?n - ?n" by (simp add: left_diff_distrib)
  have nn: "?n \<le> ?p * ?n" using mult_right_mono [of 1 ?p ?n] assms(1,2) by simp
  have off: "sint (page_offset page perPage) = ?p * ?n - ?n" "sint (page * perPage) = ?p * ?n"
    "sint ((page - 1) * perPage + 1) = ?p * ?n - ?n + 1"
    using sint_i64 [of "?p * ?n - ?n"] sint_i64 [of "?p * ?n"] sint_i64 [of "?p * ?n - ?n + 1"] nn assms(2,3)
    by (simp_all add: page_offset_def left_diff_distrib)
  have nz: "tot \<noteq> 0" using assms(4,5) by auto
  have page: "?p = (k - 1) div ?n + 1 \<longleftrightarrow> ?p * ?n - ?n \<le> k - 1 \<and> k - 1 < ?p * ?n"
  proof
    assume "?p = (k - 1) div ?n + 1"
    then have "k - 1 = (?p - 1) * ?n + (k - 1) mod ?n" by simp
    moreover have "0 \<le> (k - 1) mod ?n" "(k - 1) mod ?n < ?n" using assms(2) by simp_all
    ultimately show "?p * ?n - ?n \<le> k - 1 \<and> k - 1 < ?p * ?n" using pn by linarith
  next
    assume *: "?p * ?n - ?n \<le> k - 1 \<and> k - 1 < ?p * ?n"
    then have "k - 1 = (?p - 1) * ?n + (k - 1 - (?p - 1) * ?n)" "0 \<le> k - 1 - (?p - 1) * ?n" "k - 1 - (?p - 1) * ?n < ?n"
      using pn by simp_all
    then have "(k - 1) div ?n = ?p - 1" by (intro int_div_pos_eq) (simp_all add: mult.commute)
    then show "?p = (k - 1) div ?n + 1" by simp
  qed
  have "(k - 1) div ?n + 1 = (k - 1 + ?n) div ?n" using assms(2) by simp
  also have "\<dots> \<le> (?T + ?n - 1) div ?n" using assms(2,5) by (intro zdiv_mono1) simp_all
  also have "\<dots> \<le> sint (last_page tot perPage)" using last_page_eq [of perPage tot] assms by simp
  finally show ?thesis
    using off nz page assms(5) pn by (auto simp: page_from_def page_to_def)
qed

theorem pages_partition_rows_witness:
  "sint (page_offset 3 10) = 20 \<and> sint (page_from 25 3 10) \<le> 22 \<and> 22 \<le> sint (page_to 25 3 10) \<and> 3 \<le> sint (last_page 25 10)"
  using pages_partition_rows [of 3 10 22 25] by simp

text \<open>
  Beyond that bound the page number wraps: the offset of the page \<open>2 ^ 62 + 1\<close> of four rows is zero,
  so the statement is the one of the first page.
\<close>

theorem page_offset_wraps:
  "page_offset (2 ^ 62 + 1) 4 = page_offset 1 4 \<and> (2 ^ 62 + 1 :: i64) \<noteq> 1"
  by (simp add: page_offset_def)
section \<open>Transactions\<close>

text \<open>
  Transactions are atomic for code that uses their handle: if statements sent through the transaction
  leave the committed data alone, and so do starting and rolling back, then a transaction whose function
  uses only that handle and ends in an error or a panic leaves the committed data as it was and
  returns an error; it never lets the panic escape.
\<close>

theorem transaction_atomic:
  assumes "\<not> db_tx db" and "sv_begin sv d = (None, d0)" and "committed d0 = committed d"
    and "\<And>d'. committed (snd (sv_rollback sv d')) = committed d'"
    and "fn (db\<lparr>db_tx := True, db_txDepth := 1\<rparr>) d0 = (r, d1)" and "committed d1 = committed d0" and "r \<noteq> TxOk"
  shows "\<exists>e d2. TransactionContext sv db fn d = (TxErr e, d2) \<and> committed d2 = committed d"
  using assms by (cases r) (auto simp: TransactionContext_def)

theorem transaction_atomic_witness:
  "\<exists>e d2. TransactionContext log_server (demo_db DriverMySQL)
      (\<lambda>tx d. (TxPanic ''boom'', snd (InsertMap log_server ''now'' [(''id'', GInt 1)] (DB_Table tx ''users'') d)))
      \<lparr>lg_committed = [], lg_pending = []\<rparr> = (TxErr e, d2) \<and> lg_committed d2 = []"
  using transaction_atomic [of "demo_db DriverMySQL" log_server "\<lparr>lg_committed = [], lg_pending = []\<rparr>" "\<lparr>lg_committed = [], lg_pending = []\<rparr>"
      lg_committed "\<lambda>tx d. (TxPanic ''boom'', snd (InsertMap log_server ''now'' [(''id'', GInt 1)] (DB_Table tx ''users'') d))" "TxPanic ''boom''"]
  by (simp add: demo_db_def log_server_def InsertMap_def exec_stmt_def execContext_def log_stmt_def DB_Table_def Builder_reset_def Let_def
      normalizePlaceholders_def case_prod_beta)

text \<open>
  Inserting a model escapes the transaction on PostgreSQL: a model with a generated key is inserted
  through the connection pool, whatever handle the builder has, so the row is committed although the
  transaction that inserted it is rolled back.
\<close>

theorem insert_escapes_transaction:
  assumes "mi_cols info \<noteq> []" and "mi_autoID info" and "db_driver db = DriverPostgres" and "\<not> db_tx db"
  shows "\<exists>q. lg_committed (snd (TransactionContext log_server db
      (\<lambda>tx d. (TxErr e, snd (Builder_Insert log_server scan (\<lambda>d. (None, d)) (\<lambda>d. (None, d)) info (DB_Table tx t) d))) d))
    = lg_committed d @ [q]"
  using assms
  by (cases "scan [GInt64 1]")
     (auto simp: TransactionContext_def log_server_def Builder_Insert_def DB_Table_def Builder_reset_def log_stmt_def Let_def)

theorem insert_escapes_transaction_witness:
  "\<exists>q. lg_committed (snd (TransactionContext log_server (demo_db DriverPostgres)
      (\<lambda>tx d. (TxErr ErrNotFound, snd (Builder_Insert log_server (\<lambda>_. Inr 1) (\<lambda>d. (None, d)) (\<lambda>d. (None, d))
          \<lparr>mi_cols = [''name''], mi_vals = [GString ''x''], mi_autoID = True, mi_pkCol = ''id'', mi_pkVal = GNil\<rparr> (DB_Table tx ''users'') d)))
      \<lparr>lg_committed = [], lg_pending = []\<rparr>)) = [q]"
  using insert_escapes_transaction
    [of "\<lparr>mi_cols = [''name''], mi_vals = [GString ''x''], mi_autoID = True, mi_pkCol = ''id'', mi_pkVal = GNil\<rparr>" "demo_db DriverPostgres"
      ErrNotFound "\<lambda>_. Inr 1" "''users''" "\<lparr>lg_committed = [], lg_pending = []\<rparr>"]
  by (simp add: demo_db_def)

text \<open>
  \<open>Exec\<close> has no such guard: on a table builder without conditions it deletes every row, and it
  does so even when an earlier method recorded an error.
\<close>

theorem Exec_deletes_all:
  "Builder_Exec sv (OrderBy bad (DB_Table db t)) d = exec_stmt sv db (''DELETE FROM '' @ QuoteIdent (db_driver db) t, []) d"
  by (simp add: Builder_Exec_def OrderBy_def DB_Table_def Builder_reset_def setErr_def buildDelete_def buildWhere_def split: option.splits)

end
