(* ===== verification/Go_Strconv.thy ===== *)
theory Go_Strconv
  imports Oni_Prelude
begin

text \<open>
  The parts of package \<open>strconv\<close> the sources use: \<open>Atoi\<close> and \<open>ParseInt(s, 10, 64)\<close> with their two errors,
  \<open>ParseBool\<close>, and the conversion of an integer to \<open>float64\<close>. \<open>int\<close> is 64 bits wide. On a range error the
  functions return the nearest bound along with the error, on a syntax error zero; callers that drop the error
  see these values.
\<close>

section \<open>Integers\<close>

datatype num_error = ErrSyntax | ErrRange

definition digitVal :: "char \<Rightarrow> nat option" where
  "digitVal c = (if CHR ''0'' \<le> c \<and> c \<le> CHR ''9'' then Some (of_char c - 48) else None)"

fun parse_digits :: "string \<Rightarrow> nat \<Rightarrow> num_error + nat" where
  "parse_digits [] n = Inr n"
| "parse_digits (c # s) n =
     (case digitVal c of
        None \<Rightarrow> Inl ErrSyntax
      | Some d \<Rightarrow> if n * 10 + d \<ge> 2 ^ 64 then Inl ErrRange else parse_digits s (n * 10 + d))"

definition ParseUint :: "string \<Rightarrow> num_error + nat" where
  "ParseUint s = (if s = [] then Inl ErrSyntax else parse_digits s 0)"

definition split_sign :: "string \<Rightarrow> bool \<times> string" where
  "split_sign s =
     (case s of
        [] \<Rightarrow> (False, [])
      | c # r \<Rightarrow> if c = CHR ''+'' then (False, r) else if c = CHR ''-'' then (True, r) else (False, s))"

definition ParseInt :: "string \<Rightarrow> int \<times> num_error option" where
  "ParseInt s =
     (let (neg, r) = split_sign s
      in case ParseUint r of
           Inl ErrSyntax \<Rightarrow> (0, Some ErrSyntax)
         | Inl ErrRange \<Rightarrow> (if neg then - (2 ^ 63) else 2 ^ 63 - 1, Some ErrRange)
         | Inr un \<Rightarrow>
             if \<not> neg \<and> un \<ge> 2 ^ 63 then (2 ^ 63 - 1, Some ErrRange)
             else if neg \<and> un > 2 ^ 63 then (- (2 ^ 63), Some ErrRange)
             else (if neg then - int un else int un, None))"

abbreviation Atoi :: "string \<Rightarrow> int \<times> num_error option" where
  "Atoi \<equiv> ParseInt"

section \<open>Booleans\<close>

definition ParseBool :: "string \<Rightarrow> bool option" where
  "ParseBool s =
     (if s \<in> {''1'', ''t'', ''T'', ''true'', ''TRUE'', ''True''} then Some True
      else if s \<in> {''0'', ''f'', ''F'', ''false'', ''FALSE'', ''False''} then Some False
      else None)"

section \<open>Printing and parsing\<close>

lemma digitVal_digit: "d < 10 \<Longrightarrow> digitVal (digit d) = Some d"
proof -
  assume "d < 10"
  then have "d \<in> {0, 1, 2, 3, 4, 5, 6, 7, 8, 9}" by auto
  then show ?thesis by (elim insertE emptyE) (simp_all add: digitVal_def digit_def less_eq_char_def)
qed

lemma parse_digits_append:
  "parse_digits (s @ t) n = (case parse_digits s n of Inl e \<Rightarrow> Inl e | Inr m \<Rightarrow> parse_digits t m)"
  by (induction s arbitrary: n) (auto split: option.splits)

lemma parse_digits_natToBase: "n < 2 ^ 64 \<Longrightarrow> parse_digits (natToBase 10 n) 0 = Inr n"
proof (induction n rule: less_induct)
  case (less n)
  show ?case
  proof (cases "n < 10")
    case True
    then show ?thesis by (subst natToBase.simps) (simp add: digitVal_digit)
  next
    case False
    then have "parse_digits (natToBase 10 (n div 10)) 0 = Inr (n div 10)" using less by simp
    with False less.prems show ?thesis
      by (subst natToBase.simps) (simp add: parse_digits_append digitVal_digit)
  qed
qed

lemma digit_no_sign: "d < 10 \<Longrightarrow> digit d \<noteq> CHR ''+'' \<and> digit d \<noteq> CHR ''-''"
proof -
  assume "d < 10"
  moreover have "digitVal CHR ''+'' = None" "digitVal CHR ''-'' = None" by (simp_all add: digitVal_def less_eq_char_def)
  ultimately show ?thesis using digitVal_digit by fastforce
qed

lemma hd_natToBase: "\<exists>d < 10. \<exists>r. natToBase 10 n = digit d # r"
proof (induction n rule: less_induct)
  case (less n)
  show ?case
  proof (cases "n < 10")
    case True
    then show ?thesis by (subst natToBase.simps) auto
  next
    case False
    with less [of "n div 10"] obtain d r where "d < 10" "natToBase 10 (n div 10) = digit d # r" by auto
    with False show ?thesis by (subst natToBase.simps) auto
  qed
qed

lemma split_sign_natToBase: "split_sign (natToBase 10 n) = (False, natToBase 10 n)"
proof -
  obtain d r where "d < 10" "natToBase 10 n = digit d # r" using hd_natToBase by blast
  then show ?thesis using digit_no_sign by (simp add: split_sign_def)
qed

lemma natToBase_digits: "c \<in> set (natToBase 10 n) \<Longrightarrow> digitVal c \<noteq> None"
proof (induction n rule: less_induct)
  case (less n)
  show ?case
  proof (cases "n < 10")
    case True
    then show ?thesis using less.prems by (subst (asm) natToBase.simps) (auto simp: digitVal_digit)
  next
    case False
    then have "natToBase 10 n = natToBase 10 (n div 10) @ [digit (n mod 10)]" by (subst natToBase.simps) simp
    then show ?thesis using False less.prems less.IH [of "n div 10"] by (auto simp: digitVal_digit)
  qed
qed

lemma itoa_chars: "digitVal c = None \<Longrightarrow> c \<noteq> CHR ''-'' \<Longrightarrow> c \<notin> set (itoa i)"
  using natToBase_digits [of c "nat (- i)"] natToBase_digits [of c "nat i"] by (auto simp: itoa_def)

text \<open>Every \<open>int\<close> is read back from its decimal form.\<close>

lemma Atoi_itoa:
  assumes "- (2 ^ 63) \<le> i" and "i < 2 ^ 63"
  shows "Atoi (itoa i) = (i, None)"
proof (cases "i < 0")
  case True
  have "nat (- i) \<le> 2 ^ 63" using assms(1) by simp
  then have "ParseUint (natToBase 10 (nat (- i))) = Inr (nat (- i))"
    by (simp add: ParseUint_def parse_digits_natToBase)
  with True assms show ?thesis by (simp add: ParseInt_def itoa_def split_sign_def)
next
  case False
  have "nat i < 2 ^ 63" using assms(2) False by simp
  then have "ParseUint (natToBase 10 (nat i)) = Inr (nat i)" by (simp add: ParseUint_def parse_digits_natToBase)
  with False assms show ?thesis by (simp add: ParseInt_def itoa_def split_sign_natToBase)
qed

lemma itoa_sint_inject: "itoa (sint (a :: i64)) = itoa (sint b) \<longleftrightarrow> a = b"
proof -
  have r: "Atoi (itoa (sint w)) = (sint w, None)" for w :: i64
    by (rule Atoi_itoa) (use sint_greater_eq [of w] sint_lt [of w] in simp_all)
  have "itoa (sint a) = itoa (sint b) \<Longrightarrow> sint a = sint b" using r [of a] r [of b] by (metis fst_conv)
  then show ?thesis by (auto intro: signed_word_eqI)
qed

lemma sint_i64_inc: "sint (c :: i64) < 2 ^ 63 - 1 \<Longrightarrow> sint (c + 1) = sint c + 1"
proof -
  assume "sint c < 2 ^ 63 - 1"
  moreover have "- (2 ^ 63) \<le> sint c" using sint_greater_eq [of c] by simp
  moreover have "c + 1 = word_of_int (sint c + 1)" by simp
  ultimately show ?thesis by (simp add: sint_sbintrunc' signed_take_bit_int_eq_self del: of_int_add of_int_sint)
qed

end
