(* ===== verification/Go_Text.thy ===== *)
theory Go_Text
  imports Go_Strconv
begin

text \<open>
  Text as runes, regular expressions and floating point numbers, as far as the sources use them.

  A rune is kept as its UTF-8 encoding, a string of one to four bytes; a byte that is not part of a valid encoding reads as
  U+FFFD, as \<open>range\<close> and \<open>utf8.RuneCountInString\<close> do. Regular expressions work on runes: the expressions of the sources are
  written as values of \<open>regex\<close> and matched by derivatives, which is shown to agree with their language. A \<open>float64\<close> is a
  rational, an infinity or NaN; conversion from an integer rounds to 53 bits, ties to even.
\<close>

section \<open>Runes\<close>

type_synonym rune = string

function runes :: "string \<Rightarrow> rune list" where
  "runes s = (if s = [] then [] else fst (firstRune s) # runes (snd (firstRune s)))"
  by pat_completeness auto
termination by (relation "measure length") (auto simp: firstRune_shrinks)

declare runes.simps [simp del]

definition RuneCount :: "string \<Rightarrow> nat" where
  "RuneCount s = length (runes s)"

lemma runes_Nil [simp]: "runes [] = []"
  by (simp add: runes.simps)

lemma runes_ascii: "c < CHR 0x80 \<Longrightarrow> runes (c # s) = [c] # runes s"
  by (subst runes.simps) (simp add: firstRune_def runeLen_def)

lemma runes_ascii_string: "\<forall>c \<in> set s. c < CHR 0x80 \<Longrightarrow> runes s = map (\<lambda>c. [c]) s"
  by (induction s) (simp_all add: runes_ascii)

lemma RuneCount_le: "RuneCount s \<le> length s"
proof (induction s rule: length_induct)
  case (1 s)
  show ?case
  proof (cases "s = []")
    case False
    then have less: "length (snd (firstRune s)) < length s" by (rule firstRune_shrinks)
    with 1 have "RuneCount (snd (firstRune s)) \<le> length (snd (firstRune s))" by blast
    with less False show ?thesis by (simp add: RuneCount_def runes.simps [of s])
  qed (simp add: RuneCount_def)
qed

lemma firstRune_ascii: "s \<noteq> [] \<Longrightarrow> fst (firstRune s) = [c] \<Longrightarrow> s = c # snd (firstRune s)"
proof -
  assume ne: "s \<noteq> []" and f: "fst (firstRune s) = [c]"
  show ?thesis
  proof (cases "runeLen s = 0")
    case True
    with f show ?thesis by (simp add: firstRune_def runeError_def)
  next
    case False
    with f have "take (runeLen s) s = [c]" "snd (firstRune s) = drop (runeLen s) s" by (simp_all add: firstRune_def)
    then show ?thesis by (metis append_Cons append_Nil append_take_drop_id)
  qed
qed

text \<open>A text that reads as runes of one byte each is the sequence of these bytes.\<close>

lemma runes_bytes: "runes s = map (\<lambda>c. [c]) w \<Longrightarrow> s = w"
proof (induction w arbitrary: s)
  case Nil
  then show ?case by (cases "s = []") (simp_all add: runes.simps [of s])
next
  case (Cons c w)
  then have ne: "s \<noteq> []" by auto
  with Cons.prems have "fst (firstRune s) = [c]" "runes (snd (firstRune s)) = map (\<lambda>c. [c]) w" by (simp_all add: runes.simps [of s])
  with Cons.IH firstRune_ascii [OF ne] show ?case by metis
qed

section \<open>Regular expressions\<close>

datatype regex = RNone | REps | RClass "rune \<Rightarrow> bool" | RAlt regex regex | RCat regex regex | RStar regex

definition RPlus :: "regex \<Rightarrow> regex" where
  "RPlus r = RCat r (RStar r)"

definition ROpt :: "regex \<Rightarrow> regex" where
  "ROpt r = RAlt r REps"

fun RTimes :: "nat \<Rightarrow> regex \<Rightarrow> regex" where
  "RTimes 0 r = REps"
| "RTimes (Suc n) r = RCat r (RTimes n r)"

fun RText :: "string \<Rightarrow> regex" where
  "RText [] = REps"
| "RText (c # s) = RCat (RClass (\<lambda>r. r = [c])) (RText s)"

definition byteClass :: "(char \<Rightarrow> bool) \<Rightarrow> regex" where
  "byteClass P = RClass (\<lambda>r. case r of [c] \<Rightarrow> P c | _ \<Rightarrow> False)"

fun nullable :: "regex \<Rightarrow> bool" where
  "nullable RNone = False"
| "nullable REps = True"
| "nullable (RClass P) = False"
| "nullable (RAlt a b) = (nullable a \<or> nullable b)"
| "nullable (RCat a b) = (nullable a \<and> nullable b)"
| "nullable (RStar a) = True"

fun deriv :: "rune \<Rightarrow> regex \<Rightarrow> regex" where
  "deriv c RNone = RNone"
| "deriv c REps = RNone"
| "deriv c (RClass P) = (if P c then REps else RNone)"
| "deriv c (RAlt a b) = RAlt (deriv c a) (deriv c b)"
| "deriv c (RCat a b) = (if nullable a then RAlt (RCat (deriv c a) b) (deriv c b) else RCat (deriv c a) b)"
| "deriv c (RStar a) = RCat (deriv c a) (RStar a)"

text \<open>\<open>MatchString\<close> of an expression between \<open>^\<close> and \<open>$\<close>: the whole text matches.\<close>

fun rmatch :: "regex \<Rightarrow> rune list \<Rightarrow> bool" where
  "rmatch r [] = nullable r"
| "rmatch r (c # cs) = rmatch (deriv c r) cs"

definition MatchString :: "regex \<Rightarrow> string \<Rightarrow> bool" where
  "MatchString r s = rmatch r (runes s)"

inductive in_lang :: "regex \<Rightarrow> rune list \<Rightarrow> bool" where
  L_eps: "in_lang REps []"
| L_class: "P c \<Longrightarrow> in_lang (RClass P) [c]"
| L_alt1: "in_lang a w \<Longrightarrow> in_lang (RAlt a b) w"
| L_alt2: "in_lang b w \<Longrightarrow> in_lang (RAlt a b) w"
| L_cat: "in_lang a v \<Longrightarrow> in_lang b w \<Longrightarrow> in_lang (RCat a b) (v @ w)"
| L_star0: "in_lang (RStar a) []"
| L_star: "in_lang a v \<Longrightarrow> in_lang (RStar a) w \<Longrightarrow> in_lang (RStar a) (v @ w)"

inductive_simps lang_None [simp]: "in_lang RNone w"
inductive_simps lang_Eps [simp]: "in_lang REps w"
inductive_simps lang_Class [simp]: "in_lang (RClass P) w"
inductive_simps lang_Alt [simp]: "in_lang (RAlt a b) w"
inductive_simps lang_Cat: "in_lang (RCat a b) w"
inductive_cases lang_StarE: "in_lang (RStar a) w"

lemma nullable_lang: "nullable r \<longleftrightarrow> in_lang r []"
  by (induction r) (auto simp: lang_Cat intro: L_star0)

lemma lang_Star_Cons: "in_lang (RStar a) (c # w) \<longleftrightarrow> (\<exists>v u. w = v @ u \<and> in_lang a (c # v) \<and> in_lang (RStar a) u)"
proof
  have "in_lang r x \<Longrightarrow> r = RStar a \<Longrightarrow> x = c # w \<Longrightarrow> \<exists>v u. w = v @ u \<and> in_lang a (c # v) \<and> in_lang (RStar a) u" for r x
  proof (induction arbitrary: w rule: in_lang.induct)
    case (L_star b v u)
    then show ?case by (cases v) auto
  qed simp_all
  then show "in_lang (RStar a) (c # w) \<Longrightarrow> \<exists>v u. w = v @ u \<and> in_lang a (c # v) \<and> in_lang (RStar a) u" by blast
next
  assume "\<exists>v u. w = v @ u \<and> in_lang a (c # v) \<and> in_lang (RStar a) u"
  then show "in_lang (RStar a) (c # w)" using L_star [of a "c # v" for v] by auto
qed

lemma deriv_lang: "in_lang (deriv c r) w \<longleftrightarrow> in_lang r (c # w)"
proof (induction r arbitrary: w)
  case (RCat a b)
  have "in_lang (RCat a b) (c # w) \<longleftrightarrow> (\<exists>v u. w = v @ u \<and> in_lang a (c # v) \<and> in_lang b u) \<or> (in_lang a [] \<and> in_lang b (c # w))"
    by (auto simp: lang_Cat Cons_eq_append_conv)
  with RCat show ?case by (auto simp: lang_Cat nullable_lang)
next
  case (RStar a)
  then show ?case by (auto simp: lang_Cat lang_Star_Cons)
qed auto

lemma rmatch_lang: "rmatch r w \<longleftrightarrow> in_lang r w"
  by (induction w arbitrary: r) (auto simp: nullable_lang deriv_lang)

lemma lang_Cat_append: "in_lang (RCat a b) w \<longleftrightarrow> (\<exists>u v. w = u @ v \<and> in_lang a u \<and> in_lang b v)"
  by (auto simp: lang_Cat)

lemma lang_Class_Cat: "in_lang (RCat (RClass P) b) w \<longleftrightarrow> (\<exists>c v. w = c # v \<and> P c \<and> in_lang b v)"
proof
  show "in_lang (RCat (RClass P) b) w \<Longrightarrow> \<exists>c v. w = c # v \<and> P c \<and> in_lang b v" by (auto simp: lang_Cat_append)
next
  assume "\<exists>c v. w = c # v \<and> P c \<and> in_lang b v"
  then obtain c v where "w = [c] @ v" "in_lang (RClass P) [c]" "in_lang b v" by auto
  then show "in_lang (RCat (RClass P) b) w" unfolding lang_Cat_append by blast
qed

lemma lang_Star_Class [simp]: "in_lang (RStar (RClass P)) w \<longleftrightarrow> (\<forall>c \<in> set w. P c)"
proof (induction w)
  case Nil
  then show ?case by (simp add: L_star0)
next
  case (Cons c w)
  then show ?case by (auto simp: lang_Star_Cons)
qed

lemma lang_Plus_Class [simp]: "in_lang (RPlus (RClass P)) w \<longleftrightarrow> w \<noteq> [] \<and> (\<forall>c \<in> set w. P c)"
  by (cases w) (auto simp: RPlus_def lang_Class_Cat)

lemma lang_Times_Class [simp]: "in_lang (RTimes n (RClass P)) w \<longleftrightarrow> length w = n \<and> (\<forall>c \<in> set w. P c)"
proof (induction n arbitrary: w)
  case (Suc n)
  then show ?case by (cases w) (auto simp: lang_Class_Cat)
qed auto

lemma lang_Text [simp]: "in_lang (RText s) w \<longleftrightarrow> w = map (\<lambda>c. [c]) s"
  by (induction s arbitrary: w) (auto simp: lang_Class_Cat)

section \<open>Floating point\<close>

datatype gofloat = Fin rat | PosInf | NegInf | NotANumber

fun flt_less :: "gofloat \<Rightarrow> gofloat \<Rightarrow> bool" where
  "flt_less (Fin a) (Fin b) = (a < b)"
| "flt_less (Fin a) PosInf = True"
| "flt_less NegInf (Fin b) = True"
| "flt_less NegInf PosInf = True"
| "flt_less _ _ = False"

fun flt_eq :: "gofloat \<Rightarrow> gofloat \<Rightarrow> bool" where
  "flt_eq (Fin a) (Fin b) = (a = b)"
| "flt_eq PosInf PosInf = True"
| "flt_eq NegInf NegInf = True"
| "flt_eq _ _ = False"

definition flt_le :: "gofloat \<Rightarrow> gofloat \<Rightarrow> bool" where
  "flt_le a b = (flt_less a b \<or> flt_eq a b)"

text \<open>How often a number has to be halved to fit 53 bits.\<close>

function excess :: "nat \<Rightarrow> nat" where
  "excess n = (if n < 2 ^ 53 then 0 else Suc (excess (n div 2)))"
  by pat_completeness auto
termination by (relation "measure id") auto

declare excess.simps [simp del]

definition round53 :: "nat \<Rightarrow> nat" where
  "round53 n =
     (let k = excess n; q = n div 2 ^ k; r = n mod 2 ^ k
      in if k = 0 then n
         else (if 2 * r > 2 ^ k \<or> (2 * r = 2 ^ k \<and> odd q) then q + 1 else q) * 2 ^ k)"

definition float64_of_int :: "int \<Rightarrow> rat" where
  "float64_of_int i = (if i < 0 then - of_nat (round53 (nat (- i))) else of_nat (round53 (nat i)))"

lemma float64_of_int_exact: "\<bar>i\<bar> < 2 ^ 53 \<Longrightarrow> float64_of_int i = of_int i"
proof -
  assume "\<bar>i\<bar> < 2 ^ 53"
  then have "round53 (nat \<bar>i\<bar>) = nat \<bar>i\<bar>" by (simp add: round53_def excess.simps)
  then show ?thesis by (cases "i < 0") (simp_all add: float64_of_int_def)
qed


end
