(* ===== verification/Orm_Types.thy ===== *)
theory Orm_Types
  imports Sql_Exec Go_Text
begin

text \<open>
  The struct metadata of \<open>framework/database/scanner.go\<close>: tags, columns, primary keys and relations of a model type, and the
  access to the fields of a model value.

  What the sources read by reflection is data here. A struct type is a name with its declared fields, a field type is a value of
  \<open>goty\<close>, a Go value a value of \<open>fv\<close>. Non-nil pointers carry the address they point to, so that two pointers to equal values differ,
  as they do as keys of a Go map. \<open>int\<close> and \<open>uint\<close> are 64 bits wide; \<open>float32\<close>, arrays and \<open>[]rune\<close> are not represented. Field index
  paths have length one in the sources and are plain indices here. The order of an association list stands for the iteration
  order of the Go map.
\<close>

section \<open>Types and values\<close>

datatype goty =
    TyString | TyBytes | TyInt64 | TyInt | TyBool | TyFloat64 | TyTime | TyAny
  | TyIntW nat \<comment> \<open>\<open>int8\<close>, \<open>int16\<close>, \<open>int32\<close>\<close>
  | TyUintW nat \<comment> \<open>\<open>uint8\<close> to \<open>uint64\<close>\<close>
  | TyNamed string goty \<comment> \<open>a defined type with its underlying type\<close>
  | TyPtr goty
  | TySlice goty
  | TyStruct string

datatype fv =
    FString string | FBytes string | FInt64 i64 | FInt i64 | FBool bool | FFloat64 gofloat | FTime gotime | FAny gval
  | FIntW nat int
  | FUintW nat int
  | FNamed string fv
  | FNilPtr goty
  | FPtr nat fv
  | FSlice goty "fv list"
  | FStruct string "fv list"

record sfield =
  sf_Name :: string
  sf_Exported :: bool
  sf_Tag :: string
  sf_Type :: goty

record types =
  ty_fields :: "string \<Rightarrow> sfield list"
  ty_zero :: "string \<Rightarrow> fv list" \<comment> \<open>the zero value of a struct type\<close>

fun zeroOf :: "types \<Rightarrow> goty \<Rightarrow> fv" where
  "zeroOf T TyString = FString []"
| "zeroOf T TyBytes = FBytes []"
| "zeroOf T TyInt64 = FInt64 0"
| "zeroOf T TyInt = FInt 0"
| "zeroOf T TyBool = FBool False"
| "zeroOf T TyFloat64 = FFloat64 (Fin 0)"
| "zeroOf T TyTime = FTime 0"
| "zeroOf T TyAny = FAny GNil"
| "zeroOf T (TyIntW w) = FIntW w 0"
| "zeroOf T (TyUintW w) = FUintW w 0"
| "zeroOf T (TyNamed n u) = FNamed n (zeroOf T u)"
| "zeroOf T (TyPtr t) = FNilPtr t"
| "zeroOf T (TySlice t) = FSlice t []"
| "zeroOf T (TyStruct n) = FStruct n (ty_zero T n)"

text \<open>The types of columns: everything a driver value can be converted to.\<close>

fun basic_ty :: "goty \<Rightarrow> bool" where
  "basic_ty (TyNamed n u) = False"
| "basic_ty (TyPtr t) = False"
| "basic_ty (TySlice t) = False"
| "basic_ty (TyStruct n) = False"
| "basic_ty (TyIntW w) = (w \<in> {8, 16, 32})"
| "basic_ty (TyUintW w) = (w \<in> {8, 16, 32, 64})"
| "basic_ty t = True"

fun has_type :: "types \<Rightarrow> fv \<Rightarrow> goty \<Rightarrow> bool" and has_types :: "types \<Rightarrow> fv list \<Rightarrow> goty list \<Rightarrow> bool" where
  "has_type T (FString s) t = (t = TyString)"
| "has_type T (FBytes s) t = (t = TyBytes)"
| "has_type T (FInt64 n) t = (t = TyInt64)"
| "has_type T (FInt n) t = (t = TyInt)"
| "has_type T (FBool b) t = (t = TyBool)"
| "has_type T (FFloat64 q) t = (t = TyFloat64)"
| "has_type T (FTime x) t = (t = TyTime)"
| "has_type T (FAny g) t = (t = TyAny)"
| "has_type T (FIntW w i) t = (t = TyIntW w \<and> - (2 ^ (w - 1)) \<le> i \<and> i < 2 ^ (w - 1))"
| "has_type T (FUintW w i) t = (t = TyUintW w \<and> 0 \<le> i \<and> i < 2 ^ w)"
| "has_type T (FNamed n v) t = (case t of TyNamed m u \<Rightarrow> m = n \<and> has_type T v u | _ \<Rightarrow> False)"
| "has_type T (FNilPtr u) t = (t = TyPtr u)"
| "has_type T (FPtr a v) t = (case t of TyPtr u \<Rightarrow> has_type T v u | _ \<Rightarrow> False)"
| "has_type T (FSlice u vs) t = (t = TySlice u \<and> has_types T vs (replicate (length vs) u))"
| "has_type T (FStruct n vs) t = (t = TyStruct n \<and> has_types T vs (map sf_Type (ty_fields T n)))"
| "has_types T [] ts = (ts = [])"
| "has_types T (v # vs) ts = (case ts of [] \<Rightarrow> False | t # ts' \<Rightarrow> has_type T v t \<and> has_types T vs ts')"

lemma has_types_iff: "has_types T vs ts \<longleftrightarrow> list_all2 (has_type T) vs ts"
  by (induction vs arbitrary: ts) (auto split: list.splits)

section \<open>Tags\<close>

text \<open>\<open>toSnake\<close> works on runes; a rune is its UTF-8 encoding.\<close>

definition snakeRune :: "bool \<Rightarrow> rune \<Rightarrow> string" where
  "snakeRune first r =
     (case r of
        [c] \<Rightarrow> if CHR ''A'' \<le> c \<and> c \<le> CHR ''Z'' then (if first then [] else ''_'') @ [char_of (of_char c + (32 :: nat))] else r
      | _ \<Rightarrow> r)"

definition toSnake :: "string \<Rightarrow> string" where
  "toSnake s = (case runes s of [] \<Rightarrow> [] | r # rs \<Rightarrow> snakeRune True r @ concat (map (snakeRune False) rs))"

definition parseTag :: "string \<Rightarrow> string \<Rightarrow> string \<times> string list" where
  "parseTag tag fieldName =
     (if tag = [] then (toSnake fieldName, [])
      else (let parts = SplitOn CHR '','' tag; colName = hd parts
            in (if colName = [] then toSnake fieldName else colName, tl parts)))"

definition containsOpt :: "string list \<Rightarrow> string \<Rightarrow> bool" where
  "containsOpt opts opt = (\<exists>x \<in> set opts. x = opt)"

definition isRelationTag :: "string \<Rightarrow> bool" where
  "isRelationTag tag = (HasPrefix tag ''has_many:'' \<or> HasPrefix tag ''belongs_to:'' \<or> HasPrefix tag ''many_to_many:'')"

text \<open>\<open>strings.SplitN(s, ":", 2)\<close>.\<close>

fun splitColon :: "string \<Rightarrow> string \<times> string option" where
  "splitColon [] = ([], None)"
| "splitColon (c # s) = (if c = CHR '':'' then ([], Some s) else (let (a, b) = splitColon s in (c # a, b)))"

record relationDef =
  rd_kind :: string
  rd_table :: string
  rd_foreignKey :: string
  rd_joinTable :: string
  rd_joinKey :: string
  rd_refKey :: string
  rd_fieldIndex :: nat
  rd_elemType :: goty

definition relation_option :: "string \<Rightarrow> relationDef \<Rightarrow> relationDef" where
  "relation_option part rel =
     (case splitColon part of
        (k, None) \<Rightarrow> rel
      | (k, Some v) \<Rightarrow>
          if k = ''foreign_key'' then rel\<lparr>rd_foreignKey := v\<rparr>
          else if k = ''join_table'' then rel\<lparr>rd_joinTable := v\<rparr>
          else if k = ''join_key'' then rel\<lparr>rd_joinKey := v\<rparr>
          else if k = ''ref_key'' then rel\<lparr>rd_refKey := v\<rparr>
          else rel)"

definition strip_ptr :: "goty \<Rightarrow> goty" where
  "strip_ptr t = (case t of TyPtr u \<Rightarrow> u | _ \<Rightarrow> t)"

definition relation_elem :: "goty \<Rightarrow> goty" where
  "relation_elem t = (case strip_ptr t of TySlice u \<Rightarrow> strip_ptr u | u \<Rightarrow> u)"

definition parseRelationTag :: "string \<Rightarrow> sfield \<Rightarrow> nat \<Rightarrow> relationDef" where
  "parseRelationTag tag f idx =
     (let parts = SplitOn CHR '','' tag;
          (kind, tbl) = splitColon (hd parts);
          rel = \<lparr>rd_kind = kind, rd_table = (case tbl of Some t \<Rightarrow> t | None \<Rightarrow> []), rd_foreignKey = [], rd_joinTable = [],
                 rd_joinKey = [], rd_refKey = [], rd_fieldIndex = idx, rd_elemType = relation_elem (sf_Type f)\<rparr>
      in fold relation_option (tl parts) rel)"

section \<open>Struct metadata\<close>

record structInfo =
  si_fields :: "(string, nat) gomap"
  si_pkCol :: string
  si_pkIndex :: "nat option"
  si_autoID :: bool
  si_autoTimeCols :: "string list"
  si_insertCols :: "string list"
  si_updateCols :: "string list"
  si_relations :: "(string, relationDef) gomap"

definition blank_info :: structInfo where
  "blank_info = \<lparr>si_fields = [], si_pkCol = [], si_pkIndex = None, si_autoID = False, si_autoTimeCols = [], si_insertCols = [],
     si_updateCols = [], si_relations = []\<rparr>"

definition add_field :: "nat \<Rightarrow> sfield \<Rightarrow> structInfo \<Rightarrow> structInfo" where
  "add_field i f info =
     (let tag = sf_Tag f
      in if \<not> sf_Exported f \<or> tag = ''-'' then info
         else if isRelationTag tag
         then info\<lparr>si_relations := AList.update (sf_Name f) (parseRelationTag tag f i) (si_relations info)\<rparr>
         else (let (colName, opts) = parseTag tag (sf_Name f);
                   info1 = info\<lparr>si_fields := AList.update colName i (si_fields info)\<rparr>;
                   info2 = (if containsOpt opts ''primaryKey''
                            then info1\<lparr>si_pkCol := colName, si_pkIndex := Some i, si_autoID := containsOpt opts ''autoIncrement''\<rparr>
                            else info1)
               in if containsOpt opts ''autoTime'' then info2\<lparr>si_autoTimeCols := si_autoTimeCols info2 @ [colName]\<rparr> else info2))"

fun add_fields :: "nat \<Rightarrow> sfield list \<Rightarrow> structInfo \<Rightarrow> structInfo" where
  "add_fields i [] info = info"
| "add_fields i (f # fs) info = add_fields (Suc i) fs (add_field i f info)"

definition buildStructInfo :: "sfield list \<Rightarrow> structInfo" where
  "buildStructInfo fs =
     (let info = add_fields 0 fs blank_info
      in info\<lparr>si_insertCols := filter (\<lambda>col. \<not> (col = si_pkCol info \<and> si_autoID info)) (map fst (si_fields info)),
              si_updateCols := filter (\<lambda>col. col \<noteq> si_pkCol info) (map fst (si_fields info))\<rparr>)"

text \<open>The cache, keyed by the name of the struct type.\<close>

definition getStructInfo :: "types \<Rightarrow> string \<Rightarrow> (string, structInfo) gomap \<Rightarrow> structInfo \<times> (string, structInfo) gomap" where
  "getStructInfo T n cache =
     (case map_of cache n of
        Some info \<Rightarrow> (info, cache)
      | None \<Rightarrow> (let info = buildStructInfo (ty_fields T n) in (info, AList.update n info cache)))"

section \<open>Access to the fields of a model\<close>

definition cutInt :: "nat \<Rightarrow> int \<Rightarrow> int" where
  "cutInt w i = (i + 2 ^ (w - 1)) mod 2 ^ w - 2 ^ (w - 1)"

text \<open>\<open>SetInt\<close> and \<open>SetUint\<close>, by the kind of the field; other kinds are left alone.\<close>

fun set_int :: "fv \<Rightarrow> i64 \<Rightarrow> fv" where
  "set_int (FInt64 _) x = FInt64 x"
| "set_int (FInt _) x = FInt x"
| "set_int (FIntW w _) x = FIntW w (cutInt w (sint x))"
| "set_int (FUintW w _) x = FUintW w (uint x mod 2 ^ w)"
| "set_int (FNamed n v) x = FNamed n (set_int v x)"
| "set_int v x = v"

definition setID :: "structInfo \<Rightarrow> i64 \<Rightarrow> fv list \<Rightarrow> fv list" where
  "setID si x vals = (case si_pkIndex si of None \<Rightarrow> vals | Some i \<Rightarrow> vals[i := set_int (vals ! i) x])"

definition pkValue :: "structInfo \<Rightarrow> fv list \<Rightarrow> string \<times> fv option" where
  "pkValue si vals =
     (if si_pkCol si = [] then ([], None)
      else (si_pkCol si, map_option (\<lambda>i. vals ! i) (si_pkIndex si)))"

text \<open>
  The loops over the fields, which also stamp time columns; \<open>skip\<close> says which columns are left out, \<open>now\<close> is the clock as read at
  each column.
\<close>

definition is_time :: "fv \<Rightarrow> bool" where
  "is_time v = (case v of FTime _ \<Rightarrow> True | _ \<Rightarrow> False)"

fun write_cols :: "(string \<Rightarrow> bool) \<Rightarrow> (string \<Rightarrow> bool) \<Rightarrow> (string \<Rightarrow> gotime) \<Rightarrow> (string, nat) gomap \<Rightarrow> fv list \<Rightarrow> (string \<times> fv) list \<times> fv list" where
  "write_cols skip stamped now [] vals = ([], vals)"
| "write_cols skip stamped now ((col, i) # fs) vals =
     (if skip col then write_cols skip stamped now fs vals
      else (let vals1 = (if stamped col \<and> is_time (vals ! i) then vals[i := FTime (now col)] else vals);
                (rest, vals2) = write_cols skip stamped now fs vals1
            in ((col, vals1 ! i) # rest, vals2)))"

definition insertable :: "structInfo \<Rightarrow> (string \<Rightarrow> gotime) \<Rightarrow> fv list \<Rightarrow> (string \<times> fv) list \<times> fv list" where
  "insertable si now vals =
     write_cols (\<lambda>col. col = si_pkCol si \<and> si_autoID si) (\<lambda>col. col = ''created_at'' \<or> col = ''updated_at'') now (si_fields si) vals"

definition updatable :: "structInfo \<Rightarrow> (string \<Rightarrow> gotime) \<Rightarrow> fv list \<Rightarrow> (string \<times> fv) list \<times> fv list" where
  "updatable si now vals = write_cols (\<lambda>col. col = si_pkCol si) (\<lambda>col. col = ''updated_at'') now (si_fields si) vals"


section \<open>What the metadata of a type is\<close>

text \<open>Every column is one field of the struct, and no two columns share a field.\<close>

definition column_of :: "sfield \<Rightarrow> string" where
  "column_of f = fst (parseTag (sf_Tag f) (sf_Name f))"

definition info_ok :: "sfield list \<Rightarrow> structInfo \<Rightarrow> bool" where
  "info_ok fs info \<longleftrightarrow> distinct (map fst (si_fields info))
     \<and> (\<forall>(col, i) \<in> set (si_fields info). i < length fs \<and> column_of (fs ! i) = col \<and> sf_Exported (fs ! i) \<and> sf_Tag (fs ! i) \<noteq> ''-''
          \<and> \<not> isRelationTag (sf_Tag (fs ! i)))"

lemma AList_update_set: "(k', v') \<in> set (AList.update k v xs) \<Longrightarrow> (k', v') = (k, v) \<or> (k', v') \<in> set xs"
  by (induction xs) (auto split: if_splits)

lemma add_field_ok: "info_ok fs info \<Longrightarrow> i < length fs \<Longrightarrow> info_ok fs (add_field i (fs ! i) info)"
  by (auto simp: info_ok_def add_field_def Let_def column_of_def distinct_update split: prod.splits dest!: AList_update_set)

lemma add_fields_ok: "info_ok fs info \<Longrightarrow> fs = pre @ gs \<Longrightarrow> info_ok fs (add_fields (length pre) gs info)"
proof (induction gs arbitrary: pre info)
  case (Cons g gs)
  then have "info_ok fs (add_field (length pre) g info)" using add_field_ok [of fs info "length pre"] by simp
  with Cons.IH [of _ "pre @ [g]"] Cons.prems(2) show ?case by simp
qed simp

lemma buildStructInfo_ok: "info_ok fs (buildStructInfo fs)"
proof -
  have "info_ok fs blank_info" by (simp add: info_ok_def blank_info_def)
  then have "info_ok fs (add_fields 0 fs blank_info)" using add_fields_ok [of fs blank_info "[]" fs] by simp
  then show ?thesis by (simp add: buildStructInfo_def Let_def info_ok_def)
qed

lemma info_ok_distinct_indices: "info_ok fs info \<Longrightarrow> distinct (map snd (si_fields info))"
proof -
  assume ok: "info_ok fs info"
  have "inj_on snd (set (si_fields info))"
  proof (rule inj_onI)
    fix p q assume "p \<in> set (si_fields info)" "q \<in> set (si_fields info)" "snd p = snd q"
    with ok show "p = q" unfolding info_ok_def by (cases p; cases q) fastforce
  qed
  moreover have "distinct (si_fields info)" using ok by (simp add: info_ok_def distinct_map)
  ultimately show ?thesis by (simp add: distinct_map)
qed

end
