(* ===== verification/Orm_Scan.thy ===== *)
theory Orm_Scan
  imports Orm_Types
begin

text \<open>
  Row scanning of \<open>framework/database/scanner.go\<close>: the conversion of driver values to Go values, the nullable scanners, and the
  functions that fill structs, maps and slices from rows.

  What a driver delivers is a \<open>gval\<close>. \<open>slib\<close> holds the library functions the sources call: \<open>fmt.Sprintf("%v")\<close>,
  \<open>strconv.ParseFloat\<close>, \<open>time.Parse\<close> and \<open>database/sql\<close>'s own conversion, which \<open>rows.Scan\<close> applies to plain pointers.
  An argument \<open>alloc\<close> gives the addresses of the memory a scan allocates. A scan that fails keeps what it wrote before.
\<close>

section \<open>Converting driver values\<close>

record slib =
  sl_sprint :: "gval \<Rightarrow> string"
  sl_ParseFloat :: "string \<Rightarrow> gofloat option"
  sl_ParseTime :: "string \<Rightarrow> string \<Rightarrow> gotime option"
  sl_Scan :: "goty \<Rightarrow> gval \<Rightarrow> string + fv"

datatype orm_error =
    ConvertErr gval goty | ParseErr string goty | ScanErr nat string orm_error | ScanCount | LibErr string
  | NotSlicePointer goty | RelationNotFound string string | UnknownKind string | NoForeignKey string | LoadErr string orm_error
  | OrmPanic string

definition flt_to_int64 :: "gofloat \<Rightarrow> i64" where
  "flt_to_int64 f = (case f of Fin q \<Rightarrow> float64_to_int64 q | _ \<Rightarrow> word_of_int (- (2 ^ 63)))"

text \<open>\<open>uint64(f)\<close>, as compiled for amd64.\<close>

definition float64_to_uint64 :: "rat \<Rightarrow> i64" where
  "float64_to_uint64 q =
     (if q < 2 ^ 63 then float64_to_int64 q else float64_to_int64 (q - 2 ^ 63) + 2 ^ 63)"

definition parseIntInto :: "slib \<Rightarrow> string \<Rightarrow> orm_error + i64" where
  "parseIntInto lib s0 =
     (let s = TrimSpace s0; (n, err) = ParseInt s
      in if err \<noteq> None
         then (case sl_ParseFloat lib s of Some f \<Rightarrow> Inr (flt_to_int64 f) | None \<Rightarrow> Inl (ParseErr s TyInt64))
         else Inr (word_of_int n))"

definition parseFloatInto :: "slib \<Rightarrow> string \<Rightarrow> orm_error + gofloat" where
  "parseFloatInto lib s = (case sl_ParseFloat lib (TrimSpace s) of Some f \<Rightarrow> Inr f | None \<Rightarrow> Inl (ParseErr s TyFloat64))"

definition parseBoolInto :: "string \<Rightarrow> orm_error + bool" where
  "parseBoolInto s =
     (let w = map lowerByte (TrimSpace s)
      in if w \<in> set [''t'', ''true'', ''1'', ''y'', ''yes''] then Inr True
         else if w \<in> set [''f'', ''false'', ''0'', ''n'', ''no'', ''''] then Inr False
         else Inl (ParseErr s TyBool))"

definition timeLayouts :: "string list" where
  "timeLayouts =
     [''2006-01-02T15:04:05.999999999Z07:00'', ''2006-01-02T15:04:05Z07:00'', ''2006-01-02 15:04:05.999999-07'',
      ''2006-01-02 15:04:05.999999'', ''2006-01-02 15:04:05-07'', ''2006-01-02 15:04:05'', ''2006-01-02'']"

fun parse_layouts :: "slib \<Rightarrow> string list \<Rightarrow> string \<Rightarrow> gotime option" where
  "parse_layouts lib [] s = None"
| "parse_layouts lib (l # ls) s = (case sl_ParseTime lib l s of Some t \<Rightarrow> Some t | None \<Rightarrow> parse_layouts lib ls s)"

definition parseTimeInto :: "slib \<Rightarrow> string \<Rightarrow> orm_error + gotime" where
  "parseTimeInto lib s0 =
     (let s = TrimSpace s0 in case parse_layouts lib timeLayouts s of Some t \<Rightarrow> Inr t | None \<Rightarrow> Inl (ParseErr s TyTime))"

text \<open>\<open>string(rune(n))\<close> with the range check of \<open>reflect\<close>.\<close>

definition rune_string :: "int \<Rightarrow> string" where
  "rune_string n =
     (if n < 0 \<or> n > 0x10FFFF \<or> (0xD800 \<le> n \<and> n \<le> 0xDFFF) then runeError
      else (let k = nat n; tail = (\<lambda>j. char_of (128 + k div 64 ^ j mod 64))
            in if k < 0x80 then [char_of k]
               else if k < 0x800 then [char_of (192 + k div 64), tail 0]
               else if k < 0x10000 then [char_of (224 + k div 4096), tail 1, tail 0]
               else [char_of (240 + k div 262144), tail 2, tail 1, tail 0]))"

definition int_value :: "gval \<Rightarrow> int option" where
  "int_value src = (case src of GInt64 n \<Rightarrow> Some (sint n) | GInt n \<Rightarrow> Some (sint n) | GInt32 n \<Rightarrow> Some (sint n) | _ \<Rightarrow> None)"

text \<open>\<open>AssignableTo\<close> and \<open>ConvertibleTo\<close> with the conversions of \<open>reflect\<close>, for a destination without a case of its own.\<close>

fun reflect_convert :: "goty \<Rightarrow> gval \<Rightarrow> fv option" where
  "reflect_convert TyAny src = Some (FAny src)"
| "reflect_convert TyString src =
     (case src of
        GString s \<Rightarrow> Some (FString s)
      | GBytes s \<Rightarrow> Some (FString s)
      | _ \<Rightarrow> map_option (\<lambda>n. FString (rune_string n)) (int_value src))"
| "reflect_convert TyBytes src = (case src of GBytes s \<Rightarrow> Some (FBytes s) | GString s \<Rightarrow> Some (FBytes s) | _ \<Rightarrow> None)"
| "reflect_convert TyInt64 src =
     (case src of GFloat64 q \<Rightarrow> Some (FInt64 (float64_to_int64 q)) | _ \<Rightarrow> map_option (\<lambda>n. FInt64 (word_of_int n)) (int_value src))"
| "reflect_convert TyInt src =
     (case src of GFloat64 q \<Rightarrow> Some (FInt (float64_to_int64 q)) | _ \<Rightarrow> map_option (\<lambda>n. FInt (word_of_int n)) (int_value src))"
| "reflect_convert (TyIntW w) src =
     (case src of
        GFloat64 q \<Rightarrow> Some (FIntW w (cutInt w (sint (float64_to_int64 q))))
      | _ \<Rightarrow> map_option (\<lambda>n. FIntW w (cutInt w n)) (int_value src))"
| "reflect_convert (TyUintW w) src =
     (case src of
        GFloat64 q \<Rightarrow> Some (FUintW w (uint (float64_to_uint64 q) mod 2 ^ w))
      | _ \<Rightarrow> map_option (\<lambda>n. FUintW w (n mod 2 ^ w)) (int_value src))"
| "reflect_convert TyBool src = (case src of GBool b \<Rightarrow> Some (FBool b) | _ \<Rightarrow> None)"
| "reflect_convert TyFloat64 src =
     (case src of GFloat64 q \<Rightarrow> Some (FFloat64 (Fin q)) | _ \<Rightarrow> map_option (\<lambda>n. FFloat64 (Fin (float64_of_int n))) (int_value src))"
| "reflect_convert TyTime src = (case src of GTime t \<Rightarrow> Some (FTime t) | _ \<Rightarrow> None)"
| "reflect_convert (TyNamed n u) src = (if basic_ty u then map_option (FNamed n) (reflect_convert u src) else None)"
| "reflect_convert t src = None"

text \<open>\<open>old\<close> is the value the destination holds; \<open>*[]byte\<close> keeps it for a source that is neither bytes nor a string.\<close>

definition convertAssign :: "slib \<Rightarrow> goty \<Rightarrow> fv \<Rightarrow> gval \<Rightarrow> orm_error + fv" where
  "convertAssign lib t old src =
     (case t of
        TyString \<Rightarrow> Inr (FString (case src of GString s \<Rightarrow> s | GBytes s \<Rightarrow> s | _ \<Rightarrow> sl_sprint lib src))
      | TyBytes \<Rightarrow> Inr (case src of GBytes s \<Rightarrow> FBytes s | GString s \<Rightarrow> FBytes s | _ \<Rightarrow> old)
      | TyInt64 \<Rightarrow>
          (case src of
             GInt64 s \<Rightarrow> Inr (FInt64 s)
           | GInt32 s \<Rightarrow> Inr (FInt64 (scast s))
           | GFloat64 s \<Rightarrow> Inr (FInt64 (float64_to_int64 s))
           | GBytes s \<Rightarrow> map_sum id FInt64 (parseIntInto lib s)
           | GString s \<Rightarrow> map_sum id FInt64 (parseIntInto lib s)
           | _ \<Rightarrow> Inl (ConvertErr src t))
      | TyInt \<Rightarrow>
          (case src of
             GInt64 s \<Rightarrow> Inr (FInt s)
           | GInt s \<Rightarrow> Inr (FInt s)
           | GFloat64 s \<Rightarrow> Inr (FInt (float64_to_int64 s))
           | GBytes s \<Rightarrow> map_sum id FInt (parseIntInto lib s)
           | GString s \<Rightarrow> map_sum id FInt (parseIntInto lib s)
           | _ \<Rightarrow> Inl (ConvertErr src t))
      | TyBool \<Rightarrow>
          (case src of
             GBool s \<Rightarrow> Inr (FBool s)
           | GInt64 s \<Rightarrow> Inr (FBool (s \<noteq> 0))
           | GBytes s \<Rightarrow> map_sum id FBool (parseBoolInto s)
           | GString s \<Rightarrow> map_sum id FBool (parseBoolInto s)
           | _ \<Rightarrow> Inl (ConvertErr src t))
      | TyFloat64 \<Rightarrow>
          (case src of
             GFloat64 s \<Rightarrow> Inr (FFloat64 (Fin s))
           | GInt64 s \<Rightarrow> Inr (FFloat64 (Fin (float64_of_int (sint s))))
           | GBytes s \<Rightarrow> map_sum id FFloat64 (parseFloatInto lib s)
           | GString s \<Rightarrow> map_sum id FFloat64 (parseFloatInto lib s)
           | _ \<Rightarrow> Inl (ConvertErr src t))
      | TyTime \<Rightarrow>
          (case src of
             GTime s \<Rightarrow> Inr (FTime s)
           | GBytes s \<Rightarrow> map_sum id FTime (parseTimeInto lib s)
           | GString s \<Rightarrow> map_sum id FTime (parseTimeInto lib s)
           | _ \<Rightarrow> Inl (ConvertErr src t))
      | _ \<Rightarrow> (case reflect_convert t src of Some v \<Rightarrow> Inr v | None \<Rightarrow> Inl (ConvertErr src t)))"

section \<open>The nullable scanners\<close>

definition nullableScanner_Scan :: "slib \<Rightarrow> goty \<Rightarrow> fv \<Rightarrow> gval \<Rightarrow> orm_error option \<times> fv" where
  "nullableScanner_Scan lib t old src =
     (if src = GNil then (None, old)
      else (case convertAssign lib t old src of Inl e \<Rightarrow> (Some e, old) | Inr v \<Rightarrow> (None, v)))"

text \<open>\<open>t\<close> is the type pointed to; a nil pointer is first set to new memory at \<open>addr\<close>.\<close>

definition nullablePtrScanner_Scan :: "slib \<Rightarrow> types \<Rightarrow> nat \<Rightarrow> goty \<Rightarrow> fv \<Rightarrow> gval \<Rightarrow> orm_error option \<times> fv" where
  "nullablePtrScanner_Scan lib T addr t old src =
     (if src = GNil then (None, FNilPtr t)
      else (let (a, v) = (case old of FPtr a v \<Rightarrow> (a, v) | _ \<Rightarrow> (addr, zeroOf T t))
            in case convertAssign lib t v src of
                 Inl e \<Rightarrow> (Some e, FPtr a v)
               | Inr v' \<Rightarrow> (None, FPtr a v')))"

definition scan_field :: "slib \<Rightarrow> types \<Rightarrow> nat \<Rightarrow> goty \<Rightarrow> fv \<Rightarrow> gval \<Rightarrow> orm_error option \<times> fv" where
  "scan_field lib T addr t old src =
     (case t of TyPtr u \<Rightarrow> nullablePtrScanner_Scan lib T addr u old src | _ \<Rightarrow> nullableScanner_Scan lib t old src)"

section \<open>Rows\<close>

text \<open>\<open>rows.Scan\<close> on the scanners of the columns, from the left; a column without a field is read and dropped.\<close>

fun scan_cols ::
  "slib \<Rightarrow> types \<Rightarrow> (nat \<Rightarrow> nat) \<Rightarrow> sfield list \<Rightarrow> (string, nat) gomap \<Rightarrow> nat \<Rightarrow> string list \<Rightarrow> gval list \<Rightarrow> fv list \<Rightarrow> orm_error option \<times> fv list" where
  "scan_cols lib T alloc fs m i (col # cols) (src # srcs) vals =
     (case map_of m col of
        None \<Rightarrow> scan_cols lib T alloc fs m (Suc i) cols srcs vals
      | Some k \<Rightarrow>
          (case scan_field lib T (alloc i) (sf_Type (fs ! k)) (vals ! k) src of
             (Some e, v) \<Rightarrow> (Some (ScanErr i col e), vals[k := v])
           | (None, v) \<Rightarrow> scan_cols lib T alloc fs m (Suc i) cols srcs (vals[k := v])))"
| "scan_cols lib T alloc fs m i cols srcs vals = (None, vals)"

definition rows_Scan ::
  "slib \<Rightarrow> types \<Rightarrow> (nat \<Rightarrow> nat) \<Rightarrow> string \<Rightarrow> string list \<Rightarrow> gval list \<Rightarrow> fv list \<Rightarrow> orm_error option \<times> fv list" where
  "rows_Scan lib T alloc n cols row vals =
     (if length cols \<noteq> length row then (Some ScanCount, vals)
      else scan_cols lib T alloc (ty_fields T n) (si_fields (buildStructInfo (ty_fields T n))) 0 cols row vals)"

text \<open>\<open>dest\<close> is what the pointer chain ends at; anything but a struct goes to \<open>database/sql\<close>.\<close>

definition scanRowToStruct ::
  "slib \<Rightarrow> types \<Rightarrow> (nat \<Rightarrow> nat) \<Rightarrow> string list \<Rightarrow> gval list \<Rightarrow> goty \<Rightarrow> fv \<Rightarrow> orm_error option \<times> fv" where
  "scanRowToStruct lib T alloc cols row t dest =
     (case dest of
        FStruct n vals \<Rightarrow> (case rows_Scan lib T alloc n cols row vals of (e, vals') \<Rightarrow> (e, FStruct n vals'))
      | _ \<Rightarrow>
          (case row of
             [src] \<Rightarrow> (case sl_Scan lib t src of Inl e \<Rightarrow> (Some (LibErr e), dest) | Inr v \<Rightarrow> (None, v))
           | _ \<Rightarrow> (Some ScanCount, dest)))"

definition scanRowToMap :: "string list \<Rightarrow> gval list \<Rightarrow> orm_error + (string, gval) gomap" where
  "scanRowToMap cols row =
     (if length cols \<noteq> length row then Inl ScanCount
      else Inr (fold (\<lambda>(c, v) m. AList.update c v m) (zip cols row) []))"

datatype row_dest = ToMap "(string, gval) gomap" | ToValue goty fv

definition scanRow :: "slib \<Rightarrow> types \<Rightarrow> (nat \<Rightarrow> nat) \<Rightarrow> string list \<Rightarrow> gval list \<Rightarrow> row_dest \<Rightarrow> orm_error option \<times> row_dest" where
  "scanRow lib T alloc cols row dest =
     (case dest of
        ToMap m \<Rightarrow> (case scanRowToMap cols row of Inl e \<Rightarrow> (Some e, ToMap m) | Inr m' \<Rightarrow> (None, ToMap m'))
      | ToValue t v \<Rightarrow> (case scanRowToStruct lib T alloc cols row t v of (e, v') \<Rightarrow> (e, ToValue t v')))"

text \<open>
  The loop of \<open>scanRows\<close> over a slice with elements of type \<open>t\<close>, or pointers to \<open>t\<close>: elements are appended to what the slice
  holds. \<open>alloc r c\<close> is the memory for column \<open>c\<close> of row \<open>r\<close>; the column after the last stands for the element.
\<close>

fun scanRows_loop ::
  "slib \<Rightarrow> types \<Rightarrow> (nat \<Rightarrow> nat \<Rightarrow> nat) \<Rightarrow> string list \<Rightarrow> goty \<Rightarrow> bool \<Rightarrow> nat \<Rightarrow> gval list list \<Rightarrow> fv list \<Rightarrow> orm_error option \<times> fv list" where
  "scanRows_loop lib T alloc cols t isPtr r [] vs = (None, vs)"
| "scanRows_loop lib T alloc cols t isPtr r (row # rows) vs =
     (case scanRowToStruct lib T (alloc r) cols row t (zeroOf T t) of
        (Some e, _) \<Rightarrow> (Some e, vs)
      | (None, v) \<Rightarrow>
          scanRows_loop lib T alloc cols t isPtr (Suc r) rows (vs @ [if isPtr then FPtr (alloc r (length cols)) v else v]))"

definition elem_ptr :: "goty \<Rightarrow> bool" where
  "elem_ptr t = (case t of TyPtr u \<Rightarrow> True | _ \<Rightarrow> False)"

definition scanRows :: "slib \<Rightarrow> types \<Rightarrow> (nat \<Rightarrow> nat \<Rightarrow> nat) \<Rightarrow> sql_rows \<Rightarrow> fv \<Rightarrow> orm_error option \<times> fv" where
  "scanRows lib T alloc rows dest =
     (case dest of
        FSlice u vs \<Rightarrow>
          (case scanRows_loop lib T alloc (rw_cols rows) (strip_ptr u) (elem_ptr u) 0 (rw_rows rows) vs of
             (Some e, vs') \<Rightarrow> (Some e, FSlice u vs')
           | (None, vs') \<Rightarrow> (map_option LibErr (rw_err rows), FSlice u vs'))
      | _ \<Rightarrow> (Some (NotSlicePointer TyAny), dest))"

text \<open>The same loop for a slice of maps.\<close>

fun scanMaps_loop :: "string list \<Rightarrow> gval list list \<Rightarrow> (string, gval) gomap list \<Rightarrow> orm_error option \<times> (string, gval) gomap list" where
  "scanMaps_loop cols [] ms = (None, ms)"
| "scanMaps_loop cols (row # rows) ms =
     (case scanRowToMap cols row of Inl e \<Rightarrow> (Some e, ms @ [[]]) | Inr m \<Rightarrow> scanMaps_loop cols rows (ms @ [m]))"

fun scanColumn_loop :: "slib \<Rightarrow> goty \<Rightarrow> gval list list \<Rightarrow> fv list \<Rightarrow> orm_error option \<times> fv list" where
  "scanColumn_loop lib t [] vs = (None, vs)"
| "scanColumn_loop lib t (row # rows) vs =
     (case row of
        [src] \<Rightarrow> (case sl_Scan lib t src of Inl e \<Rightarrow> (Some (LibErr e), vs) | Inr v \<Rightarrow> scanColumn_loop lib t rows (vs @ [v]))
      | _ \<Rightarrow> (Some ScanCount, vs))"

definition scanColumn :: "slib \<Rightarrow> sql_rows \<Rightarrow> fv \<Rightarrow> orm_error option \<times> fv" where
  "scanColumn lib rows dest =
     (case dest of
        FSlice u vs \<Rightarrow>
          (case scanColumn_loop lib u (rw_rows rows) vs of
             (Some e, vs') \<Rightarrow> (Some e, FSlice u vs')
           | (None, vs') \<Rightarrow> (map_option LibErr (rw_err rows), FSlice u vs'))
      | _ \<Rightarrow> (Some (NotSlicePointer TyAny), dest))"


section \<open>Types are kept\<close>

definition wf_types :: "types \<Rightarrow> bool" where
  "wf_types T \<longleftrightarrow> (\<forall>n. has_types T (ty_zero T n) (map sf_Type (ty_fields T n)))"

lemma zeroOf_typed: "wf_types T \<Longrightarrow> has_type T (zeroOf T t) t"
  by (induction t) (simp_all add: wf_types_def)

lemma cutInt_range: "- (2 ^ (w - 1)) \<le> cutInt w n \<and> cutInt w n < 2 ^ (w - 1)"
proof (cases w)
  case (Suc k)
  have "0 \<le> (n + 2 ^ k) mod (2 * 2 ^ k)" "(n + 2 ^ k) mod (2 * 2 ^ k) < 2 * 2 ^ k" by simp_all
  with Suc show ?thesis by (simp add: cutInt_def)
qed (simp add: cutInt_def)

lemmas cutInt_bounds [simp] = cutInt_range [simplified]

lemma cutInt_id: "- (2 ^ (w - 1)) \<le> n \<Longrightarrow> n < 2 ^ (w - 1) \<Longrightarrow> 0 < w \<Longrightarrow> cutInt w n = n"
  by (cases w) (simp_all add: cutInt_def)

lemma reflect_convert_typed: "reflect_convert t src = Some v \<Longrightarrow> has_type T v t"
  by (induction t src arbitrary: v rule: reflect_convert.induct)
    (auto split: gval.splits if_splits)

lemma convertAssign_typed: "has_type T old t \<Longrightarrow> convertAssign lib t old src = Inr v \<Longrightarrow> has_type T v t"
  by (cases t; cases src; auto simp: convertAssign_def reflect_convert_typed map_sum_def
      dest!: reflect_convert_typed [where T = T] split: option.splits sum.splits)

lemma scan_field_typed: "wf_types T \<Longrightarrow> has_type T old t \<Longrightarrow> has_type T (snd (scan_field lib T a t old src)) t"
  by (cases t; cases old)
    (auto simp: scan_field_def nullableScanner_Scan_def nullablePtrScanner_Scan_def Let_def zeroOf_typed
      split: sum.splits dest!: convertAssign_typed [rotated])

lemma has_types_update: "has_types T vs ts \<Longrightarrow> (k < length vs \<Longrightarrow> has_type T v (ts ! k)) \<Longrightarrow> has_types T (vs[k := v]) ts"
  unfolding has_types_iff list_all2_conv_all_nth by (metis length_list_update nth_list_update_eq nth_list_update_neq)

lemma has_types_nth: "has_types T vs ts \<Longrightarrow> k < length vs \<Longrightarrow> has_type T (vs ! k) (ts ! k)"
  by (simp add: has_types_iff list_all2_conv_all_nth)

lemma scan_cols_typed:
  "wf_types T \<Longrightarrow> has_types T vals (map sf_Type fs) \<Longrightarrow> has_types T (snd (scan_cols lib T alloc fs m i cols srcs vals)) (map sf_Type fs)"
proof (induction lib T alloc fs m i cols srcs vals rule: scan_cols.induct)
  case (1 lib T alloc fs m i col cols src srcs vals)
  have len: "length vals = length fs" using "1.prems"(2) by (auto simp: has_types_iff dest: list_all2_lengthD)
  show ?case
  proof (cases "map_of m col")
    case None
    with 1 show ?thesis by simp
  next
    case (Some k)
    obtain e v where e: "scan_field lib T (alloc i) (sf_Type (fs ! k)) (vals ! k) src = (e, v)" by fastforce
    have "k < length vals \<Longrightarrow> has_type T v (map sf_Type fs ! k)"
      using has_types_nth [OF "1.prems"(2)] scan_field_typed [OF "1.prems"(1), of "vals ! k" "sf_Type (fs ! k)" lib "alloc i" src] e len
      by simp
    then have "has_types T (vals[k := v]) (map sf_Type fs)" by (rule has_types_update [OF "1.prems"(2)])
    with 1 Some e show ?thesis by (cases e) simp_all
  qed
qed simp_all

end
