(* ===== verification/Orm_Roundtrip.thy ===== *)
theory Orm_Roundtrip
  imports Orm_Scan
begin

text \<open>
  What the scanner guarantees: a scan never stores a value of the wrong type, and a model that is written with the columns of
  \<open>insertable\<close> or \<open>updatable\<close> and read back from the same row is the same model.
\<close>

section \<open>Writing and reading one field\<close>

text \<open>
  The conversion of query arguments by \<open>database/sql\<close>: integers become \<open>int64\<close>, named types their underlying type, pointers what
  they point to. \<^const>\<open>None\<close> is a refused argument.
\<close>

fun driver_value :: "fv \<Rightarrow> gval option" where
  "driver_value (FString s) = Some (GString s)"
| "driver_value (FBytes s) = Some (GBytes s)"
| "driver_value (FInt64 n) = Some (GInt64 n)"
| "driver_value (FInt n) = Some (GInt64 n)"
| "driver_value (FBool b) = Some (GBool b)"
| "driver_value (FFloat64 f) = (case f of Fin q \<Rightarrow> Some (GFloat64 q) | _ \<Rightarrow> None)"
| "driver_value (FTime t) = Some (GTime t)"
| "driver_value (FAny g) = Some g"
| "driver_value (FIntW w i) = Some (GInt64 (word_of_int i))"
| "driver_value (FUintW w i) = (if i < 2 ^ 63 then Some (GInt64 (word_of_int i)) else None)"
| "driver_value (FNamed n v) = (if is_time v then None else driver_value v)"
| "driver_value (FNilPtr t) = Some GNil"
| "driver_value (FPtr a v) = driver_value v"
| "driver_value (FSlice t vs) = None"
| "driver_value (FStruct n vs) = None"

text \<open>Column types whose values survive the way to the database and back.\<close>

definition storable_base :: "goty \<Rightarrow> bool" where
  "storable_base t = (case t of TyNamed n u \<Rightarrow> basic_ty u \<and> u \<noteq> TyAny | _ \<Rightarrow> basic_ty t \<and> t \<noteq> TyAny)"

definition storable :: "goty \<Rightarrow> bool" where
  "storable t = (case t of TyPtr u \<Rightarrow> storable_base u | _ \<Rightarrow> storable_base t)"

text \<open>Equality of fields up to the address of a pointer.\<close>

definition erase :: "fv \<Rightarrow> fv" where
  "erase v = (case v of FPtr a w \<Rightarrow> FPtr 0 w | _ \<Rightarrow> v)"

lemma sint_of_int: "- (2 ^ 63) \<le> i \<Longrightarrow> i < 2 ^ 63 \<Longrightarrow> sint (word_of_int i :: i64) = i"
  by (simp add: sint_sbintrunc' signed_take_bit_int_eq_self)

lemma intw_range: "- (2 ^ (w - 1)) \<le> (i :: int) \<Longrightarrow> i < 2 ^ (w - 1) \<Longrightarrow> w \<in> {8, 16, 32} \<Longrightarrow> - (2 ^ 63) \<le> i \<and> i < 2 ^ 63"
  by auto

lemma reflect_base:
  assumes "basic_ty t" and "t \<noteq> TyAny" and "has_type T v t" and "driver_value v = Some src"
  shows "reflect_convert t src = Some v"
proof (cases t)
  case (TyIntW w)
  with assms obtain i where i: "v = FIntW w i" "- (2 ^ (w - 1)) \<le> i" "i < 2 ^ (w - 1)" "w \<in> {8, 16, 32}" by (cases v) (auto split: if_splits goty.splits)
  with intw_range [OF i(2-4)] have "sint (word_of_int i :: i64) = i" by (intro sint_of_int) simp_all
  with i TyIntW assms(4) cutInt_id [OF i(2,3)] show ?thesis by (auto simp: int_value_def)
next
  case (TyUintW w)
  with assms obtain i where i: "v = FUintW w i" "0 \<le> i" "i < 2 ^ w" "i < 2 ^ 63" by (cases v) (auto split: if_splits goty.splits)
  then have "sint (word_of_int i :: i64) = i" by (intro sint_of_int) simp_all
  with i TyUintW assms(4) show ?thesis by (auto simp: int_value_def)
next
  case TyFloat64
  with assms show ?thesis by (cases v) (auto split: gofloat.splits goty.splits)
qed (use assms in \<open>cases v; auto simp: int_value_def split: goty.splits if_splits\<close>)+


lemma driver_value_nil: "driver_value v = Some GNil \<Longrightarrow> has_type T v t \<Longrightarrow> storable_base t \<Longrightarrow> False"
proof (cases v)
  case (FNamed n w)
  assume "driver_value v = Some GNil" "has_type T v t" "storable_base t"
  with FNamed show False by (cases w; cases t) (auto simp: storable_base_def split: if_splits gofloat.splits goty.splits)
qed (auto simp: storable_base_def split: if_splits gofloat.splits goty.splits)

lemma convertAssign_base:
  assumes "storable_base t" and "has_type T v t" and "driver_value v = Some src"
  shows "convertAssign lib t old src = Inr v"
proof (cases t)
  case (TyNamed n u)
  with assms obtain w where w: "v = FNamed n w" "has_type T w u" "driver_value w = Some src" "basic_ty u" "u \<noteq> TyAny"
    by (cases v) (auto simp: storable_base_def split: if_splits)
  with TyNamed reflect_base [OF w(4,5,2,3)] show ?thesis by (simp add: convertAssign_def)
next
  case (TyIntW k)
  with assms reflect_base [of t T v src] show ?thesis by (simp add: convertAssign_def storable_base_def)
next
  case (TyUintW k)
  with assms reflect_base [of t T v src] show ?thesis by (simp add: convertAssign_def storable_base_def)
qed (use assms in \<open>cases v; auto simp: convertAssign_def storable_base_def split: gofloat.splits\<close>)+

lemma scan_field_same:
  assumes "storable t" and "has_type T v t" and "driver_value v = Some src"
  shows "fst (scan_field lib T a t old src) = None \<and> erase (snd (scan_field lib T a t old src)) = erase v"
proof (cases "\<exists>u. t = TyPtr u")
  case True
  then obtain u where t: "t = TyPtr u" by blast
  show ?thesis
  proof (cases v)
    case (FPtr b w)
    with assms t have w: "storable_base u" "has_type T w u" "driver_value w = Some src" by (auto simp: storable_def)
    with driver_value_nil [of w T u] have "src \<noteq> GNil" by auto
    with FPtr t convertAssign_base [OF w] show ?thesis
      by (auto simp: scan_field_def nullablePtrScanner_Scan_def erase_def split: fv.splits)
  qed (use assms t in \<open>auto simp: scan_field_def nullablePtrScanner_Scan_def erase_def storable_def\<close>)
next
  case False
  with assms have b: "storable_base t" by (cases t) (auto simp: storable_def)
  with assms driver_value_nil have "src \<noteq> GNil" by blast
  moreover have "scan_field lib T a t old src = nullableScanner_Scan lib t old src" using False by (cases t) (auto simp: scan_field_def)
  ultimately show ?thesis using convertAssign_base [OF b assms(2,3)] by (simp add: nullableScanner_Scan_def)
qed


section \<open>Writing and reading a row\<close>

lemma scan_cols_same:
  assumes "list_all2 (\<lambda>(c, k) src. driver_value (W ! k) = Some src) ps srcs"
    and "\<And>c k. (c, k) \<in> set ps \<Longrightarrow> map_of m c = Some k \<and> k < length vals \<and> storable (sf_Type (fs ! k)) \<and> has_type T (W ! k) (sf_Type (fs ! k))"
    and "distinct (map snd ps)"
  shows "\<exists>out. scan_cols lib T alloc fs m i (map fst ps) srcs vals = (None, out) \<and> length out = length vals
    \<and> (\<forall>k < length vals. erase (out ! k) = erase (if k \<in> snd ` set ps then W ! k else vals ! k))"
  using assms
proof (induction ps arbitrary: i srcs vals)
  case (Cons p ps)
  obtain c k where p: "p = (c, k)" by fastforce
  from Cons.prems(1) p obtain src srcs' where s: "srcs = src # srcs'" "driver_value (W ! k) = Some src"
    "list_all2 (\<lambda>(c, k) src. driver_value (W ! k) = Some src) ps srcs'" by (auto simp: list_all2_Cons1)
  from Cons.prems(2) [of c k] p have k: "map_of m c = Some k" "k < length vals" "storable (sf_Type (fs ! k))" "has_type T (W ! k) (sf_Type (fs ! k))"
    by simp_all
  obtain v where v: "scan_field lib T (alloc i) (sf_Type (fs ! k)) (vals ! k) src = (None, v)" "erase v = erase (W ! k)"
    using scan_field_same [OF k(3,4) s(2), of lib "alloc i" "vals ! k"] by (metis prod.collapse)
  have "map_of m c' = Some k' \<and> k' < length (vals[k := v]) \<and> storable (sf_Type (fs ! k')) \<and> has_type T (W ! k') (sf_Type (fs ! k'))"
    if "(c', k') \<in> set ps" for c' k' using Cons.prems(2) [of c' k'] that by simp
  from Cons.IH [OF s(3) this, of "Suc i"] Cons.prems(3) obtain out
    where out: "scan_cols lib T alloc fs m (Suc i) (map fst ps) srcs' (vals[k := v]) = (None, out)" "length out = length vals"
      "\<forall>j < length vals. erase (out ! j) = erase (if j \<in> snd ` set ps then W ! j else vals[k := v] ! j)" by auto
  have "k \<notin> snd ` set ps" using Cons.prems(3) p by auto
  with out(3) k(2) v(2) p have "\<forall>j < length vals. erase (out ! j) = erase (if j \<in> snd ` set (p # ps) then W ! j else vals ! j)"
    by (auto simp: nth_list_update)
  with out s k(1) v(1) p show ?case by simp
qed simp

lemma write_cols_spec:
  assumes "distinct (map snd m)" and "\<forall>(c, k) \<in> set m. k < length vals"
  shows "length (snd (write_cols skip stamped now m vals)) = length vals
    \<and> (\<forall>k. k \<notin> snd ` set m \<longrightarrow> snd (write_cols skip stamped now m vals) ! k = vals ! k)
    \<and> (has_types T vals ts \<longrightarrow> has_types T (snd (write_cols skip stamped now m vals)) ts)
    \<and> fst (write_cols skip stamped now m vals)
        = map (\<lambda>(c, k). (c, snd (write_cols skip stamped now m vals) ! k)) (filter (\<lambda>(c, k). \<not> skip c) m)"
  using assms
proof (induction m arbitrary: vals)
  case (Cons p m)
  obtain c k where p: "p = (c, k)" by fastforce
  show ?case
  proof (cases "skip c")
    case True
    with Cons p show ?thesis by auto
  next
    case False
    let ?v1 = "if stamped c \<and> is_time (vals ! k) then vals[k := FTime (now c)] else vals"
    have k: "k < length vals" "k \<notin> snd ` set m" using Cons.prems p by auto
    have IH: "length (snd (write_cols skip stamped now m ?v1)) = length ?v1"
      "\<forall>j. j \<notin> snd ` set m \<longrightarrow> snd (write_cols skip stamped now m ?v1) ! j = ?v1 ! j"
      "has_types T ?v1 ts \<longrightarrow> has_types T (snd (write_cols skip stamped now m ?v1)) ts"
      "fst (write_cols skip stamped now m ?v1)
        = map (\<lambda>(c, k). (c, snd (write_cols skip stamped now m ?v1) ! k)) (filter (\<lambda>(c, k). \<not> skip c) m)"
      using Cons.IH [of ?v1] Cons.prems by auto
    have ty: "has_types T vals ts \<longrightarrow> has_types T ?v1 ts"
    proof
      assume t: "has_types T vals ts"
      have "is_time (vals ! k) \<Longrightarrow> has_type T (FTime (now c)) (ts ! k)"
        using has_types_nth [OF t k(1)] by (cases "vals ! k") (auto simp: is_time_def)
      with t show "has_types T ?v1 ts" by (auto intro: has_types_update)
    qed
    have same: "\<forall>j. j \<noteq> k \<longrightarrow> ?v1 ! j = vals ! j" by simp
    have "write_cols skip stamped now (p # m) vals = ((c, ?v1 ! k) # fst (write_cols skip stamped now m ?v1), snd (write_cols skip stamped now m ?v1))"
      using p False by (simp add: Let_def split: prod.splits)
    with IH ty same k p False show ?thesis by simp
  qed
qed simp


definition columns_storable :: "sfield list \<Rightarrow> bool" where
  "columns_storable fs = (\<forall>(c, k) \<in> set (si_fields (buildStructInfo fs)). storable (sf_Type (fs ! k)))"

lemma write_read_same:
  assumes T: "wf_types T" and ty: "has_types T vals (map sf_Type (ty_fields T n))" and st: "columns_storable (ty_fields T n)"
    and w: "write_cols skip stamped now (si_fields (buildStructInfo (ty_fields T n))) vals = (row, vals')"
    and d: "map (driver_value \<circ> snd) row = map Some srcs"
  shows "\<exists>out. rows_Scan lib T alloc n (map fst row) srcs (ty_zero T n) = (None, out) \<and> length out = length vals
    \<and> (\<forall>(c, k) \<in> set (si_fields (buildStructInfo (ty_fields T n))). erase (out ! k) = erase (if skip c then ty_zero T n ! k else vals' ! k))"
proof -
  let ?fs = "ty_fields T n" let ?m = "si_fields (buildStructInfo ?fs)" let ?ps = "filter (\<lambda>(c, k). \<not> skip c) ?m"
  have ok: "info_ok ?fs (buildStructInfo ?fs)" by (rule buildStructInfo_ok)
  have len: "length vals = length ?fs" "length (ty_zero T n) = length ?fs"
    using ty T by (auto simp: wf_types_def has_types_iff dest!: spec [of _ n] list_all2_lengthD)
  have idx: "\<forall>(c, k) \<in> set ?m. k < length vals" and dist: "distinct (map snd ?m)" "distinct (map fst ?m)"
    using ok info_ok_distinct_indices [OF ok] len by (auto simp: info_ok_def)
  from write_cols_spec [OF dist(1) idx, of skip stamped now T "map sf_Type ?fs"] w ty
  have row: "row = map (\<lambda>(c, k). (c, vals' ! k)) ?ps" and ty': "has_types T vals' (map sf_Type ?fs)" and len': "length vals' = length vals" by simp_all
  have "list_all2 (\<lambda>(c, k) src. driver_value (vals' ! k) = Some src) ?ps srcs"
    using d unfolding row by (simp add: list_all2_conv_all_nth list_eq_iff_nth_eq case_prod_beta)
  moreover have "map_of ?m c = Some k \<and> k < length (ty_zero T n) \<and> storable (sf_Type (?fs ! k)) \<and> has_type T (vals' ! k) (sf_Type (?fs ! k))"
    if "(c, k) \<in> set ?ps" for c k
    using that dist(2) idx len len' st has_types_nth [OF ty', of k] by (auto simp: columns_storable_def)
  moreover have "distinct (map snd ?ps)" by (rule distinct_map_filter [OF dist(1)])
  ultimately obtain out where out: "scan_cols lib T alloc ?fs ?m 0 (map fst ?ps) srcs (ty_zero T n) = (None, out)" "length out = length (ty_zero T n)"
    "\<forall>k < length (ty_zero T n). erase (out ! k) = erase (if k \<in> snd ` set ?ps then vals' ! k else ty_zero T n ! k)"
    using scan_cols_same [of vals' ?ps srcs ?m "ty_zero T n" ?fs T lib alloc 0] by blast
  have iff: "k \<in> snd ` set ?ps \<longleftrightarrow> \<not> skip c" if "(c, k) \<in> set ?m" for c k
    using that dist(1) by (force dest: eq_key_imp_eq_value simp: distinct_map inj_on_def)
  have "map fst row = map fst ?ps" by (simp add: row case_prod_beta comp_def)
  moreover have "length srcs = length row" using d by (metis length_map)
  ultimately have "rows_Scan lib T alloc n (map fst row) srcs (ty_zero T n) = (None, out)" using out(1) by (simp add: rows_Scan_def) (simp add: row)
  with out(2,3) iff idx len show ?thesis by (intro exI [of _ out]) (auto simp: iff)
qed


section \<open>Properties\<close>

text \<open>A model type and a user of it.\<close>

definition user_fields :: "sfield list" where
  "user_fields =
     [\<lparr>sf_Name = ''ID'', sf_Exported = True, sf_Tag = ''id,primaryKey,autoIncrement'', sf_Type = TyInt64\<rparr>,
      \<lparr>sf_Name = ''FullName'', sf_Exported = True, sf_Tag = [], sf_Type = TyString\<rparr>,
      \<lparr>sf_Name = ''Nick'', sf_Exported = True, sf_Tag = ''nick'', sf_Type = TyPtr TyString\<rparr>,
      \<lparr>sf_Name = ''Age'', sf_Exported = True, sf_Tag = ''age'', sf_Type = TyIntW 8\<rparr>]"

definition demo_types :: types where
  "demo_types =
     \<lparr>ty_fields = (\<lambda>n. if n = ''User'' then user_fields else []),
      ty_zero = (\<lambda>n. if n = ''User'' then [FInt64 0, FString [], FNilPtr TyString, FIntW 8 0] else [])\<rparr>"

definition demo_slib :: slib where
  "demo_slib = \<lparr>sl_sprint = (\<lambda>_. []), sl_ParseFloat = (\<lambda>_. None), sl_ParseTime = (\<lambda>_ _. None), sl_Scan = (\<lambda>_ _. Inl ''unused'')\<rparr>"

lemma demo_types_wf: "wf_types demo_types"
  by (simp add: wf_types_def demo_types_def user_fields_def)

lemma demo_user_info: "si_fields (buildStructInfo user_fields) = [(''id'', 0), (''full_name'', 1), (''nick'', 2), (''age'', 3)]"
  "si_pkCol (buildStructInfo user_fields) = ''id''" "si_autoID (buildStructInfo user_fields)"
  by code_simp+



text \<open>
  C7. Writing a model and reading it back: when the column types of a model are storable, the row built from \<open>insertable\<close> or from \<open>updatable\<close>,
  converted to driver values and scanned into a fresh struct, gives the written value of every column that was written, pointers up to their
  address, and leaves the others at zero. No column is lost or written into another field.
\<close>

theorem orm_write_read_roundtrip:
  assumes "wf_types T" and "has_types T vals (map sf_Type (ty_fields T n))" and "columns_storable (ty_fields T n)"
    and "info = buildStructInfo (ty_fields T n)"
    and "(row, vals') = (if create then insertable info now vals else updatable info now vals)"
    and "map (driver_value \<circ> snd) row = map Some srcs"
  shows "\<exists>out. scanRowToStruct lib T alloc (map fst row) srcs (TyStruct n) (zeroOf T (TyStruct n)) = (None, FStruct n out)
    \<and> (\<forall>(c, k) \<in> set (si_fields info).
         erase (out ! k) = erase (if c = si_pkCol info \<and> (create \<longrightarrow> si_autoID info) then ty_zero T n ! k else vals' ! k))"
proof -
  let ?skip = "\<lambda>c. c = si_pkCol info \<and> (create \<longrightarrow> si_autoID info)"
  let ?stamp = "\<lambda>c. (create \<and> c = ''created_at'') \<or> c = ''updated_at''"
  have "write_cols ?skip ?stamp now (si_fields (buildStructInfo (ty_fields T n))) vals = (row, vals')"
    using assms(4,5) by (cases create) (simp_all add: insertable_def updatable_def)
  from write_read_same [OF assms(1-3) this assms(6), of lib alloc] obtain out
    where "rows_Scan lib T alloc n (map fst row) srcs (ty_zero T n) = (None, out)"
      "\<forall>(c, k) \<in> set (si_fields info). erase (out ! k) = erase (if ?skip c then ty_zero T n ! k else vals' ! k)"
    unfolding assms(4) by blast
  then show ?thesis by (intro exI [of _ out] conjI) (simp_all add: scanRowToStruct_def)
qed

theorem orm_write_read_roundtrip_witness:
  "\<exists>out. scanRowToStruct demo_slib demo_types id [''full_name'', ''nick'', ''age''] [GString ''Ann'', GString ''a'', GInt64 30] (TyStruct ''User'')
      (zeroOf demo_types (TyStruct ''User'')) = (None, FStruct ''User'' out)
    \<and> erase (out ! 0) = FInt64 0 \<and> erase (out ! 1) = FString ''Ann'' \<and> erase (out ! 3) = FIntW 8 30"
proof -
  let ?v = "[FInt64 7, FString ''Ann'', FPtr 5 (FString ''a''), FIntW 8 30]"
  let ?row = "[(''full_name'', FString ''Ann''), (''nick'', FPtr 5 (FString ''a'')), (''age'', FIntW 8 30)]"
  have T: "ty_fields demo_types ''User'' = user_fields" by (simp add: demo_types_def)
  have "has_types demo_types ?v (map sf_Type (ty_fields demo_types ''User''))" by (simp add: T) (simp add: user_fields_def)
  moreover have "columns_storable (ty_fields demo_types ''User'')"
    by (simp add: T columns_storable_def demo_user_info) (simp add: user_fields_def storable_def storable_base_def)
  moreover have "(?row, ?v) = (if True then insertable (buildStructInfo user_fields) (\<lambda>_. 0) ?v else updatable (buildStructInfo user_fields) (\<lambda>_. 0) ?v)"
    by (simp add: insertable_def demo_user_info)
  moreover have "map (driver_value \<circ> snd) ?row = map Some [GString ''Ann'', GString ''a'', GInt64 30]" by simp
  ultimately show ?thesis
    using orm_write_read_roundtrip [OF demo_types_wf, of ?v "''User''" "buildStructInfo user_fields" ?row ?v True "\<lambda>_. 0"
        "[GString ''Ann'', GString ''a'', GInt64 30]" demo_slib id]
    by (auto simp: T demo_user_info erase_def [of "FInt64 _"] erase_def [of "FString _"] erase_def [of "FIntW _ _"] demo_types_def)
qed

section \<open>Silent losses\<close>

text \<open>
  A driver integer that does not fit a small integer field is cut to its width without an error: 300 in an \<open>int8\<close> field reads as 44. The
  comment on \<open>convertErr\<close> promises an error instead of silent data loss.
\<close>

theorem scan_cuts_integers:
  "scan_field lib T a (TyIntW w) old (GInt64 n) = (None, FIntW w (cutInt w (sint n)))
   \<and> scan_field lib T a (TyUintW w) old (GInt64 n) = (None, FUintW w (sint n mod 2 ^ w)) \<and> cutInt 8 300 = 44"
  by (simp add: scan_field_def nullableScanner_Scan_def convertAssign_def int_value_def cutInt_def)

text \<open>NULL leaves a value field as it was, so a struct that is scanned into a second time keeps the first row's value; the comment speaks of its zero value.\<close>

theorem scan_null_keeps_old: "(\<And>u. t \<noteq> TyPtr u) \<Longrightarrow> scan_field lib T a t old GNil = (None, old)"
  by (cases t) (auto simp: scan_field_def nullableScanner_Scan_def)

text \<open>A number or a time in a \<open>[]byte\<close> column is dropped without an error.\<close>

theorem scan_drops_into_bytes: "convertAssign lib TyBytes old (GInt64 n) = Inr old" "convertAssign lib TyBytes old (GTime t) = Inr old"
  by (simp_all add: convertAssign_def)

end
