(* ===== verification/Orm_Relations.thy ===== *)
theory Orm_Relations
  imports Orm_Roundtrip
begin

text \<open>
  Eager loading of \<open>framework/database/relations.go\<close>, the hooks of \<open>hooks.go\<close>, and \<open>First\<close>, \<open>All\<close> and \<open>LoadContext\<close> with the scanner,
  the hooks and the relations in place.

  A destination is the value its pointer chain ends at: a struct or a slice of structs or of pointers to them. Keys of the Go maps
  are values of type \<open>any\<close>: \<^const>\<open>None\<close> is nil, otherwise the value with its dynamic type. \<open>OrmPanic\<close> stands for a run-time panic.
\<close>

section \<open>Elements\<close>

definition sliceOrOne :: "fv \<Rightarrow> fv list" where
  "sliceOrOne rv = (case rv of FSlice u es \<Rightarrow> map (\<lambda>e. case e of FPtr a v \<Rightarrow> v | _ \<Rightarrow> e) es | _ \<Rightarrow> [rv])"

text \<open>Writing changed elements back, through the pointers of the slice.\<close>

definition put_elem :: "fv \<Rightarrow> fv \<Rightarrow> fv" where
  "put_elem e v = (case e of FPtr a w \<Rightarrow> FPtr a v | _ \<Rightarrow> v)"

definition put_elems :: "fv \<Rightarrow> fv list \<Rightarrow> fv" where
  "put_elems rv vs = (case rv of FSlice u es \<Rightarrow> FSlice u (map2 put_elem es vs) | _ \<Rightarrow> hd vs)"

definition elem_fields :: "fv \<Rightarrow> orm_error + fv list" where
  "elem_fields e = (case e of FStruct n vs \<Rightarrow> Inr vs | _ \<Rightarrow> Inl (OrmPanic ''reflect: call of FieldByIndex on zero Value''))"

fun hashable :: "fv \<Rightarrow> bool" where
  "hashable (FBytes s) = False"
| "hashable (FSlice t vs) = False"
| "hashable (FNamed n v) = hashable v"
| "hashable (FStruct n vs) = list_all hashable vs"
| "hashable (FAny g) = (case g of GBytes _ \<Rightarrow> False | GMap _ \<Rightarrow> False | GSlice _ \<Rightarrow> False | _ \<Rightarrow> True)"
| "hashable v = True"

text \<open>\<open>FieldByIndex\<close>; the empty path is the struct itself.\<close>

definition field_at :: "nat option \<Rightarrow> fv \<Rightarrow> orm_error + fv" where
  "field_at idx e =
     (case idx of
        None \<Rightarrow> Inr e
      | Some i \<Rightarrow> (case elem_fields e of Inl p \<Rightarrow> Inl p | Inr vs \<Rightarrow> Inr (vs ! i)))"

text \<open>The distinct keys in the order of their first occurrence.\<close>

fun collect_keys :: "nat option \<Rightarrow> fv list \<Rightarrow> fv list \<Rightarrow> orm_error + fv list" where
  "collect_keys idx [] keys = Inr keys"
| "collect_keys idx (e # es) keys =
     (case field_at idx e of
        Inl p \<Rightarrow> Inl p
      | Inr k \<Rightarrow>
          if \<not> hashable k then Inl (OrmPanic ''hash of unhashable type'')
          else collect_keys idx es (if k \<in> set keys then keys else keys @ [k]))"

definition collectPKs :: "fv \<Rightarrow> structInfo \<Rightarrow> orm_error + fv list" where
  "collectPKs rv info = collect_keys (si_pkIndex info) (sliceOrOne rv) []"

section \<open>Queries\<close>

definition inPlaceholders :: "nat \<Rightarrow> string" where
  "inPlaceholders n = Join '', '' (replicate n ''?'')"

fun number_marks :: "nat \<Rightarrow> rune list \<Rightarrow> string" where
  "number_marks n [] = []"
| "number_marks n (r # rs) = (if r = ''?'' then ''$'' @ itoa (int (Suc n)) @ number_marks (Suc n) rs else r @ number_marks n rs)"

definition normalizePH :: "DB \<Rightarrow> string \<Rightarrow> string" where
  "normalizePH db query = (if db_driver db \<noteq> DriverPostgres then query else number_marks 0 (runes query))"

definition in_query :: "DB \<Rightarrow> string \<Rightarrow> string \<Rightarrow> nat \<Rightarrow> string" where
  "in_query db tbl col n =
     normalizePH db (''SELECT * FROM '' @ QuoteIdent (db_driver db) tbl @ '' WHERE '' @ QuoteIdent (db_driver db) col @ '' IN (''
       @ inPlaceholders n @ '')'')"

definition join_query :: "DB \<Rightarrow> relationDef \<Rightarrow> nat \<Rightarrow> string" where
  "join_query db rel n =
     (let q = QuoteIdent (db_driver db)
      in normalizePH db (''SELECT jt.'' @ q (rd_joinKey rel) @ '', r.* FROM '' @ q (rd_joinTable rel) @ '' jt JOIN '' @ q (rd_table rel)
           @ '' r ON jt.'' @ q (rd_refKey rel) @ '' = r.id WHERE jt.'' @ q (rd_joinKey rel) @ '' IN ('' @ inPlaceholders n @ '')''))"

text \<open>\<open>queryContext\<close> with Go values as arguments.\<close>

definition query_keys :: "'d sql_server \<Rightarrow> DB \<Rightarrow> string \<Rightarrow> fv list \<Rightarrow> 'd \<Rightarrow> (orm_error + sql_rows) \<times> 'd" where
  "query_keys sv db q keys d =
     (if \<exists>k \<in> set keys. driver_value k = None then (Inl (LibErr ''sql: converting argument''), d)
      else (case queryContext sv db (q, map (the \<circ> driver_value) keys) d of
              (Inl e, d1) \<Rightarrow> (Inl (LibErr e), d1)
            | (Inr rows, d1) \<Rightarrow> (Inr rows, d1)))"

section \<open>Reading related rows\<close>

text \<open>\<open>rows.Scan\<close> on pointers to the fields themselves: \<open>database/sql\<close> converts.\<close>

fun scan_plain :: "slib \<Rightarrow> sfield list \<Rightarrow> (string, nat) gomap \<Rightarrow> nat \<Rightarrow> string list \<Rightarrow> gval list \<Rightarrow> fv list \<Rightarrow> orm_error + fv list" where
  "scan_plain lib fs m i (col # cols) (src # srcs) vals =
     (case map_of m col of
        None \<Rightarrow> scan_plain lib fs m (Suc i) cols srcs vals
      | Some k \<Rightarrow>
          (case sl_Scan lib (sf_Type (fs ! k)) src of
             Inl e \<Rightarrow> Inl (ScanErr i col (LibErr e))
           | Inr v \<Rightarrow> scan_plain lib fs m (Suc i) cols srcs (vals[k := v])))"
| "scan_plain lib fs m i cols srcs vals = Inr vals"

definition scan_elem :: "slib \<Rightarrow> types \<Rightarrow> string \<Rightarrow> string list \<Rightarrow> gval list \<Rightarrow> orm_error + fv" where
  "scan_elem lib T n cols row =
     (if length cols \<noteq> length row then Inl ScanCount
      else map_sum id (FStruct n) (scan_plain lib (ty_fields T n) (si_fields (buildStructInfo (ty_fields T n))) 0 cols row (ty_zero T n)))"

fun buildFKMap_loop ::
  "slib \<Rightarrow> types \<Rightarrow> string \<Rightarrow> nat option \<Rightarrow> string list \<Rightarrow> gval list list \<Rightarrow> (fv option, fv list) gomap \<Rightarrow> orm_error + (fv option, fv list) gomap" where
  "buildFKMap_loop lib T n fkIdx cols [] result = Inr result"
| "buildFKMap_loop lib T n fkIdx cols (row # rows) result =
     (case scan_elem lib T n cols row of
        Inl e \<Rightarrow> Inl e
      | Inr el \<Rightarrow>
          (case (case fkIdx of None \<Rightarrow> Inr None | Some i \<Rightarrow> map_sum id Some (field_at (Some i) el)) of
             Inl e \<Rightarrow> Inl e
           | Inr fkVal \<Rightarrow>
               if \<not> (case fkVal of None \<Rightarrow> True | Some k \<Rightarrow> hashable k) then Inl (OrmPanic ''hash of unhashable type'')
               else buildFKMap_loop lib T n fkIdx cols rows
                      (AList.update fkVal ((case map_of result fkVal of Some es \<Rightarrow> es | None \<Rightarrow> []) @ [el]) result)))"

definition buildFKMap :: "slib \<Rightarrow> types \<Rightarrow> sql_rows \<Rightarrow> string \<Rightarrow> string \<Rightarrow> orm_error + (fv option, fv list) gomap" where
  "buildFKMap lib T rows fkCol n =
     (case buildFKMap_loop lib T n (map_of (si_fields (buildStructInfo (ty_fields T n))) fkCol) (rw_cols rows) (rw_rows rows) [] of
        Inl e \<Rightarrow> Inl e
      | Inr m \<Rightarrow> (case rw_err rows of Some e \<Rightarrow> Inl (LibErr e) | None \<Rightarrow> Inr m))"

fun buildPKMap_loop ::
  "slib \<Rightarrow> types \<Rightarrow> string \<Rightarrow> nat option \<Rightarrow> string list \<Rightarrow> gval list list \<Rightarrow> (fv, fv) gomap \<Rightarrow> orm_error + (fv, fv) gomap" where
  "buildPKMap_loop lib T n pkIdx cols [] result = Inr result"
| "buildPKMap_loop lib T n pkIdx cols (row # rows) result =
     (case scan_elem lib T n cols row of
        Inl e \<Rightarrow> Inl e
      | Inr el \<Rightarrow>
          (case field_at pkIdx el of
             Inl e \<Rightarrow> Inl e
           | Inr pkVal \<Rightarrow>
               if \<not> hashable pkVal then Inl (OrmPanic ''hash of unhashable type'')
               else buildPKMap_loop lib T n pkIdx cols rows (AList.update pkVal el result)))"

definition buildPKMap :: "slib \<Rightarrow> types \<Rightarrow> sql_rows \<Rightarrow> string \<Rightarrow> string \<Rightarrow> orm_error + (fv, fv) gomap" where
  "buildPKMap lib T rows pkCol n =
     (case buildPKMap_loop lib T n (map_of (si_fields (buildStructInfo (ty_fields T n))) pkCol) (rw_cols rows) (rw_rows rows) [] of
        Inl e \<Rightarrow> Inl e
      | Inr m \<Rightarrow> (case rw_err rows of Some e \<Rightarrow> Inl (LibErr e) | None \<Rightarrow> Inr m))"

section \<open>Assigning them\<close>

text \<open>One parent; \<open>t\<close> is the type of its relation field. \<open>MakeSlice\<close>, \<open>Append\<close> and \<open>Set\<close> panic on other types.\<close>

definition assign_many :: "structInfo \<Rightarrow> relationDef \<Rightarrow> goty \<Rightarrow> (fv option, fv list) gomap \<Rightarrow> fv \<Rightarrow> orm_error + fv" where
  "assign_many info rel t related el =
     (case field_at (si_pkIndex info) el of
        Inl e \<Rightarrow> Inl e
      | Inr pk \<Rightarrow>
          if \<not> hashable pk then Inl (OrmPanic ''hash of unhashable type'')
          else (case map_of related (Some pk) of
                  None \<Rightarrow> Inr el
                | Some rows \<Rightarrow>
                    (case (el, t) of
                       (FStruct n vs, TySlice u) \<Rightarrow>
                         if u = rd_elemType rel then Inr (FStruct n (vs[rd_fieldIndex rel := FSlice u rows]))
                         else Inl (OrmPanic ''reflect.Append: value is not assignable'')
                     | _ \<Rightarrow> Inl (OrmPanic ''reflect.MakeSlice of non-slice type''))))"

definition assign_one :: "nat \<Rightarrow> relationDef \<Rightarrow> nat \<Rightarrow> goty \<Rightarrow> (fv, fv) gomap \<Rightarrow> fv \<Rightarrow> orm_error + fv" where
  "assign_one fkIdx rel addr t related el =
     (case field_at (Some fkIdx) el of
        Inl e \<Rightarrow> Inl e
      | Inr fk \<Rightarrow>
          if \<not> hashable fk then Inl (OrmPanic ''hash of unhashable type'')
          else (case map_of related fk of
                  None \<Rightarrow> Inr el
                | Some row \<Rightarrow>
                    (case el of
                       FStruct n vs \<Rightarrow>
                         if t = TyPtr (rd_elemType rel) then Inr (FStruct n (vs[rd_fieldIndex rel := FPtr addr row]))
                         else if t = rd_elemType rel then Inr (FStruct n (vs[rd_fieldIndex rel := row]))
                         else Inl (OrmPanic ''reflect.Set: value is not assignable'')
                     | _ \<Rightarrow> Inl (OrmPanic ''reflect: call of FieldByIndex on zero Value''))))"

fun map_elems :: "(nat \<Rightarrow> fv \<Rightarrow> orm_error + fv) \<Rightarrow> nat \<Rightarrow> fv list \<Rightarrow> orm_error + fv list" where
  "map_elems f i [] = Inr []"
| "map_elems f i (e # es) =
     (case f i e of
        Inl x \<Rightarrow> Inl x
      | Inr e' \<Rightarrow> (case map_elems f (Suc i) es of Inl x \<Rightarrow> Inl x | Inr es' \<Rightarrow> Inr (e' # es')))"

definition assignHasMany :: "fv \<Rightarrow> structInfo \<Rightarrow> relationDef \<Rightarrow> goty \<Rightarrow> (fv option, fv list) gomap \<Rightarrow> orm_error + fv" where
  "assignHasMany rv info rel t related =
     map_sum id (put_elems rv) (map_elems (\<lambda>i. assign_many info rel t related) 0 (sliceOrOne rv))"

definition assignBelongsTo :: "fv \<Rightarrow> nat \<Rightarrow> relationDef \<Rightarrow> (nat \<Rightarrow> nat) \<Rightarrow> goty \<Rightarrow> (fv, fv) gomap \<Rightarrow> orm_error + fv" where
  "assignBelongsTo rv fkIdx rel alloc t related =
     map_sum id (put_elems rv) (map_elems (\<lambda>i. assign_one fkIdx rel (alloc i) t related) 0 (sliceOrOne rv))"


section \<open>Loading a relation\<close>

definition struct_name :: "goty \<Rightarrow> orm_error + string" where
  "struct_name t = (case t of TyStruct n \<Rightarrow> Inr n | _ \<Rightarrow> Inl (OrmPanic ''reflect: NumField of non-struct type''))"

definition loadHasMany ::
  "'d sql_server \<Rightarrow> slib \<Rightarrow> types \<Rightarrow> DB \<Rightarrow> fv \<Rightarrow> relationDef \<Rightarrow> goty \<Rightarrow> structInfo \<Rightarrow> 'd \<Rightarrow> (orm_error + fv) \<times> 'd" where
  "loadHasMany sv lib T db rv rel t info d =
     (case collectPKs rv info of
        Inl e \<Rightarrow> (Inl e, d)
      | Inr keys \<Rightarrow>
          if keys = [] then (Inr rv, d)
          else (case query_keys sv db (in_query db (rd_table rel) (rd_foreignKey rel) (length keys)) keys d of
                  (Inl e, d1) \<Rightarrow> (Inl e, d1)
                | (Inr rows, d1) \<Rightarrow>
                    (case struct_name (rd_elemType rel) of
                       Inl e \<Rightarrow> (Inl e, d1)
                     | Inr m \<Rightarrow>
                         (case buildFKMap lib T rows (rd_foreignKey rel) m of
                            Inl e \<Rightarrow> (Inl e, d1)
                          | Inr related \<Rightarrow> (assignHasMany rv info rel t related, d1)))))"

definition loadBelongsTo ::
  "'d sql_server \<Rightarrow> slib \<Rightarrow> types \<Rightarrow> (nat \<Rightarrow> nat) \<Rightarrow> DB \<Rightarrow> fv \<Rightarrow> relationDef \<Rightarrow> goty \<Rightarrow> structInfo \<Rightarrow> 'd \<Rightarrow> (orm_error + fv) \<times> 'd" where
  "loadBelongsTo sv lib T alloc db rv rel t info d =
     (case map_of (si_fields info) (rd_foreignKey rel) of
        None \<Rightarrow> (Inl (NoForeignKey (rd_foreignKey rel)), d)
      | Some fkIdx \<Rightarrow>
          (case collect_keys (Some fkIdx) (sliceOrOne rv) [] of
             Inl e \<Rightarrow> (Inl e, d)
           | Inr keys \<Rightarrow>
               if keys = [] then (Inr rv, d)
               else (case struct_name (rd_elemType rel) of
                       Inl e \<Rightarrow> (Inl e, d)
                     | Inr m \<Rightarrow>
                         (let pkCol = si_pkCol (buildStructInfo (ty_fields T m))
                          in case query_keys sv db (in_query db (rd_table rel) pkCol (length keys)) keys d of
                               (Inl e, d1) \<Rightarrow> (Inl e, d1)
                             | (Inr rows, d1) \<Rightarrow>
                                 (case buildPKMap lib T rows pkCol m of
                                    Inl e \<Rightarrow> (Inl e, d1)
                                  | Inr related \<Rightarrow> (assignBelongsTo rv fkIdx rel alloc t related, d1))))))"

definition loadManyToMany ::
  "'d sql_server \<Rightarrow> slib \<Rightarrow> types \<Rightarrow> DB \<Rightarrow> fv \<Rightarrow> relationDef \<Rightarrow> goty \<Rightarrow> structInfo \<Rightarrow> 'd \<Rightarrow> (orm_error + fv) \<times> 'd" where
  "loadManyToMany sv lib T db rv rel t info d =
     (case collectPKs rv info of
        Inl e \<Rightarrow> (Inl e, d)
      | Inr keys \<Rightarrow>
          if keys = [] then (Inr rv, d)
          else (case query_keys sv db (join_query db rel (length keys)) keys d of
                  (Inl e, d1) \<Rightarrow> (Inl e, d1)
                | (Inr rows, d1) \<Rightarrow>
                    (case struct_name (rd_elemType rel) of
                       Inl e \<Rightarrow> (Inl e, d1)
                     | Inr m \<Rightarrow>
                         (case buildFKMap lib T rows (rd_joinKey rel) m of
                            Inl e \<Rightarrow> (Inl e, d1)
                          | Inr related \<Rightarrow> (assignHasMany rv info rel t related, d1)))))"

definition elem_type :: "fv \<Rightarrow> goty" where
  "elem_type rv = (case rv of FSlice u es \<Rightarrow> strip_ptr u | FStruct n vs \<Rightarrow> TyStruct n | _ \<Rightarrow> TyAny)"

definition loadRelation ::
  "'d sql_server \<Rightarrow> slib \<Rightarrow> types \<Rightarrow> (nat \<Rightarrow> nat) \<Rightarrow> DB \<Rightarrow> string \<Rightarrow> fv \<Rightarrow> 'd \<Rightarrow> (orm_error + fv) \<times> 'd" where
  "loadRelation sv lib T alloc db name rv d =
     (case struct_name (elem_type rv) of
        Inl e \<Rightarrow> (Inl e, d)
      | Inr n \<Rightarrow>
          (let info = buildStructInfo (ty_fields T n)
           in case map_of (si_relations info) name of
                None \<Rightarrow> (Inl (RelationNotFound name n), d)
              | Some rel \<Rightarrow>
                  (let t = sf_Type (ty_fields T n ! rd_fieldIndex rel)
                   in if rd_kind rel = ''has_many'' then loadHasMany sv lib T db rv rel t info d
                      else if rd_kind rel = ''belongs_to'' then loadBelongsTo sv lib T alloc db rv rel t info d
                      else if rd_kind rel = ''many_to_many'' then loadManyToMany sv lib T db rv rel t info d
                      else (Inl (UnknownKind (rd_kind rel)), d))))"

text \<open>\<open>LoadContext\<close>: the relations loaded before an error stay loaded. \<open>alloc r i\<close> is memory for element \<open>i\<close> and relation \<open>r\<close>.\<close>

fun LoadContext ::
  "'d sql_server \<Rightarrow> slib \<Rightarrow> types \<Rightarrow> (nat \<Rightarrow> nat \<Rightarrow> nat) \<Rightarrow> DB \<Rightarrow> nat \<Rightarrow> string list \<Rightarrow> fv \<Rightarrow> 'd \<Rightarrow> orm_error option \<times> fv \<times> 'd" where
  "LoadContext sv lib T alloc db r [] rv d = (None, rv, d)"
| "LoadContext sv lib T alloc db r (name # names) rv d =
     (case loadRelation sv lib T (alloc r) db name rv d of
        (Inl (OrmPanic p), d1) \<Rightarrow> (Some (OrmPanic p), rv, d1)
      | (Inl e, d1) \<Rightarrow> (Some (LoadErr name e), rv, d1)
      | (Inr rv1, d1) \<Rightarrow> LoadContext sv lib T alloc db (Suc r) names rv1 d1)"

section \<open>Hooks, and reading with everything in place\<close>

text \<open>The hook methods of the model type; \<^const>\<open>None\<close> when the type does not have the method.\<close>

type_synonym 'd hooks = "string \<Rightarrow> (fv \<Rightarrow> 'd \<Rightarrow> string option \<times> fv \<times> 'd) option"

definition hookNames :: "string list" where
  "hookNames = [''BeforeCreate'', ''AfterCreate'', ''BeforeSave'', ''AfterSave'', ''BeforeUpdate'', ''AfterUpdate'', ''BeforeDelete'',
     ''AfterDelete'', ''AfterFind'']"

definition callHook :: "'d hooks \<Rightarrow> string \<Rightarrow> fv \<Rightarrow> 'd \<Rightarrow> string option \<times> fv \<times> 'd" where
  "callHook hk hook v d =
     (if hook \<in> set hookNames then (case hk hook of Some h \<Rightarrow> h v d | None \<Rightarrow> (None, v, d)) else (None, v, d))"

text \<open>A nil pointer in the slice is handed to the method as it is.\<close>

fun slice_hooks :: "'d hooks \<Rightarrow> fv list \<Rightarrow> 'd \<Rightarrow> fv list \<times> 'd" where
  "slice_hooks hk [] d = ([], d)"
| "slice_hooks hk (e # es) d =
     (case callHook hk ''AfterFind'' (case e of FPtr a v \<Rightarrow> v | _ \<Rightarrow> e) d of
        (_, v, d1) \<Rightarrow> (case slice_hooks hk es d1 of (es', d2) \<Rightarrow> (put_elem e v # es', d2)))"

definition callSliceHook :: "'d hooks \<Rightarrow> string \<Rightarrow> fv \<Rightarrow> 'd \<Rightarrow> fv \<times> 'd" where
  "callSliceHook hk hook rv d =
     (if hook \<noteq> ''AfterFind'' then (rv, d)
      else (case rv of FSlice u es \<Rightarrow> (case slice_hooks hk es d of (es', d1) \<Rightarrow> (FSlice u es', d1)) | _ \<Rightarrow> (rv, d)))"

datatype fetch_error = QueryErr sql_error | FetchErr orm_error

text \<open>The end of \<open>First\<close> and \<open>All\<close>: errors of eager loading are dropped, panics are not.\<close>

definition eager ::
  "'d sql_server \<Rightarrow> slib \<Rightarrow> types \<Rightarrow> (nat \<Rightarrow> nat \<Rightarrow> nat) \<Rightarrow> DB \<Rightarrow> string list \<Rightarrow> sql_rows \<Rightarrow> fv \<Rightarrow> 'd \<Rightarrow> fetch_error option \<times> fv \<times> 'd" where
  "eager sv lib T alloc db withs rows rv d =
     (case LoadContext sv lib T alloc db 0 withs rv d of
        (Some (OrmPanic p), rv1, d1) \<Rightarrow> (Some (FetchErr (OrmPanic p)), rv1, d1)
      | (_, rv1, d1) \<Rightarrow> (map_option (\<lambda>e. QueryErr (DriverError e)) (rw_close rows), rv1, d1))"

definition First_into ::
  "'d sql_server \<Rightarrow> slib \<Rightarrow> types \<Rightarrow> 'd hooks \<Rightarrow> (nat \<Rightarrow> nat \<Rightarrow> nat) \<Rightarrow> string list \<Rightarrow> Builder \<Rightarrow> goty \<Rightarrow> fv \<Rightarrow> 'd \<Rightarrow> fetch_error option \<times> fv \<times> 'd" where
  "First_into sv lib T hk alloc withs b t dest d =
     (case b_err b of
        Some e \<Rightarrow> (Some (QueryErr e), dest, d)
      | None \<Rightarrow>
          (case queryContext sv (b_db b) (normalizePlaceholders (b_db b) (buildSelect (b\<lparr>b_limit := 1\<rparr>))) d of
             (Inl e, d1) \<Rightarrow> (Some (QueryErr (DriverError e)), dest, d1)
           | (Inr rows, d1) \<Rightarrow>
               (case rw_rows rows of
                  [] \<Rightarrow> (Some (QueryErr (case rw_err rows of Some e \<Rightarrow> DriverError e | None \<Rightarrow> ErrNotFound)), dest, d1)
                | row # _ \<Rightarrow>
                    (case scanRowToStruct lib T (alloc 0) (rw_cols rows) row t dest of
                       (Some e, v) \<Rightarrow> (Some (FetchErr e), v, d1)
                     | (None, v) \<Rightarrow>
                         (case callHook hk ''AfterFind'' v d1 of
                            (_, v1, d2) \<Rightarrow> eager sv lib T (\<lambda>r. alloc (Suc r)) (b_db b) withs rows v1 d2)))))"

definition All_into ::
  "'d sql_server \<Rightarrow> slib \<Rightarrow> types \<Rightarrow> 'd hooks \<Rightarrow> (nat \<Rightarrow> nat \<Rightarrow> nat) \<Rightarrow> (nat \<Rightarrow> nat \<Rightarrow> nat) \<Rightarrow> string list \<Rightarrow> Builder \<Rightarrow> fv \<Rightarrow> 'd
     \<Rightarrow> fetch_error option \<times> fv \<times> 'd" where
  "All_into sv lib T hk allocRows allocRel withs b dest d =
     (case b_err b of
        Some e \<Rightarrow> (Some (QueryErr e), dest, d)
      | None \<Rightarrow>
          (case queryContext sv (b_db b) (normalizePlaceholders (b_db b) (buildSelect b)) d of
             (Inl e, d1) \<Rightarrow> (Some (QueryErr (DriverError e)), dest, d1)
           | (Inr rows, d1) \<Rightarrow>
               (case scanRows lib T allocRows rows dest of
                  (Some e, v) \<Rightarrow> (Some (FetchErr e), v, d1)
                | (None, v) \<Rightarrow>
                    (case callSliceHook hk ''AfterFind'' v d1 of
                       (v1, d2) \<Rightarrow> eager sv lib T allocRel (b_db b) withs rows v1 d2))))"

end
