(* ===== verification/Orm_Spec.thy ===== *)
theory Orm_Spec
  imports Orm_Relations
begin

text \<open>
  What eager loading does: one query for all parents gives every parent the children it would get by itself, and many-to-many
  relations are never filled.
\<close>

section \<open>Collecting keys\<close>

text \<open>The values of a list without repetitions, in the order of their first occurrence.\<close>

definition firsts :: "'a list \<Rightarrow> 'a list" where
  "firsts xs = rev (remdups (rev xs))"

lemma firsts_simps [simp]: "set (firsts xs) = set xs" "distinct (firsts xs)" "firsts [] = []"
  by (simp_all add: firsts_def)

lemma firsts_snoc: "firsts (xs @ [x]) = (if x \<in> set xs then firsts xs else firsts xs @ [x])"
  by (simp add: firsts_def)

definition fld :: "nat \<Rightarrow> fv \<Rightarrow> fv" where
  "fld i v = (case v of FStruct n vs \<Rightarrow> vs ! i | _ \<Rightarrow> v)"

lemma fld_struct [simp]: "fld i (FStruct n vs) = vs ! i"
  by (simp add: fld_def)

lemma field_at_struct [simp]: "field_at (Some i) (FStruct n vs) = Inr (vs ! i)"
  by (simp add: field_at_def elem_fields_def)

lemma collect_keys_structs:
  "\<forall>vs \<in> set vss. hashable (vs ! p) \<Longrightarrow>
   collect_keys (Some p) (map (FStruct n) vss) (firsts ks) = Inr (firsts (ks @ map (\<lambda>vs. vs ! p) vss))"
proof (induction vss arbitrary: ks)
  case (Cons vs vss)
  have "collect_keys (Some p) (map (FStruct n) vss) (firsts (ks @ [vs ! p])) = Inr (firsts ((ks @ [vs ! p]) @ map (\<lambda>vs. vs ! p) vss))"
    using Cons by (intro Cons.IH) simp
  then show ?case using Cons.prems by (simp add: firsts_snoc)
qed simp

section \<open>Grouping rows by key\<close>




lemma map_elems_all:
  "(\<And>i e. e \<in> set es \<Longrightarrow> f i e = Inr (g e)) \<Longrightarrow> map_elems f i es = Inr (map g es)"
  by (induction es arbitrary: i) simp_all

section \<open>Properties\<close>


lemma scan_elem_struct: "scan_elem lib T m cols row = Inr r \<Longrightarrow> \<exists>ws. r = FStruct m ws"
  by (auto simp: scan_elem_def map_sum_def split: if_splits sum.splits)



text \<open>Users with posts, posts with tags and an author.\<close>

definition blog_types :: types where
  "blog_types =
     \<lparr>ty_fields = (\<lambda>n.
        if n = ''User'' then
          [\<lparr>sf_Name = ''ID'', sf_Exported = True, sf_Tag = ''id,primaryKey'', sf_Type = TyInt64\<rparr>,
           \<lparr>sf_Name = ''Posts'', sf_Exported = True, sf_Tag = ''has_many:posts,foreign_key:user_id'', sf_Type = TySlice (TyStruct ''Post'')\<rparr>]
        else if n = ''Post'' then
          [\<lparr>sf_Name = ''ID'', sf_Exported = True, sf_Tag = ''id,primaryKey'', sf_Type = TyInt64\<rparr>,
           \<lparr>sf_Name = ''UserID'', sf_Exported = True, sf_Tag = ''user_id'', sf_Type = TyInt64\<rparr>,
           \<lparr>sf_Name = ''Tags'', sf_Exported = True, sf_Tag = ''many_to_many:tags,join_table:post_tags,join_key:post_id,ref_key:tag_id'',
             sf_Type = TySlice (TyStruct ''Tag'')\<rparr>]
        else if n = ''Tag'' then [\<lparr>sf_Name = ''ID'', sf_Exported = True, sf_Tag = ''id,primaryKey'', sf_Type = TyInt64\<rparr>]
        else []),
      ty_zero = (\<lambda>n.
        if n = ''User'' then [FInt64 0, FSlice (TyStruct ''Post'') []]
        else if n = ''Post'' then [FInt64 0, FInt64 0, FSlice (TyStruct ''Tag'') []]
        else if n = ''Tag'' then [FInt64 0]
        else [])\<rparr>"

definition blog_lib :: slib where
  "blog_lib = demo_slib\<lparr>sl_Scan := (\<lambda>t src. case (t, src) of (TyInt64, GInt64 n) \<Rightarrow> Inr (FInt64 n) | _ \<Rightarrow> Inl ''unsupported Scan'')\<rparr>"

definition blog_server :: "string list \<Rightarrow> gval list list \<Rightarrow> nat sql_server" where
  "blog_server cols rows =
     \<lparr>sv_query = (\<lambda>_ _ _ d. (Inr \<lparr>rw_cols = cols, rw_rows = rows, rw_err = None, rw_close = None\<rparr>, Suc d)),
      sv_exec = (\<lambda>_ _ _ d. (Inr 0, d)), sv_begin = (\<lambda>d. (None, d)), sv_commit = (\<lambda>d. (None, d)), sv_rollback = (\<lambda>d. (None, d))\<rparr>"

definition blog_db :: DB where
  "blog_db = \<lparr>db_driver = DriverPostgres, db_tx = False, db_txDepth = 0\<rparr>"


definition post_tags :: relationDef where
  "post_tags = the (map_of (si_relations (buildStructInfo (ty_fields blog_types ''Post''))) ''Tags'')"

abbreviation demo_post :: "i64 \<Rightarrow> i64 \<Rightarrow> fv" where
  "demo_post i u \<equiv> FStruct ''Post'' [FInt64 i, FInt64 u, FSlice (TyStruct ''Tag'') []]"


lemma post_tags_parsed:
  "post_tags = \<lparr>rd_kind = ''many_to_many'', rd_table = ''tags'', rd_foreignKey = [], rd_joinTable = ''post_tags'', rd_joinKey = ''post_id'',
     rd_refKey = ''tag_id'', rd_fieldIndex = 2, rd_elemType = TyStruct ''Tag''\<rparr>"
  by code_simp

lemma blog_info:
  "si_fields (buildStructInfo (ty_fields blog_types ''Post'')) = [(''id'', 0), (''user_id'', 1)]"
  "si_pkIndex (buildStructInfo (ty_fields blog_types ''User'')) = Some 0"
  "si_fields (buildStructInfo (ty_fields blog_types ''Tag'')) = [(''id'', 0)]"
  by code_simp+




section \<open>Many-to-many relations stay empty\<close>

lemma buildFKMap_nil_key:
  "buildFKMap_loop lib T m None cols rows result = Inr result' \<Longrightarrow> \<forall>k \<in> fst ` set result. k = None \<Longrightarrow> \<forall>k \<in> fst ` set result'. k = None"
proof (induction rows arbitrary: result)
  case (Cons row rows)
  have "\<forall>k \<in> fst ` set (AList.update None es result). k = None" for es
    using Cons.prems(2) by (auto dest!: AList_update_set)
  with Cons show ?case by (auto split: sum.splits if_splits)
qed simp

lemma map_elems_id: "map_elems f i es = Inr es' \<Longrightarrow> (\<And>i e e'. e \<in> set es \<Longrightarrow> f i e = Inr e' \<Longrightarrow> e' = e) \<Longrightarrow> es' = es"
proof (induction es arbitrary: i es')
  case (Cons e es)
  from Cons.prems(1) obtain e1 es1 where e: "f i e = Inr e1" "map_elems f (Suc i) es = Inr es1" "es' = e1 # es1"
    by (auto split: sum.splits)
  have "es1 = es" by (rule Cons.IH [OF e(2)]) (use Cons.prems(2) in auto)
  with e Cons.prems(2) [of e i e1] show ?case by simp
qed simp

lemma put_elems_same: "put_elems rv (sliceOrOne rv) = rv"
proof (cases rv)
  case (FSlice u es)
  have "map2 put_elem es (map (\<lambda>e. case e of FPtr a v \<Rightarrow> v | _ \<Rightarrow> e) es) = es"
    by (induction es) (auto simp: put_elem_def split: fv.splits)
  with FSlice show ?thesis by (simp add: put_elems_def sliceOrOne_def)
qed (simp_all add: put_elems_def sliceOrOne_def)

text \<open>
  Loading a many-to-many relation changes nothing: the rows are grouped by the join key as a column of the related type, which is not there
  unless the related struct happens to declare it, so all rows end up under the key nil and no parent finds its own.
\<close>

theorem many_to_many_loads_nothing:
  assumes "rd_elemType rel = TyStruct m" and "map_of (si_fields (buildStructInfo (ty_fields T m))) (rd_joinKey rel) = None"
    and "loadManyToMany sv lib T db rv rel t info d = (Inr rv', d')"
  shows "rv' = rv"
proof -
  have *: "rv'' = rv" if r: "buildFKMap lib T rows (rd_joinKey rel) m = Inr related" "assignHasMany rv info rel t related = Inr rv''" for rows related rv''
  proof -
    have "\<forall>k \<in> fst ` set related. k = None"
      using r(1) assms(2) buildFKMap_nil_key [of lib T m "rw_cols rows" "rw_rows rows" "[]" related] by (auto simp: buildFKMap_def split: sum.splits option.splits)
    then have none: "map_of related (Some pk) = None" for pk by (auto simp: map_of_eq_None_iff)
    obtain es where es: "map_elems (\<lambda>i. assign_many info rel t related) 0 (sliceOrOne rv) = Inr es" "rv'' = put_elems rv es"
      using r(2) by (auto simp: assignHasMany_def map_sum_def split: sum.splits)
    have "es = sliceOrOne rv" by (rule map_elems_id [OF es(1)]) (auto simp: assign_many_def none split: sum.splits if_splits)
    with es(2) show ?thesis by (simp add: put_elems_same)
  qed
  with assms show ?thesis
    by (auto simp: loadManyToMany_def struct_name_def split: sum.splits if_splits prod.splits)
qed

theorem many_to_many_loads_nothing_witness:
  "loadManyToMany (blog_server [''post_id'', ''id''] [[GInt64 10, GInt64 7]]) blog_lib blog_types blog_db (demo_post 10 1)
     post_tags (TySlice (TyStruct ''Tag'')) (buildStructInfo (ty_fields blog_types ''Post'')) 0 = (Inr (demo_post 10 1), 1)"
  (is "?run = _")
proof -
  have "\<not> isl (fst ?run)" and d: "snd ?run = 1" by code_simp+
  then obtain rv where rv: "?run = (Inr rv, 1)" by (cases ?run; cases "fst ?run") auto
  with many_to_many_loads_nothing [OF _ _ rv] show ?thesis by (simp add: post_tags_parsed blog_info)
qed


section \<open>Belongs-to relations\<close>

lemma buildPKMap_loop_fold:
  assumes "map (scan_elem lib T m cols) rows = map Inr rs" and "\<forall>r \<in> set rs. hashable (fld j r)"
  shows "buildPKMap_loop lib T m (Some j) cols rows result = Inr (fold (\<lambda>r. AList.update (fld j r) r) rs result)"
  using assms
proof (induction rows arbitrary: rs result)
  case (Cons row rows)
  then obtain r rs' where rs: "rs = r # rs'" "scan_elem lib T m cols row = Inr r" "map (scan_elem lib T m cols) rows = map Inr rs'" by auto
  moreover obtain ws where "r = FStruct m ws" using scan_elem_struct [OF rs(2)] by blast
  ultimately show ?case using Cons.prems Cons.IH [OF rs(3)] by auto
qed simp

lemma last_fold:
  "map_of (fold (\<lambda>r. AList.update (key r) r) rs result) k =
     (case find (\<lambda>r. key r = k) (rev rs) of Some r \<Rightarrow> Some r | None \<Rightarrow> map_of result k)"
  by (induction rs rule: rev_induct) (auto simp: update_conv')

lemma map_elems_index:
  "(\<And>k e. e \<in> set es \<Longrightarrow> f k e = Inr (g k e)) \<Longrightarrow> map_elems f i es = Inr (map (\<lambda>(k, e). g k e) (enumerate i es))"
  by (induction es arbitrary: i) simp_all

text \<open>What one child gets when its parent is looked for among all rows.\<close>

definition attach_one :: "nat \<Rightarrow> nat \<Rightarrow> bool \<Rightarrow> nat \<Rightarrow> nat \<Rightarrow> fv list \<Rightarrow> fv list \<Rightarrow> fv list" where
  "attach_one fk i ptr addr j rs vs =
     (case find (\<lambda>r. fld j r = vs ! fk) (rev rs) of None \<Rightarrow> vs | Some r \<Rightarrow> vs[i := if ptr then FPtr addr r else r])"

text \<open>
  Loading a belongs-to relation sends a single query with each foreign key once, and gives every child the row whose primary key is its
  foreign key, by value or behind a new pointer; a child without such a row keeps its field.
\<close>

theorem belongs_to_exact:
  assumes "sliceOrOne rv = map (FStruct n) vss" and "vss \<noteq> []" and "map_of (si_fields info) (rd_foreignKey rel) = Some fk"
    and "\<forall>vs \<in> set vss. hashable (vs ! fk) \<and> driver_value (vs ! fk) \<noteq> None"
    and "rd_elemType rel = TyStruct m" and "pkCol = si_pkCol (buildStructInfo (ty_fields T m))"
    and "map_of (si_fields (buildStructInfo (ty_fields T m))) pkCol = Some j"
    and "keys = firsts (map (\<lambda>vs. vs ! fk) vss)"
    and "queryContext sv db (in_query db (rd_table rel) pkCol (length keys), map (the \<circ> driver_value) keys) d = (Inr rows, d1)"
    and "rw_err rows = None" and "map (scan_elem lib T m (rw_cols rows)) (rw_rows rows) = map Inr rs" and "\<forall>r \<in> set rs. hashable (fld j r)"
  shows "loadBelongsTo sv lib T alloc db rv rel (if ptr then TyPtr (TyStruct m) else TyStruct m) info d =
    (Inr (put_elems rv (map (\<lambda>(k, vs). FStruct n (attach_one fk (rd_fieldIndex rel) ptr (alloc k) j rs vs)) (enumerate 0 vss))), d1)"
proof -
  have keys: "collect_keys (Some fk) (sliceOrOne rv) [] = Inr keys" "keys \<noteq> []" "\<not> (\<exists>k \<in> set keys. driver_value k = None)"
    using assms(1,2,4,8) collect_keys_structs [of vss fk n "[]"] by auto (auto simp: firsts_def)
  let ?t = "if ptr then TyPtr (TyStruct m) else TyStruct m"
  let ?rel = "fold (\<lambda>r. AList.update (fld j r) r) rs []"
  have pk: "buildPKMap lib T rows pkCol m = Inr ?rel"
    using buildPKMap_loop_fold [OF assms(11,12)] assms(7,10) by (simp add: buildPKMap_def)
  have one: "assign_one fk rel (alloc k) ?t ?rel (FStruct n vs) = Inr (FStruct n (attach_one fk (rd_fieldIndex rel) ptr (alloc k) j rs vs))"
    if "vs \<in> set vss" for k vs
    using that assms(4,5) last_fold [of "fld j" rs "[]" "vs ! fk"] by (auto simp: assign_one_def attach_one_def split: option.splits)
  have "map_elems (\<lambda>k. assign_one fk rel (alloc k) ?t ?rel) 0 (map (FStruct n) vss)
      = Inr (map (\<lambda>(k, e). case e of FStruct n vs \<Rightarrow> FStruct n (attach_one fk (rd_fieldIndex rel) ptr (alloc k) j rs vs) | _ \<Rightarrow> e)
               (enumerate 0 (map (FStruct n) vss)))"
    by (rule map_elems_index) (use one in auto)
  moreover have "enumerate 0 (map (FStruct n) vss) = map (\<lambda>(k, vs). (k, FStruct n vs)) (enumerate 0 vss)"
    by (simp add: enumerate_eq_zip zip_map2)
  ultimately have "assignBelongsTo rv fk rel alloc ?t ?rel =
      Inr (put_elems rv (map (\<lambda>(k, vs). FStruct n (attach_one fk (rd_fieldIndex rel) ptr (alloc k) j rs vs)) (enumerate 0 vss)))"
    by (simp add: assignBelongsTo_def assms(1) comp_def case_prod_unfold)
  with keys pk assms(3,5,6,9) show ?thesis by (simp add: loadBelongsTo_def query_keys_def struct_name_def Let_def)
qed

text \<open>
  A nullable foreign key, a field of pointer type, never finds its row: the map is keyed by the primary keys as values, and a pointer is not
  equal to the value it points to.
\<close>

theorem nullable_key_loads_nothing:
  assumes "\<forall>e \<in> set (sliceOrOne rv). \<exists>n vs. e = FStruct n vs \<and> (\<exists>u. has_type T (vs ! fk) (TyPtr u))"
    and "\<forall>k \<in> fst ` set related. \<forall>u. \<not> has_type T k (TyPtr u)"
  shows "assignBelongsTo rv fk rel alloc t related = Inr rv"
proof -
  have "assign_one fk rel (alloc k) t related e = Inr e" if e: "e \<in> set (sliceOrOne rv)" for k e
  proof -
    from assms(1) e obtain n vs u where v: "e = FStruct n vs" "has_type T (vs ! fk) (TyPtr u)" by blast
    with assms(2) have "map_of related (vs ! fk) = None" by (force simp: map_of_eq_None_iff)
    moreover have "hashable (vs ! fk)" using v(2) by (cases "vs ! fk") auto
    ultimately show ?thesis using v by (simp add: assign_one_def)
  qed
  then have "map_elems (\<lambda>k. assign_one fk rel (alloc k) t related) 0 (sliceOrOne rv) = Inr (sliceOrOne rv)"
    using map_elems_all [where g = "\<lambda>e. e"] by simp
  then show ?thesis by (simp add: assignBelongsTo_def put_elems_same)
qed

end
