(* ===== verification/Local_Storage.thy ===== *)
theory Local_Storage
  imports Oni_Prelude
begin

text \<open>
  Model of \<open>framework/storage/local.go\<close> on POSIX: the local disk driver over a file system of files and
  directories without symbolic links. \<open>filepath.Clean\<close>, \<open>Join\<close> and \<open>Rel\<close> are written for absolute paths, the only
  ones that occur. The file system is keyed by the components of a cleaned path. Of the errors the operating
  system can raise the model has missing files and files or directories in the wrong place.
\<close>

section \<open>Paths\<close>

fun clean_loop :: "string list \<Rightarrow> string list \<Rightarrow> string list" where
  "clean_loop out [] = rev out"
| "clean_loop out (c # cs) =
     (if c = [] \<or> c = ''.'' then clean_loop out cs
      else if c = ''..'' then clean_loop (tl out) cs
      else clean_loop (c # out) cs)"

definition cleanComps :: "string \<Rightarrow> string list" where
  "cleanComps p = clean_loop [] (SplitOn CHR ''/'' p)"

definition rooted :: "string list \<Rightarrow> string" where
  "rooted cs = CHR ''/'' # Join ''/'' cs"

definition Clean :: "string \<Rightarrow> string" where
  "Clean p = rooted (cleanComps p)"

definition JoinPath :: "string \<Rightarrow> string \<Rightarrow> string" where
  "JoinPath a b = Clean (a @ ''/'' @ b)"

fun strip_common :: "string list \<Rightarrow> string list \<Rightarrow> string list \<times> string list" where
  "strip_common (x # xs) (y # ys) = (if x = y then strip_common xs ys else (x # xs, y # ys))"
| "strip_common xs ys = (xs, ys)"

definition Rel :: "string \<Rightarrow> string \<Rightarrow> string" where
  "Rel base targ =
     (case strip_common (cleanComps base) (cleanComps targ) of
        (up, down) \<Rightarrow> if up = [] \<and> down = [] then ''.'' else Join ''/'' (map (\<lambda>_. ''..'') up @ down))"

section \<open>Files\<close>

datatype node = File string | Dir

datatype storage_error = Escapes string | NotExist | NotADirectory | IsADirectory | DirNotEmpty | ReadFailed

type_synonym fs = "(string list, node) gomap"

definition fs_node :: "fs \<Rightarrow> string list \<Rightarrow> node option" where
  "fs_node fs cs = (if cs = [] then Some Dir else map_of fs cs)"

text \<open>Finding a file: the directories on the way have to be directories.\<close>

fun walk :: "fs \<Rightarrow> string list \<Rightarrow> string list \<Rightarrow> storage_error option" where
  "walk fs pre [] = None"
| "walk fs pre [c] = None"
| "walk fs pre (c # d # cs) =
     (case fs_node fs (pre @ [c]) of
        None \<Rightarrow> Some NotExist
      | Some (File _) \<Rightarrow> Some NotADirectory
      | Some Dir \<Rightarrow> walk fs (pre @ [c]) (d # cs))"

definition os_Stat :: "fs \<Rightarrow> string list \<Rightarrow> storage_error + node" where
  "os_Stat fs cs =
     (case walk fs [] cs of
        Some e \<Rightarrow> Inl e
      | None \<Rightarrow> (case fs_node fs cs of None \<Rightarrow> Inl NotExist | Some n \<Rightarrow> Inr n))"

fun os_MkdirAll :: "fs \<Rightarrow> string list \<Rightarrow> string list \<Rightarrow> storage_error option \<times> fs" where
  "os_MkdirAll fs pre [] = (None, fs)"
| "os_MkdirAll fs pre (c # cs) =
     (case map_of fs (pre @ [c]) of
        Some (File _) \<Rightarrow> (Some NotADirectory, fs)
      | Some Dir \<Rightarrow> os_MkdirAll fs (pre @ [c]) cs
      | None \<Rightarrow> os_MkdirAll (AList.update (pre @ [c]) Dir fs) (pre @ [c]) cs)"

definition os_Create :: "fs \<Rightarrow> string list \<Rightarrow> storage_error option \<times> fs" where
  "os_Create fs cs =
     (case walk fs [] cs of
        Some e \<Rightarrow> (Some e, fs)
      | None \<Rightarrow> (case fs_node fs cs of Some Dir \<Rightarrow> (Some IsADirectory, fs) | _ \<Rightarrow> (None, AList.update cs (File []) fs)))"

definition os_Remove :: "fs \<Rightarrow> string list \<Rightarrow> storage_error option \<times> fs" where
  "os_Remove fs cs =
     (case os_Stat fs cs of
        Inl e \<Rightarrow> (Some e, fs)
      | Inr (File _) \<Rightarrow> (None, AList.delete cs fs)
      | Inr Dir \<Rightarrow>
          if cs = [] \<or> (\<exists>k \<in> fst ` set fs. length k > length cs \<and> take (length cs) k = cs) then (Some DirNotEmpty, fs)
          else (None, AList.delete cs fs))"

section \<open>The driver\<close>

record Local =
  lo_root :: string
  lo_baseURL :: string

fun trimRightSlash :: "string \<Rightarrow> string" where
  "trimRightSlash s = (if s \<noteq> [] \<and> last s = CHR ''/'' then trimRightSlash (butlast s) else s)"

declare trimRightSlash.simps [simp del]

text \<open>\<open>NewLocal\<close> for an absolute root directory.\<close>

definition NewLocal :: "fs \<Rightarrow> string \<Rightarrow> string \<Rightarrow> (storage_error + Local) \<times> fs" where
  "NewLocal fs dir baseURL =
     (case os_MkdirAll fs [] (cleanComps dir) of
        (Some e, fs1) \<Rightarrow> (Inl e, fs1)
      | (None, fs1) \<Rightarrow> (Inr \<lparr>lo_root = Clean dir, lo_baseURL = trimRightSlash baseURL\<rparr>, fs1))"

definition Local_abs :: "Local \<Rightarrow> string \<Rightarrow> storage_error + string" where
  "Local_abs l path =
     (let clean = Clean (''/'' @ path);
          joined = JoinPath (lo_root l) clean;
          rel = Rel (lo_root l) joined
      in if rel = ''..'' \<or> HasPrefix rel ''../'' then Inl (Escapes path) else Inr joined)"

text \<open>
  A reader gives its bytes when it is read, so a reader on a file sees what the file holds at that time;
  \<open>io.Copy\<close> reads after \<open>os.Create\<close> has truncated the target. Reading a directory fails.
\<close>

type_synonym reader = "fs \<Rightarrow> string option"

definition Local_Put :: "Local \<Rightarrow> fs \<Rightarrow> string \<Rightarrow> reader \<Rightarrow> storage_error option \<times> fs" where
  "Local_Put l fs path r =
     (case Local_abs l path of
        Inl e \<Rightarrow> (Some e, fs)
      | Inr dst \<Rightarrow>
          (case os_MkdirAll fs [] (butlast (cleanComps dst)) of
             (Some e, fs1) \<Rightarrow> (Some e, fs1)
           | (None, fs1) \<Rightarrow>
               (case os_Create fs1 (cleanComps dst) of
                  (Some e, fs2) \<Rightarrow> (Some e, fs2)
                | (None, fs2) \<Rightarrow>
                    (case r fs2 of
                       None \<Rightarrow> (Some ReadFailed, fs2)
                     | Some b \<Rightarrow> (None, AList.update (cleanComps dst) (File b) fs2)))))"

definition file_reader :: "string list \<Rightarrow> reader" where
  "file_reader cs fs = (case fs_node fs cs of Some (File b) \<Rightarrow> Some b | _ \<Rightarrow> None)"

definition Local_Get :: "Local \<Rightarrow> fs \<Rightarrow> string \<Rightarrow> storage_error + reader" where
  "Local_Get l fs path =
     (case Local_abs l path of
        Inl e \<Rightarrow> Inl e
      | Inr p \<Rightarrow> (case os_Stat fs (cleanComps p) of Inl e \<Rightarrow> Inl e | Inr _ \<Rightarrow> Inr (file_reader (cleanComps p))))"

definition Local_Delete :: "Local \<Rightarrow> fs \<Rightarrow> string \<Rightarrow> storage_error option \<times> fs" where
  "Local_Delete l fs path =
     (case Local_abs l path of
        Inl e \<Rightarrow> (Some e, fs)
      | Inr p \<Rightarrow>
          (case os_Remove fs (cleanComps p) of
             (Some NotExist, fs1) \<Rightarrow> (None, fs1)
           | (e, fs1) \<Rightarrow> (e, fs1)))"

definition Local_Exists :: "Local \<Rightarrow> fs \<Rightarrow> string \<Rightarrow> storage_error + bool" where
  "Local_Exists l fs path =
     (case Local_abs l path of
        Inl e \<Rightarrow> Inl e
      | Inr p \<Rightarrow>
          (case os_Stat fs (cleanComps p) of
             Inl NotExist \<Rightarrow> Inr False
           | Inl e \<Rightarrow> Inl e
           | Inr _ \<Rightarrow> Inr True))"

definition Local_URL :: "Local \<Rightarrow> string \<Rightarrow> string" where
  "Local_URL l path = lo_baseURL l @ ''/'' @ dropWhile (\<lambda>c. c = CHR ''/'') path"

definition Local_Size :: "Local \<Rightarrow> fs \<Rightarrow> string \<Rightarrow> storage_error + nat option" where
  "Local_Size l fs path =
     (case Local_abs l path of
        Inl e \<Rightarrow> Inl e
      | Inr p \<Rightarrow>
          (case os_Stat fs (cleanComps p) of
             Inl e \<Rightarrow> Inl e
           | Inr (File b) \<Rightarrow> Inr (Some (length b))
           | Inr Dir \<Rightarrow> Inr None))" \<comment> \<open>the size of a directory depends on the file system\<close>

definition Local_Copy :: "Local \<Rightarrow> fs \<Rightarrow> string \<Rightarrow> string \<Rightarrow> storage_error option \<times> fs" where
  "Local_Copy l fs src dst =
     (case Local_Get l fs src of
        Inl e \<Rightarrow> (Some e, fs)
      | Inr r \<Rightarrow> Local_Put l fs dst r)"

definition Local_Move :: "Local \<Rightarrow> fs \<Rightarrow> string \<Rightarrow> string \<Rightarrow> storage_error option \<times> fs" where
  "Local_Move l fs src dst =
     (case Local_Copy l fs src dst of
        (Some e, fs1) \<Rightarrow> (Some e, fs1)
      | (None, fs1) \<Rightarrow> Local_Delete l fs1 src)"

text \<open>
  \<open>WalkDir\<close> visits the entries of a directory in the order of their names, so the files come in the lexicographic order of their
  components; every file of the file system lies in a directory.
\<close>

definition Local_List :: "Local \<Rightarrow> fs \<Rightarrow> string \<Rightarrow> storage_error + string list" where
  "Local_List l fs prefix =
     (case Local_abs l prefix of
        Inl e \<Rightarrow> Inl e
      | Inr dir \<Rightarrow>
          (case os_Stat fs (cleanComps dir) of
             Inl e \<Rightarrow> Inl e
           | Inr _ \<Rightarrow>
               Inr (map (\<lambda>k. Rel (lo_root l) (rooted k))
                 (sort (filter (\<lambda>k. take (length (cleanComps dir)) k = cleanComps dir \<and> (\<exists>b \<in> set_option (fs_node fs k). b \<noteq> Dir))
                    (remdups (map fst fs)))))))"

section \<open>Paths stay inside\<close>

definition good_comp :: "string \<Rightarrow> bool" where
  "good_comp c \<longleftrightarrow> c \<noteq> [] \<and> c \<noteq> ''.'' \<and> c \<noteq> ''..'' \<and> CHR ''/'' \<notin> set c"

lemma clean_loop_good:
  "list_all good_comp out \<Longrightarrow> list_all (\<lambda>c. CHR ''/'' \<notin> set c) cs \<Longrightarrow> list_all good_comp (clean_loop out cs)"
proof (induction out cs rule: clean_loop.induct)
  case (2 out c cs)
  then show ?case by (cases out) (auto simp: good_comp_def)
qed (simp add: list_all_iff)

lemma cleanComps_good: "list_all good_comp (cleanComps p)"
  unfolding cleanComps_def by (rule clean_loop_good) (auto simp: list_all_iff dest: SplitOn_parts_no_sep)

lemma clean_loop_append: "list_all good_comp cs \<Longrightarrow> clean_loop out (cs @ ds) = clean_loop (rev cs @ out) ds"
  by (induction cs arbitrary: out) (auto simp: good_comp_def)

lemma SplitOn_rooted:
  "list_all good_comp cs \<Longrightarrow> SplitOn CHR ''/'' (rooted cs) = [] # (if cs = [] then [[]] else cs)"
  by (auto simp: rooted_def list_all_iff good_comp_def intro: SplitOn_Join)

lemma cleanComps_rooted: "list_all good_comp cs \<Longrightarrow> cleanComps (rooted cs) = cs"
  using clean_loop_append [of cs "[]" "[]"] by (simp add: cleanComps_def SplitOn_rooted)

lemma JoinPath_rooted:
  assumes "list_all good_comp xs" and "list_all good_comp ys"
  shows "JoinPath (rooted xs) (rooted ys) = rooted (xs @ ys)"
proof -
  have "cleanComps (rooted xs @ ''/'' @ rooted ys) = xs @ ys"
    using assms clean_loop_append [of xs "[]" "[] # (if ys = [] then [[]] else ys)"] clean_loop_append [of ys "rev xs" "[]"]
    by (auto simp: cleanComps_def SplitOn_append_sep SplitOn_rooted split: if_splits)
  then show ?thesis by (simp add: JoinPath_def Clean_def)
qed

lemma strip_common_append: "strip_common xs (xs @ ys) = ([], ys)"
  by (induction xs) (cases ys, auto)

lemma abs_rooted:
  assumes "lo_root l = rooted rs" and "list_all good_comp rs"
  shows "Local_abs l path = Inr (rooted (rs @ cleanComps path))"
proof -
  let ?cs = "cleanComps path"
  have clean: "Clean (''/'' @ path) = rooted ?cs" by (simp add: Clean_def cleanComps_def)
  have joined: "JoinPath (lo_root l) (rooted ?cs) = rooted (rs @ ?cs)"
    unfolding assms(1) using assms(2) cleanComps_good by (rule JoinPath_rooted)
  have "list_all good_comp (rs @ ?cs)" using assms(2) cleanComps_good by simp
  then have rel: "Rel (lo_root l) (rooted (rs @ ?cs)) = (if ?cs = [] then ''.'' else Join ''/'' ?cs)"
    using assms by (simp add: Rel_def cleanComps_rooted strip_common_append)
  have "\<not> HasPrefix (Join ''/'' ?cs) ''../'' \<and> Join ''/'' ?cs \<noteq> ''..''" if "?cs \<noteq> []"
  proof -
    have "SplitOn CHR ''/'' (Join ''/'' ?cs) = ?cs"
      using that cleanComps_good [of path] by (intro SplitOn_Join) (auto simp: list_all_iff good_comp_def)
    moreover have "''..'' \<notin> set ?cs" using cleanComps_good [of path] by (auto simp: list_all_iff good_comp_def)
    ultimately show ?thesis using SplitOn_word_sep [of "CHR ''/''" "''..''"]
      by (auto simp: HasPrefix_iff) (metis list.set_intros(1))+
  qed
  with clean joined rel show ?thesis by (auto simp: Local_abs_def Let_def HasPrefix_def)
qed

lemma NewLocal_root: "NewLocal fs dir url = (Inr l, fs') \<Longrightarrow> lo_root l = rooted (cleanComps dir)"
  by (auto simp: NewLocal_def Clean_def split: prod.splits option.splits)

lemma abs_in_root:
  assumes "lo_root l = rooted rs" and "list_all good_comp rs" and "Local_abs l path = Inr p"
  shows "cleanComps p = rs @ cleanComps path"
  using assms abs_rooted [OF assms(1,2), of path] cleanComps_good [of path] by (auto intro!: cleanComps_rooted)

section \<open>Files and operations\<close>

lemma MkdirAll_keeps_files:
  "map_of fs k = Some (File b) \<Longrightarrow> map_of (snd (os_MkdirAll fs pre cs)) k = Some (File b)"
proof (induction fs pre cs rule: os_MkdirAll.induct)
  case (2 fs pre c cs)
  then show ?case by (cases "k = pre @ [c]") (auto split: option.splits node.splits)
qed simp

lemma MkdirAll_files_old:
  "map_of (snd (os_MkdirAll fs pre cs)) k = Some (File b) \<Longrightarrow> map_of fs k = Some (File b)"
  by (induction fs pre cs rule: os_MkdirAll.induct) (auto split: option.splits node.splits if_splits)

lemma Create_other: "k \<noteq> cs \<Longrightarrow> map_of (snd (os_Create fs cs)) k = map_of fs k"
  by (auto simp: os_Create_def split: option.splits node.splits)

lemma Remove_other: "k \<noteq> cs \<Longrightarrow> map_of (snd (os_Remove fs cs)) k = map_of fs k"
  by (auto simp: os_Remove_def split: sum.splits node.splits)

lemma walk_update:
  "cs \<noteq> [] \<Longrightarrow> walk (AList.update (pre @ cs) n fs) pre cs = walk fs pre cs"
proof (induction fs pre cs rule: walk.induct)
  case (3 fs pre c d cs)
  then show ?case by (auto simp: fs_node_def split: option.splits node.splits)
qed auto

text \<open>Which files an operation can change: those at the cleaned target path.\<close>

lemma Put_other_files:
  assumes "lo_root l = rooted rs" and "list_all good_comp rs" and "k \<noteq> rs @ cleanComps path"
  shows "map_of (snd (Local_Put l fs path r)) k = Some (File b) \<longleftrightarrow> map_of fs k = Some (File b)"
proof -
  let ?cs = "rs @ cleanComps path"
  have dst: "Local_abs l path = Inr (rooted ?cs)" "cleanComps (rooted ?cs) = ?cs"
    using abs_rooted [OF assms(1,2)] abs_in_root [OF assms(1,2)] by blast+
  obtain e1 fs1 where m: "os_MkdirAll fs [] (butlast ?cs) = (e1, fs1)" by (cases "os_MkdirAll fs [] (butlast ?cs)")
  obtain e2 fs2 where c: "os_Create fs1 ?cs = (e2, fs2)" by (cases "os_Create fs1 ?cs")
  have "map_of fs1 k = Some (File b) \<longleftrightarrow> map_of fs k = Some (File b)"
    using MkdirAll_keeps_files [of fs k b] MkdirAll_files_old [of fs "[]" "butlast ?cs" k b] m by (metis snd_conv)
  moreover have "map_of fs2 k = map_of fs1 k" using Create_other [OF assms(3), of fs1] c by simp
  ultimately show ?thesis using assms(3) by (auto simp: Local_Put_def dst m c split: option.splits)
qed

lemma Delete_other_files:
  assumes "lo_root l = rooted rs" and "list_all good_comp rs" and "k \<noteq> rs @ cleanComps path"
  shows "map_of (snd (Local_Delete l fs path)) k = map_of fs k"
proof -
  let ?cs = "rs @ cleanComps path"
  have dst: "Local_abs l path = Inr (rooted ?cs)" "cleanComps (rooted ?cs) = ?cs"
    using abs_rooted [OF assms(1,2)] abs_in_root [OF assms(1,2)] by blast+
  then show ?thesis
    using Remove_other [OF assms(3), of fs] by (auto simp: Local_Delete_def split: prod.splits option.splits storage_error.splits)
qed

lemma file_reader_cong:
  assumes "\<And>b. map_of fs' k = Some (File b) \<longleftrightarrow> map_of fs k = Some (File b)"
  shows "file_reader k fs' = file_reader k fs"
proof (cases "\<exists>b. map_of fs k = Some (File b)")
  case True
  then obtain b where "map_of fs k = Some (File b)" by blast
  moreover from this assms have "map_of fs' k = Some (File b)" by simp
  ultimately show ?thesis by (simp add: file_reader_def fs_node_def)
next
  case False
  with assms have "\<not> (\<exists>b. map_of fs' k = Some (File b))" by simp
  with False show ?thesis by (auto simp: file_reader_def fs_node_def split: option.splits node.splits)
qed

section \<open>Properties\<close>

text \<open>
  C17. Keys cannot leave the storage root: for a driver made by \<open>NewLocal\<close>, any key resolves to a path below
  the root directory with no dot-dot component, and storing, deleting, copying or moving with any keys keeps
  every file that is not below the root.
\<close>

theorem local_contained:
  assumes "NewLocal fs0 dir url = (Inr l, fs1)"
    and "take (length (cleanComps dir)) k \<noteq> cleanComps dir" and "map_of fs k = Some (File b)"
  shows "(\<exists>cs. Local_abs l path = Inr (rooted (cleanComps dir @ cs)) \<and> ''..'' \<notin> set cs)
    \<and> map_of (snd (Local_Put l fs path r)) k = Some (File b) \<and> map_of (snd (Local_Delete l fs path)) k = Some (File b)
    \<and> map_of (snd (Local_Copy l fs path path2)) k = Some (File b) \<and> map_of (snd (Local_Move l fs path path2)) k = Some (File b)"
proof -
  note root = NewLocal_root [OF assms(1)] cleanComps_good [of dir]
  have k: "k \<noteq> cleanComps dir @ cs" for cs using assms(2) by auto
  have put: "map_of (snd (Local_Put l fs path r)) k = Some (File b)" for path r
    using Put_other_files [OF root k] assms(3) by blast
  then have copy: "map_of (snd (Local_Copy l fs path path2)) k = Some (File b)"
    using assms(3) by (auto simp: Local_Copy_def split: sum.splits)
  then have "map_of (snd (Local_Move l fs path path2)) k = Some (File b)"
    using Delete_other_files [OF root k] by (auto simp: Local_Move_def split: prod.splits option.splits)
  moreover have "''..'' \<notin> set (cleanComps path)" using cleanComps_good [of path] by (auto simp: list_all_iff good_comp_def)
  ultimately show ?thesis
    using put copy Delete_other_files [OF root k] assms(3) abs_rooted [OF root] by auto
qed

theorem local_contained_witness:
  "\<exists>l cs. Local_abs l ''../../etc/passwd'' = Inr (rooted (cleanComps ''/srv/files'' @ cs)) \<and> ''..'' \<notin> set cs
     \<and> map_of (snd (Local_Put l [([''etc''], Dir), ([''etc'', ''passwd''], File ''root'')] ''../../etc/passwd'' (\<lambda>_. Some ''x''))) [''etc'', ''passwd''] = Some (File ''root'')"
proof -
  let ?new = "NewLocal [] ''/srv/files'' []"
  obtain l fs1 where l: "?new = (Inr l, fs1)" by (simp add: NewLocal_def cleanComps_def)
  have "take (length (cleanComps ''/srv/files'')) [''etc'', ''passwd''] \<noteq> cleanComps ''/srv/files''" by (simp add: cleanComps_def)
  from local_contained [OF l this, of "[([''etc''], Dir), ([''etc'', ''passwd''], File ''root'')]" "''root''" "''../../etc/passwd''" "\<lambda>_. Some ''x''"]
  show ?thesis by (intro exI [of _ l]) auto
qed

text \<open>
  What is stored is read back: after a successful \<open>Put\<close> the key exists, reading it gives the stored
  bytes, and every other file keeps its content.
\<close>

theorem put_get_roundtrip:
  assumes "NewLocal fs0 dir url = (Inr l, fs1)" and "Local_Put l fs path (\<lambda>_. Some b) = (None, fs')"
  shows "\<exists>rd. Local_Get l fs' path = Inr rd \<and> rd fs' = Some b \<and> Local_Exists l fs' path = Inr True
    \<and> (k \<noteq> cleanComps dir @ cleanComps path \<longrightarrow> file_reader k fs' = file_reader k fs)"
proof -
  note root = NewLocal_root [OF assms(1)] cleanComps_good [of dir]
  let ?cs = "cleanComps dir @ cleanComps path"
  have dst: "Local_abs l path = Inr (rooted ?cs)" "cleanComps (rooted ?cs) = ?cs"
    using abs_rooted [OF root] abs_in_root [OF root] by blast+
  from assms(2) obtain fsm fsc where m: "os_MkdirAll fs [] (butlast ?cs) = (None, fsm)" and c: "os_Create fsm ?cs = (None, fsc)"
    and fs': "fs' = AList.update ?cs (File b) fsc"
    by (auto simp: Local_Put_def dst split: prod.splits option.splits)
  have ne: "?cs \<noteq> []" using c by (auto simp: os_Create_def fs_node_def)
  from c have "walk fsm [] ?cs = None" "fsc = AList.update ?cs (File []) fsm"
    by (auto simp: os_Create_def split: option.splits node.splits)
  then have stat: "os_Stat fs' ?cs = Inr (File b)"
    using walk_update [OF ne, of "[]"] ne by (simp add: os_Stat_def fs' fs_node_def)
  have "file_reader k fs' = file_reader k fs" if "k \<noteq> ?cs"
    using Put_other_files [OF root that, of fs "\<lambda>_. Some b"] assms(2) by (intro file_reader_cong) simp
  with stat ne show ?thesis
    by (auto simp: Local_Get_def Local_Exists_def dst file_reader_def fs_node_def fs')
qed

theorem put_get_roundtrip_witness:
  "\<exists>l fs' rd. Local_Put l [([''srv''], Dir)] ''a/b.txt'' (\<lambda>_. Some ''hello'') = (None, fs') \<and> Local_Get l fs' ''a/b.txt'' = Inr rd \<and> rd fs' = Some ''hello''"
proof -
  obtain l fs1 where l: "NewLocal [([''srv''], Dir)] ''/srv'' [] = (Inr l, fs1)" by (simp add: NewLocal_def cleanComps_def)
  note root = NewLocal_root [OF l] cleanComps_good [of "''/srv''"]
  obtain fs' where p: "Local_Put l [([''srv''], Dir)] ''a/b.txt'' (\<lambda>_. Some ''hello'') = (None, fs')"
    using abs_rooted [OF root, of "''a/b.txt''"] abs_in_root [OF root, of "''a/b.txt''"]
    by (simp add: Local_Put_def os_Create_def fs_node_def cleanComps_def)
  from put_get_roundtrip [OF l p, of "[]"] obtain rd where "Local_Get l fs' ''a/b.txt'' = Inr rd" "rd fs' = Some ''hello''" by metis
  with p show ?thesis by (intro exI conjI)
qed

text \<open>
  Moving a file onto itself destroys it: \<open>Copy\<close> opens the source and then truncates it by creating the
  target, and \<open>Move\<close> deletes what is left.
\<close>

theorem move_onto_itself_loses_file:
  assumes "NewLocal fs0 dir url = (Inr l, fs1)" and "os_Stat fs (cleanComps dir @ cleanComps path) = Inr (File b)"
    and "os_MkdirAll fs [] (butlast (cleanComps dir @ cleanComps path)) = (None, fs)"
  shows "\<exists>fs'. Local_Copy l fs path path = (None, fs') \<and> file_reader (cleanComps dir @ cleanComps path) fs' = Some []
    \<and> (\<exists>fs''. Local_Move l fs path path = (None, fs'') \<and> Local_Exists l fs'' path = Inr False)"
proof -
  note root = NewLocal_root [OF assms(1)] cleanComps_good [of dir]
  let ?cs = "cleanComps dir @ cleanComps path"
  have dst: "Local_abs l path = Inr (rooted ?cs)" "cleanComps (rooted ?cs) = ?cs"
    using abs_rooted [OF root] abs_in_root [OF root] by blast+
  from assms(2) have w: "walk fs [] ?cs = None" "fs_node fs ?cs = Some (File b)" by (auto simp: os_Stat_def split: option.splits)
  then have ne: "?cs \<noteq> []" by (auto simp: fs_node_def)
  let ?fs1 = "AList.update ?cs (File []) (AList.update ?cs (File []) fs)"
  have copy: "Local_Copy l fs path path = (None, ?fs1)"
    using assms(2,3) w ne by (simp add: Local_Copy_def Local_Get_def Local_Put_def dst os_Create_def file_reader_def fs_node_def)
  have walk1: "walk ?fs1 [] ?cs = None" using w(1) walk_update [OF ne, of "[]"] by simp
  have walk2: "walk (AList.delete ?cs g) [] ?cs = walk g [] ?cs" for g
  proof -
    have "walk (AList.delete (pre @ ds) g) pre ds = walk g pre ds" if "ds \<noteq> []" for pre ds
      using that by (induction g pre ds rule: walk.induct) (auto simp: fs_node_def split: option.splits node.splits)
    from this [of ?cs "[]"] ne show ?thesis by simp
  qed
  have "Local_Move l fs path path = (None, AList.delete ?cs ?fs1)"
    using ne walk1 by (simp add: Local_Move_def copy Local_Delete_def dst os_Remove_def os_Stat_def fs_node_def)
  moreover have "Local_Exists l (AList.delete ?cs ?fs1) path = Inr False"
    using ne walk1 by (simp add: Local_Exists_def dst os_Stat_def fs_node_def walk2)
  ultimately show ?thesis using copy ne by (simp add: file_reader_def fs_node_def)
qed

theorem move_onto_itself_loses_file_witness:
  "\<exists>l fs''. Local_Move l [([''srv'', ''a''], File ''data''), ([''srv''], Dir)] ''a'' ''./a'' = (None, fs'') \<and> Local_Exists l fs'' ''a'' = Inr False"
proof -
  obtain l fs1 where l: "NewLocal [([''srv''], Dir)] ''/srv'' [] = (Inr l, fs1)" by (simp add: NewLocal_def cleanComps_def)
  have "Local_Put l fs ''./a'' r = Local_Put l fs ''a'' r" for fs r
    using abs_rooted [OF NewLocal_root [OF l] cleanComps_good] by (simp add: Local_Put_def cleanComps_def)
  then have "Local_Move l fs ''a'' ''./a'' = Local_Move l fs ''a'' ''a''" for fs by (simp only: Local_Move_def Local_Copy_def)
  moreover have "cleanComps ''/srv'' @ cleanComps ''a'' = [''srv'', ''a'']" by (simp add: cleanComps_def)
  ultimately show ?thesis
    using move_onto_itself_loses_file [OF l, of "[([''srv'', ''a''], File ''data''), ([''srv''], Dir)]" "''a''" "''data''"]
    by (intro exI [of _ l]) (auto simp: os_Stat_def fs_node_def)
qed

end
