(* ===== verification/Http_Upload.thy ===== *)
theory Http_Upload
  imports Local_Storage
begin

text \<open>
  File uploads of \<open>framework/http/upload.go\<close>: what is accepted from a multipart form, and where \<open>Store\<close> puts it, on the POSIX file
  system of the local disk driver. The target directory is absolute, as for the storage root.

  Parsing the form is \<open>net/http\<close>'s: its outcome, the file headers by field, is an argument, and so is \<open>http.DetectContentType\<close>. Opening a
  header gives its content or an error.
\<close>

section \<open>Data\<close>

record FileHeader =
  fh_Filename :: string
  fh_Size :: i64
  fh_content :: "string option" \<comment> \<open>\<^const>\<open>None\<close> when it cannot be opened\<close>

record UploadedFile =
  uf_Header :: FileHeader
  uf_Original :: string
  uf_Size :: i64
  uf_MIMEType :: string

record UploadConfig =
  uc_MaxSize :: i64
  uc_AllowedTypes :: "string list"

datatype upload_error =
    ParseForm string | FieldError string | NoFiles string | ExceedsMax string i64 | OpenError | TypeNotAllowed string
  | DirError storage_error | CreateDest storage_error | OpenSrc

definition DefaultUploadConfig :: UploadConfig where
  "DefaultUploadConfig = \<lparr>uc_MaxSize = 10 * 2 ^ 20, uc_AllowedTypes = []\<rparr>"

section \<open>Path and type helpers\<close>


text \<open>\<open>filepath.Base\<close> and \<open>filepath.Ext\<close>.\<close>

definition Base :: "string \<Rightarrow> string" where
  "Base p =
     (if p = [] then ''.''
      else (let b = last (SplitOn CHR ''/'' (trimRightSlash p)) in if b = [] then ''/'' else b))"

fun ext_loop :: "string \<Rightarrow> string \<Rightarrow> string" where
  "ext_loop acc [] = []"
| "ext_loop acc (c # rev_rest) =
     (if c = CHR ''/'' then [] else if c = CHR ''.'' then c # acc else ext_loop (c # acc) rev_rest)"

definition Ext :: "string \<Rightarrow> string" where
  "Ext p = ext_loop [] (rev p)"

definition isMIMEAllowed :: "string \<Rightarrow> string list \<Rightarrow> bool" where
  "isMIMEAllowed mime0 allowed =
     (let mime = map lowerByte mime0 in \<exists>a \<in> set allowed. EqualFold a mime \<or> HasPrefix mime (TrimSuffix a ''*''))"

section \<open>Accepting\<close>

definition newUploadedFile :: "(string \<Rightarrow> string) \<Rightarrow> FileHeader \<Rightarrow> UploadConfig \<Rightarrow> upload_error + UploadedFile" where
  "newUploadedFile detect fh cfg =
     (if 0 <s uc_MaxSize cfg \<and> uc_MaxSize cfg <s fh_Size fh then Inl (ExceedsMax (fh_Filename fh) (uc_MaxSize cfg))
      else (case fh_content fh of
              None \<Rightarrow> Inl OpenError
            | Some bytes \<Rightarrow>
                (let mime = detect (take 512 bytes)
                 in if uc_AllowedTypes cfg \<noteq> [] \<and> \<not> isMIMEAllowed mime (uc_AllowedTypes cfg) then Inl (TypeNotAllowed mime)
                    else Inr \<lparr>uf_Header = fh, uf_Original = Base (fh_Filename fh), uf_Size = fh_Size fh, uf_MIMEType = mime\<rparr>)))"

text \<open>\<open>form\<close> is the outcome of \<open>ParseMultipartForm\<close>; \<open>FormFile\<close> picks and opens the first file of the field.\<close>

definition upload_conf :: "UploadConfig list \<Rightarrow> UploadConfig" where
  "upload_conf cfg = (case cfg of [] \<Rightarrow> DefaultUploadConfig | c # _ \<Rightarrow> c)"

definition ParseUpload ::
  "(string \<Rightarrow> string) \<Rightarrow> (i64 \<Rightarrow> string + (string, FileHeader list) gomap) \<Rightarrow> string \<Rightarrow> UploadConfig list \<Rightarrow> upload_error + UploadedFile" where
  "ParseUpload detect form field cfg =
     (let conf = upload_conf cfg
      in case form (uc_MaxSize conf) of
           Inl e \<Rightarrow> Inl (ParseForm e)
         | Inr files \<Rightarrow>
             (case map_of files field of
                Some (fh # _) \<Rightarrow> if fh_content fh = None then Inl (FieldError field) else newUploadedFile detect fh conf
              | _ \<Rightarrow> Inl (FieldError field)))"

fun upload_all :: "(string \<Rightarrow> string) \<Rightarrow> UploadConfig \<Rightarrow> FileHeader list \<Rightarrow> upload_error + UploadedFile list" where
  "upload_all detect conf [] = Inr []"
| "upload_all detect conf (fh # fhs) =
     (case newUploadedFile detect fh conf of
        Inl e \<Rightarrow> Inl e
      | Inr uf \<Rightarrow> (case upload_all detect conf fhs of Inl e \<Rightarrow> Inl e | Inr ufs \<Rightarrow> Inr (uf # ufs)))"

definition ParseUploads ::
  "(string \<Rightarrow> string) \<Rightarrow> (i64 \<Rightarrow> string + (string, FileHeader list) gomap) \<Rightarrow> string \<Rightarrow> UploadConfig list \<Rightarrow> upload_error + UploadedFile list" where
  "ParseUploads detect form field cfg =
     (let conf = upload_conf cfg
      in case form (uc_MaxSize conf) of
           Inl e \<Rightarrow> Inl (ParseForm e)
         | Inr files \<Rightarrow>
             (case map_of files field of
                None \<Rightarrow> Inl (NoFiles field)
              | Some fhs \<Rightarrow> if fhs = [] then Inl (NoFiles field) else upload_all detect conf fhs))"

section \<open>Storing\<close>



definition UploadedFile_Ext :: "UploadedFile \<Rightarrow> string" where
  "UploadedFile_Ext uf = map lowerByte (Ext (uf_Original uf))"

definition IsImage :: "UploadedFile \<Rightarrow> bool" where
  "IsImage uf = HasPrefix (uf_MIMEType uf) ''image/''"

section \<open>Names without dot-dot\<close>












lemma MkdirAll_keeps_dirs: "map_of fs k = Some Dir \<Longrightarrow> map_of (snd (os_MkdirAll fs pre cs)) k = Some Dir"
  by (induction fs pre cs rule: os_MkdirAll.induct) (auto split: option.splits node.splits)



section \<open>Properties\<close>




end
