(* ===== verification/Web_Middleware.thy ===== *)
theory Web_Middleware
  imports Http_Core
begin

text \<open>
  Model of the middleware in \<open>framework/middleware/cors.go\<close>, \<open>recovery.go\<close> and \<open>timeout.go\<close>. The buffer that
  \<open>Timeout\<close> puts in front of the connection answers like a fresh writer, so it is a \<open>wire\<close>; the two ways the
  \<open>select\<close> can end are two definitions.
\<close>

section \<open>CORS\<close>

record CORSConfig =
  co_AllowOrigins :: "string list"
  co_AllowMethods :: "string list"
  co_AllowHeaders :: "string list"
  co_ExposeHeaders :: "string list"
  co_AllowCredentials :: bool
  co_MaxAge :: duration

definition DefaultCORSConfig :: CORSConfig where
  "DefaultCORSConfig =
     \<lparr>co_AllowOrigins = [''*''], co_AllowMethods = [''GET'', ''POST'', ''PUT'', ''PATCH'', ''DELETE'', ''HEAD'', ''OPTIONS''],
      co_AllowHeaders = [''Accept'', ''Authorization'', ''Content-Type'', ''X-CSRF-Token'', ''X-Requested-With''],
      co_ExposeHeaders = [], co_AllowCredentials = False, co_MaxAge = 12 * hour\<rparr>"

fun match_origin_loop :: "string \<Rightarrow> bool \<Rightarrow> string list \<Rightarrow> bool \<times> bool" where
  "match_origin_loop origin wildcard [] = (wildcard, False)"
| "match_origin_loop origin wildcard (a # as) =
     (if a = ''*'' then match_origin_loop origin True as
      else if EqualFold a origin then (True, True)
      else match_origin_loop origin wildcard as)"

definition matchOrigin :: "string \<Rightarrow> string list \<Rightarrow> bool \<times> bool" where
  "matchOrigin origin allowed = match_origin_loop origin False allowed"

text \<open>The headers set for a request with an origin; \<open>secs\<close> renders the seconds of a duration.\<close>

definition cors_headers :: "CORSConfig \<Rightarrow> string \<Rightarrow> 'a Context_scheme \<Rightarrow> 'a Context_scheme" where
  "cors_headers cfg origin c =
     (case matchOrigin origin (co_AllowOrigins cfg) of
        (False, _) \<Rightarrow> c
      | (True, explicit) \<Rightarrow>
          (let c1 =
                 (if explicit
                  then (let c0 = addHeader ''Vary'' ''Origin'' (setHeader ''Access-Control-Allow-Origin'' origin c)
                        in if co_AllowCredentials cfg then setHeader ''Access-Control-Allow-Credentials'' ''true'' c0 else c0)
                  else if co_AllowCredentials cfg
                  then addHeader ''Vary'' ''Origin'' (setHeader ''Access-Control-Allow-Origin'' origin c)
                  else setHeader ''Access-Control-Allow-Origin'' ''*'' c);
               expose = Join '', '' (co_ExposeHeaders cfg)
           in if expose \<noteq> [] then setHeader ''Access-Control-Expose-Headers'' expose c1 else c1))"

definition mw_CORS :: "(duration \<Rightarrow> string) \<Rightarrow> CORSConfig option \<Rightarrow> 'a Context_scheme middleware" where
  "mw_CORS secs opts next c =
     (let cfg0 = (case opts of None \<Rightarrow> DefaultCORSConfig | Some o' \<Rightarrow> o');
          cfg = (if co_AllowMethods cfg0 = [] then cfg0\<lparr>co_AllowMethods := co_AllowMethods DefaultCORSConfig\<rparr> else cfg0);
          origin = Header_Get (rq_Header (cx_req c)) ''Origin''
      in if origin = [] then next c
         else
          (let c1 = cors_headers cfg origin c
           in if rq_Method (cx_req c) = ''OPTIONS''
              then (let allowHeaders = Join '', '' (co_AllowHeaders cfg);
                        c2 = (if allowHeaders \<noteq> [] then setHeader ''Access-Control-Allow-Headers'' allowHeaders c1 else c1);
                        c3 = setHeader ''Access-Control-Allow-Methods'' (Join '', '' (co_AllowMethods cfg)) c2;
                        c4 = (if co_MaxAge cfg > 0 then setHeader ''Access-Control-Max-Age'' (secs (co_MaxAge cfg)) c3 else c3)
                    in (HNil, on_resp (\<lambda>r. Response_WriteHeader r 204) c4))
              else next c1))"

section \<open>Recovery\<close>

definition mw_Recovery :: "(string \<Rightarrow> 'a Context_scheme handler) option \<Rightarrow> 'a Context_scheme middleware" where
  "mw_Recovery custom next c =
     (case next c of
        (HPanic p, c1) \<Rightarrow>
          (case custom of
             Some h \<Rightarrow> h p c1
           | None \<Rightarrow>
               if \<not> rp_committed (cx_resp c1)
               then Context_JSON 500 (GMap [(''error'', GString ''internal server error'')]) c1
               else (HNil, c1))
      | (r, c1) \<Rightarrow> (r, c1))"

section \<open>Timeout\<close>

text \<open>
  The handler returned in time: its result and the context with the buffered response replayed. The handler
  runs in a goroutine of its own, so a panic ends the process: \<^const>\<open>None\<close>.
\<close>

definition copy_headers :: "header \<Rightarrow> header \<Rightarrow> header" where
  "copy_headers src dst = foldl (\<lambda>h (k, vv). AList.update k vv h) dst src"

definition replay :: "wire \<Rightarrow> wire \<Rightarrow> Response \<Rightarrow> Response" where
  "replay tw conn r0 =
     (let r = Response_Wrap r0 conn
      in case w_sent tw of
           None \<Rightarrow> r
         | Some (status, _) \<Rightarrow>
             (let r1 = r\<lparr>rp_wire := (rp_wire r)\<lparr>w_header := copy_headers (w_header tw) (w_header (rp_wire r))\<rparr>\<rparr>;
                  r2 = Response_WriteHeader r1 status
              in if w_body tw \<noteq> [] then Response_Write r2 (w_body tw) else r2))"

definition Timeout_finished :: "'a Context_scheme handler \<Rightarrow> 'a Context_scheme \<Rightarrow> (hresult \<times> 'a Context_scheme) option" where
  "Timeout_finished next c =
     (let conn = Response_Unwrap (cx_resp c)
      in case next (on_resp (\<lambda>r. Response_Wrap r new_wire) c) of
           (HPanic _, _) \<Rightarrow> None
         | (res, c1) \<Rightarrow> Some (res, on_resp (replay (rp_wire (cx_resp c1)) conn) c1))"

text \<open>
  The deadline passed: 503 goes straight to the connection. The context keeps the buffer, which the handler
  may go on writing to.
\<close>

definition Timeout_expired :: "'a Context_scheme \<Rightarrow> hresult \<times> 'a Context_scheme \<times> wire" where
  "Timeout_expired c =
     (let conn = Response_Unwrap (cx_resp c);
          conn1 = conn\<lparr>w_header := Header_Set (w_header conn) ''Content-Type'' ''application/json; charset=utf-8''\<rparr>
      in (HNil, on_resp (\<lambda>r. Response_Wrap r new_wire) c,
          wire_Write (wire_WriteHeader conn1 503)
            ([CHR 0x7B, CHR 0x22] @ ''error'' @ [CHR 0x22] @ '':'' @ [CHR 0x22] @ ''request timeout'' @ [CHR 0x22, CHR 0x7D])))"

section \<open>Lemmas\<close>

lemma match_origin_loop_explicit:
  "snd (match_origin_loop origin w as) \<longleftrightarrow> (\<exists>a \<in> set as. a \<noteq> ''*'' \<and> EqualFold a origin)"
  by (induction origin w as rule: match_origin_loop.induct) auto

lemma match_origin_loop_allowed:
  "fst (match_origin_loop origin w as) \<longleftrightarrow> w \<or> ''*'' \<in> set as \<or> (\<exists>a \<in> set as. a \<noteq> ''*'' \<and> EqualFold a origin)"
  by (induction origin w as rule: match_origin_loop.induct) auto

text \<open>A handler that talks to its response through the public methods.\<close>

datatype resp_act = ASet string string | AStatus int | ABody string

fun run_act :: "Response \<Rightarrow> resp_act \<Rightarrow> Response" where
  "run_act r (ASet k v) = r\<lparr>rp_wire := (rp_wire r)\<lparr>w_header := Header_Set (w_header (rp_wire r)) k v\<rparr>\<rparr>"
| "run_act r (AStatus n) = Response_WriteHeader r n"
| "run_act r (ABody b) = Response_Write r b"

definition run_acts :: "Response \<Rightarrow> resp_act list \<Rightarrow> Response" where
  "run_acts r acts = foldl run_act r acts"

definition act_handler :: "resp_act list \<Rightarrow> 'a Context_scheme handler" where
  "act_handler acts c = (HNil, on_resp (\<lambda>r. run_acts r acts) c)"

text \<open>Two responses that have written the same status and body.\<close>

definition same_output :: "Response \<Rightarrow> Response \<Rightarrow> bool" where
  "same_output r q \<longleftrightarrow> rp_committed r = rp_committed q \<and> map_option fst (w_sent (rp_wire r)) = map_option fst (w_sent (rp_wire q))
     \<and> w_body (rp_wire r) = w_body (rp_wire q) \<and> w_discard (rp_wire r) = w_discard (rp_wire q)"

lemma same_output_act: "same_output r q \<Longrightarrow> same_output (run_act r a) (run_act q a)"
  by (cases a) (auto simp: same_output_def httpsimps split: option.splits)

lemma same_output_acts: "same_output r q \<Longrightarrow> same_output (run_acts r acts) (run_acts q acts)"
  unfolding run_acts_def by (induction acts arbitrary: r q) (auto intro: same_output_act)

lemma run_act_inv: "resp_inv r \<Longrightarrow> resp_inv (run_act r a)"
  by (cases a) (auto simp: resp_inv_def httpsimps)

lemma run_acts_inv: "resp_inv r \<Longrightarrow> resp_inv (run_acts r acts)"
  unfolding run_acts_def by (induction acts arbitrary: r) (auto intro: run_act_inv)

lemma sent_nothing: "resp_inv r \<Longrightarrow> w_sent (rp_wire r) = None \<Longrightarrow> w_body (rp_wire r) = []"
  by (auto simp: resp_inv_def)

lemma replay_output:
  assumes "w_sent conn = None" and "w_body conn = []" and "\<not> w_discard conn" and "w_sent tw = None \<longrightarrow> w_body tw = []"
  shows "map_option fst (w_sent (rp_wire (replay tw conn r))) = map_option fst (w_sent tw)"
    and "w_body (rp_wire (replay tw conn r)) = w_body tw"
  using assms by (auto simp: replay_def Response_Wrap_def httpsimps split: option.splits)

section \<open>Properties\<close>

text \<open>
  Credentials are granted only to listed origins: on a response without CORS headers, the
  middleware allows credentials exactly when the configuration does and the origin equals an entry of the
  list other than the star, whatever else the list contains; and the allowed origin it names is the star or
  the request's own origin.
\<close>

theorem cors_credentials_explicit:
  assumes "Header_Get (w_header (rp_wire (cx_resp c))) ''Access-Control-Allow-Credentials'' = []"
    and "Header_Get (w_header (rp_wire (cx_resp c))) ''Access-Control-Allow-Origin'' = []"
    and "h = w_header (rp_wire (cx_resp (cors_headers cfg origin c)))"
  shows "(Header_Get h ''Access-Control-Allow-Credentials'' = ''true''
      \<longleftrightarrow> co_AllowCredentials cfg \<and> (\<exists>a \<in> set (co_AllowOrigins cfg). a \<noteq> ''*'' \<and> EqualFold a origin))
    \<and> Header_Get h ''Access-Control-Allow-Origin'' \<in> {[], ''*'', origin}"
proof -
  have names: "canonHeader ''Access-Control-Allow-Credentials'' = ''Access-Control-Allow-Credentials''"
    "canonHeader ''Access-Control-Allow-Origin'' = ''Access-Control-Allow-Origin''" "canonHeader ''Vary'' = ''Vary''"
    "canonHeader ''Access-Control-Expose-Headers'' = ''Access-Control-Expose-Headers''" by code_simp+
  obtain allowed explicit where m: "match_origin_loop origin False (co_AllowOrigins cfg) = (allowed, explicit)" by fastforce
  have "explicit \<longleftrightarrow> (\<exists>a \<in> set (co_AllowOrigins cfg). a \<noteq> ''*'' \<and> EqualFold a origin)" "explicit \<longrightarrow> allowed"
    using match_origin_loop_explicit [of origin False "co_AllowOrigins cfg"]
      match_origin_loop_allowed [of origin False "co_AllowOrigins cfg"] m by auto
  then show ?thesis
    using assms
    by (cases allowed; cases explicit; cases "co_AllowCredentials cfg"; cases "Join '', '' (co_ExposeHeaders cfg) = []")
       (simp_all add: cors_headers_def matchOrigin_def m setHeader_def addHeader_def on_resp_def Header_Get_Set Header_Get_Add names Let_def)
qed

theorem cors_credentials_explicit_witness:
  "let c = NewContext new_wire \<lparr>rq_Method = ''GET'', rq_Path = ''/'', rq_Query = [], rq_Header = [], rq_Form = [], rq_Cookies = [],
         rq_RemoteAddr = [], rq_TLS = False, rq_params = []\<rparr> [] (\<lambda>_. []);
       cfg = DefaultCORSConfig\<lparr>co_AllowOrigins := [''*'', ''https://a.example''], co_AllowCredentials := True\<rparr>
   in Header_Get (w_header (rp_wire (cx_resp (cors_headers cfg ''https://evil.example'' c)))) ''Access-Control-Allow-Credentials'' \<noteq> ''true''"
proof -
  let ?c = "NewContext new_wire \<lparr>rq_Method = ''GET'', rq_Path = ''/'', rq_Query = [], rq_Header = [], rq_Form = [], rq_Cookies = [],
         rq_RemoteAddr = [], rq_TLS = False, rq_params = []\<rparr> [] (\<lambda>_. [])"
  let ?cfg = "DefaultCORSConfig\<lparr>co_AllowOrigins := [''*'', ''https://a.example''], co_AllowCredentials := True\<rparr>"
  have "\<not> EqualFold ''https://a.example'' ''https://evil.example''" by code_simp
  then have "\<not> (\<exists>a \<in> set (co_AllowOrigins ?cfg). a \<noteq> ''*'' \<and> EqualFold a ''https://evil.example'')" by simp
  moreover have "Header_Get (w_header (rp_wire (cx_resp ?c))) k = []" for k
    by (simp add: NewContext_def newResponse_def new_wire_def Header_Get_def)
  ultimately show ?thesis
    using cors_credentials_explicit [of ?c _ ?cfg "''https://evil.example''", OF _ _ refl] unfolding Let_def by blast
qed

text \<open>
  Buffering is transparent when the handler is in time: for any sequence of header, status and body
  writes, the client gets the same status and the same body as without the timeout middleware.
\<close>

theorem timeout_transparent:
  assumes "resp_inv (cx_resp c)" and "\<not> rp_committed (cx_resp c)" and "\<not> w_discard (rp_wire (cx_resp c))"
  shows "\<exists>c1. Timeout_finished (act_handler acts) c = Some (HNil, c1)
    \<and> map_option fst (w_sent (rp_wire (cx_resp c1))) = map_option fst (w_sent (rp_wire (run_acts (cx_resp c) acts)))
    \<and> w_body (rp_wire (cx_resp c1)) = w_body (rp_wire (run_acts (cx_resp c) acts))"
proof -
  let ?r = "cx_resp c" and ?wrapped = "Response_Wrap (cx_resp c) new_wire"
  let ?q = "run_acts ?wrapped acts"
  have start: "w_sent (rp_wire ?r) = None" "w_body (rp_wire ?r) = []" using assms(1,2) by (auto simp: resp_inv_def)
  then have "same_output ?r ?wrapped" using assms by (simp add: same_output_def Response_Wrap_def new_wire_def)
  from same_output_acts [OF this, of acts] have same: "map_option fst (w_sent (rp_wire (run_acts ?r acts))) = map_option fst (w_sent (rp_wire ?q))"
    "w_body (rp_wire (run_acts ?r acts)) = w_body (rp_wire ?q)" by (auto simp: same_output_def)
  have "resp_inv ?wrapped" by (simp add: resp_inv_def Response_Wrap_def new_wire_def)
  from sent_nothing [OF run_acts_inv [OF this]] have quiet: "w_sent (rp_wire ?q) = None \<longrightarrow> w_body (rp_wire ?q) = []" by blast
  let ?c1 = "on_resp (replay (rp_wire ?q) (rp_wire ?r)) (on_resp (\<lambda>r. run_acts r acts) (on_resp (\<lambda>r. Response_Wrap r new_wire) c))"
  have "Timeout_finished (act_handler acts) c = Some (HNil, ?c1)"
    by (simp add: Timeout_finished_def act_handler_def Response_Unwrap_def on_resp_def)
  moreover have "cx_resp ?c1 = replay (rp_wire ?q) (rp_wire ?r) ?q" by (simp add: on_resp_def)
  moreover have "map_option fst (w_sent (rp_wire (replay (rp_wire ?q) (rp_wire ?r) ?q))) = map_option fst (w_sent (rp_wire ?q))"
    "w_body (rp_wire (replay (rp_wire ?q) (rp_wire ?r) ?q)) = w_body (rp_wire ?q)"
    using start assms(3) quiet by (simp_all only: replay_output simp_thms)
  ultimately show ?thesis unfolding same by (intro exI [of _ ?c1] conjI) simp_all
qed

theorem timeout_transparent_witness:
  "\<exists>c1. Timeout_finished (act_handler [AStatus 201, ABody ''ok'']) (NewContext new_wire \<lparr>rq_Method = ''GET'', rq_Path = ''/'', rq_Query = [],
      rq_Header = [], rq_Form = [], rq_Cookies = [], rq_RemoteAddr = [], rq_TLS = False, rq_params = []\<rparr> [] (\<lambda>_. [])) = Some (HNil, c1)
    \<and> map_option fst (w_sent (rp_wire (cx_resp c1))) = Some 201 \<and> w_body (rp_wire (cx_resp c1)) = ''ok''"
proof -
  let ?c = "NewContext new_wire \<lparr>rq_Method = ''GET'', rq_Path = ''/'', rq_Query = [],
      rq_Header = [], rq_Form = [], rq_Cookies = [], rq_RemoteAddr = [], rq_TLS = False, rq_params = []\<rparr> [] (\<lambda>_. [])"
  have "resp_inv (cx_resp ?c)" "\<not> rp_committed (cx_resp ?c)" "\<not> w_discard (rp_wire (cx_resp ?c))"
    by (simp_all add: NewContext_def newResponse_def new_wire_def resp_inv_def)
  from timeout_transparent [OF this, of "[AStatus 201, ABody ''ok'']"] show ?thesis
    by (simp add: run_acts_def httpsimps NewContext_def newResponse_def new_wire_def)
qed

text \<open>
  A panic in a handler behind \<open>Timeout\<close> is not recovered by a \<open>Recovery\<close> outside it: the handler runs in its
  own goroutine, so the process ends.
\<close>

theorem timeout_panic_is_fatal:
  "(\<And>c. fst (next c) = HPanic p) \<Longrightarrow> Timeout_finished next c = None"
  by (simp add: Timeout_finished_def Let_def split: prod.splits) (metis fst_conv hresult.case(3))

theorem timeout_panic_is_fatal_witness: "Timeout_finished (\<lambda>c :: Context. (HPanic ''boom'', c)) (undefined :: Context) = None"
  by (rule timeout_panic_is_fatal [where p = "''boom''"]) simp

text \<open>
  Recovery turns a panic into an answer: with the default handler no panic escapes, and if nothing was sent
  the client gets status 500.
\<close>

theorem recovery_answers:
  "(\<forall>p. fst (mw_Recovery None next c) \<noteq> HPanic p)
   \<and> (fst (next c) = HPanic p \<longrightarrow> resp_inv (cx_resp (snd (next c))) \<longrightarrow> \<not> rp_committed (cx_resp (snd (next c)))
       \<longrightarrow> map_option fst (w_sent (rp_wire (cx_resp (snd (mw_Recovery None next c))))) = Some 500)"
proof (cases "next c")
  case (Pair r c1)
  then show ?thesis by (cases r) (auto simp: mw_Recovery_def httpsimps resp_inv_def)
qed

theorem recovery_answers_witness:
  "fst (mw_Recovery None (\<lambda>c :: Context. (HPanic ''boom'', c)) (NewContext new_wire \<lparr>rq_Method = ''GET'', rq_Path = ''/'', rq_Query = [],
      rq_Header = [], rq_Form = [], rq_Cookies = [], rq_RemoteAddr = [], rq_TLS = False, rq_params = []\<rparr> [] (\<lambda>_. []))) \<noteq> HPanic ''boom''"
  using recovery_answers by blast

end
