(* ===== verification/Web_Compress.thy ===== *)
theory Web_Compress
  imports Web_Middleware
begin

text \<open>
  Model of \<open>framework/middleware/compress.go\<close>. The gzip library is a record of functions on the state of a writer: what a write, a flush
  and a close hand to the underlying connection. Its contract is the locale \<open>gzip_codec\<close>. While the middleware runs, the response writes to a
  \<open>gzipWriter\<close>, so the response object is repeated here over that writer; a handler is a list of the calls it makes on its response. A write to
  a writer whose gzip stream is closed is a nil dereference, \<^const>\<open>None\<close>.
\<close>

section \<open>Data\<close>

record 'g gzlib =
  gz_reset :: 'g
  gz_write :: "'g \<Rightarrow> string \<Rightarrow> 'g \<times> string"
  gz_flush :: "'g \<Rightarrow> 'g \<times> string"
  gz_close :: "'g \<Rightarrow> string"

record 'g gzipWriter =
  gw_wire :: wire
  gw_gz :: "'g option"
  gw_decided :: bool
  gw_compress :: bool
  gw_wroteHeader :: bool

definition new_gzipWriter :: "wire \<Rightarrow> 'g gzipWriter" where
  "new_gzipWriter w = \<lparr>gw_wire = w, gw_gz = None, gw_decided = False, gw_compress = False, gw_wroteHeader = False\<rparr>"

definition shouldCompress :: "string \<Rightarrow> bool" where
  "shouldCompress ct =
     (ct = [] \<or> (\<exists>p \<in> set [''text/'', ''application/json'', ''application/xml'', ''application/javascript'']. HasPrefix ct p))"

definition Header_Del :: "header \<Rightarrow> string \<Rightarrow> header" where
  "Header_Del h k = AList.delete (canonHeader k) h"

lemma Header_Get_Del [simp]: "Header_Get (Header_Del h k) k' = (if canonHeader k' = canonHeader k then [] else Header_Get h k')"
  by (simp add: Header_Get_def Header_Del_def)

definition gz_decide :: "'g gzlib \<Rightarrow> int \<Rightarrow> 'g gzipWriter \<Rightarrow> 'g gzipWriter" where
  "gz_decide lib code g =
     (if gw_decided g then g
      else (let h = w_header (gw_wire g);
                noBody = (code = 204 \<or> code = 304);
                alreadyEncoded = (Header_Get h ''Content-Encoding'' \<noteq> [])
            in if noBody \<or> alreadyEncoded \<or> \<not> shouldCompress (Header_Get h ''Content-Type'')
               then g\<lparr>gw_decided := True, gw_compress := False\<rparr>
               else g\<lparr>gw_decided := True, gw_compress := True,
                      gw_wire := (gw_wire g)\<lparr>w_header := Header_Del (Header_Set h ''Content-Encoding'' ''gzip'') ''Content-Length''\<rparr>,
                      gw_gz := Some (gz_reset lib)\<rparr>))"

definition gz_WriteHeader :: "'g gzlib \<Rightarrow> int \<Rightarrow> 'g gzipWriter \<Rightarrow> 'g gzipWriter" where
  "gz_WriteHeader lib code g =
     (if gw_wroteHeader g then g
      else (let g1 = gz_decide lib code g
            in g1\<lparr>gw_wroteHeader := True, gw_wire := wire_WriteHeader (gw_wire g1) code\<rparr>))"

definition gz_Write :: "'g gzlib \<Rightarrow> string \<Rightarrow> 'g gzipWriter \<Rightarrow> 'g gzipWriter option" where
  "gz_Write lib b g =
     (let g1 = (if \<not> gw_wroteHeader g then gz_WriteHeader lib 200 g else g)
      in if gw_compress g1
         then (case gw_gz g1 of
                 None \<Rightarrow> None
               | Some z \<Rightarrow> (case gz_write lib z b of (z1, out) \<Rightarrow> Some (g1\<lparr>gw_gz := Some z1, gw_wire := wire_Write (gw_wire g1) out\<rparr>)))
         else Some (g1\<lparr>gw_wire := wire_Write (gw_wire g1) b\<rparr>))"

definition gz_Flush :: "'g gzlib \<Rightarrow> 'g gzipWriter \<Rightarrow> 'g gzipWriter" where
  "gz_Flush lib g =
     (case gw_gz g of
        None \<Rightarrow> g
      | Some z \<Rightarrow> (case gz_flush lib z of (z1, out) \<Rightarrow> g\<lparr>gw_gz := Some z1, gw_wire := wire_Write (gw_wire g) out\<rparr>))"

definition gz_closeWriter :: "'g gzlib \<Rightarrow> 'g gzipWriter \<Rightarrow> 'g gzipWriter" where
  "gz_closeWriter lib g =
     (case gw_gz g of
        None \<Rightarrow> g
      | Some z \<Rightarrow> g\<lparr>gw_gz := None, gw_wire := wire_Write (gw_wire g) (gz_close lib z)\<rparr>)"

section \<open>The wrapped response\<close>

record 'g zresponse =
  zr_w :: "'g gzipWriter"
  zr_status :: int
  zr_size :: nat
  zr_committed :: bool

definition zr_wrap :: "wire \<Rightarrow> 'g zresponse" where
  "zr_wrap orig = \<lparr>zr_w = new_gzipWriter orig, zr_status = 200, zr_size = 0, zr_committed = False\<rparr>"

definition zr_WriteHeader :: "'g gzlib \<Rightarrow> int \<Rightarrow> 'g zresponse \<Rightarrow> 'g zresponse" where
  "zr_WriteHeader lib code r =
     (if zr_committed r then r else r\<lparr>zr_status := code, zr_w := gz_WriteHeader lib code (zr_w r), zr_committed := True\<rparr>)"

definition zr_Write :: "'g gzlib \<Rightarrow> string \<Rightarrow> 'g zresponse \<Rightarrow> 'g zresponse option" where
  "zr_Write lib b r =
     (let r1 = (if \<not> zr_committed r then zr_WriteHeader lib 200 r else r)
      in map_option (\<lambda>g. r1\<lparr>zr_w := g, zr_size := zr_size r1 + length b\<rparr>) (gz_Write lib b (zr_w r1)))"

fun zr_act :: "'g gzlib \<Rightarrow> resp_act \<Rightarrow> 'g zresponse \<Rightarrow> 'g zresponse option" where
  "zr_act lib (ASet k v) r =
     Some (r\<lparr>zr_w := (zr_w r)\<lparr>gw_wire := (gw_wire (zr_w r))\<lparr>w_header := Header_Set (w_header (gw_wire (zr_w r))) k v\<rparr>\<rparr>\<rparr>)"
| "zr_act lib (AStatus n) r = Some (zr_WriteHeader lib n r)"
| "zr_act lib (ABody b) r = zr_Write lib b r"

fun zr_acts :: "'g gzlib \<Rightarrow> resp_act list \<Rightarrow> 'g zresponse \<Rightarrow> 'g zresponse option" where
  "zr_acts lib [] r = Some r"
| "zr_acts lib (a # as) r = (case zr_act lib a r of None \<Rightarrow> None | Some r1 \<Rightarrow> zr_acts lib as r1)"

text \<open>
  The middleware for a request that accepts gzip: it adds the \<open>Vary\<close> header, wraps the writer, runs the handler and closes the gzip stream.
  The response keeps the closed writer.
\<close>

definition Compress_run :: "'g gzlib \<Rightarrow> resp_act list \<Rightarrow> wire \<Rightarrow> 'g zresponse option" where
  "Compress_run lib acts w =
     (let orig = w\<lparr>w_header := Header_Add (w_header w) ''Vary'' ''Accept-Encoding''\<rparr>
      in map_option (\<lambda>r. r\<lparr>zr_w := gz_closeWriter lib (zr_w r)\<rparr>) (zr_acts lib acts (zr_wrap orig)))"


section \<open>What the gzip library promises\<close>





section \<open>A codec that buffers\<close>

text \<open>The simplest library with the contract: it stores the bytes as they are and hands them on at a flush or at the end.\<close>

definition stored_gzip :: "string gzlib" where
  "stored_gzip = \<lparr>gz_reset = [], gz_write = (\<lambda>buf b. (buf @ b, [])), gz_flush = (\<lambda>buf. ([], buf)), gz_close = (\<lambda>buf. buf)\<rparr>"



section \<open>Properties\<close>



text \<open>
  An error page is lost behind the middleware. When the handler returns an error without having written, the middleware closes its writer
  before the router's error handler runs; that handler then opens a new gzip stream on the closed writer. The answer announces gzip, but of
  the page only what the library hands on without a flush arrives, and the stream is never closed.
\<close>

theorem compress_loses_error_page:
  assumes "w_sent w = None" and "w_body w = []" and "\<not> w_discard w" and "Header_Get (w_header w) ''Content-Encoding'' = []"
    and "shouldCompress ct" and "code \<noteq> 204" and "code \<noteq> 304"
    and "Compress_run lib [] w = Some z"
  shows "\<exists>z' h. zr_acts lib [ASet ''Content-Type'' ct, AStatus code, ABody page] z = Some z'
    \<and> w_sent (gw_wire (zr_w z')) = Some (code, h) \<and> Header_Get h ''Content-Encoding'' = ''gzip''
    \<and> w_body (gw_wire (zr_w z')) = snd (gz_write lib (gz_reset lib) page) \<and> gw_gz (zr_w z') = Some (fst (gz_write lib (gz_reset lib) page))"
proof -
  have names: "canonHeader ''Content-Encoding'' = ''Content-Encoding''" "canonHeader ''Content-Length'' = ''Content-Length''"
    "canonHeader ''Content-Type'' = ''Content-Type''" "canonHeader ''Vary'' = ''Vary''" by code_simp+
  let ?o = "w\<lparr>w_header := Header_Add (w_header w) ''Vary'' ''Accept-Encoding''\<rparr>"
  have z: "z = zr_wrap ?o" using assms(8) by (simp add: Compress_run_def gz_closeWriter_def zr_wrap_def new_gzipWriter_def)
  obtain g out where g: "gz_write lib (gz_reset lib) page = (g, out)" by fastforce
  show ?thesis
    using assms(1-7) g
    by (simp add: z zr_wrap_def new_gzipWriter_def zr_WriteHeader_def zr_Write_def gz_WriteHeader_def gz_decide_def gz_Write_def wire_Write_def
        wire_WriteHeader_def names Let_def)
qed

theorem compress_loses_error_page_witness:
  "\<exists>z z' h. Compress_run stored_gzip [] new_wire = Some z
    \<and> zr_acts stored_gzip [ASet ''Content-Type'' ''application/json'', AStatus 500, ABody ''error''] z = Some z'
    \<and> w_sent (gw_wire (zr_w z')) = Some (500, h) \<and> Header_Get h ''Content-Encoding'' = ''gzip'' \<and> w_body (gw_wire (zr_w z')) = []"
proof -
  obtain z where z: "Compress_run stored_gzip [] new_wire = Some z" by (simp add: Compress_run_def Let_def)
  have "shouldCompress ''application/json''" by code_simp
  from compress_loses_error_page [OF _ _ _ _ this _ _ z, of 500 "''error''"] z show ?thesis
    by (auto simp: new_wire_def stored_gzip_def Header_Get_def)
qed

end
