(* ===== verification/Migration_Schema.thy ===== *)
theory Migration_Schema
  imports Sql_Grammar
begin

text \<open>
  Model of \<open>framework/migrations/table.go\<close> and \<open>schema.go\<close>: the fluent builder that turns the calls of a
  migration into DDL statements.

  The driver is the string the migrator was opened with; everything that is not \<open>postgres\<close> counts as MySQL.
  A \<open>*Column\<close> handed out by a table is the position of the column in the table, and the methods chained on it
  change the column there (\<open>on_column\<close>). \<open>fmt.Sprintf("%v")\<close> of a number is the argument \<open>sprint\<close>.
  The last section relates the statements to those of the query layer's grammar (\<open>Sql_Grammar\<close>).
\<close>

section \<open>Data\<close>

record Column =
  co_name :: string
  co_kind :: string
  co_pk :: bool
  co_autoIncr :: bool
  co_nullable :: bool
  co_unique :: bool
  co_def :: string
  co_length :: int
  co_fkTable :: string
  co_fkCol :: string
  co_fkOnDelete :: string

record tableIndex =
  ti_cols :: "string list"
  ti_unique :: bool

record Table =
  tb_name :: string
  tb_driver :: string
  tb_cols :: "Column list"
  tb_indexes :: "tableIndex list"

record TableModifier =
  tm_table :: string
  tm_driver :: string
  tm_stmts :: "string list"

record Schema =
  sc_driver :: string
  sc_stmts :: "string list"

definition isPostgres :: "string \<Rightarrow> bool" where
  "isPostgres driver = (driver = ''postgres'')"

definition dq :: "string \<Rightarrow> string" where
  "dq s = [CHR 0x22] @ s @ [CHR 0x22]"

definition bq :: "string \<Rightarrow> string" where
  "bq s = [CHR 0x60] @ s @ [CHR 0x60]"

section \<open>Column\<close>

definition new_Column :: "string \<Rightarrow> string \<Rightarrow> Column" where
  "new_Column name kind =
     \<lparr>co_name = name, co_kind = kind, co_pk = False, co_autoIncr = False, co_nullable = False, co_unique = False,
      co_def = [], co_length = 0, co_fkTable = [], co_fkCol = [], co_fkOnDelete = []\<rparr>"

definition Column_PK :: "Column \<Rightarrow> Column" where
  "Column_PK c = c\<lparr>co_pk := True\<rparr>"

definition Column_AutoInc :: "Column \<Rightarrow> Column" where
  "Column_AutoInc c = c\<lparr>co_autoIncr := True\<rparr>"

definition Column_Nullable :: "Column \<Rightarrow> Column" where
  "Column_Nullable c = c\<lparr>co_nullable := True\<rparr>"

definition Column_NotNullable :: "Column \<Rightarrow> Column" where
  "Column_NotNullable c = c\<lparr>co_nullable := False\<rparr>"

definition Column_Unique :: "Column \<Rightarrow> Column" where
  "Column_Unique c = c\<lparr>co_unique := True\<rparr>"

definition Column_Default :: "(gval \<Rightarrow> string) \<Rightarrow> gval \<Rightarrow> Column \<Rightarrow> Column" where
  "Column_Default sprint v c =
     (case v of
        GString val \<Rightarrow> c\<lparr>co_def := [CHR 0x27] @ val @ [CHR 0x27]\<rparr>
      | GBool val \<Rightarrow> c\<lparr>co_def := (if val then ''TRUE'' else ''FALSE'')\<rparr>
      | val \<Rightarrow> c\<lparr>co_def := sprint val\<rparr>)"

definition Column_Len :: "int \<Rightarrow> Column \<Rightarrow> Column" where
  "Column_Len n c = c\<lparr>co_length := n\<rparr>"

definition Column_OnDelete :: "string \<Rightarrow> Column \<Rightarrow> Column" where
  "Column_OnDelete action c = c\<lparr>co_fkOnDelete := action\<rparr>"

definition pgColType :: "Column \<Rightarrow> string" where
  "pgColType c =
     (let l = co_length c; k = co_kind c
      in if k = ''string'' then ''VARCHAR('' @ itoa (if l \<le> 0 then 255 else l) @ '')''
         else if k = ''text'' then ''TEXT''
         else if k = ''int'' then ''INTEGER''
         else if k = ''bigint'' then ''BIGINT''
         else if k = ''bool'' then ''BOOLEAN''
         else if k = ''float'' then ''DOUBLE PRECISION''
         else if k = ''decimal'' then ''DECIMAL(10,2)''
         else if k = ''json'' \<or> k = ''jsonb'' then ''JSONB''
         else if k = ''time'' \<or> k = ''timestamp'' then ''TIMESTAMPTZ''
         else if k = ''date'' then ''DATE''
         else if k = ''uuid'' then ''UUID''
         else if k = ''binary'' \<or> k = ''blob'' then ''BYTEA''
         else ToUpper k)"

definition myColType :: "Column \<Rightarrow> string" where
  "myColType c =
     (let l = co_length c; k = co_kind c
      in if k = ''string'' then ''VARCHAR('' @ itoa (if l \<le> 0 then 255 else l) @ '')''
         else if k = ''text'' then ''TEXT''
         else if k = ''int'' then ''INT''
         else if k = ''bigint'' then ''BIGINT''
         else if k = ''bool'' then ''TINYINT(1)''
         else if k = ''float'' then ''DOUBLE''
         else if k = ''decimal'' then ''DECIMAL(10,2)''
         else if k = ''json'' \<or> k = ''jsonb'' then ''JSON''
         else if k = ''time'' \<or> k = ''timestamp'' then ''DATETIME''
         else if k = ''date'' then ''DATE''
         else if k = ''uuid'' then ''VARCHAR(36)''
         else if k = ''binary'' \<or> k = ''blob'' then ''BLOB''
         else ToUpper k)"

definition toPostgresSQL :: "Column \<Rightarrow> string" where
  "toPostgresSQL c =
     dq (co_name c) @ '' ''
     @ (if co_autoIncr c then ''BIGSERIAL'' else pgColType c)
     @ (if \<not> co_nullable c then '' NOT NULL'' else [])
     @ (if co_unique c then '' UNIQUE'' else [])
     @ (if co_def c \<noteq> [] then '' DEFAULT '' @ co_def c else [])
     @ (if co_fkTable c \<noteq> []
        then '' REFERENCES '' @ dq (co_fkTable c) @ ''('' @ dq (co_fkCol c) @ '')''
             @ (if co_fkOnDelete c \<noteq> [] then '' ON DELETE '' @ co_fkOnDelete c else [])
        else [])"

definition toMySQLSQL :: "Column \<Rightarrow> string" where
  "toMySQLSQL c =
     bq (co_name c) @ '' '' @ myColType c
     @ (if co_autoIncr c then '' AUTO_INCREMENT'' else [])
     @ (if \<not> co_nullable c then '' NOT NULL'' else [])
     @ (if co_unique c then '' UNIQUE'' else [])
     @ (if co_def c \<noteq> [] then '' DEFAULT '' @ co_def c else [])"

section \<open>Table\<close>

definition newTable :: "string \<Rightarrow> string \<Rightarrow> Table" where
  "newTable name driver = \<lparr>tb_name = name, tb_driver = driver, tb_cols = [], tb_indexes = []\<rparr>"

definition Table_col :: "string \<Rightarrow> string \<Rightarrow> Table \<Rightarrow> nat \<times> Table" where
  "Table_col name kind t = (length (tb_cols t), t\<lparr>tb_cols := tb_cols t @ [new_Column name kind]\<rparr>)"

text \<open>A method called on the column a table method returned.\<close>

definition on_column :: "(Column \<Rightarrow> Column) \<Rightarrow> nat \<times> Table \<Rightarrow> nat \<times> Table" where
  "on_column f it = (fst it, (snd it)\<lparr>tb_cols := (tb_cols (snd it))[fst it := f (tb_cols (snd it) ! fst it)]\<rparr>)"

definition Table_ID :: "Table \<Rightarrow> nat \<times> Table" where
  "Table_ID t = on_column Column_AutoInc (on_column Column_PK (Table_col ''id'' ''bigint'' t))"

definition Table_UUID :: "Table \<Rightarrow> nat \<times> Table" where
  "Table_UUID t = on_column Column_PK (Table_col ''id'' ''uuid'' t)"

definition Table_String :: "string \<Rightarrow> int list \<Rightarrow> Table \<Rightarrow> nat \<times> Table" where
  "Table_String name len t =
     on_column (Column_Len (case len of [] \<Rightarrow> 255 | l # _ \<Rightarrow> l)) (Table_col name ''string'' t)"

definition Table_Text :: "string \<Rightarrow> Table \<Rightarrow> nat \<times> Table" where
  "Table_Text name t = Table_col name ''text'' t"

definition Table_Integer :: "string \<Rightarrow> Table \<Rightarrow> nat \<times> Table" where
  "Table_Integer name t = Table_col name ''int'' t"

definition Table_BigInteger :: "string \<Rightarrow> Table \<Rightarrow> nat \<times> Table" where
  "Table_BigInteger name t = Table_col name ''bigint'' t"

definition Table_Boolean :: "string \<Rightarrow> Table \<Rightarrow> nat \<times> Table" where
  "Table_Boolean name t = Table_col name ''bool'' t"

definition Table_Float :: "string \<Rightarrow> Table \<Rightarrow> nat \<times> Table" where
  "Table_Float name t = Table_col name ''float'' t"

definition Table_Decimal :: "string \<Rightarrow> Table \<Rightarrow> nat \<times> Table" where
  "Table_Decimal name t = Table_col name ''decimal'' t"

definition Table_JSON :: "string \<Rightarrow> Table \<Rightarrow> nat \<times> Table" where
  "Table_JSON name t = Table_col name ''json'' t"

definition Table_Timestamp :: "string \<Rightarrow> Table \<Rightarrow> nat \<times> Table" where
  "Table_Timestamp name t = Table_col name ''time'' t"

definition Table_Date :: "string \<Rightarrow> Table \<Rightarrow> nat \<times> Table" where
  "Table_Date name t = Table_col name ''date'' t"

definition Table_Binary :: "string \<Rightarrow> Table \<Rightarrow> nat \<times> Table" where
  "Table_Binary name t = Table_col name ''binary'' t"

definition Table_Timestamps :: "Table \<Rightarrow> Table" where
  "Table_Timestamps t =
     (let t1 = snd (on_column Column_NotNullable (Table_col ''created_at'' ''time'' t))
      in snd (on_column Column_NotNullable (Table_col ''updated_at'' ''time'' t1)))"

definition Table_SoftDeletes :: "Table \<Rightarrow> Table" where
  "Table_SoftDeletes t = snd (on_column Column_Nullable (Table_col ''deleted_at'' ''time'' t))"

definition Table_ForeignKey :: "string \<Rightarrow> string \<Rightarrow> string \<Rightarrow> Table \<Rightarrow> nat \<times> Table" where
  "Table_ForeignKey name refTable refCol t =
     on_column (\<lambda>c. c\<lparr>co_fkTable := refTable, co_fkCol := refCol\<rparr>) (Table_col name ''bigint'' t)"

definition Table_Index :: "string list \<Rightarrow> Table \<Rightarrow> Table" where
  "Table_Index cols t = t\<lparr>tb_indexes := tb_indexes t @ [\<lparr>ti_cols = cols, ti_unique = False\<rparr>]\<rparr>"

definition Table_UniqueIndex :: "string list \<Rightarrow> Table \<Rightarrow> Table" where
  "Table_UniqueIndex cols t = t\<lparr>tb_indexes := tb_indexes t @ [\<lparr>ti_cols = cols, ti_unique = True\<rparr>]\<rparr>"

text \<open>The loop of \<open>createSQL\<close>: the column lines and the quoted primary keys.\<close>

fun create_loop :: "string \<Rightarrow> Column list \<Rightarrow> string list \<Rightarrow> string list \<Rightarrow> string list \<times> string list" where
  "create_loop driver [] lines pks = (lines, pks)"
| "create_loop driver (c # cs) lines pks =
     create_loop driver cs
       (lines @ [''  '' @ (if isPostgres driver then toPostgresSQL c else toMySQLSQL c)])
       (if co_pk c then pks @ [if isPostgres driver then dq (co_name c) else bq (co_name c)] else pks)"

definition createSQL :: "Table \<Rightarrow> string" where
  "createSQL t =
     (let (lines, pks) = create_loop (tb_driver t) (tb_cols t) [] [];
          lines = (if pks \<noteq> [] then lines @ [''  PRIMARY KEY ('' @ Join '', '' pks @ '')''] else lines);
          body = '' ('' @ [CHR 0x0A] @ Join ('','' @ [CHR 0x0A]) lines @ [CHR 0x0A] @ '')''
      in if isPostgres (tb_driver t) then ''CREATE TABLE IF NOT EXISTS '' @ dq (tb_name t) @ body
         else ''CREATE TABLE IF NOT EXISTS '' @ bq (tb_name t) @ body
              @ '' ENGINE=InnoDB DEFAULT CHARSET=utf8mb4 COLLATE=utf8mb4_unicode_ci'')"

definition index_stmt :: "string \<Rightarrow> string \<Rightarrow> string list \<Rightarrow> bool \<Rightarrow> string" where
  "index_stmt driver table cols unique =
     (let name = ''idx_'' @ table @ ''_'' @ Join ''_'' cols;
          u = (if unique then ''UNIQUE '' else [])
      in if isPostgres driver
         then ''CREATE '' @ u @ ''INDEX IF NOT EXISTS '' @ dq name @ '' ON '' @ dq table @ '' ('' @ Join '', '' (map dq cols) @ '')''
         else ''CREATE '' @ u @ ''INDEX '' @ bq name @ '' ON '' @ bq table @ '' ('' @ Join '', '' (map bq cols) @ '')'')"

definition Table_indexSQL :: "Table \<Rightarrow> string list" where
  "Table_indexSQL t = map (\<lambda>idx. index_stmt (tb_driver t) (tb_name t) (ti_cols idx) (ti_unique idx)) (tb_indexes t)"

section \<open>Table modifier\<close>

fun joinCols_loop :: "nat \<Rightarrow> string list \<Rightarrow> string \<Rightarrow> string \<Rightarrow> string" where
  "joinCols_loop i [] sep result = result"
| "joinCols_loop i (c # cs) sep result = joinCols_loop (i + 1) cs sep (if i > 0 then result @ sep @ c else result @ c)"

definition joinCols :: "string list \<Rightarrow> string \<Rightarrow> string" where
  "joinCols cols sep = joinCols_loop 0 cols sep []"

definition add_stmt :: "string \<Rightarrow> TableModifier \<Rightarrow> TableModifier" where
  "add_stmt q tm = tm\<lparr>tm_stmts := tm_stmts tm @ [q]\<rparr>"

definition addColSQL :: "TableModifier \<Rightarrow> Column \<Rightarrow> string" where
  "addColSQL tm col =
     (if isPostgres (tm_driver tm) then ''ALTER TABLE '' @ dq (tm_table tm) @ '' ADD COLUMN '' @ toPostgresSQL col
      else ''ALTER TABLE '' @ bq (tm_table tm) @ '' ADD COLUMN '' @ toMySQLSQL col)"

definition Modifier_AddColumn :: "Column \<Rightarrow> TableModifier \<Rightarrow> TableModifier" where
  "Modifier_AddColumn col tm = add_stmt (addColSQL tm col) tm"

definition Modifier_DropColumn :: "string \<Rightarrow> TableModifier \<Rightarrow> TableModifier" where
  "Modifier_DropColumn name tm =
     (if isPostgres (tm_driver tm)
      then add_stmt (''ALTER TABLE '' @ dq (tm_table tm) @ '' DROP COLUMN IF EXISTS '' @ dq name) tm
      else add_stmt (''ALTER TABLE '' @ bq (tm_table tm) @ '' DROP COLUMN '' @ bq name) tm)"

definition Modifier_indexSQL :: "TableModifier \<Rightarrow> string list \<Rightarrow> bool \<Rightarrow> string" where
  "Modifier_indexSQL tm cols unique =
     (let name = ''idx_'' @ tm_table tm @ ''_'' @ joinCols cols ''_'';
          u = (if unique then ''UNIQUE '' else [])
      in if isPostgres (tm_driver tm)
         then ''CREATE '' @ u @ ''INDEX IF NOT EXISTS '' @ dq name @ '' ON '' @ dq (tm_table tm) @ '' ('' @ joinCols (map dq cols) '', '' @ '')''
         else ''CREATE '' @ u @ ''INDEX '' @ bq name @ '' ON '' @ bq (tm_table tm) @ '' ('' @ joinCols (map bq cols) '', '' @ '')'')"

definition Modifier_AddIndex :: "string list \<Rightarrow> TableModifier \<Rightarrow> TableModifier" where
  "Modifier_AddIndex cols tm = add_stmt (Modifier_indexSQL tm cols False) tm"

definition Modifier_AddUniqueIndex :: "string list \<Rightarrow> TableModifier \<Rightarrow> TableModifier" where
  "Modifier_AddUniqueIndex cols tm = add_stmt (Modifier_indexSQL tm cols True) tm"

section \<open>Schema\<close>

definition newSchema :: "string \<Rightarrow> Schema" where
  "newSchema driver = \<lparr>sc_driver = driver, sc_stmts = []\<rparr>"

definition add_stmts :: "string list \<Rightarrow> Schema \<Rightarrow> Schema" where
  "add_stmts qs s = s\<lparr>sc_stmts := sc_stmts s @ qs\<rparr>"

definition Schema_Create :: "string \<Rightarrow> (Table \<Rightarrow> Table) \<Rightarrow> Schema \<Rightarrow> Schema" where
  "Schema_Create table fn s =
     (let t = fn (newTable table (sc_driver s))
      in add_stmts (Table_indexSQL t) (add_stmts [createSQL t] s))"

definition Schema_Table :: "string \<Rightarrow> (TableModifier \<Rightarrow> TableModifier) \<Rightarrow> Schema \<Rightarrow> Schema" where
  "Schema_Table table fn s =
     (let tm = fn \<lparr>tm_table = table, tm_driver = sc_driver s, tm_stmts = []\<rparr>
      in add_stmts (tm_stmts tm) s)"

definition dropSQL :: "Schema \<Rightarrow> string \<Rightarrow> bool \<Rightarrow> string" where
  "dropSQL s table ifExists =
     (if isPostgres (sc_driver s)
      then if ifExists then ''DROP TABLE IF EXISTS '' @ dq table @ '' CASCADE'' else ''DROP TABLE '' @ dq table @ '' CASCADE''
      else if ifExists then ''DROP TABLE IF EXISTS '' @ bq table else ''DROP TABLE '' @ bq table)"

definition Schema_Drop :: "string \<Rightarrow> Schema \<Rightarrow> Schema" where
  "Schema_Drop table s = add_stmts [dropSQL s table False] s"

definition Schema_DropIfExists :: "string \<Rightarrow> Schema \<Rightarrow> Schema" where
  "Schema_DropIfExists table s = add_stmts [dropSQL s table True] s"

definition Schema_Raw :: "string \<Rightarrow> Schema \<Rightarrow> Schema" where
  "Schema_Raw q s = add_stmts [q] s"

definition Schema_RenameTable :: "string \<Rightarrow> string \<Rightarrow> Schema \<Rightarrow> Schema" where
  "Schema_RenameTable frm to s =
     (if isPostgres (sc_driver s) then add_stmts [''ALTER TABLE '' @ dq frm @ '' RENAME TO '' @ dq to] s
      else add_stmts [''RENAME TABLE '' @ bq frm @ '' TO '' @ bq to] s)"

section \<open>The two DDL generators agree\<close>

text \<open>A migration column as a column definition of the query layer's grammar.\<close>

definition column_def :: "Column \<Rightarrow> ColumnDef" where
  "column_def c =
     \<lparr>cd_Name = co_name c, cd_Type = co_kind c, cd_PrimaryKey = co_pk c, cd_AutoIncr = co_autoIncr c,
      cd_Nullable = co_nullable c, cd_Unique = co_unique c, cd_Default = co_def c, cd_Length = co_length c,
      cd_FKTable = co_fkTable c, cd_FKCol = co_fkCol c, cd_FKOnDelete = co_fkOnDelete c\<rparr>"

definition driver_grammar :: "string \<Rightarrow> Driver" where
  "driver_grammar driver = (if isPostgres driver then DriverPostgres else DriverMySQL)"

lemma quoted_dialect:
  "(if isPostgres driver then dq s else bq s) = rawQuoted (driver_grammar driver) s"
  by (simp add: dq_def bq_def rawQuoted_def driver_grammar_def)

lemma pgColType_eq: "pgColType c = pgType (column_def c)"
  and myColType_eq: "myColType c = myType (column_def c)"
  by (simp_all only: pgColType_def pgType_def myColType_def myType_def varchar_def Let_def column_def_def ColumnDef.select_convs)

lemma toSQL_eq:
  "(if isPostgres driver then toPostgresSQL c else toMySQLSQL c) = columnDef (driver_grammar driver) (column_def c)"
  by (simp add: toPostgresSQL_def toMySQLSQL_def columnDef_def pgColumnDef_def myColumnDef_def driver_grammar_def
        pgColType_eq myColType_eq dq_def bq_def rawQuoted_def column_def_def)

lemma create_loop_eq:
  "create_loop driver cs lines pks =
     (lines @ map (\<lambda>c. ''  '' @ columnDef (driver_grammar driver) (column_def c)) cs,
      pks @ map (\<lambda>c. rawQuoted (driver_grammar driver) (co_name c)) (filter co_pk cs))"
  by (induction cs arbitrary: lines pks) (simp_all only: create_loop.simps toSQL_eq quoted_dialect, auto)

lemma joinCols_loop_eq: "joinCols_loop i cols sep r = r @ (if i > 0 \<and> cols \<noteq> [] then sep else []) @ Join sep cols"
  by (induction cols arbitrary: i r) (auto simp: Join_Cons)

lemma joinCols_Join: "joinCols cols sep = Join sep cols"
  by (simp add: joinCols_def joinCols_loop_eq)

lemma index_stmt_eq: "index_stmt driver table cols unique = AddIndexSQL (driver_grammar driver) table cols unique"
  by (simp add: index_stmt_def AddIndexSQL_def driver_grammar_def dq_def [abs_def] bq_def [abs_def] rawQuoted_def [abs_def] Let_def)

lemma Modifier_indexSQL_eq: "Modifier_indexSQL tm cols unique = index_stmt (tm_driver tm) (tm_table tm) cols unique"
  by (simp add: Modifier_indexSQL_def index_stmt_def joinCols_Join Let_def)

text \<open>
  The DDL a migration runs is the DDL of the query layer: a table built with the fluent builder gives the same
  CREATE TABLE and index statements as the grammar of its driver gives for the same columns.
\<close>

theorem ddl_generators_agree:
  shows "createSQL t = CreateTableSQL (driver_grammar (tb_driver t)) (tb_name t) (map column_def (tb_cols t))"
    and "Table_indexSQL t = map (\<lambda>i. AddIndexSQL (driver_grammar (tb_driver t)) (tb_name t) (ti_cols i) (ti_unique i)) (tb_indexes t)"
    and "tm_stmts (Modifier_AddIndex cols tm) = tm_stmts tm @ [AddIndexSQL (driver_grammar (tm_driver tm)) (tm_table tm) cols False]"
    and "tm_stmts (Modifier_AddColumn col tm)
         = tm_stmts tm @ [AddColumnSQL (driver_grammar (tm_driver tm)) (tm_table tm) (column_def col)]"
    and "tm_stmts (Modifier_DropColumn c tm) = tm_stmts tm @ [DropColumnSQL (driver_grammar (tm_driver tm)) (tm_table tm) c]"
proof -
  show "createSQL t = CreateTableSQL (driver_grammar (tb_driver t)) (tb_name t) (map column_def (tb_cols t))"
  proof (cases "isPostgres (tb_driver t)")
    case True
    then show ?thesis
      by (simp add: createSQL_def create_loop_eq CreateTableSQL_def filter_map o_def column_def_def driver_grammar_def dq_def rawQuoted_def Let_def)
  next
    case False
    then show ?thesis
      by (simp add: createSQL_def create_loop_eq CreateTableSQL_def filter_map o_def column_def_def driver_grammar_def bq_def rawQuoted_def Let_def)
  qed
  show "Table_indexSQL t = map (\<lambda>i. AddIndexSQL (driver_grammar (tb_driver t)) (tb_name t) (ti_cols i) (ti_unique i)) (tb_indexes t)"
    by (simp add: Table_indexSQL_def index_stmt_eq)
  show "tm_stmts (Modifier_AddIndex cols tm) = tm_stmts tm @ [AddIndexSQL (driver_grammar (tm_driver tm)) (tm_table tm) cols False]"
    by (simp add: Modifier_AddIndex_def add_stmt_def Modifier_indexSQL_eq index_stmt_eq)
  have "addColSQL tm col = AddColumnSQL (driver_grammar (tm_driver tm)) (tm_table tm) (column_def col)"
    using toSQL_eq [of "tm_driver tm" col] quoted_dialect [of "tm_driver tm" "tm_table tm"]
    by (simp add: addColSQL_def AddColumnSQL_def split: if_splits)
  then show "tm_stmts (Modifier_AddColumn col tm)
      = tm_stmts tm @ [AddColumnSQL (driver_grammar (tm_driver tm)) (tm_table tm) (column_def col)]"
    by (simp add: Modifier_AddColumn_def add_stmt_def)
  show "tm_stmts (Modifier_DropColumn c tm) = tm_stmts tm @ [DropColumnSQL (driver_grammar (tm_driver tm)) (tm_table tm) c]"
    by (simp add: Modifier_DropColumn_def add_stmt_def driver_grammar_def dq_def bq_def rawQuoted_def)
qed

text \<open>
  On MySQL a foreign key is dropped: the column definition is the same with and without the reference.
\<close>

theorem mysql_drops_foreign_keys: "toMySQLSQL (c\<lparr>co_fkTable := ft, co_fkCol := fc, co_fkOnDelete := act\<rparr>) = toMySQLSQL c"
  by (simp add: toMySQLSQL_def myColType_def)

text \<open>
  A string default is not escaped: a quote in it ends the SQL literal, and what follows is read as SQL.
\<close>

theorem default_not_escaped:
  "toPostgresSQL (Column_Default sprint (GString ([CHR 0x27] @ s)) (new_Column ''c'' ''text''))
   = [CHR 0x22] @ ''c'' @ [CHR 0x22] @ '' TEXT NOT NULL DEFAULT '' @ [CHR 0x27, CHR 0x27] @ s @ [CHR 0x27]"
  by (simp add: toPostgresSQL_def Column_Default_def new_Column_def pgColType_def dq_def Let_def)

end
