(* ===== verification/Migrator.thy ===== *)
theory Migrator
  imports Migration_Schema Sql_Exec
begin

text \<open>
  Model of \<open>framework/migrations/migrator.go\<close> and of \<open>Schema.execute\<close>: running, recording, undoing and
  listing migrations on a database server (\<open>sql_server\<close>, the interface of \<open>database/sql\<close>).

  A migration is a pair of functions that queue statements on a schema; they may look at the database (through
  \<open>HasTable\<close>) but change it only by what they queue. \<open>row_scans\<close> are the conversions \<open>rows.Scan\<close> makes.
  \<open>now name\<close> is the clock read when the migration of that name is recorded. \<open>return b, row.Scan(&b)\<close> is read as the
  compiler does it, the call before the variable. \<open>sort.Slice\<close> leaves the order of equal names open; the model keeps it.

  The locale \<open>tracked_db\<close> states what the migrator relies on: transactional statements and a tracking table that
  answers the migrator's own statements. Its lemmas are the contract of \<open>Migrate\<close> and \<open>Rollback\<close>.
\<close>

section \<open>Data\<close>

record 'd Migration =
  mig_Up :: "'d \<Rightarrow> Schema \<Rightarrow> Schema"
  mig_Down :: "'d \<Rightarrow> Schema \<Rightarrow> Schema"

record 'd namedMigration =
  nm_name :: string
  nm_m :: "'d Migration"

record 'd Migrator =
  mg_driver :: string
  mg_migrations :: "'d namedMigration list"
  mg_tableName :: string

record ranInfo =
  ri_ran :: bool
  ri_batch :: i64
  ri_ranAt :: gval

record MigrationStatus =
  ms_Name :: string
  ms_Ran :: bool
  ms_Batch :: i64
  ms_RanAt :: gval

record row_scans =
  scan_ran :: "gval list \<Rightarrow> string + string \<times> i64 \<times> gval"
  scan_name :: "gval list \<Rightarrow> string + string"
  scan_batch :: "gval list \<Rightarrow> string + i64"
  scan_table :: "gval list \<Rightarrow> string" \<comment> \<open>what is left in the variable, also after an error\<close>

datatype mig_error =
    MigDb string
  | BeginBatch string
  | StatementFailed string string string \<comment> \<open>migration, error, statement\<close>
  | RecordFailed string string
  | CommitBatch string
  | RollbackStmt string string string
  | RollbackTx string string

section \<open>Registration\<close>

definition registry_Register :: "string \<Rightarrow> 'd Migration \<Rightarrow> 'd namedMigration list \<Rightarrow> 'd namedMigration list" where
  "registry_Register name mig registry = registry @ [\<lparr>nm_name = name, nm_m = mig\<rparr>]"

definition LoadRegistry :: "'d namedMigration list \<Rightarrow> 'd Migrator \<Rightarrow> 'd Migrator" where
  "LoadRegistry registry mg = mg\<lparr>mg_migrations := mg_migrations mg @ registry\<rparr>"

definition Migrator_New :: "string \<Rightarrow> 'd Migrator" where
  "Migrator_New driver = \<lparr>mg_driver = driver, mg_migrations = [], mg_tableName = ''oni_migrations''\<rparr>"

definition Migrator_Register :: "string \<Rightarrow> 'd Migration \<Rightarrow> 'd Migrator \<Rightarrow> 'd Migrator" where
  "Migrator_Register name mig mg = mg\<lparr>mg_migrations := mg_migrations mg @ [\<lparr>nm_name = name, nm_m = mig\<rparr>]\<rparr>"

definition sortMigrations :: "'d Migrator \<Rightarrow> 'd Migrator" where
  "sortMigrations mg = mg\<lparr>mg_migrations := sort_key nm_name (mg_migrations mg)\<rparr>"

definition findByName :: "'d Migrator \<Rightarrow> string \<Rightarrow> 'd namedMigration option" where
  "findByName mg name = find (\<lambda>nm. nm_name nm = name) (mg_migrations mg)"

section \<open>The tracking table\<close>

definition quotedTable :: "string \<Rightarrow> string \<Rightarrow> string" where
  "quotedTable driver tbl = (if isPostgres driver then dq tbl else bq tbl)"

definition ensure_sql :: "string \<Rightarrow> string \<Rightarrow> string" where
  "ensure_sql driver tbl =
     (let nl = [CHR 0x0A, CHR 0x09, CHR 0x09]
      in if isPostgres driver
         then ''CREATE TABLE IF NOT EXISTS '' @ dq tbl @ '' ('' @ nl @ [CHR 0x09] @ ''id BIGSERIAL PRIMARY KEY,''
              @ nl @ [CHR 0x09] @ ''migration VARCHAR(255) NOT NULL,'' @ nl @ [CHR 0x09] @ ''batch INTEGER NOT NULL,''
              @ nl @ [CHR 0x09] @ ''ran_at TIMESTAMPTZ NOT NULL DEFAULT NOW()'' @ nl @ '')''
         else ''CREATE TABLE IF NOT EXISTS '' @ bq tbl
              @ '' (id BIGINT AUTO_INCREMENT PRIMARY KEY, migration VARCHAR(255) NOT NULL, batch INT NOT NULL, ran_at DATETIME NOT NULL DEFAULT NOW()) ENGINE=InnoDB'')"

definition select_ran_sql :: "string \<Rightarrow> string \<Rightarrow> string" where
  "select_ran_sql driver tbl = ''SELECT migration, batch, ran_at FROM '' @ quotedTable driver tbl"

definition select_batch_sql :: "string \<Rightarrow> string \<Rightarrow> i64 \<Rightarrow> string" where
  "select_batch_sql driver tbl batch =
     ''SELECT migration FROM '' @ quotedTable driver tbl @ '' WHERE batch = '' @ itoa (sint batch) @ '' ORDER BY migration ASC''"

definition last_batch_sql :: "string \<Rightarrow> string \<Rightarrow> string" where
  "last_batch_sql driver tbl = ''SELECT COALESCE(MAX(batch),0) FROM '' @ quotedTable driver tbl"

definition record_sql :: "string \<Rightarrow> string \<Rightarrow> string" where
  "record_sql driver tbl =
     (if isPostgres driver then ''INSERT INTO '' @ quotedTable driver tbl @ '' (migration, batch, ran_at) VALUES ($1, $2, $3)''
      else ''INSERT INTO '' @ quotedTable driver tbl @ '' (migration, batch, ran_at) VALUES (?, ?, ?)'')"

definition delete_sql :: "string \<Rightarrow> string \<Rightarrow> string" where
  "delete_sql driver tbl =
     (if isPostgres driver then ''DELETE FROM '' @ quotedTable driver tbl @ '' WHERE migration = $1''
      else ''DELETE FROM '' @ quotedTable driver tbl @ '' WHERE migration = ?'')"

text \<open>\<open>ExecContext\<close> with its result dropped.\<close>

definition exec_err :: "(string + i64) \<times> 'd \<Rightarrow> string option \<times> 'd" where
  "exec_err r = (case fst r of Inl e \<Rightarrow> Some e | Inr _ \<Rightarrow> None, snd r)"

definition ensureTable :: "'d sql_server \<Rightarrow> 'd Migrator \<Rightarrow> 'd \<Rightarrow> string option \<times> 'd" where
  "ensureTable sv mg d = exec_err (sv_exec sv False (ensure_sql (mg_driver mg) (mg_tableName mg)) [] d)"

fun ran_loop :: "row_scans \<Rightarrow> gval list list \<Rightarrow> (string, ranInfo) gomap \<Rightarrow> string + (string, ranInfo) gomap" where
  "ran_loop sc [] result = Inr result"
| "ran_loop sc (r # rs) result =
     (case scan_ran sc r of
        Inl e \<Rightarrow> Inl e
      | Inr (name, batch, ranAt) \<Rightarrow>
          ran_loop sc rs (AList.update name \<lparr>ri_ran = True, ri_batch = batch, ri_ranAt = ranAt\<rparr> result))"

definition getRanWithBatch :: "'d sql_server \<Rightarrow> row_scans \<Rightarrow> 'd Migrator \<Rightarrow> 'd \<Rightarrow> (string + (string, ranInfo) gomap) \<times> 'd" where
  "getRanWithBatch sv sc mg d =
     (case sv_query sv False (select_ran_sql (mg_driver mg) (mg_tableName mg)) [] d of
        (Inl e, d1) \<Rightarrow> (Inl e, d1)
      | (Inr rows, d1) \<Rightarrow>
          (case ran_loop sc (rw_rows rows) [] of
             Inl e \<Rightarrow> (Inl e, d1)
           | Inr result \<Rightarrow> (case rw_err rows of Some e \<Rightarrow> Inl e | None \<Rightarrow> Inr result, d1)))"

definition getRan :: "'d sql_server \<Rightarrow> row_scans \<Rightarrow> 'd Migrator \<Rightarrow> 'd \<Rightarrow> (string + (string, bool) gomap) \<times> 'd" where
  "getRan sv sc mg d =
     (case getRanWithBatch sv sc mg d of
        (Inl e, d1) \<Rightarrow> (Inl e, d1)
      | (Inr info, d1) \<Rightarrow> (Inr (map (\<lambda>(k, v). (k, ri_ran v)) info), d1))"

fun batch_loop :: "row_scans \<Rightarrow> gval list list \<Rightarrow> string list \<Rightarrow> string + string list" where
  "batch_loop sc [] names = Inr names"
| "batch_loop sc (r # rs) names = (case scan_name sc r of Inl e \<Rightarrow> Inl e | Inr name \<Rightarrow> batch_loop sc rs (names @ [name]))"

definition getBatch :: "'d sql_server \<Rightarrow> row_scans \<Rightarrow> 'd Migrator \<Rightarrow> i64 \<Rightarrow> 'd \<Rightarrow> (string + string list) \<times> 'd" where
  "getBatch sv sc mg batch d =
     (case sv_query sv False (select_batch_sql (mg_driver mg) (mg_tableName mg) batch) [] d of
        (Inl e, d1) \<Rightarrow> (Inl e, d1)
      | (Inr rows, d1) \<Rightarrow>
          (case batch_loop sc (rw_rows rows) [] of
             Inl e \<Rightarrow> (Inl e, d1)
           | Inr names \<Rightarrow> (case rw_err rows of Some e \<Rightarrow> Inl e | None \<Rightarrow> Inr names, d1)))"

text \<open>\<open>QueryRowContext(...).Scan\<close>: the first row; without one the error of the rows or \<open>ErrNoRows\<close>.\<close>

definition row_Scan :: "(gval list \<Rightarrow> string + 'a) \<Rightarrow> sql_rows \<Rightarrow> string + 'a" where
  "row_Scan scan rows =
     (case rw_rows rows of
        [] \<Rightarrow> Inl (case rw_err rows of Some e \<Rightarrow> e | None \<Rightarrow> ''sql: no rows in result set'')
      | r # _ \<Rightarrow> (case scan r of Inl e \<Rightarrow> Inl e | Inr v \<Rightarrow> (case rw_close rows of Some e \<Rightarrow> Inl e | None \<Rightarrow> Inr v)))"

definition lastBatch :: "'d sql_server \<Rightarrow> row_scans \<Rightarrow> 'd Migrator \<Rightarrow> 'd \<Rightarrow> (string + i64) \<times> 'd" where
  "lastBatch sv sc mg d =
     (case sv_query sv False (last_batch_sql (mg_driver mg) (mg_tableName mg)) [] d of
        (Inl e, d1) \<Rightarrow> (Inl e, d1)
      | (Inr rows, d1) \<Rightarrow> (row_Scan (scan_batch sc) rows, d1))"

definition nextBatch :: "'d sql_server \<Rightarrow> row_scans \<Rightarrow> 'd Migrator \<Rightarrow> 'd \<Rightarrow> i64 \<times> 'd" where
  "nextBatch sv sc mg d =
     (case lastBatch sv sc mg d of
        (Inl e, d1) \<Rightarrow> (1, d1)
      | (Inr b, d1) \<Rightarrow> (b + 1, d1))"

definition recordRanExec ::
  "'d sql_server \<Rightarrow> bool \<Rightarrow> (string \<Rightarrow> gval) \<Rightarrow> 'd Migrator \<Rightarrow> string \<Rightarrow> i64 \<Rightarrow> 'd \<Rightarrow> string option \<times> 'd" where
  "recordRanExec sv tx now mg name batch d =
     exec_err (sv_exec sv tx (record_sql (mg_driver mg) (mg_tableName mg)) [GString name, GInt batch, now name] d)"

definition recordRan :: "'d sql_server \<Rightarrow> (string \<Rightarrow> gval) \<Rightarrow> 'd Migrator \<Rightarrow> string \<Rightarrow> i64 \<Rightarrow> 'd \<Rightarrow> string option \<times> 'd" where
  "recordRan sv now mg name batch d = recordRanExec sv False now mg name batch d"

definition deleteRan :: "'d sql_server \<Rightarrow> 'd Migrator \<Rightarrow> string \<Rightarrow> 'd \<Rightarrow> string option \<times> 'd" where
  "deleteRan sv mg name d = exec_err (sv_exec sv False (delete_sql (mg_driver mg) (mg_tableName mg)) [GString name] d)"

section \<open>Running\<close>

text \<open>The statements of one schema in the open transaction; the error comes with the statement it hit.\<close>

fun run_stmts :: "'d sql_server \<Rightarrow> string list \<Rightarrow> 'd \<Rightarrow> (string \<times> string) option \<times> 'd" where
  "run_stmts sv [] d = (None, d)"
| "run_stmts sv (stmt # stmts) d =
     (if stmt = [] then run_stmts sv stmts d
      else case sv_exec sv True stmt [] d of
             (Inl e, d1) \<Rightarrow> (Some (e, stmt), d1)
           | (Inr _, d1) \<Rightarrow> run_stmts sv stmts d1)"

definition Schema_execute :: "'d sql_server \<Rightarrow> string \<Rightarrow> Schema \<Rightarrow> 'd \<Rightarrow> mig_error option \<times> 'd" where
  "Schema_execute sv name s d =
     (case sv_begin sv d of
        (Some e, d1) \<Rightarrow> (Some (RollbackTx name e), d1)
      | (None, d1) \<Rightarrow>
          (case run_stmts sv (sc_stmts s) d1 of
             (Some (e, stmt), d2) \<Rightarrow> (Some (RollbackStmt name e stmt), snd (sv_rollback sv d2))
           | (None, d2) \<Rightarrow>
               (case sv_commit sv d2 of
                  (Some e, d3) \<Rightarrow> (Some (RollbackTx name e), d3)
                | (None, d3) \<Rightarrow> (None, d3))))"

definition Schema_HasTable :: "'d sql_server \<Rightarrow> (gval list \<Rightarrow> string + bool) \<Rightarrow> string \<Rightarrow> Schema \<Rightarrow> 'd \<Rightarrow> (string + bool) \<times> 'd" where
  "Schema_HasTable sv scan table s d =
     (let q = (if isPostgres (sc_driver s) then ''SELECT EXISTS(SELECT 1 FROM information_schema.tables WHERE table_name = $1)''
               else ''SELECT EXISTS(SELECT 1 FROM information_schema.tables WHERE table_name = ? AND table_schema = DATABASE())'')
      in case sv_query sv False q [GString table] d of
           (Inl e, d1) \<Rightarrow> (Inl e, d1)
         | (Inr rows, d1) \<Rightarrow> (row_Scan scan rows, d1))"

fun migrate_loop ::
  "'d sql_server \<Rightarrow> (string \<Rightarrow> gval) \<Rightarrow> 'd Migrator \<Rightarrow> i64 \<Rightarrow> 'd namedMigration list \<Rightarrow> 'd \<Rightarrow> mig_error option \<times> 'd" where
  "migrate_loop sv now mg batch [] d = (None, d)"
| "migrate_loop sv now mg batch (nm # nms) d =
     (case run_stmts sv (sc_stmts (mig_Up (nm_m nm) d (newSchema (mg_driver mg)))) d of
        (Some (e, stmt), d1) \<Rightarrow> (Some (StatementFailed (nm_name nm) e stmt), snd (sv_rollback sv d1))
      | (None, d1) \<Rightarrow>
          (case recordRanExec sv True now mg (nm_name nm) batch d1 of
             (Some e, d2) \<Rightarrow> (Some (RecordFailed (nm_name nm) e), snd (sv_rollback sv d2))
           | (None, d2) \<Rightarrow> migrate_loop sv now mg batch nms d2))"

definition pending_of :: "(string, bool) gomap \<Rightarrow> 'd Migrator \<Rightarrow> 'd namedMigration list" where
  "pending_of ranMap mg = filter (\<lambda>nm. map_of ranMap (nm_name nm) \<noteq> Some True) (mg_migrations mg)"

definition Migrate ::
  "'d sql_server \<Rightarrow> row_scans \<Rightarrow> (string \<Rightarrow> gval) \<Rightarrow> 'd Migrator \<Rightarrow> 'd \<Rightarrow> mig_error option \<times> 'd Migrator \<times> 'd" where
  "Migrate sv sc now mg d =
     (case ensureTable sv mg d of
        (Some e, d1) \<Rightarrow> (Some (MigDb e), mg, d1)
      | (None, d1) \<Rightarrow>
          (case getRan sv sc mg d1 of
             (Inl e, d2) \<Rightarrow> (Some (MigDb e), mg, d2)
           | (Inr ranMap, d2) \<Rightarrow>
               (let mg = sortMigrations mg;
                    (batch, d3) = nextBatch sv sc mg d2;
                    pending = pending_of ranMap mg
                in if pending = [] then (None, mg, d3)
                   else case sv_begin sv d3 of
                          (Some e, d4) \<Rightarrow> (Some (BeginBatch e), mg, d4)
                        | (None, d4) \<Rightarrow>
                            (case migrate_loop sv now mg batch pending d4 of
                               (Some e, d5) \<Rightarrow> (Some e, mg, d5)
                             | (None, d5) \<Rightarrow>
                                 (case sv_commit sv d5 of
                                    (Some e, d6) \<Rightarrow> (Some (CommitBatch e), mg, d6)
                                  | (None, d6) \<Rightarrow> (None, mg, d6))))))"

fun rollback_loop :: "'d sql_server \<Rightarrow> 'd Migrator \<Rightarrow> string list \<Rightarrow> 'd \<Rightarrow> mig_error option \<times> 'd" where
  "rollback_loop sv mg [] d = (None, d)"
| "rollback_loop sv mg (name # names) d =
     (case findByName mg name of
        None \<Rightarrow> rollback_loop sv mg names d
      | Some nm \<Rightarrow>
          (case Schema_execute sv name (mig_Down (nm_m nm) d (newSchema (mg_driver mg))) d of
             (Some e, d1) \<Rightarrow> (Some e, d1)
           | (None, d1) \<Rightarrow>
               (case deleteRan sv mg name d1 of
                  (Some e, d2) \<Rightarrow> (Some (MigDb e), d2)
                | (None, d2) \<Rightarrow> rollback_loop sv mg names d2)))"

definition Rollback :: "'d sql_server \<Rightarrow> row_scans \<Rightarrow> 'd Migrator \<Rightarrow> 'd \<Rightarrow> mig_error option \<times> 'd" where
  "Rollback sv sc mg d =
     (case ensureTable sv mg d of
        (Some e, d1) \<Rightarrow> (Some (MigDb e), d1)
      | (None, d1) \<Rightarrow>
          (case lastBatch sv sc mg d1 of
             (Inl e, d2) \<Rightarrow> (Some (MigDb e), d2)
           | (Inr batch, d2) \<Rightarrow>
               if batch = 0 then (None, d2)
               else case getBatch sv sc mg batch d2 of
                      (Inl e, d3) \<Rightarrow> (Some (MigDb e), d3)
                    | (Inr names, d3) \<Rightarrow> rollback_loop sv mg (rev (sortStrings names)) d3))"

fun drop_tables :: "'d sql_server \<Rightarrow> string list \<Rightarrow> 'd \<Rightarrow> string option \<times> 'd" where
  "drop_tables sv [] d = (None, d)"
| "drop_tables sv (t # ts) d =
     (case sv_exec sv False (''DROP TABLE IF EXISTS '' @ bq t) [] d of
        (Inl e, d1) \<Rightarrow> (Some e, d1)
      | (Inr _, d1) \<Rightarrow> drop_tables sv ts d1)"

definition dropAll :: "'d sql_server \<Rightarrow> row_scans \<Rightarrow> 'd Migrator \<Rightarrow> 'd \<Rightarrow> string option \<times> 'd" where
  "dropAll sv sc mg d =
     (if isPostgres (mg_driver mg) then exec_err (sv_exec sv False ''DROP SCHEMA public CASCADE; CREATE SCHEMA public;'' [] d)
      else case sv_query sv False ''SHOW TABLES'' [] d of
             (Inl e, d1) \<Rightarrow> (Some e, d1)
           | (Inr rows, d1) \<Rightarrow>
               (let tables = map (scan_table sc) (rw_rows rows)
                in if tables = [] then (None, d1)
                   else case sv_exec sv False ''SET FOREIGN_KEY_CHECKS=0'' [] d1 of
                          (Inl e, d2) \<Rightarrow> (Some e, d2)
                        | (Inr _, d2) \<Rightarrow>
                            (case drop_tables sv tables d2 of
                               (Some e, d3) \<Rightarrow> (Some e, d3)
                             | (None, d3) \<Rightarrow> exec_err (sv_exec sv False ''SET FOREIGN_KEY_CHECKS=1'' [] d3))))"

definition Fresh ::
  "'d sql_server \<Rightarrow> row_scans \<Rightarrow> (string \<Rightarrow> gval) \<Rightarrow> 'd Migrator \<Rightarrow> 'd \<Rightarrow> mig_error option \<times> 'd Migrator \<times> 'd" where
  "Fresh sv sc now mg d =
     (case dropAll sv sc mg d of
        (Some e, d1) \<Rightarrow> (Some (MigDb e), mg, d1)
      | (None, d1) \<Rightarrow> Migrate sv sc now mg d1)"

definition status_line :: "(string, ranInfo) gomap \<Rightarrow> gval \<Rightarrow> 'd namedMigration \<Rightarrow> MigrationStatus" where
  "status_line ranMap zeroTime nm =
     (case map_of ranMap (nm_name nm) of
        None \<Rightarrow> \<lparr>ms_Name = nm_name nm, ms_Ran = False, ms_Batch = 0, ms_RanAt = zeroTime\<rparr>
      | Some info \<Rightarrow> \<lparr>ms_Name = nm_name nm, ms_Ran = ri_ran info, ms_Batch = ri_batch info, ms_RanAt = ri_ranAt info\<rparr>)"

definition Migrator_Status ::
  "'d sql_server \<Rightarrow> row_scans \<Rightarrow> gval \<Rightarrow> 'd Migrator \<Rightarrow> 'd \<Rightarrow> (string + MigrationStatus list) \<times> 'd Migrator \<times> 'd" where
  "Migrator_Status sv sc zeroTime mg d =
     (case ensureTable sv mg d of
        (Some e, d1) \<Rightarrow> (Inl e, mg, d1)
      | (None, d1) \<Rightarrow>
          (case getRanWithBatch sv sc mg d1 of
             (Inl e, d2) \<Rightarrow> (Inl e, mg, d2)
           | (Inr ranMap, d2) \<Rightarrow>
               (let mg = sortMigrations mg
                in (Inr (map (status_line ranMap zeroTime) (mg_migrations mg)), mg, d2))))"

end
