(* ===== verification/Migration_Spec.thy ===== *)
theory Migration_Spec
  imports Migrator Go_Strconv
begin

text \<open>
  The contract of the migration runner: \<open>Migrate\<close> runs the pending migrations in the order of their names as
  one atomic batch, \<open>Rollback\<close> undoes the last batch, \<open>Status\<close> reports what is recorded. The database server is
  described by the locale \<open>tracked_db\<close>; it is interpreted on a reference server at the end.
\<close>

section \<open>What the migrator relies on\<close>

type_synonym track = "(string \<times> i64 \<times> gval) list"

definition top_batch :: "track \<Rightarrow> int" where
  "top_batch rs = (if rs = [] then 0 else Max ((\<lambda>r. sint (fst (snd r))) ` set rs))"

definition recorded :: "track \<Rightarrow> string set" where
  "recorded rs = fst ` set rs"

definition batch_names :: "i64 \<Rightarrow> track \<Rightarrow> string list" where
  "batch_names b rs = map fst (filter (\<lambda>r. fst (snd r) = b) rs)"

text \<open>The statements the migrations queue do not touch the tracking table.\<close>

definition quiet_ups :: "(string \<Rightarrow> bool) \<Rightarrow> string \<Rightarrow> 'd namedMigration list \<Rightarrow> bool" where
  "quiet_ups quiet drv nms \<longleftrightarrow>
     (\<forall>nm \<in> set nms. \<forall>d. \<forall>q \<in> set (sc_stmts (mig_Up (nm_m nm) d (newSchema drv))). q = [] \<or> quiet q)"

definition quiet_downs :: "(string \<Rightarrow> bool) \<Rightarrow> string \<Rightarrow> 'd namedMigration list \<Rightarrow> bool" where
  "quiet_downs quiet drv nms \<longleftrightarrow>
     (\<forall>nm \<in> set nms. \<forall>d. \<forall>q \<in> set (sc_stmts (mig_Down (nm_m nm) d (newSchema drv))). q = [] \<or> quiet q)"

text \<open>The server answers every call.\<close>

definition answers :: "'d sql_server \<Rightarrow> bool" where
  "answers sv \<longleftrightarrow> (\<forall>tx q args d. \<not> isl (fst (sv_exec sv tx q args d))) \<and> (\<forall>d. fst (sv_begin sv d) = None)
     \<and> (\<forall>d. fst (sv_commit sv d) = None)
     \<and> (\<forall>q d. case fst (sv_query sv False q [] d) of Inl _ \<Rightarrow> False | Inr rs \<Rightarrow> rw_err rs = None)"

lemma answers_exec: "answers sv \<Longrightarrow> \<exists>n d'. sv_exec sv tx q args d = (Inr n, d')"
  by (metis answers_def isl_def sum.collapse(2) prod.collapse)

lemma answers_query: "answers sv \<Longrightarrow> \<exists>rs d'. sv_query sv False q [] d = (Inr rs, d') \<and> rw_err rs = None"
proof -
  assume a: "answers sv"
  obtain r d' where r: "sv_query sv False q [] d = (r, d')" by (cases "sv_query sv False q [] d")
  have "case fst (sv_query sv False q [] d) of Inl _ \<Rightarrow> False | Inr rs \<Rightarrow> rw_err rs = None"
    using a by (simp add: answers_def)
  with r show ?thesis by (cases r) auto
qed

lemma answers_exec_err: "answers sv \<Longrightarrow> \<exists>d'. exec_err (sv_exec sv tx q args d) = (None, d')"
  using answers_exec [of sv tx q args d] by (auto simp: exec_err_def)

lemma answers_stmts: "answers sv \<Longrightarrow> \<exists>d'. run_stmts sv stmts d = (None, d')"
proof (induction stmts arbitrary: d)
  case (Cons q stmts)
  obtain n d1 where "sv_exec sv True q [] d = (Inr n, d1)" using answers_exec [OF Cons.prems] by blast
  with Cons show ?case by simp
qed simp

lemma answers_migrate_loop: "answers sv \<Longrightarrow> \<exists>d'. migrate_loop sv now mg b nms d = (None, d')"
proof (induction nms arbitrary: d)
  case (Cons nm nms)
  obtain d1 where "run_stmts sv (sc_stmts (mig_Up (nm_m nm) d (newSchema (mg_driver mg)))) d = (None, d1)"
    using answers_stmts [OF Cons.prems] by blast
  moreover obtain d2 where "recordRanExec sv True now mg (nm_name nm) b d1 = (None, d2)"
    using answers_exec_err [OF Cons.prems] unfolding recordRanExec_def by blast
  ultimately show ?case using Cons by simp
qed simp

text \<open>The batch numbers a run can use on a given content: one more than the last batch, as the server reports it.\<close>

definition next_batches :: "'d sql_server \<Rightarrow> row_scans \<Rightarrow> ('d \<Rightarrow> 'c) \<Rightarrow> 'd Migrator \<Rightarrow> 'c \<Rightarrow> i64 set" where
  "next_batches sv sc committed mg c = {fst (nextBatch sv sc (sortMigrations mg) d) | d. committed d = c}"

lemma exec_err_None [simp]: "exec_err r = (None, d') \<longleftrightarrow> (\<exists>n. r = (Inr n, d'))"
  and exec_err_Some [simp]: "exec_err r = (Some e, d') \<longleftrightarrow> r = (Inl e, d')"
  by (cases r; auto simp: exec_err_def split: sum.splits)+

abbreviation track_info :: "track \<Rightarrow> (string \<times> ranInfo) list" where
  "track_info rs \<equiv> map (\<lambda>(n, b, t). (n, \<lparr>ri_ran = True, ri_batch = b, ri_ranAt = t\<rparr>)) rs"

lemma ran_loop_rows:
  "map (scan_ran sc) rows = map Inr rs \<Longrightarrow> ran_loop sc rows acc = Inr m \<Longrightarrow> map_of m = map_of acc ++ map_of (rev (track_info rs))"
proof (induction rows arbitrary: rs acc)
  case (Cons r rows)
  then obtain n b t rs' where rs: "rs = (n, b, t) # rs'" "scan_ran sc r = Inr (n, b, t)" "map (scan_ran sc) rows = map Inr rs'"
    by (cases rs) auto
  let ?i = "\<lparr>ri_ran = True, ri_batch = b, ri_ranAt = t\<rparr>"
  have "map_of m = map_of (AList.update n ?i acc) ++ map_of (rev (track_info rs'))"
    using Cons.IH [OF rs(3), of "AList.update n ?i acc"] Cons.prems(2) by (simp only: ran_loop.simps rs(2) sum.case prod.case)
  then show ?case unfolding update_conv' rs(1) by simp
qed simp

lemma ran_loop_total: "map (scan_ran sc) rows = map Inr rs \<Longrightarrow> \<exists>m. ran_loop sc rows acc = Inr m"
proof (induction rows arbitrary: rs acc)
  case (Cons r rows)
  then show ?case by (cases rs) auto
qed simp

lemma track_lookup:
  "map_of (rev (track_info rs)) name = None \<longleftrightarrow> name \<notin> recorded rs"
  "map_of (rev (track_info rs)) name = Some i \<Longrightarrow> ri_ran i"
proof -
  show "map_of (rev (track_info rs)) name = None \<longleftrightarrow> name \<notin> recorded rs"
    by (force simp: map_of_eq_None_iff recorded_def)
  show "ri_ran i" if "map_of (rev (track_info rs)) name = Some i"
    using map_of_SomeD [OF that] by auto
qed

lemma track_lookup_ran: "map_option ri_ran (map_of (rev (track_info rs)) name) = Some True \<longleftrightarrow> name \<in> recorded rs"
  using track_lookup [of rs name] by (cases "map_of (rev (track_info rs)) name") auto

text \<open>
  \<open>committed d\<close> is the durable content of the database, \<open>working d\<close> what the open transaction sees of it.
  Statements in a transaction do not touch the durable content (PostgreSQL, where DDL is transactional; not
  MySQL, which commits at every DDL statement). \<open>track c\<close> are the rows of the tracking table, which exists if
  \<open>has c\<close>; \<open>quiet\<close> statements leave it alone.
\<close>

locale tracked_db =
  fixes sv :: "'d sql_server" and sc :: row_scans and drv tbl :: string
    and committed working :: "'d \<Rightarrow> 'c" and with_table :: "'c \<Rightarrow> 'c" and has :: "'c \<Rightarrow> bool" and track :: "'c \<Rightarrow> track"
    and quiet :: "string \<Rightarrow> bool"
  assumes ensure: "sv_exec sv False (ensure_sql drv tbl) [] d = (r, d') \<Longrightarrow>
        committed d' = (case r of Inl _ \<Rightarrow> committed d | Inr _ \<Rightarrow> with_table (committed d))"
    and with_table_has: "has (with_table c)"
    and with_table_id: "has c \<Longrightarrow> with_table c = c"
    and with_table_empty: "\<not> has c \<Longrightarrow> track (with_table c) = []"
    and query_keeps: "sv_query sv False q [] d = (res, d') \<Longrightarrow> committed d' = committed d"
    and select_ran: "has (committed d) \<Longrightarrow> sv_query sv False (select_ran_sql drv tbl) [] d = (Inr rs, d') \<Longrightarrow> rw_err rs = None
        \<Longrightarrow> map (scan_ran sc) (rw_rows rs) = map Inr (track (committed d))"
    and select_last: "has (committed d) \<Longrightarrow> sv_query sv False (last_batch_sql drv tbl) [] d = (Inr rs, d')
        \<Longrightarrow> row_Scan (scan_batch sc) rs = Inr b \<Longrightarrow> sint b = top_batch (track (committed d))"
    and select_batch: "has (committed d) \<Longrightarrow> sv_query sv False (select_batch_sql drv tbl b) [] d = (Inr rs, d') \<Longrightarrow> rw_err rs = None
        \<Longrightarrow> map (scan_name sc) (rw_rows rs) = map Inr (sort (batch_names b (track (committed d))))"
    and exec_in_tx: "sv_exec sv True q args d = (r, d') \<Longrightarrow> committed d' = committed d"
    and exec_quiet: "quiet q \<Longrightarrow> sv_exec sv True q [] d = (Inr n, d')
        \<Longrightarrow> has (working d') = has (working d) \<and> track (working d') = track (working d)"
    and exec_record: "has (working d) \<Longrightarrow> sv_exec sv True (record_sql drv tbl) [GString name, GInt b, t] d = (Inr n, d')
        \<Longrightarrow> has (working d') \<and> track (working d') = track (working d) @ [(name, b, t)]"
    and exec_delete: "has (committed d) \<Longrightarrow> sv_exec sv False (delete_sql drv tbl) [GString name] d = (r, d')
        \<Longrightarrow> has (committed d') \<and> track (committed d')
              = (case r of Inl _ \<Rightarrow> track (committed d) | Inr _ \<Rightarrow> filter (\<lambda>x. fst x \<noteq> name) (track (committed d)))"
    and begin_tx: "sv_begin sv d = (e, d') \<Longrightarrow> committed d' = committed d \<and> (e = None \<longrightarrow> working d' = committed d)"
    and commit_tx: "sv_commit sv d = (e, d') \<Longrightarrow> committed d' = (if e = None then working d else committed d)"
    and rollback_tx: "committed (snd (sv_rollback sv d)) = committed d"
begin

lemma run_stmts_committed: "run_stmts sv stmts d = (e, d') \<Longrightarrow> committed d' = committed d"
  by (induction stmts arbitrary: d) (auto split: prod.splits sum.splits if_splits dest: exec_in_tx)

lemma run_stmts_quiet:
  "run_stmts sv stmts d = (None, d') \<Longrightarrow> \<forall>q \<in> set stmts. q = [] \<or> quiet q
   \<Longrightarrow> has (working d') = has (working d) \<and> track (working d') = track (working d)"
  by (induction stmts arbitrary: d) (auto split: prod.splits sum.splits if_splits dest: exec_quiet)

lemma record_committed: "recordRanExec sv True now mg name b d = (e, d') \<Longrightarrow> committed d' = committed d"
  by (cases e) (auto simp: recordRanExec_def dest: exec_in_tx)

lemma record_track:
  "recordRanExec sv True now mg name b d = (None, d') \<Longrightarrow> mg_driver mg = drv \<Longrightarrow> mg_tableName mg = tbl \<Longrightarrow> has (working d)
   \<Longrightarrow> has (working d') \<and> track (working d') = track (working d) @ [(name, b, now name)]"
  by (auto simp: recordRanExec_def dest: exec_record)

lemma migrate_loop_committed: "migrate_loop sv now mg b nms d = (e, d') \<Longrightarrow> committed d' = committed d"
  by (induction nms arbitrary: d)
    (auto simp: rollback_tx split: prod.splits option.splits dest!: run_stmts_committed record_committed)

lemma migrate_loop_track:
  assumes "mg_driver mg = drv" and "mg_tableName mg = tbl"
  shows "migrate_loop sv now mg b nms d = (None, d') \<Longrightarrow> quiet_ups quiet drv nms \<Longrightarrow> has (working d)
    \<Longrightarrow> has (working d') \<and> track (working d') = track (working d) @ map (\<lambda>nm. (nm_name nm, b, now (nm_name nm))) nms"
proof (induction nms arbitrary: d)
  case (Cons nm nms)
  let ?q = "sc_stmts (mig_Up (nm_m nm) d (newSchema drv))"
  from Cons.prems(1) assms obtain d1 d2 where
    1: "run_stmts sv ?q d = (None, d1)" and 2: "recordRanExec sv True now mg (nm_name nm) b d1 = (None, d2)"
    and 3: "migrate_loop sv now mg b nms d2 = (None, d')"
    by (auto split: prod.splits option.splits)
  have "\<forall>q \<in> set ?q. q = [] \<or> quiet q" using Cons.prems(2) by (simp add: quiet_ups_def)
  from run_stmts_quiet [OF 1 this] have "has (working d1)" "track (working d1) = track (working d)"
    using Cons.prems(3) by simp_all
  with record_track [OF 2 assms] Cons.IH [OF 3] Cons.prems(2) show ?case by (simp add: quiet_ups_def)
qed simp

lemma ensure_committed:
  "ensureTable sv mg d = (e, d') \<Longrightarrow> mg_driver mg = drv \<Longrightarrow> mg_tableName mg = tbl
   \<Longrightarrow> committed d' = (if e = None then with_table (committed d) else committed d)"
  using ensure [of d] by (cases e) (simp_all add: ensureTable_def, force+)

lemma getRanWithBatch_committed: "getRanWithBatch sv sc mg d = (r, d') \<Longrightarrow> committed d' = committed d"
  by (auto simp: getRanWithBatch_def split: prod.splits sum.splits dest: query_keeps)

lemma getRan_committed: "getRan sv sc mg d = (r, d') \<Longrightarrow> committed d' = committed d"
  by (auto simp: getRan_def split: prod.splits sum.splits dest: getRanWithBatch_committed)

lemma lastBatch_committed: "lastBatch sv sc mg d = (r, d') \<Longrightarrow> committed d' = committed d"
  by (auto simp: lastBatch_def split: prod.splits sum.splits dest: query_keeps)

lemma nextBatch_committed: "nextBatch sv sc mg d = (b, d') \<Longrightarrow> committed d' = committed d"
  by (auto simp: nextBatch_def split: prod.splits sum.splits dest: lastBatch_committed)

lemma getBatch_committed: "getBatch sv sc mg b d = (r, d') \<Longrightarrow> committed d' = committed d"
  by (auto simp: getBatch_def split: prod.splits sum.splits dest: query_keeps)

lemmas keeps = getRan_committed nextBatch_committed begin_tx migrate_loop_committed

lemma getRanWithBatch_rows:
  assumes "getRanWithBatch sv sc mg d = (Inr m, d')" and "mg_driver mg = drv" and "mg_tableName mg = tbl" and "has (committed d)"
  shows "map_of m = map_of (rev (map (\<lambda>(n, b, t). (n, \<lparr>ri_ran = True, ri_batch = b, ri_ranAt = t\<rparr>)) (track (committed d))))"
proof -
  from assms obtain rs where "sv_query sv False (select_ran_sql drv tbl) [] d = (Inr rs, d')"
    "ran_loop sc (rw_rows rs) [] = Inr m" "rw_err rs = None"
    by (auto simp: getRanWithBatch_def split: prod.splits sum.splits option.splits)
  with select_ran [OF assms(4)] ran_loop_rows [of sc "rw_rows rs" "track (committed d)" "[]"] show ?thesis by simp
qed

lemma getRan_recorded:
  assumes "getRan sv sc mg d = (Inr m, d')" and "mg_driver mg = drv" and "mg_tableName mg = tbl" and "has (committed d)"
  shows "map_of m name = Some True \<longleftrightarrow> name \<in> recorded (track (committed d))"
proof -
  from assms(1) obtain info where i: "getRanWithBatch sv sc mg d = (Inr info, d')" "m = map (\<lambda>(k, v). (k, ri_ran v)) info"
    by (auto simp: getRan_def split: prod.splits sum.splits)
  have "map_of m name = map_option ri_ran (map_of info name)" unfolding i(2) by (simp add: map_of_map)
  with track_lookup_ran show ?thesis unfolding getRanWithBatch_rows [OF i(1) assms(2-4)] by simp
qed

theorem migrate_contract:
  assumes run: "Migrate sv sc now mg d = (res, mg', d')" and drv: "mg_driver mg = drv" and tbl: "mg_tableName mg = tbl"
    and quiet: "quiet_ups quiet drv (mg_migrations mg)"
  defines "old \<equiv> track (with_table (committed d))"
  shows "case res of
      Some e \<Rightarrow> committed d' = committed d \<or> committed d' = with_table (committed d)
    | None \<Rightarrow> \<exists>b. b \<in> next_batches sv sc committed mg (with_table (committed d)) \<and> has (committed d') \<and> track (committed d') = old @ map (\<lambda>nm. (nm_name nm, b, now (nm_name nm)))
          (filter (\<lambda>nm. nm_name nm \<notin> recorded old) (sort_key nm_name (mg_migrations mg)))"
proof (cases "ensureTable sv mg d")
  case (Pair e1 d1)
  note 1 = ensure_committed [OF Pair drv tbl]
  show ?thesis
  proof (cases e1)
    case (Some e)
    with Pair run 1 show ?thesis by (auto simp: Migrate_def)
  next
    case None
    with 1 have d1: "committed d1 = with_table (committed d)" by simp
    obtain r2 d2 where 2: "getRan sv sc mg d1 = (r2, d2)" by (cases "getRan sv sc mg d1")
    note d2 = getRan_committed [OF 2]
    show ?thesis
    proof (cases r2)
      case (Inl e)
      with Pair None 2 run d1 d2 show ?thesis by (auto simp: Migrate_def)
    next
      case (Inr m)
      let ?mg = "sortMigrations mg"
      obtain b d3 where 3: "nextBatch sv sc ?mg d2 = (b, d3)" by (cases "nextBatch sv sc ?mg d2")
      note d3 = nextBatch_committed [OF 3]
      let ?p = "pending_of m ?mg"
      have p: "?p = filter (\<lambda>nm. nm_name nm \<notin> recorded old) (sort_key nm_name (mg_migrations mg))"
        using getRan_recorded [OF 2 [unfolded Inr] drv tbl] d1 with_table_has
        by (simp add: pending_of_def sortMigrations_def old_def)
      have q: "quiet_ups quiet drv ?p" using quiet by (auto simp: p quiet_ups_def)
      have mgd: "mg_driver ?mg = drv" "mg_tableName ?mg = tbl" using drv tbl by (simp_all add: sortMigrations_def)
      have M: "Migrate sv sc now mg d = (if ?p = [] then (None, ?mg, d3)
           else case sv_begin sv d3 of (Some e, d4) \<Rightarrow> (Some (BeginBatch e), ?mg, d4)
                | (None, d4) \<Rightarrow> (case migrate_loop sv now ?mg b ?p d4 of (Some e, d5) \<Rightarrow> (Some e, ?mg, d5)
                     | (None, d5) \<Rightarrow> (case sv_commit sv d5 of (Some e, d6) \<Rightarrow> (Some (CommitBatch e), ?mg, d6)
                                                             | (None, d6) \<Rightarrow> (None, ?mg, d6))))"
        using Pair None 2 Inr 3 by (simp add: Migrate_def Let_def)
      have old: "committed d3 = with_table (committed d)" using d1 d2 d3 by simp
      have nb: "b \<in> next_batches sv sc committed mg (with_table (committed d))"
        using 3 d1 d2 unfolding next_batches_def by (metis (mono_tags, lifting) fst_conv mem_Collect_eq)
      show ?thesis
      proof (cases "?p = []")
        case True
        with M run p old with_table_has nb show ?thesis by (auto simp: old_def)
      next
        case False
        obtain e4 d4 where 4: "sv_begin sv d3 = (e4, d4)" by (cases "sv_begin sv d3")
        obtain e5 d5 where 5: "migrate_loop sv now ?mg b ?p d4 = (e5, d5)" by (cases "migrate_loop sv now ?mg b ?p d4")
        obtain e6 d6 where 6: "sv_commit sv d5 = (e6, d6)" by (cases "sv_commit sv d5")
        note d4 = begin_tx [OF 4] and d5 = migrate_loop_committed [OF 5] and d6 = commit_tx [OF 6]
        have "has (working d5) \<and> track (working d5) = old @ map (\<lambda>nm. (nm_name nm, b, now (nm_name nm))) ?p"
          if "e4 = None" "e5 = None"
          using migrate_loop_track [OF mgd 5 [unfolded that(2)] q] d4 that old with_table_has by (simp add: old_def)
        with M run False 4 5 6 d4 d5 d6 old nb show ?thesis
          unfolding p [symmetric] by (cases e4; cases e5; cases e6; auto)
      qed
    qed
  qed
qed

lemma execute_track:
  assumes "Schema_execute sv name s d = (e, d')" and "\<forall>q \<in> set (sc_stmts s). q = [] \<or> quiet q" and "has (committed d)"
  shows "has (committed d')" and "track (committed d') = track (committed d)"
proof -
  obtain e1 d1 where 1: "sv_begin sv d = (e1, d1)" by (cases "sv_begin sv d")
  obtain e2 d2 where 2: "run_stmts sv (sc_stmts s) d1 = (e2, d2)" by (cases "run_stmts sv (sc_stmts s) d1")
  obtain e3 d3 where 3: "sv_commit sv d2 = (e3, d3)" by (cases "sv_commit sv d2")
  have "has (working d2) \<and> track (working d2) = track (committed d)" if "e1 = None" "e2 = None"
    using run_stmts_quiet [OF 2 [unfolded that(2)] assms(2)] begin_tx [OF 1] that(1) assms(3) by simp
  then have "has (committed d') \<and> track (committed d') = track (committed d)"
    using assms(1,3) 1 2 3 begin_tx [OF 1] run_stmts_committed [OF 2] commit_tx [OF 3] rollback_tx
    by (cases e1; cases e2; cases e3; auto simp: Schema_execute_def)
  then show "has (committed d')" "track (committed d') = track (committed d)" by simp_all
qed

lemma rollback_loop_track:
  assumes "mg_driver mg = drv" and "mg_tableName mg = tbl" and quiet: "quiet_downs quiet drv (mg_migrations mg)"
  shows "rollback_loop sv mg names d = (None, d') \<Longrightarrow> has (committed d)
    \<Longrightarrow> has (committed d') \<and> track (committed d') = filter (\<lambda>r. fst r \<notin> set names \<or> findByName mg (fst r) = None) (track (committed d))"
proof (induction names arbitrary: d)
  case (Cons name names)
  show ?case
  proof (cases "findByName mg name")
    case None
    with Cons show ?thesis by (auto intro!: filter_cong)
  next
    case (Some nm)
    let ?s = "mig_Down (nm_m nm) d (newSchema drv)"
    from Cons.prems(1) Some assms obtain d1 d2 where
      1: "Schema_execute sv name ?s d = (None, d1)" and 2: "deleteRan sv mg name d1 = (None, d2)"
      and 3: "rollback_loop sv mg names d2 = (None, d')"
      by (auto split: prod.splits option.splits)
    have "nm \<in> set (mg_migrations mg)" using Some by (auto simp: findByName_def find_Some_iff)
    with quiet have q: "\<forall>q \<in> set (sc_stmts ?s). q = [] \<or> quiet q" by (auto simp: quiet_downs_def)
    note d1 = execute_track [OF 1 q Cons.prems(2)]
    obtain n where "sv_exec sv False (delete_sql drv tbl) [GString name] d1 = (Inr n, d2)"
      using 2 assms by (auto simp: deleteRan_def)
    from exec_delete [OF d1(1) this] d1(2)
    have d2: "has (committed d2)" "track (committed d2) = filter (\<lambda>x. fst x \<noteq> name) (track (committed d))" by simp_all
    from Cons.IH [OF 3 d2(1)] d2(2) Some show ?thesis by (auto intro!: filter_cong)
  qed
qed simp

lemma batch_loop_rows: "map (scan_name sc) rows = map Inr ns \<Longrightarrow> batch_loop sc rows acc = Inr names \<Longrightarrow> names = acc @ ns"
proof (induction rows arbitrary: ns acc)
  case (Cons r rows)
  from Cons.prems obtain n ns' where "ns = n # ns'" "scan_name sc r = Inr n" "map (scan_name sc) rows = map Inr ns'"
    by (cases ns) auto
  with Cons.IH [of ns' "acc @ [n]"] Cons.prems(2) show ?case by simp
qed simp

lemma getBatch_names:
  assumes "getBatch sv sc mg b d = (Inr names, d')" and "mg_driver mg = drv" and "mg_tableName mg = tbl" and "has (committed d)"
  shows "names = sort (batch_names b (track (committed d)))"
proof -
  from assms obtain rs where "sv_query sv False (select_batch_sql drv tbl b) [] d = (Inr rs, d')"
    "batch_loop sc (rw_rows rs) [] = Inr names" "rw_err rs = None"
    by (auto simp: getBatch_def split: prod.splits sum.splits option.splits)
  with select_batch [OF assms(4)] batch_loop_rows [of "rw_rows rs" "sort (batch_names b (track (committed d)))" "[]"]
  show ?thesis by simp
qed

lemma lastBatch_top:
  assumes "lastBatch sv sc mg d = (Inr b, d')" and "mg_driver mg = drv" and "mg_tableName mg = tbl" and "has (committed d)"
  shows "sint b = top_batch (track (committed d))"
  using assms select_last [OF assms(4)] by (auto simp: lastBatch_def split: prod.splits sum.splits)

theorem rollback_contract:
  assumes run: "Rollback sv sc mg d = (None, d')" and drv: "mg_driver mg = drv" and tbl: "mg_tableName mg = tbl"
    and quiet: "quiet_downs quiet drv (mg_migrations mg)"
  defines "old \<equiv> track (with_table (committed d))"
  shows "has (committed d') \<and> track (committed d') =
    (if top_batch old = 0 then old
     else filter (\<lambda>r. fst r \<notin> set (batch_names (word_of_int (top_batch old)) old) \<or> findByName mg (fst r) = None) old)"
proof -
  from run obtain d1 b d2 where 1: "ensureTable sv mg d = (None, d1)" and 2: "lastBatch sv sc mg d1 = (Inr b, d2)"
    by (auto simp: Rollback_def split: prod.splits option.splits sum.splits)
  have d1: "committed d1 = with_table (committed d)" using ensure_committed [OF 1 drv tbl] by simp
  have d2: "committed d2 = with_table (committed d)" using lastBatch_committed [OF 2] d1 by simp
  have b: "sint b = top_batch old" using lastBatch_top [OF 2 drv tbl] d1 with_table_has by (simp add: old_def)
  then have b': "word_of_int (top_batch old) = b" by (simp flip: b)
  show ?thesis
  proof (cases "b = 0")
    case True
    with run 1 2 b d2 with_table_has show ?thesis by (simp add: Rollback_def old_def)
  next
    case False
    with run 1 2 obtain names d3 where 3: "getBatch sv sc mg b d2 = (Inr names, d3)"
      and 4: "rollback_loop sv mg (rev (sort names)) d3 = (None, d')"
      by (auto simp: Rollback_def split: prod.splits sum.splits)
    have d3: "committed d3 = with_table (committed d)" using getBatch_committed [OF 3] d2 by simp
    have "set names = set (batch_names b old)" using getBatch_names [OF 3 drv tbl] d2 with_table_has by (simp add: old_def)
    moreover have "top_batch old \<noteq> 0" using False signed_eq_0_iff [of b] by (simp flip: b)
    ultimately show ?thesis
      using rollback_loop_track [OF drv tbl quiet 4] d3 with_table_has b' by (simp add: old_def)
  qed
qed

lemma getRan_answers:
  assumes "answers sv" and "mg_driver mg = drv" and "mg_tableName mg = tbl" and "has (committed d)"
  shows "\<exists>m d'. getRanWithBatch sv sc mg d = (Inr m, d')"
proof -
  obtain rs d' where q: "sv_query sv False (select_ran_sql drv tbl) [] d = (Inr rs, d')" "rw_err rs = None"
    using answers_query [OF assms(1)] by blast
  obtain m where "ran_loop sc (rw_rows rs) [] = Inr m" using ran_loop_total [OF select_ran [OF assms(4) q]] by blast
  with q show ?thesis using assms(2,3) by (simp add: getRanWithBatch_def)
qed

theorem migrate_answers:
  assumes "answers sv" and "mg_driver mg = drv" and "mg_tableName mg = tbl"
  shows "\<exists>d'. Migrate sv sc now mg d = (None, sortMigrations mg, d')"
proof -
  obtain d1 where 1: "ensureTable sv mg d = (None, d1)"
    using answers_exec_err [OF assms(1)] unfolding ensureTable_def by blast
  have "has (committed d1)" using ensure_committed [OF 1 assms(2,3)] with_table_has by simp
  from getRan_answers [OF assms this] obtain m d2 where 2: "getRan sv sc mg d1 = (Inr m, d2)"
    by (fastforce simp: getRan_def)
  obtain b d3 where 3: "nextBatch sv sc (sortMigrations mg) d2 = (b, d3)" by fastforce
  obtain d4 where 4: "sv_begin sv d3 = (None, d4)" using assms(1) by (metis answers_def prod.collapse)
  obtain d5 where 5: "migrate_loop sv now (sortMigrations mg) b (pending_of m (sortMigrations mg)) d4 = (None, d5)"
    using answers_migrate_loop [OF assms(1)] by blast
  obtain d6 where 6: "sv_commit sv d5 = (None, d6)" using assms(1) by (metis answers_def prod.collapse)
  from 1 2 3 4 5 6 show ?thesis by (auto simp: Migrate_def Let_def)
qed

theorem status_contract:
  assumes "Migrator_Status sv sc z mg d = (Inr lines, mg', d')" and "mg_driver mg = drv" and "mg_tableName mg = tbl"
  shows "map (\<lambda>l. (ms_Name l, ms_Ran l)) lines
    = map (\<lambda>nm. (nm_name nm, nm_name nm \<in> recorded (track (with_table (committed d))))) (sort_key nm_name (mg_migrations mg))"
proof -
  from assms(1) obtain d1 m d2 where 1: "ensureTable sv mg d = (None, d1)" and 2: "getRanWithBatch sv sc mg d1 = (Inr m, d2)"
    and l: "lines = map (status_line m z) (sort_key nm_name (mg_migrations mg))"
    by (auto simp: Migrator_Status_def Let_def sortMigrations_def split: prod.splits option.splits sum.splits)
  have d1: "committed d1 = with_table (committed d)" using ensure_committed [OF 1 assms(2,3)] by simp
  note rows = getRanWithBatch_rows [OF 2 assms(2,3), unfolded d1, OF with_table_has]
  have "(ms_Name (status_line m z nm), ms_Ran (status_line m z nm))
      = (nm_name nm, nm_name nm \<in> recorded (track (with_table (committed d))))" for nm
    using track_lookup [of "track (with_table (committed d))" "nm_name nm"]
    by (cases "map_of m (nm_name nm)") (auto simp: status_line_def rows)
  then show ?thesis unfolding l by auto
qed

lemma status_answers:
  assumes "answers sv" and "mg_driver mg = drv" and "mg_tableName mg = tbl"
  shows "\<exists>lines mg' d'. Migrator_Status sv sc z mg d = (Inr lines, mg', d')"
proof -
  obtain d1 where 1: "ensureTable sv mg d = (None, d1)"
    using answers_exec_err [OF assms(1)] unfolding ensureTable_def by blast
  have "has (committed d1)" using ensure_committed [OF 1 assms(2,3)] with_table_has by simp
  from getRan_answers [OF assms this] obtain m d2 where "getRanWithBatch sv sc mg d1 = (Inr m, d2)" by blast
  with 1 show ?thesis by (simp add: Migrator_Status_def Let_def)
qed

lemma migrate_records_all:
  assumes "Migrate sv sc now mg d = (None, mg', d')" and "mg_driver mg = drv" and "mg_tableName mg = tbl"
    and "quiet_ups quiet drv (mg_migrations mg)"
  shows "nm_name ` set (mg_migrations mg) \<subseteq> recorded (track (committed d'))" and "has (committed d')"
proof -
  let ?old = "track (with_table (committed d))"
  obtain b where t: "has (committed d')" "track (committed d') = ?old @ map (\<lambda>nm. (nm_name nm, b, now (nm_name nm)))
          (filter (\<lambda>nm. nm_name nm \<notin> recorded ?old) (sort_key nm_name (mg_migrations mg)))"
    using migrate_contract [OF assms] by auto
  then show "has (committed d')" by simp
  have "recorded (track (committed d')) = recorded ?old \<union> nm_name ` {nm \<in> set (mg_migrations mg). nm_name nm \<notin> recorded ?old}"
    by (simp add: t(2) recorded_def image_image image_Un)
  then show "nm_name ` set (mg_migrations mg) \<subseteq> recorded (track (committed d'))" by auto
qed

end

section \<open>A reference server\<close>

text \<open>
  A PostgreSQL-like server that knows the tracking table of the migrator and keeps every other statement in a log
  of executed DDL; the statements in \<open>refuses\<close> fail, and tracking statements
  with other arguments than the migrator's do nothing. The pool works on the durable content, a transaction on a copy.
\<close>

record ref_content =
  rc_log :: "string list"
  rc_track :: "track option"

record ref_db =
  rd_committed :: ref_content
  rd_working :: ref_content

definition ref_stmt :: "(string \<Rightarrow> bool) \<Rightarrow> string \<Rightarrow> gval list \<Rightarrow> ref_content \<Rightarrow> (string + i64) \<times> ref_content" where
  "ref_stmt refuses q args c =
     (let drv = ''postgres''; tbl = ''oni_migrations''
      in if q = ensure_sql drv tbl
         then (Inr 0, if rc_track c = None then c\<lparr>rc_track := Some []\<rparr> else c)
         else if q = record_sql drv tbl
         then (case (rc_track c, args) of
                 (Some rs, [GString name, GInt b, t]) \<Rightarrow> (Inr 0, c\<lparr>rc_track := Some (rs @ [(name, b, t)])\<rparr>)
               | _ \<Rightarrow> (Inr 0, c))
         else if q = delete_sql drv tbl
         then (case (rc_track c, args) of
                 (Some rs, [GString name]) \<Rightarrow> (Inr 0, c\<lparr>rc_track := Some (filter (\<lambda>r. fst r \<noteq> name) rs)\<rparr>)
               | _ \<Rightarrow> (Inr 0, c))
         else if refuses q then (Inl ''refused'', c)
         else (Inr 0, c\<lparr>rc_log := rc_log c @ [q]\<rparr>))"

definition ref_query :: "string \<Rightarrow> ref_content \<Rightarrow> gval list list" where
  "ref_query q c =
     (let drv = ''postgres''; tbl = ''oni_migrations''; rs = (case rc_track c of None \<Rightarrow> [] | Some rs \<Rightarrow> rs)
      in if q = select_ran_sql drv tbl then map (\<lambda>(n, b, t). [GString n, GInt b, t]) rs
         else if q = last_batch_sql drv tbl then [[GInt (word_of_int (top_batch rs))]]
         else map (\<lambda>n. [GString n]) (sort (map fst (filter (\<lambda>r. q = select_batch_sql drv tbl (fst (snd r))) rs))))"

definition ref_server :: "(string \<Rightarrow> bool) \<Rightarrow> ref_db sql_server" where
  "ref_server refuses =
     \<lparr>sv_query = (\<lambda>via q args d.
        (Inr \<lparr>rw_cols = [''?column?''], rw_rows = ref_query q (if via then rd_working d else rd_committed d), rw_err = None, rw_close = None\<rparr>, d)),
      sv_exec = (\<lambda>via q args d.
        if via then (let (r, c) = ref_stmt refuses q args (rd_working d) in (r, d\<lparr>rd_working := c\<rparr>))
        else (let (r, c) = ref_stmt refuses q args (rd_committed d) in (r, d\<lparr>rd_committed := c\<rparr>))),
      sv_begin = (\<lambda>d. (None, d\<lparr>rd_working := rd_committed d\<rparr>)),
      sv_commit = (\<lambda>d. (None, d\<lparr>rd_committed := rd_working d\<rparr>)),
      sv_rollback = (\<lambda>d. (None, d))\<rparr>"

definition ref_scans :: row_scans where
  "ref_scans =
     \<lparr>scan_ran = (\<lambda>r. case r of [GString n, GInt b, t] \<Rightarrow> Inr (n, b, t) | _ \<Rightarrow> Inl ''bad row''),
      scan_name = (\<lambda>r. case r of [GString n] \<Rightarrow> Inr n | _ \<Rightarrow> Inl ''bad row''),
      scan_batch = (\<lambda>r. case r of [GInt b] \<Rightarrow> Inr b | _ \<Rightarrow> Inl ''bad row''),
      scan_table = (\<lambda>r. case r of [GString n] \<Rightarrow> n | _ \<Rightarrow> [])\<rparr>"

definition ref_with_table :: "ref_content \<Rightarrow> ref_content" where
  "ref_with_table c = (if rc_track c = None then c\<lparr>rc_track := Some []\<rparr> else c)"

definition ref_track :: "ref_content \<Rightarrow> track" where
  "ref_track c = (case rc_track c of None \<Rightarrow> [] | Some rs \<Rightarrow> rs)"

definition ref_quiet :: "string \<Rightarrow> bool" where
  "ref_quiet q = (q \<notin> {ensure_sql ''postgres'' ''oni_migrations'', record_sql ''postgres'' ''oni_migrations'',
     delete_sql ''postgres'' ''oni_migrations''})"

lemma tracking_sql_distinct:
  "record_sql drv tbl \<noteq> ensure_sql drv' tbl'" "delete_sql drv tbl \<noteq> ensure_sql drv' tbl'" "delete_sql drv tbl \<noteq> record_sql drv' tbl'"
  "last_batch_sql drv tbl \<noteq> select_ran_sql drv' tbl'" "select_batch_sql drv tbl b \<noteq> select_ran_sql drv' tbl'"
  "select_batch_sql drv tbl b \<noteq> last_batch_sql drv' tbl'"
  by (simp_all add: record_sql_def ensure_sql_def delete_sql_def last_batch_sql_def select_ran_sql_def select_batch_sql_def Let_def)

lemma select_batch_inject: "select_batch_sql drv tbl b = select_batch_sql drv tbl b' \<longleftrightarrow> b = b'"
  by (simp add: select_batch_sql_def itoa_sint_inject)

lemma sint_top_batch: "sint (word_of_int (top_batch rs) :: i64) = top_batch rs"
proof -
  have "\<exists>w :: i64. top_batch rs = sint w"
  proof (cases "rs = []")
    case True
    then have "top_batch rs = sint (0 :: i64)" by (simp add: top_batch_def)
    then show ?thesis by blast
  next
    case False
    then have "top_batch rs \<in> (\<lambda>r. sint (fst (snd r))) ` set rs" unfolding top_batch_def by (simp add: Max_in)
    then show ?thesis by blast
  qed
  then show ?thesis by auto
qed

interpretation ref_mig: tracked_db "ref_server refuses" ref_scans "''postgres''" "''oni_migrations''" rd_committed rd_working
  ref_with_table "\<lambda>c. rc_track c \<noteq> None" ref_track ref_quiet
proof unfold_locales
  note tracking_sql_distinct [simp] select_batch_inject [simp]
  let ?sv = "ref_server refuses" and ?p = "''postgres''" and ?t = "''oni_migrations''"
  fix c :: ref_content
  show "rc_track (ref_with_table c) \<noteq> None" by (simp add: ref_with_table_def)
  show "rc_track c \<noteq> None \<Longrightarrow> ref_with_table c = c" by (simp add: ref_with_table_def)
  show "\<not> rc_track c \<noteq> None \<Longrightarrow> ref_track (ref_with_table c) = []" by (simp add: ref_with_table_def ref_track_def)
next
  note tracking_sql_distinct [simp] select_batch_inject [simp]
  let ?sv = "ref_server refuses" and ?p = "''postgres''" and ?t = "''oni_migrations''"
  fix d d' :: ref_db and r rs q args b name t n and e :: "string option" and res
  show "sv_exec ?sv False (ensure_sql ?p ?t) [] d = (r, d') \<Longrightarrow>
      rd_committed d' = (case r of Inl _ \<Rightarrow> rd_committed d | Inr _ \<Rightarrow> ref_with_table (rd_committed d))"
    by (auto simp: ref_server_def ref_stmt_def ref_with_table_def)
  show "sv_query ?sv False q [] d = (res, d') \<Longrightarrow> rd_committed d' = rd_committed d"
    by (simp add: ref_server_def)
  show "sv_query ?sv False (select_ran_sql ?p ?t) [] d = (Inr rs, d')
      \<Longrightarrow> map (scan_ran ref_scans) (rw_rows rs) = map Inr (ref_track (rd_committed d))"
    by (auto simp: ref_server_def ref_query_def ref_scans_def ref_track_def split: option.splits)
  show "sv_query ?sv False (last_batch_sql ?p ?t) [] d = (Inr rs, d') \<Longrightarrow> row_Scan (scan_batch ref_scans) rs = Inr b
      \<Longrightarrow> sint b = top_batch (ref_track (rd_committed d))"
    using sint_top_batch by (auto simp: ref_server_def ref_query_def ref_scans_def ref_track_def row_Scan_def)
  show "sv_query ?sv False (select_batch_sql ?p ?t b) [] d = (Inr rs, d')
      \<Longrightarrow> map (scan_name ref_scans) (rw_rows rs) = map Inr (sort (batch_names b (ref_track (rd_committed d))))"
    by (auto simp: ref_server_def ref_query_def ref_scans_def ref_track_def batch_names_def eq_commute [of b] split: option.splits)
  show "sv_exec ?sv True q args d = (r, d') \<Longrightarrow> rd_committed d' = rd_committed d"
    by (auto simp: ref_server_def split: prod.splits)
  show "sv_begin ?sv d = (e, d') \<Longrightarrow> rd_committed d' = rd_committed d \<and> (e = None \<longrightarrow> rd_working d' = rd_committed d)"
    and "sv_commit ?sv d = (e, d') \<Longrightarrow> rd_committed d' = (if e = None then rd_working d else rd_committed d)"
    and "rd_committed (snd (sv_rollback ?sv d)) = rd_committed d"
    by (auto simp: ref_server_def)
qed (auto simp: ref_server_def ref_stmt_def ref_quiet_def ref_track_def tracking_sql_distinct Let_def
    split: if_splits prod.splits option.splits sum.splits)

section \<open>Properties\<close>


definition demo_migrator :: "ref_db Migrator" where
  "demo_migrator =
     Migrator_Register ''002_posts'' \<lparr>mig_Up = (\<lambda>d. Schema_Raw ''bad''), mig_Down = (\<lambda>d. Schema_Raw ''undo'')\<rparr>
       (Migrator_Register ''001_users'' \<lparr>mig_Up = (\<lambda>d. Schema_Raw ''good''), mig_Down = (\<lambda>d. Schema_Raw ''undo'')\<rparr>
         (Migrator_New ''postgres''))"


lemmas demo_migrator_simps = demo_migrator_def Migrator_Register_def Migrator_New_def

lemma demo_quiet: "quiet_ups ref_quiet (mg_driver demo_migrator) (mg_migrations demo_migrator)"
  "quiet_downs ref_quiet (mg_driver demo_migrator) (mg_migrations demo_migrator)"
  by (simp_all add: demo_migrator_simps quiet_ups_def quiet_downs_def Schema_Raw_def add_stmts_def newSchema_def ref_quiet_def
      ensure_sql_def record_sql_def delete_sql_def isPostgres_def Let_def)

lemma demo_tracked: "tracked_db (ref_server refuses) ref_scans (mg_driver demo_migrator) (mg_tableName demo_migrator) rd_committed rd_working
  ref_with_table (\<lambda>c. rc_track c \<noteq> None) ref_track ref_quiet"
  using ref_mig.tracked_db_axioms by (simp add: demo_migrator_simps)










text \<open>
  A rollback can get stuck. If the last batch records a migration that is no longer registered, \<open>Rollback\<close> reports
  success and the last batch stays the last batch, so the batches before it are never rolled back.
\<close>

theorem rollback_stuck:
  assumes "tracked_db sv sc (mg_driver mg) (mg_tableName mg) committed working with_table has track quiet"
    and "quiet_downs quiet (mg_driver mg) (mg_migrations mg)"
    and "Rollback sv sc mg d = (None, d')"
    and "(name, b, t) \<in> set (track (with_table (committed d)))" and "sint b = top_batch (track (with_table (committed d)))"
    and "name \<notin> nm_name ` set (mg_migrations mg)"
  shows "top_batch (track (committed d')) = top_batch (track (with_table (committed d)))"
proof -
  let ?old = "track (with_table (committed d))" and ?f = "\<lambda>r :: string \<times> i64 \<times> gval. sint (fst (snd r))"
  have nf: "findByName mg name = None" using assms(6) by (auto simp: findByName_def find_None_iff)
  have new: "(name, b, t) \<in> set (track (committed d'))" "set (track (committed d')) \<subseteq> set ?old"
    using tracked_db.rollback_contract [OF assms(1,3) refl refl assms(2)] assms(4) nf by (auto split: if_splits)
  have "Max (?f ` set (track (committed d'))) = sint b"
  proof (rule Max_eqI)
    show "sint b \<in> ?f ` set (track (committed d'))" using image_eqI [of "sint b" ?f "(name, b, t)"] new(1) by simp
    show "y \<le> sint b" if "y \<in> ?f ` set (track (committed d'))" for y
    proof -
      from that new(2) have "y \<in> ?f ` set ?old" by blast
      then have "y \<le> Max (?f ` set ?old)" by simp
      with assms(4,5) show ?thesis by (auto simp: top_batch_def split: if_splits)
    qed
  qed simp
  then show ?thesis using assms(5) new(1) by (auto simp: top_batch_def split: if_splits)
qed

definition orphan_db :: ref_db where
  "orphan_db = \<lparr>rd_committed = \<lparr>rc_log = [], rc_track = Some [(''001_users'', 1, GNil), (''003_gone'', 2, GNil)]\<rparr>,
     rd_working = \<lparr>rc_log = [], rc_track = None\<rparr>\<rparr>"

theorem rollback_stuck_witness:
  "top_batch (ref_track (rd_committed (snd (Rollback (ref_server (\<lambda>_. False)) ref_scans demo_migrator orphan_db)))) = 2"
proof -
  let ?sv = "ref_server (\<lambda>_. False)"
  have "fst (Rollback ?sv ref_scans demo_migrator orphan_db) = None" by code_simp
  then have run: "Rollback ?sv ref_scans demo_migrator orphan_db = (None, snd (Rollback ?sv ref_scans demo_migrator orphan_db))"
    by (simp add: prod_eq_iff)
  have old: "ref_track (ref_with_table (rd_committed orphan_db)) = [(''001_users'', 1, GNil), (''003_gone'', 2, GNil)]"
    by (simp add: ref_track_def ref_with_table_def orphan_db_def)
  have top: "top_batch [(''001_users'', 1, GNil), (''003_gone'', 2, GNil)] = 2" by code_simp
  have "''003_gone'' \<notin> nm_name ` set (mg_migrations demo_migrator)" by (simp add: demo_migrator_simps)
  then show ?thesis
    using rollback_stuck [OF demo_tracked demo_quiet(2) run, of "''003_gone''" 2 GNil] by (simp add: old top)
qed

end
