(* ===== verification/Validation.thy ===== *)
theory Validation
  imports Go_Text
begin

text \<open>
  Model of \<open>framework/validation/validator.go\<close>: rules from struct tags, the rule interpreter and the error map.

  \<open>rv\<close> is what reflection sees of a value: its kind, and for a struct the tags of its fields. \<open>vlib\<close> bundles the library
  functions whose results are arbitrary text or numbers (\<open>%v\<close> of a composite value, \<open>%T\<close>, \<open>ParseFloat\<close>, \<open>regexp.Compile\<close>);
  the expressions written in the source are \<open>regex\<close> values. A field read through \<open>Interface()\<close> although it is not exported
  makes reflection panic, which is \<^const>\<open>None\<close>. A Go map is an association list, so the order in which \<open>ValidateMap\<close> visits
  its rules is that of the list.
\<close>

section \<open>Data\<close>

record fieldInfo =
  fi_Name :: string
  fi_validate :: string \<comment> \<open>the tag \<open>validate\<close>, empty if absent\<close>
  fi_json :: string
  fi_exported :: bool

datatype numKind = KInt | KInt8 | KInt16 | KInt32 | KInt64 | KUint | KUint8 | KUint16 | KUint32 | KUint64 | KNamed

datatype rv =
    RvNil
  | RvString string
  | RvInt numKind int
  | RvFloat gofloat
  | RvBool bool
  | RvSeq nat string \<comment> \<open>slice, map or array: its length and its \<open>%v\<close> text\<close>
  | RvPtr "rv option"
  | RvIface "rv option"
  | RvStruct "fieldInfo list" "rv list"
  | RvOther string

record parsedRule =
  pr_name :: string
  pr_param :: string

record fieldRule =
  fr_index :: nat
  fr_name :: string
  fr_rules :: "parsedRule list"

type_synonym Errors = "(string, string list) gomap"
type_synonym RuleFunc = "rv \<Rightarrow> string \<Rightarrow> string"
type_synonym Rules = "(string, string) gomap"

record Validator =
  va_cache :: "(fieldInfo list, fieldRule list) gomap"
  va_customs :: "(string, RuleFunc) gomap"

record vlib =
  lib_sprint :: "rv \<Rightarrow> string"
  lib_typeName :: "rv \<Rightarrow> string"
  lib_ParseFloat :: "string \<Rightarrow> gofloat \<times> bool" \<comment> \<open>the flag says that there was no error\<close>
  lib_Compile :: "string \<Rightarrow> (string \<Rightarrow> bool) option"

section \<open>Errors\<close>

definition Errors_Any :: "Errors \<Rightarrow> bool" where
  "Errors_Any e = (length e > 0)"

definition Errors_Add :: "Errors \<Rightarrow> string \<Rightarrow> string \<Rightarrow> Errors" where
  "Errors_Add e field msg = AList.update field ((case map_of e field of None \<Rightarrow> [] | Some ms \<Rightarrow> ms) @ [msg]) e"

definition Errors_Error :: "Errors \<Rightarrow> string" where
  "Errors_Error e =
     (if length e = 0 then ''validation: no errors''
      else TrimSuffix (concat (map (\<lambda>(field, msgs). field @ '': '' @ Join '', '' msgs @ ''; '') e)) ''; '')"

section \<open>Rules from tags\<close>

definition Validator_New :: Validator where
  "Validator_New = \<lparr>va_cache = [], va_customs = []\<rparr>"

definition Validator_Register :: "string \<Rightarrow> RuleFunc \<Rightarrow> Validator \<Rightarrow> Validator" where
  "Validator_Register name fn v = v\<lparr>va_customs := AList.update name fn (va_customs v)\<rparr>"

fun rules_loop :: "string list \<Rightarrow> parsedRule list" where
  "rules_loop [] = []"
| "rules_loop (p # ps) =
     (let p = TrimSpace p
      in if p = [] then rules_loop ps
         else (case Index p ''='' of
                 Some idx \<Rightarrow> \<lparr>pr_name = take idx p, pr_param = drop (idx + 1) p\<rparr> # rules_loop ps
               | None \<Rightarrow> \<lparr>pr_name = p, pr_param = []\<rparr> # rules_loop ps))"

definition parseRuleString :: "string \<Rightarrow> parsedRule list" where
  "parseRuleString s = rules_loop (SplitOn CHR '','' s)"

fun field_rules_loop :: "nat \<Rightarrow> (string \<Rightarrow> string) \<Rightarrow> fieldInfo list \<Rightarrow> fieldRule list" where
  "field_rules_loop i lower [] = []"
| "field_rules_loop i lower (f # fs) =
     (if fi_validate f = [] \<or> fi_validate f = ''-'' then field_rules_loop (i + 1) lower fs
      else (let name = (if fi_json f = [] \<or> fi_json f = ''-'' then lower (fi_Name f) else fi_json f)
            in \<lparr>fr_index = i, fr_name = hd (SplitOn CHR '','' name), fr_rules = parseRuleString (fi_validate f)\<rparr>
               # field_rules_loop (i + 1) lower fs))"

text \<open>\<open>strings.ToLower\<close> of a Go identifier; non-ASCII letters are left as they are.\<close>

definition toLowerName :: "string \<Rightarrow> string" where
  "toLowerName s = map lowerByte s"

definition buildFieldRules :: "fieldInfo list \<Rightarrow> fieldRule list" where
  "buildFieldRules rt = field_rules_loop 0 toLowerName rt"

definition structRules :: "fieldInfo list \<Rightarrow> Validator \<Rightarrow> fieldRule list \<times> Validator" where
  "structRules rt v =
     (case map_of (va_cache v) rt of
        Some cached \<Rightarrow> (cached, v)
      | None \<Rightarrow> (let rules = buildFieldRules rt in (rules, v\<lparr>va_cache := AList.update rt rules (va_cache v)\<rparr>)))"

section \<open>Built-in rules\<close>

definition isAlphaB :: "char \<Rightarrow> bool" where
  "isAlphaB c = (between CHR ''a'' CHR ''z'' c \<or> between CHR ''A'' CHR ''Z'' c)"

definition isDigitB :: "char \<Rightarrow> bool" where
  "isDigitB c = between CHR ''0'' CHR ''9'' c"

definition isHexB :: "char \<Rightarrow> bool" where
  "isHexB c = (isDigitB c \<or> between CHR ''a'' CHR ''f'' c \<or> between CHR ''A'' CHR ''F'' c)"

text \<open>\<open>\s\<close> of the regular expressions: tab, line feed, form feed, carriage return and blank.\<close>

definition isSpaceR :: "rune \<Rightarrow> bool" where
  "isSpaceR r = (r \<in> {[CHR 0x09], [CHR 0x0A], [CHR 0x0C], [CHR 0x0D], [CHR 0x20]})"

definition localChar :: "char \<Rightarrow> bool" where
  "localChar c = (isAlphaB c \<or> isDigitB c \<or> c \<in> set ''._%+-'')"

definition domainChar :: "char \<Rightarrow> bool" where
  "domainChar c = (isAlphaB c \<or> isDigitB c \<or> c \<in> set ''.-'')"

definition emailRe :: regex where
  "emailRe =
     RCat (RPlus (byteClass localChar)) (RCat (RText ''@'') (RCat (RPlus (byteClass domainChar)) (RCat (RText ''.'')
       (RCat (RTimes 2 (byteClass isAlphaB)) (RStar (byteClass isAlphaB))))))"

definition urlRe :: regex where
  "urlRe =
     RCat (RText ''http'') (RCat (ROpt (RText ''s'')) (RCat (RText ''://'')
       (RCat (RClass (\<lambda>r. \<not> isSpaceR r \<and> r \<notin> {''/'', ''$'', ''.'', ''?'', ''#''}))
         (RCat (RClass (\<lambda>r. r \<noteq> [CHR 0x0A])) (RStar (RClass (\<lambda>r. \<not> isSpaceR r)))))))"

definition alphaRe :: regex where
  "alphaRe = RPlus (byteClass isAlphaB)"

definition alphanumRe :: regex where
  "alphanumRe = RPlus (byteClass (\<lambda>c. isAlphaB c \<or> isDigitB c))"

definition uuidRe :: regex where
  "uuidRe =
     RCat (RTimes 8 (byteClass isHexB)) (RCat (RText ''-'') (RCat (RTimes 4 (byteClass isHexB)) (RCat (RText ''-'')
       (RCat (RTimes 4 (byteClass isHexB)) (RCat (RText ''-'') (RCat (RTimes 4 (byteClass isHexB)) (RCat (RText ''-'')
         (RTimes 12 (byteClass isHexB)))))))))"

definition isEmptyForRequired :: "rv \<Rightarrow> bool" where
  "isEmptyForRequired val =
     (case val of
        RvNil \<Rightarrow> True
      | RvString s \<Rightarrow> length s = 0
      | RvSeq n _ \<Rightarrow> n = 0
      | RvPtr p \<Rightarrow> p = None
      | RvIface p \<Rightarrow> p = None
      | _ \<Rightarrow> False)"

definition toFloat :: "vlib \<Rightarrow> rv \<Rightarrow> gofloat option" where
  "toFloat lib v =
     (case v of
        RvInt k n \<Rightarrow> if k \<in> {KInt, KInt8, KInt16, KInt32, KInt64, KUint} then Some (Fin (float64_of_int n)) else None
      | RvFloat f \<Rightarrow> Some f
      | RvString s \<Rightarrow> (case lib_ParseFloat lib s of (f, ok) \<Rightarrow> if ok then Some f else None)
      | _ \<Rightarrow> None)"

text \<open>\<open>fmt.Sprintf("%v", val)\<close>.\<close>

definition sprintV :: "vlib \<Rightarrow> rv \<Rightarrow> string" where
  "sprintV lib v =
     (case v of
        RvNil \<Rightarrow> ''<nil>''
      | RvString s \<Rightarrow> s
      | RvInt _ n \<Rightarrow> itoa n
      | RvBool b \<Rightarrow> (if b then ''true'' else ''false'')
      | RvSeq _ txt \<Rightarrow> txt
      | RvOther txt \<Rightarrow> txt
      | _ \<Rightarrow> lib_sprint lib v)"

definition ok_or :: "bool \<Rightarrow> string \<Rightarrow> string" where
  "ok_or ok msg = (if ok then [] else msg)"

definition rule_min :: "vlib \<Rightarrow> rv \<Rightarrow> string \<Rightarrow> string" where
  "rule_min lib val param =
     (let n = fst (Atoi param)
      in case val of
           RvString s \<Rightarrow> ok_or (\<not> int (RuneCount s) < n) (''must be at least '' @ itoa n @ '' characters'')
         | _ \<Rightarrow> (case toFloat lib val of
                   Some i \<Rightarrow> ok_or (\<not> flt_less i (Fin (float64_of_int n))) (''must be at least '' @ itoa n)
                 | None \<Rightarrow> ''min rule cannot be applied to '' @ lib_typeName lib val))"

definition rule_max :: "vlib \<Rightarrow> rv \<Rightarrow> string \<Rightarrow> string" where
  "rule_max lib val param =
     (let n = fst (Atoi param)
      in case val of
           RvString s \<Rightarrow> ok_or (\<not> int (RuneCount s) > n) (''must be at most '' @ itoa n @ '' characters'')
         | _ \<Rightarrow> (case toFloat lib val of
                   Some i \<Rightarrow> ok_or (\<not> flt_less (Fin (float64_of_int n)) i) (''must be at most '' @ itoa n)
                 | None \<Rightarrow> ''max rule cannot be applied to '' @ lib_typeName lib val))"

definition rule_len :: "rv \<Rightarrow> string \<Rightarrow> string" where
  "rule_len val param =
     (let n = fst (Atoi param)
      in case val of
           RvString s \<Rightarrow> ok_or (int (RuneCount s) = n) (''must be exactly '' @ itoa n @ '' characters'')
         | _ \<Rightarrow> [])"

definition rule_oneof :: "string \<Rightarrow> string \<Rightarrow> string" where
  "rule_oneof str param =
     (let opts = SplitOn CHR '' '' param
      in ok_or (str \<in> set opts) (''must be one of: '' @ Join '', '' opts))"

text \<open>The four comparisons: \<open>bad i n\<close> says when the number \<open>i\<close> fails against the parameter \<open>n\<close>.\<close>

definition rule_compare :: "vlib \<Rightarrow> (gofloat \<Rightarrow> gofloat \<Rightarrow> bool) \<Rightarrow> string \<Rightarrow> rv \<Rightarrow> string \<Rightarrow> string" where
  "rule_compare lib bad txt val param =
     (let n = fst (lib_ParseFloat lib param)
      in case toFloat lib val of
           Some i \<Rightarrow> ok_or (\<not> bad i n) (''must be '' @ txt @ '' '' @ param)
         | None \<Rightarrow> [])"

definition applyRule :: "vlib \<Rightarrow> Validator \<Rightarrow> string \<Rightarrow> rv \<Rightarrow> string \<Rightarrow> string" where
  "applyRule lib v rule val param =
     (case map_of (va_customs v) rule of
        Some fn \<Rightarrow> fn val param
      | None \<Rightarrow>
          (let str = sprintV lib val
           in if rule = ''required'' then ok_or (\<not> isEmptyForRequired val) ''is required''
              else if rule = ''email'' then ok_or (str = [] \<or> MatchString emailRe str) ''must be a valid email address''
              else if rule = ''url'' then ok_or (str = [] \<or> MatchString urlRe str) ''must be a valid URL''
              else if rule = ''alpha'' then ok_or (str = [] \<or> MatchString alphaRe str) ''must contain only letters''
              else if rule = ''alphanum'' then ok_or (str = [] \<or> MatchString alphanumRe str) ''must contain only letters and numbers''
              else if rule = ''numeric'' then ok_or (str = [] \<or> snd (lib_ParseFloat lib str)) ''must be a number''
              else if rule = ''min'' then rule_min lib val param
              else if rule = ''max'' then rule_max lib val param
              else if rule = ''len'' then rule_len val param
              else if rule = ''oneof'' then rule_oneof str param
              else if rule = ''gt'' then rule_compare lib flt_le ''greater than'' val param
              else if rule = ''gte'' then rule_compare lib flt_less ''greater than or equal to'' val param
              else if rule = ''lt'' then rule_compare lib (\<lambda>i n. flt_le n i) ''less than'' val param
              else if rule = ''lte'' then rule_compare lib (\<lambda>i n. flt_less n i) ''less than or equal to'' val param
              else if rule = ''regex''
              then (case lib_Compile lib param of
                      Some re \<Rightarrow> ok_or (str = [] \<or> re str) ''format is invalid''
                    | None \<Rightarrow> [])
              else if rule = ''uuid'' then ok_or (str = [] \<or> MatchString uuidRe str) ''must be a valid UUID''
              else []))"

section \<open>Validating\<close>

definition apply_rules :: "vlib \<Rightarrow> Validator \<Rightarrow> string \<Rightarrow> rv \<Rightarrow> parsedRule list \<Rightarrow> Errors \<Rightarrow> Errors" where
  "apply_rules lib v field val rules errs =
     foldl (\<lambda>errs r. let msg = applyRule lib v (pr_name r) val (pr_param r)
                     in if msg \<noteq> [] then Errors_Add errs field msg else errs) errs rules"

definition rv_Interface :: "rv \<Rightarrow> rv" where
  "rv_Interface v = (case v of RvIface None \<Rightarrow> RvNil | RvIface (Some w) \<Rightarrow> w | _ \<Rightarrow> v)"

text \<open>The loop that follows pointers; \<^const>\<open>None\<close> at a nil pointer.\<close>

fun rv_deref :: "rv \<Rightarrow> rv option" where
  "rv_deref (RvPtr None) = None"
| "rv_deref (RvPtr (Some v)) = rv_deref v"
| "rv_deref v = Some v"

definition rv_nested :: "rv \<Rightarrow> bool" where
  "rv_nested v = (case v of RvStruct _ _ \<Rightarrow> True | RvPtr (Some _) \<Rightarrow> True | _ \<Rightarrow> False)"

lemma rv_deref_size: "rv_deref v = Some w \<Longrightarrow> size w \<le> size v"
  by (induction v rule: rv_deref.induct) auto

lemma nth_size_list: "i < length xs \<Longrightarrow> size (xs ! i) < size_list size xs"
proof (induction xs arbitrary: i)
  case (Cons x xs)
  show ?case
  proof (cases i)
    case (Suc j)
    with Cons.prems Cons.IH [of j] show ?thesis by simp
  qed simp
qed simp

function (sequential) validateStruct :: "vlib \<Rightarrow> rv \<Rightarrow> string \<Rightarrow> Errors \<times> Validator \<Rightarrow> (Errors \<times> Validator) option"
  and validate_fields ::
    "vlib \<Rightarrow> fieldInfo list \<Rightarrow> rv list \<Rightarrow> fieldRule list \<Rightarrow> string \<Rightarrow> Errors \<times> Validator \<Rightarrow> (Errors \<times> Validator) option" where
  "validateStruct lib val prefix st =
     (case rv_deref val of
        Some (RvStruct rt vals) \<Rightarrow>
          (let (rules, v1) = structRules rt (snd st) in validate_fields lib rt vals rules prefix (fst st, v1))
      | _ \<Rightarrow> Some st)"
| "validate_fields lib rt vals [] prefix st = Some st"
| "validate_fields lib rt vals (fr # frs) prefix st =
     (if fr_index fr < length vals
      then if fr_rules fr \<noteq> [] \<and> \<not> fi_exported (rt ! fr_index fr) then None
           else (let fv = vals ! fr_index fr;
                     fieldName = prefix @ fr_name fr;
                     errs1 = apply_rules lib (snd st) fieldName (rv_Interface fv) (fr_rules fr) (fst st)
                 in case (if rv_nested fv then validateStruct lib fv (fieldName @ ''.'') (errs1, snd st) else Some (errs1, snd st)) of
                      None \<Rightarrow> None
                    | Some st1 \<Rightarrow> validate_fields lib rt vals frs prefix st1)
      else None)"
  by pat_completeness auto
termination
  by (relation "measures
        [\<lambda>x. case x of Inl (lib, val, prefix, st) \<Rightarrow> size val | Inr (lib, rt, vals, frs, prefix, st) \<Rightarrow> size_list size vals,
         \<lambda>x. case x of Inl (lib, val, prefix, st) \<Rightarrow> 0 | Inr (lib, rt, vals, frs, prefix, st) \<Rightarrow> length frs]")
     (auto dest!: rv_deref_size nth_size_list)

definition Validate :: "vlib \<Rightarrow> rv \<Rightarrow> Validator \<Rightarrow> (Errors option \<times> Validator) option" where
  "Validate lib s v =
     map_option (\<lambda>(errs, v1). (if length errs = 0 then None else Some errs, v1)) (validateStruct lib s [] ([], v))"

definition ValidateMap :: "vlib \<Rightarrow> (string, rv) gomap \<Rightarrow> Rules \<Rightarrow> Validator \<Rightarrow> Errors" where
  "ValidateMap lib data rules v =
     foldl (\<lambda>errs (field, ruleStr).
        apply_rules lib v field (case map_of data field of None \<Rightarrow> RvNil | Some val \<Rightarrow> val) (parseRuleString ruleStr) errs) [] rules"

end
