(* ===== verification/Validation_Spec.thy ===== *)
theory Validation_Spec
  imports Validation
begin

text \<open>
  What the validator promises: the list of checks a value gives rise to (\<open>checks\<close>) is the specification of the recursive walk;
  the rule cache does not change the outcome; the expressions accept the texts they describe.
\<close>

section \<open>The checks of a value\<close>

type_synonym check = "string \<times> parsedRule \<times> rv"

function (sequential) checks :: "rv \<Rightarrow> string \<Rightarrow> check list option"
  and field_checks :: "fieldInfo list \<Rightarrow> rv list \<Rightarrow> fieldRule list \<Rightarrow> string \<Rightarrow> check list option" where
  "checks val prefix =
     (case rv_deref val of
        Some (RvStruct rt vals) \<Rightarrow> field_checks rt vals (buildFieldRules rt) prefix
      | _ \<Rightarrow> Some [])"
| "field_checks rt vals [] prefix = Some []"
| "field_checks rt vals (fr # frs) prefix =
     (if fr_index fr < length vals
      then if fr_rules fr \<noteq> [] \<and> \<not> fi_exported (rt ! fr_index fr) then None
           else (let fv = vals ! fr_index fr;
                     own = map (\<lambda>r. (prefix @ fr_name fr, r, rv_Interface fv)) (fr_rules fr)
                 in case (if rv_nested fv then checks fv (prefix @ fr_name fr @ ''.'') else Some []) of
                      None \<Rightarrow> None
                    | Some inner \<Rightarrow> map_option (\<lambda>rest. own @ inner @ rest) (field_checks rt vals frs prefix))
      else None)"
  by pat_completeness auto
termination
  by (relation "measures
        [\<lambda>x. case x of Inl (val, prefix) \<Rightarrow> size val | Inr (rt, vals, frs, prefix) \<Rightarrow> size_list size vals,
         \<lambda>x. case x of Inl (val, prefix) \<Rightarrow> 0 | Inr (rt, vals, frs, prefix) \<Rightarrow> length frs]")
     (auto dest!: rv_deref_size nth_size_list)

declare checks.simps [simp del] validateStruct.simps [simp del]

definition check_msg :: "vlib \<Rightarrow> Validator \<Rightarrow> check \<Rightarrow> string" where
  "check_msg lib v c = applyRule lib v (pr_name (fst (snd c))) (snd (snd c)) (pr_param (fst (snd c)))"

definition add_check :: "vlib \<Rightarrow> Validator \<Rightarrow> Errors \<Rightarrow> check \<Rightarrow> Errors" where
  "add_check lib v errs c = (if check_msg lib v c \<noteq> [] then Errors_Add errs (fst c) (check_msg lib v c) else errs)"

text \<open>Every cached rule list is the one the type gives.\<close>

definition cache_ok :: "Validator \<Rightarrow> bool" where
  "cache_ok v \<longleftrightarrow> (\<forall>rt rules. map_of (va_cache v) rt = Some rules \<longrightarrow> rules = buildFieldRules rt)"

lemma check_msg_customs:
  assumes "va_customs v = va_customs v'"
  shows "check_msg lib v = check_msg lib v'"
  unfolding check_msg_def [abs_def] applyRule_def assms by (rule refl)

lemma add_check_customs:
  assumes "va_customs v = va_customs v'"
  shows "add_check lib v = add_check lib v'"
  unfolding add_check_def [abs_def] check_msg_customs [OF assms] by (rule refl)

lemma apply_rules_checks:
  "apply_rules lib v field val rules errs = foldl (add_check lib v) errs (map (\<lambda>r. (field, r, val)) rules)"
  by (simp only: apply_rules_def foldl_map add_check_def check_msg_def Let_def fst_conv snd_conv)

lemma structRules_ok:
  "cache_ok v \<Longrightarrow> structRules rt v = (rules, v') \<Longrightarrow> rules = buildFieldRules rt \<and> cache_ok v' \<and> va_customs v' = va_customs v"
  by (auto simp: structRules_def cache_ok_def Let_def split: option.splits if_splits)

definition walk_ok :: "vlib \<Rightarrow> check list option \<Rightarrow> Errors \<times> Validator \<Rightarrow> (Errors \<times> Validator) option \<Rightarrow> bool" where
  "walk_ok lib cs st res \<longleftrightarrow>
     (case res of
        None \<Rightarrow> cs = None
      | Some (e, v') \<Rightarrow> (case cs of None \<Rightarrow> False | Some l \<Rightarrow> e = foldl (add_check lib (snd st)) (fst st) l)
                       \<and> cache_ok v' \<and> va_customs v' = va_customs (snd st))"

lemma validate_walk:
  "cache_ok (snd st) \<Longrightarrow> walk_ok lib (checks val prefix) st (validateStruct lib val prefix st)"
  "cache_ok (snd st) \<Longrightarrow> walk_ok lib (field_checks rt vals frs prefix) st (validate_fields lib rt vals frs prefix st)"
proof (induction lib val prefix st and lib rt vals frs prefix st rule: validateStruct_validate_fields.induct)
  case (1 lib val prefix st)
  show ?case
  proof (cases "\<exists>rt vals. rv_deref val = Some (RvStruct rt vals)")
    case True
    then obtain rt vals where d: "rv_deref val = Some (RvStruct rt vals)" by blast
    obtain rules v1 where s: "structRules rt (snd st) = (rules, v1)" by fastforce
    note ok = structRules_ok [OF 1(2) s]
    have "walk_ok lib (field_checks rt vals rules prefix) (fst st, v1) (validate_fields lib rt vals rules prefix (fst st, v1))"
      using 1(1) [OF d refl refl s [symmetric]] ok by simp
    moreover have "checks val prefix = field_checks rt vals rules prefix" using d ok by (simp add: checks.simps)
    moreover have "validateStruct lib val prefix st = validate_fields lib rt vals rules prefix (fst st, v1)"
      using d s by (simp add: validateStruct.simps)
    ultimately show ?thesis
      using ok add_check_customs [of v1 "snd st" lib] by (auto simp: walk_ok_def split: option.splits prod.splits)
  next
    case False
    then have "checks val prefix = Some []" "validateStruct lib val prefix st = Some st"
      by (auto simp: checks.simps validateStruct.simps split: option.splits rv.splits)
    with 1(2) show ?thesis by (cases st) (simp add: walk_ok_def)
  qed
next
  case (2 lib rt vals prefix st)
  then show ?case by (cases st) (simp add: walk_ok_def)
next
  case (3 lib rt vals fr frs prefix st)
  show ?case
  proof (cases "fr_index fr < length vals \<and> \<not> (fr_rules fr \<noteq> [] \<and> \<not> fi_exported (rt ! fr_index fr))")
    case False
    then show ?thesis by (auto simp: walk_ok_def)
  next
    case True
    then have ie: "fr_index fr < length vals" "\<not> (fr_rules fr \<noteq> [] \<and> \<not> fi_exported (rt ! fr_index fr))" by blast+
    let ?fv = "vals ! fr_index fr" and ?name = "prefix @ fr_name fr"
    let ?errs = "apply_rules lib (snd st) ?name (rv_Interface ?fv) (fr_rules fr) (fst st)"
    let ?cs = "if rv_nested ?fv then checks ?fv (?name @ ''.'') else Some []"
    let ?r = "if rv_nested ?fv then validateStruct lib ?fv (?name @ ''.'') (?errs, snd st) else Some (?errs, snd st)"
    have inner: "walk_ok lib ?cs (?errs, snd st) ?r"
    proof (cases "rv_nested ?fv")
      case n: True
      show ?thesis unfolding if_P [OF n] by (rule 3(1) [OF _ _ refl refl refl n]) (use True 3(3) in simp_all)
    next
      case False
      with 3(3) show ?thesis by (simp add: walk_ok_def)
    qed
    have fc: "field_checks rt vals (fr # frs) prefix = (case ?cs of None \<Rightarrow> None
        | Some inner \<Rightarrow> map_option (\<lambda>rest. map (\<lambda>r. (?name, r, rv_Interface ?fv)) (fr_rules fr) @ inner @ rest) (field_checks rt vals frs prefix))"
      unfolding field_checks.simps if_P [OF ie(1)] if_not_P [OF ie(2)] Let_def by simp
    have vf: "validate_fields lib rt vals (fr # frs) prefix st
        = (case ?r of None \<Rightarrow> None | Some st1 \<Rightarrow> validate_fields lib rt vals frs prefix st1)"
      unfolding validate_fields.simps if_P [OF ie(1)] if_not_P [OF ie(2)] Let_def by simp
    show ?thesis
    proof (cases ?r)
      case None
      with inner have "?cs = None" by (simp add: walk_ok_def)
      then show ?thesis unfolding fc vf None by (simp add: walk_ok_def)
    next
      case (Some st1)
      with inner obtain l where l: "?cs = Some l" "fst st1 = foldl (add_check lib (snd st)) ?errs l"
        "cache_ok (snd st1)" "va_customs (snd st1) = va_customs (snd st)"
        unfolding walk_ok_def by (cases ?cs) (auto split: prod.splits)
      have "walk_ok lib (field_checks rt vals frs prefix) st1 (validate_fields lib rt vals frs prefix st1)"
        using 3(2) [OF _ _ refl refl refl Some] True l(3) by auto
      then show ?thesis
        unfolding fc vf Some l(1) using l(2,4) add_check_customs [OF l(4), of lib]
        by (auto simp: walk_ok_def apply_rules_checks split: option.splits prod.splits)
    qed
  qed
qed

definition field_msgs :: "vlib \<Rightarrow> Validator \<Rightarrow> string \<Rightarrow> check list \<Rightarrow> string list" where
  "field_msgs lib v field cs = filter (\<lambda>m. m \<noteq> []) (map (check_msg lib v) (filter (\<lambda>c. fst c = field) cs))"

definition msgs_of :: "Errors \<Rightarrow> string \<Rightarrow> string list" where
  "msgs_of errs field = (case map_of errs field of None \<Rightarrow> [] | Some ms \<Rightarrow> ms)"

lemma add_checks_lookup:
  "map_of (foldl (add_check lib v) errs cs) field
   = (if field_msgs lib v field cs = [] then map_of errs field else Some (msgs_of errs field @ field_msgs lib v field cs))"
proof (induction cs arbitrary: errs)
  case (Cons c cs)
  then show ?case
    by (cases "fst c = field"; cases "check_msg lib v c = []")
      (auto simp: field_msgs_def msgs_of_def add_check_def Errors_Add_def split: option.splits)
qed (simp add: field_msgs_def)

lemma add_checks_empty: "foldl (add_check lib v) [] cs = [] \<longleftrightarrow> (\<forall>c \<in> set cs. check_msg lib v c = [])"
proof
  assume "foldl (add_check lib v) [] cs = []"
  then have "field_msgs lib v field cs = []" for field using add_checks_lookup [of lib v "[]" cs field] by (auto split: if_splits)
  then show "\<forall>c \<in> set cs. check_msg lib v c = []" by (auto simp: field_msgs_def filter_empty_conv)
next
  show "\<forall>c \<in> set cs. check_msg lib v c = [] \<Longrightarrow> foldl (add_check lib v) [] cs = []"
    by (induction cs) (simp_all add: add_check_def)
qed

lemma Validate_outcome:
  assumes "cache_ok v" and "checks s [] = Some cs"
  shows "\<exists>v'. Validate lib s v = Some (if \<forall>c \<in> set cs. check_msg lib v c = [] then None else Some (foldl (add_check lib v) [] cs), v') \<and> cache_ok v'"
proof -
  have "walk_ok lib (Some cs) ([], v) (validateStruct lib s [] ([], v))"
    using validate_walk(1) [of "([], v)" lib s "[]"] assms by simp
  then obtain v' where v': "validateStruct lib s [] ([], v) = Some (foldl (add_check lib v) [] cs, v')" "cache_ok v'"
    by (auto simp: walk_ok_def split: option.splits prod.splits)
  then show ?thesis using add_checks_empty [of lib v cs] by (simp add: Validate_def)
qed

lemma applyRule_builtin:
  assumes "map_of (va_customs v) rule = None"
  shows "rule = ''required'' \<Longrightarrow> applyRule lib v rule val p = ok_or (\<not> isEmptyForRequired val) ''is required''"
    and "rule = ''email'' \<Longrightarrow> applyRule lib v rule val p = ok_or (sprintV lib val = [] \<or> MatchString emailRe (sprintV lib val)) ''must be a valid email address''"
    and "rule = ''min'' \<Longrightarrow> applyRule lib v rule val p = rule_min lib val p"
    and "rule = ''max'' \<Longrightarrow> applyRule lib v rule val p = rule_max lib val p"
    and "rule = ''len'' \<Longrightarrow> applyRule lib v rule val p = rule_len val p"
    and "rule = ''gt'' \<Longrightarrow> applyRule lib v rule val p = rule_compare lib flt_le ''greater than'' val p"
    and "rule = ''lt'' \<Longrightarrow> applyRule lib v rule val p = rule_compare lib (\<lambda>i n. flt_le n i) ''less than'' val p"
  using assms by (simp_all add: applyRule_def Let_def)

section \<open>Properties\<close>

text \<open>
  C12. \<open>Validate\<close> accepts exactly the values all of whose checks pass. The checks of a value are the rules of its tagged fields,
  and of the structs in tagged fields, in order of declaration and with dotted names; on failure the error map holds for every
  field exactly the messages of its failing checks, in that order. Rule lists cached by earlier calls make no difference, and
  the cache stays right.
\<close>

theorem validate_spec:
  assumes "cache_ok v" and "checks s [] = Some cs"
  shows "\<exists>errs v'. Validate lib s v = Some (if \<forall>c \<in> set cs. check_msg lib v c = [] then None else Some errs, v') \<and> cache_ok v'
    \<and> (\<forall>field. map_of errs field = (if field_msgs lib v field cs = [] then None else Some (field_msgs lib v field cs)))"
proof -
  obtain v' where "Validate lib s v = Some (if \<forall>c \<in> set cs. check_msg lib v c = [] then None else Some (foldl (add_check lib v) [] cs), v')"
      "cache_ok v'"
    using Validate_outcome [OF assms] by blast
  moreover have "map_of (foldl (add_check lib v) [] cs) field
      = (if field_msgs lib v field cs = [] then None else Some (field_msgs lib v field cs))" for field
    by (simp add: add_checks_lookup msgs_of_def)
  ultimately show ?thesis by blast
qed

definition demo_lib :: vlib where
  "demo_lib = \<lparr>lib_sprint = (\<lambda>_. []), lib_typeName = (\<lambda>_. ''T''), lib_ParseFloat = (\<lambda>_. (Fin 0, False)), lib_Compile = (\<lambda>_. None)\<rparr>"

definition demo_user :: rv where
  "demo_user =
     RvStruct
       [\<lparr>fi_Name = ''Email'', fi_validate = ''required, len=3'', fi_json = ''email'', fi_exported = True\<rparr>,
        \<lparr>fi_Name = ''Address'', fi_validate = ''required'', fi_json = [], fi_exported = True\<rparr>]
       [RvString [],
        RvPtr (Some (RvStruct [\<lparr>fi_Name = ''Zip'', fi_validate = ''min=5'', fi_json = ''zip,omitempty'', fi_exported = True\<rparr>] [RvString ''123'']))]"

definition demo_checks :: "check list" where
  "demo_checks = the (checks demo_user [])"

lemma demo_checks_ok: "checks demo_user [] = Some demo_checks"
  "demo_checks = [(''email'', \<lparr>pr_name = ''required'', pr_param = []\<rparr>, RvString []),
     (''email'', \<lparr>pr_name = ''len'', pr_param = ''3''\<rparr>, RvString []),
     (''address'', \<lparr>pr_name = ''required'', pr_param = []\<rparr>,
        RvPtr (Some (RvStruct [\<lparr>fi_Name = ''Zip'', fi_validate = ''min=5'', fi_json = ''zip,omitempty'', fi_exported = True\<rparr>] [RvString ''123'']))),
     (''address.zip'', \<lparr>pr_name = ''min'', pr_param = ''5''\<rparr>, RvString ''123'')]"
  by code_simp+

lemma demo_rules:
  "rule_len (RvString []) ''3'' = ''must be exactly 3 characters''"
  "rule_min demo_lib (RvString ''123'') ''5'' = ''must be at least 5 characters''"
proof -
  have n: "Atoi ''3'' = (3, None)" "Atoi ''5'' = (5, None)"
    by (simp_all add: ParseInt_def split_sign_def ParseUint_def digitVal_def less_eq_char_def)
  moreover have "itoa 3 = ''3''" "itoa 5 = ''5''" "RuneCount ''123'' = 3" by code_simp+
  ultimately have n: "Atoi ''3'' = (3, None)" "Atoi ''5'' = (5, None)" "itoa 3 = ''3''" "itoa 5 = ''5''" "RuneCount ''123'' = 3" by simp_all
  show "rule_len (RvString []) ''3'' = ''must be exactly 3 characters''"
    by (simp add: rule_len_def n RuneCount_def ok_or_def)
  show "rule_min demo_lib (RvString ''123'') ''5'' = ''must be at least 5 characters''"
    by (simp add: rule_min_def n ok_or_def)
qed

lemma demo_msgs:
  "field_msgs demo_lib Validator_New ''email'' demo_checks = [''is required'', ''must be exactly 3 characters'']"
  "field_msgs demo_lib Validator_New ''address.zip'' demo_checks = [''must be at least 5 characters'']"
  by (simp_all add: demo_checks_ok(2) field_msgs_def check_msg_def Validator_New_def applyRule_builtin demo_rules isEmptyForRequired_def ok_or_def)

theorem validate_spec_witness:
  "\<exists>errs v'. Validate demo_lib demo_user Validator_New = Some (Some errs, v')
     \<and> map_of errs ''email'' = Some [''is required'', ''must be exactly 3 characters''] \<and> map_of errs ''address.zip'' = Some [''must be at least 5 characters'']"
proof -
  have c: "cache_ok Validator_New" by (simp add: cache_ok_def Validator_New_def)
  have "\<not> (\<forall>c \<in> set demo_checks. check_msg demo_lib Validator_New c = [])"
    using demo_msgs(1) by (force simp: field_msgs_def dest: arg_cong [where f = set])
  with validate_spec [OF c demo_checks_ok(1), of demo_lib] demo_msgs show ?thesis by auto
qed

section \<open>Expressions\<close>

definition all_bytes :: "(char \<Rightarrow> bool) \<Rightarrow> rune list \<Rightarrow> bool" where
  "all_bytes P w \<longleftrightarrow> (\<exists>s. w = map (\<lambda>c. [c]) s \<and> (\<forall>c \<in> set s. P c))"

lemma all_bytes_iff: "(\<forall>r \<in> set w. case r of [c] \<Rightarrow> P c | _ \<Rightarrow> False) \<longleftrightarrow> all_bytes P w"
proof (induction w)
  case (Cons r w)
  have "all_bytes P (r # w) \<longleftrightarrow> (\<exists>c. r = [c] \<and> P c) \<and> all_bytes P w"
  proof
    show "all_bytes P (r # w) \<Longrightarrow> (\<exists>c. r = [c] \<and> P c) \<and> all_bytes P w" by (auto simp: all_bytes_def Cons_eq_map_conv)
  next
    assume "(\<exists>c. r = [c] \<and> P c) \<and> all_bytes P w"
    then obtain c s where "r # w = map (\<lambda>c. [c]) (c # s)" "\<forall>x \<in> set (c # s). P x" by (auto simp: all_bytes_def)
    then show "all_bytes P (r # w)" unfolding all_bytes_def by (intro exI conjI)
  qed
  with Cons show ?case by (auto split: list.splits)
qed (simp add: all_bytes_def)

lemma lang_byte_star [simp]: "in_lang (RStar (byteClass P)) w \<longleftrightarrow> all_bytes P w"
  and lang_byte_plus [simp]: "in_lang (RPlus (byteClass P)) w \<longleftrightarrow> w \<noteq> [] \<and> all_bytes P w"
  and lang_byte_times [simp]: "in_lang (RTimes n (byteClass P)) w \<longleftrightarrow> length w = n \<and> all_bytes P w"
  by (simp_all only: byteClass_def lang_Star_Class lang_Plus_Class lang_Times_Class all_bytes_iff)

lemma all_bytes_append: "all_bytes P (u @ w) \<longleftrightarrow> all_bytes P u \<and> all_bytes P w"
  by (simp only: all_bytes_iff [symmetric] set_append ball_Un)

lemma runes_ascii_iff:
  assumes "\<forall>c \<in> set w. c < CHR 0x80"
  shows "runes s = map (\<lambda>c. [c]) w \<longleftrightarrow> s = w"
  using runes_bytes runes_ascii_string [OF assms] by blast

lemma localChar_ascii: "localChar c \<Longrightarrow> c < CHR 0x80" and domainChar_ascii: "domainChar c \<Longrightarrow> c < CHR 0x80"
  and isAlphaB_ascii: "isAlphaB c \<Longrightarrow> c < CHR 0x80"
  by (auto simp: localChar_def domainChar_def isAlphaB_def isDigitB_def between_def less_char_def less_eq_char_def)

text \<open>
  The email rule accepts exactly the addresses \<open>local@domain.tld\<close>: a non-empty local part of letters, digits and \<open>. _ % + -\<close>, a
  non-empty domain of letters, digits, dots and hyphens, and after its last dot at least two letters.
\<close>

theorem email_accepts_iff:
  "MatchString emailRe s \<longleftrightarrow>
     (\<exists>l d t. s = l @ ''@'' @ d @ ''.'' @ t \<and> l \<noteq> [] \<and> (\<forall>c \<in> set l. localChar c) \<and> d \<noteq> [] \<and> (\<forall>c \<in> set d. domainChar c)
        \<and> length t \<ge> 2 \<and> (\<forall>c \<in> set t. isAlphaB c))"
  (is "?lhs \<longleftrightarrow> ?rhs")
proof
  assume ?lhs
  then obtain a b c d where w: "runes s = a @ [''@''] @ b @ [''.''] @ c @ d" and a: "a \<noteq> []" "all_bytes localChar a"
    and b: "b \<noteq> []" "all_bytes domainChar b" and c: "length c = 2" "all_bytes isAlphaB c" "all_bytes isAlphaB d"
    by (auto simp: MatchString_def rmatch_lang emailRe_def lang_Cat_append simp del: RTimes.simps)
  obtain l dm t where l: "a = map (\<lambda>c. [c]) l" "\<forall>c \<in> set l. localChar c" and dm: "b = map (\<lambda>c. [c]) dm" "\<forall>c \<in> set dm. domainChar c"
    and t: "c @ d = map (\<lambda>c. [c]) t" "\<forall>c \<in> set t. isAlphaB c"
    using a(2) b(2) c(2,3) all_bytes_append [of isAlphaB c d] by (auto simp: all_bytes_def)
  have "runes s = map (\<lambda>c. [c]) (l @ ''@'' @ dm @ ''.'' @ t)" using w l(1) dm(1) t(1) by simp
  then have "s = l @ ''@'' @ dm @ ''.'' @ t" by (rule runes_bytes)
  moreover have "length t \<ge> 2" using arg_cong [OF t(1), of length] c(1) by simp
  ultimately show ?rhs using a(1) b(1) l dm t(2) by blast
next
  assume ?rhs
  then obtain l d t where s: "s = l @ ''@'' @ d @ ''.'' @ t" and l: "l \<noteq> []" "\<forall>c \<in> set l. localChar c"
    and d: "d \<noteq> []" "\<forall>c \<in> set d. domainChar c" and t: "length t \<ge> 2" "\<forall>c \<in> set t. isAlphaB c" by blast
  let ?m = "map (\<lambda>c :: char. [c])"
  have "\<forall>c \<in> set s. c < CHR 0x80"
    using l(2) d(2) t(2) localChar_ascii domainChar_ascii isAlphaB_ascii by (auto simp: s less_char_def)
  then have r: "runes s = ?m l @ [''@''] @ ?m d @ [''.''] @ ?m (take 2 t) @ ?m (drop 2 t)"
    using map_append [of "\<lambda>c. [c]" "take 2 t" "drop 2 t"]
    unfolding runes_ascii_string [OF \<open>\<forall>c \<in> set s. c < CHR 0x80\<close>] by (simp add: s)
  have ab: "all_bytes P (?m x)" if "\<forall>c \<in> set x. P c" for P x using that by (auto simp: all_bytes_def)
  have "in_lang emailRe (runes s)"
    unfolding r emailRe_def using l d t
    by (intro L_cat) (auto intro!: ab dest: in_set_takeD in_set_dropD simp: lang_Class_Cat simp del: RTimes.simps)
  then show ?lhs by (simp add: MatchString_def rmatch_lang)
qed

theorem email_accepts_iff_witness: "MatchString emailRe ''joe.d@mail.example.org''"
proof -
  have "\<forall>c \<in> set ''joe.d''. localChar c" "\<forall>c \<in> set ''mail.example''. domainChar c" "\<forall>c \<in> set ''org''. isAlphaB c"
    by (simp_all add: localChar_def domainChar_def isAlphaB_def isDigitB_def between_def less_eq_char_def)
  then have "\<exists>l d t. ''joe.d@mail.example.org'' = l @ ''@'' @ d @ ''.'' @ t \<and> l \<noteq> [] \<and> (\<forall>c \<in> set l. localChar c) \<and> d \<noteq> []
      \<and> (\<forall>c \<in> set d. domainChar c) \<and> length t \<ge> 2 \<and> (\<forall>c \<in> set t. isAlphaB c)"
    by (intro exI [of _ "''joe.d''"] exI [of _ "''mail.example''"] exI [of _ "''org''"] conjI) simp_all
  then show ?thesis using email_accepts_iff [of "''joe.d@mail.example.org''"] by simp
qed

text \<open>
  The numeric bound of the rule \<open>min\<close> is exact as long as the numbers fit 53 bits: the rule passes iff the number is not below it.
\<close>

theorem min_exact:
  assumes "Atoi param = (n, None)" and "\<bar>n\<bar> < 2 ^ 53" and "\<bar>i\<bar> < 2 ^ 53" and "k \<in> {KInt, KInt8, KInt16, KInt32, KInt64, KUint}"
  shows "rule_min lib (RvInt k i) param = [] \<longleftrightarrow> n \<le> i"
  using assms by (auto simp: rule_min_def toFloat_def float64_of_int_exact ok_or_def)

text \<open>
  The comparison rules do not see unsigned numbers of fixed width or named number types: every such value passes \<open>gt\<close> and \<open>lt\<close>.
\<close>

theorem compare_skips_unsigned:
  assumes "k \<in> {KUint8, KUint16, KUint32, KUint64, KNamed}" and "map_of (va_customs v) ''gt'' = None" and "map_of (va_customs v) ''lt'' = None"
  shows "applyRule lib v ''gt'' (RvInt k i) p = [] \<and> applyRule lib v ''lt'' (RvInt k i) p = []"
  using assms by (auto simp: applyRule_builtin rule_compare_def toFloat_def)

text \<open>A struct in a field without a \<open>validate\<close> tag is not looked into, whatever rules its own fields carry.\<close>

theorem untagged_struct_skipped:
  "checks (RvStruct [\<lparr>fi_Name = n, fi_validate = [], fi_json = j, fi_exported = e\<rparr>] [inner]) prefix = Some []"
  by (simp add: checks.simps buildFieldRules_def)

end
