(* ===== verification/App_Config.thy ===== *)
theory App_Config
  imports Go_Strconv "HOL-Library.Sublist"
begin

text \<open>
  Model of \<open>framework/config\<close>: the nested configuration map (\<open>config.go\<close>), the \<open>.env\<close> reader (\<open>env.go\<close>) and the file
  loader (\<open>loader.go\<close>).

  A configuration is a tree of \<^typ>\<open>gval\<close>: a \<open>map[string]any\<close> is \<^const>\<open>GMap\<close>. A \<open>map[any]any\<close>, which only the YAML library
  makes, is a struct value named \<open>map[any]any\<close> whose field names are its printed keys; a \<open>time.Duration\<close> is a struct value of that
  name. The process environment is an association list. The YAML and TOML libraries, \<open>time.ParseDuration\<close>, \<open>%v\<close> and the file
  system are arguments; \<open>os.Setenv\<close> fails for an empty key or one with \<open>=\<close> or a null byte, and for a value with a null byte.
\<close>

section \<open>Nested maps\<close>

type_synonym cfg = "(string, gval) gomap"

definition sub_map :: "gval option \<Rightarrow> cfg option" where
  "sub_map v = (case v of Some (GMap m) \<Rightarrow> Some m | _ \<Rightarrow> None)"

fun setNested :: "cfg \<Rightarrow> string list \<Rightarrow> gval \<Rightarrow> cfg" where
  "setNested m [] value = m"
| "setNested m [k] value = AList.update k value m"
| "setNested m (k # ks) value =
     (let sub = (case sub_map (map_of m k) of Some s \<Rightarrow> s | None \<Rightarrow> [])
      in AList.update k (GMap (setNested sub ks value)) m)"

fun getNested :: "cfg \<Rightarrow> string list \<Rightarrow> gval option" where
  "getNested m [] = None"
| "getNested m [k] = map_of m k"
| "getNested m (k # ks) =
     (case map_of m k of
        None \<Rightarrow> None
      | Some v \<Rightarrow> (case sub_map (Some v) of None \<Rightarrow> None | Some sub \<Rightarrow> getNested sub ks))"

text \<open>\<open>mergeInto\<close> on the values of \<open>src\<close>, in the order in which the map is visited.\<close>

function mergeInto :: "cfg \<Rightarrow> cfg \<Rightarrow> cfg" where
  "mergeInto dst src =
     (case src of
        [] \<Rightarrow> dst
      | (k, v) # rest \<Rightarrow>
          (case v of
             GMap srcMap \<Rightarrow>
               (case sub_map (map_of dst k) of
                  Some dstMap \<Rightarrow> mergeInto (AList.update k (GMap (mergeInto dstMap srcMap)) dst) rest
                | None \<Rightarrow> mergeInto (AList.update k (GMap (mergeInto [] srcMap)) dst) rest)
           | _ \<Rightarrow> mergeInto (AList.update k v dst) rest))"
  by pat_completeness auto
termination by (relation "measure (\<lambda>(dst, src). size_list (size_prod (\<lambda>x. 0) size) src)") auto

declare mergeInto.simps [simp del]

section \<open>Config\<close>

definition Config_Set :: "string \<Rightarrow> gval \<Rightarrow> cfg \<Rightarrow> cfg" where
  "Config_Set key value c = setNested c (SplitOn CHR ''.'' key) value"

definition Config_Merge :: "cfg \<Rightarrow> cfg \<Rightarrow> cfg" where
  "Config_Merge values c = mergeInto c values"

text \<open>\<open>Get\<close> returns nil for an absent key, as it does for a stored nil.\<close>

definition Config_Get :: "string \<Rightarrow> cfg \<Rightarrow> gval" where
  "Config_Get key c = (case getNested c (SplitOn CHR ''.'' key) of None \<Rightarrow> GNil | Some v \<Rightarrow> v)"

definition Config_GetD :: "string \<Rightarrow> gval \<Rightarrow> cfg \<Rightarrow> gval" where
  "Config_GetD key def c = (let v = Config_Get key c in if v = GNil then def else v)"

definition Config_String :: "(gval \<Rightarrow> string) \<Rightarrow> string \<Rightarrow> string \<Rightarrow> cfg \<Rightarrow> string" where
  "Config_String sprint key def c =
     (case Config_Get key c of
        GNil \<Rightarrow> def
      | GString val \<Rightarrow> val
      | val \<Rightarrow> sprint val)"

definition Config_Int :: "string \<Rightarrow> i64 \<Rightarrow> cfg \<Rightarrow> i64" where
  "Config_Int key def c =
     (case Config_Get key c of
        GInt val \<Rightarrow> val
      | GInt64 val \<Rightarrow> val
      | GFloat64 val \<Rightarrow> float64_to_int64 val
      | GString val \<Rightarrow> (case Atoi val of (n, err) \<Rightarrow> if err \<noteq> None then def else word_of_int n)
      | _ \<Rightarrow> def)"

definition Config_Bool :: "string \<Rightarrow> bool \<Rightarrow> cfg \<Rightarrow> bool" where
  "Config_Bool key def c =
     (case Config_Get key c of
        GBool val \<Rightarrow> val
      | GString val \<Rightarrow> (case ParseBool val of None \<Rightarrow> def | Some b \<Rightarrow> b)
      | _ \<Rightarrow> def)"

definition as_duration :: "i64 \<Rightarrow> gval" where
  "as_duration d = GStruct ''time.Duration'' [(''d'', GInt64 d)]"

definition Config_Duration :: "(string \<Rightarrow> i64 option) \<Rightarrow> string \<Rightarrow> i64 \<Rightarrow> cfg \<Rightarrow> i64" where
  "Config_Duration parseDuration key def c =
     (case Config_Get key c of
        GStruct t [(_, GInt64 val)] \<Rightarrow> if t = ''time.Duration'' then val else def
      | GString val \<Rightarrow> (case parseDuration val of None \<Rightarrow> def | Some d \<Rightarrow> d)
      | GInt val \<Rightarrow> val * word_of_int second
      | GFloat64 val \<Rightarrow> float64_to_int64 val * word_of_int second
      | _ \<Rightarrow> def)"

definition Config_All :: "cfg \<Rightarrow> cfg" where
  "Config_All c = fold (\<lambda>(k, v) out. AList.update k v out) c []"

section \<open>Environment\<close>

type_synonym environ = "(string, string) gomap"

definition Env :: "environ \<Rightarrow> string \<Rightarrow> string \<Rightarrow> string" where
  "Env env key def = (case map_of env key of Some v \<Rightarrow> v | None \<Rightarrow> def)"

text \<open>\<^const>\<open>None\<close> is the panic.\<close>

definition EnvRequired :: "environ \<Rightarrow> string \<Rightarrow> string option" where
  "EnvRequired env key = map_of env key"

datatype config_error =
    CannotOpen string
  | EnvLine nat string \<comment> \<open>line number and the line without \<open>=\<close>\<close>
  | CannotSet string
  | ScanError string
  | CannotRead string
  | UnsupportedFormat string
  | ParseError string

definition Setenv :: "string \<Rightarrow> string \<Rightarrow> environ \<Rightarrow> environ option" where
  "Setenv key value env =
     (if key = [] \<or> CHR ''='' \<in> set key \<or> CHR 0x00 \<in> set key \<or> CHR 0x00 \<in> set value then None
      else Some (AList.update key value env))"

text \<open>\<open>strings.ReplaceAll\<close> with a two-byte pattern and a one-byte replacement.\<close>

fun replace2 :: "char \<Rightarrow> char \<Rightarrow> char \<Rightarrow> string \<Rightarrow> string" where
  "replace2 a b r (x # y # s) = (if x = a \<and> y = b then r # replace2 a b r s else x # replace2 a b r (y # s))"
| "replace2 a b r s = s"

definition quotedBy :: "char \<Rightarrow> string \<Rightarrow> bool" where
  "quotedBy q value = (hd value = q \<and> last value = q)"

definition unquote :: "string \<Rightarrow> string" where
  "unquote value =
     (if length value \<ge> 2 \<and> (quotedBy (CHR 0x22) value \<or> quotedBy (CHR 0x27) value)
      then replace2 (CHR 0x5C) (CHR ''t'') (CHR 0x09) (replace2 (CHR 0x5C) (CHR ''n'') (CHR 0x0A) (butlast (tl value)))
      else value)"

definition strip_comment :: "string \<Rightarrow> string" where
  "strip_comment value =
     (if \<not> HasPrefix value [CHR 0x22] \<and> \<not> HasPrefix value [CHR 0x27]
      then (case Index value ''#'' of
              Some idx \<Rightarrow> if idx > 0 then TrimSpace (take idx value) else value
            | None \<Rightarrow> value)
      else value)"

definition parseLine :: "string \<Rightarrow> string + string \<times> string" where
  "parseLine line0 =
     (let line = TrimPrefix line0 ''export ''
      in case Index line ''='' of
           None \<Rightarrow> Inl line
         | Some idx \<Rightarrow> Inr (TrimSpace (take idx line), strip_comment (unquote (TrimSpace (drop (idx + 1) line)))))"

fun env_loop :: "bool \<Rightarrow> nat \<Rightarrow> string list \<Rightarrow> environ \<Rightarrow> config_error option \<times> environ" where
  "env_loop override n [] env = (None, env)"
| "env_loop override n (text # lines) env =
     (let line = TrimSpace text
      in if line = [] \<or> HasPrefix line ''#'' then env_loop override (n + 1) lines env
         else (case parseLine line of
                 Inl bad \<Rightarrow> (Some (EnvLine (n + 1) bad), env)
               | Inr (key, value) \<Rightarrow>
                   if key = [] then env_loop override (n + 1) lines env
                   else if map_of env key \<noteq> None \<and> \<not> override then env_loop override (n + 1) lines env
                   else (case Setenv key value env of
                           None \<Rightarrow> (Some (CannotSet key), env)
                         | Some env1 \<Rightarrow> env_loop override (n + 1) lines env1)))"

text \<open>The file: \<open>Inl True\<close> does not exist, \<open>Inl False\<close> cannot be opened, otherwise its lines and the error of the scanner.\<close>

definition parseEnvFile :: "(string \<Rightarrow> bool + string list \<times> string option) \<Rightarrow> string \<Rightarrow> bool \<Rightarrow> environ \<Rightarrow> config_error option \<times> environ" where
  "parseEnvFile open_file path override env =
     (case open_file path of
        Inl missing \<Rightarrow> (if missing then None else Some (CannotOpen path), env)
      | Inr (lines, scanErr) \<Rightarrow>
          (case env_loop override 0 lines env of
             (Some e, env1) \<Rightarrow> (Some e, env1)
           | (None, env1) \<Rightarrow> (map_option ScanError scanErr, env1)))"

definition LoadEnv :: "(string \<Rightarrow> bool + string list \<times> string option) \<Rightarrow> string \<Rightarrow> environ \<Rightarrow> config_error option \<times> environ" where
  "LoadEnv open_file path env = parseEnvFile open_file path False env"

definition LoadEnvOverride :: "(string \<Rightarrow> bool + string list \<times> string option) \<Rightarrow> string \<Rightarrow> environ \<Rightarrow> config_error option \<times> environ" where
  "LoadEnvOverride open_file path env = parseEnvFile open_file path True env"

section \<open>Files\<close>

fun normalizeYAMLMap :: "gval \<Rightarrow> gval" where
  "normalizeYAMLMap (GMap m) = GMap (map (\<lambda>kv. (fst kv, normalizeYAMLMap (snd kv))) m)"
| "normalizeYAMLMap (GStruct t m) =
     (if t = ''map[any]any'' then GMap (fold (\<lambda>(k, v) out. AList.update k v out) (map (\<lambda>kv. (fst kv, normalizeYAMLMap (snd kv))) m) [])
      else GStruct t m)"
| "normalizeYAMLMap (GSlice vs) = GSlice (map normalizeYAMLMap vs)"
| "normalizeYAMLMap v = v"

text \<open>The parsers give \<open>Inr None\<close> for a document without content.\<close>

definition loadYAML :: "(string \<Rightarrow> string + cfg option) \<Rightarrow> string \<Rightarrow> cfg \<Rightarrow> config_error option \<times> cfg" where
  "loadYAML unmarshal data c =
     (case unmarshal data of
        Inl e \<Rightarrow> (Some (ParseError e), c)
      | Inr None \<Rightarrow> (None, c)
      | Inr (Some m) \<Rightarrow>
          (case normalizeYAMLMap (GMap m) of
             GMap normalized \<Rightarrow> (None, Config_Merge normalized c)
           | _ \<Rightarrow> (Some (ParseError ''config: YAML root must be a mapping''), c)))"

definition loadTOML :: "(string \<Rightarrow> string + cfg option) \<Rightarrow> string \<Rightarrow> cfg \<Rightarrow> config_error option \<times> cfg" where
  "loadTOML decode data c =
     (case decode data of
        Inl e \<Rightarrow> (Some (ParseError e), c)
      | Inr None \<Rightarrow> (None, c)
      | Inr (Some m) \<Rightarrow> (None, Config_Merge m c))"

text \<open>\<open>filepath.Ext\<close>: from the last dot of the last path element on.\<close>

definition fileExt :: "string \<Rightarrow> string" where
  "fileExt path =
     (let base = takeWhile (\<lambda>c. c \<noteq> CHR ''/'') (rev path)
      in if CHR ''.'' \<in> set base then CHR ''.'' # rev (takeWhile (\<lambda>c. c \<noteq> CHR ''.'') base) else [])"

record parsers =
  ps_readFile :: "string \<Rightarrow> string option"
  ps_yaml :: "string \<Rightarrow> string + cfg option"
  ps_toml :: "string \<Rightarrow> string + cfg option"
  ps_readDir :: "string \<Rightarrow> (string \<times> bool) list option" \<comment> \<open>names and whether they are directories\<close>
  ps_join :: "string \<Rightarrow> string \<Rightarrow> string"

definition config_Load :: "parsers \<Rightarrow> string \<Rightarrow> cfg \<Rightarrow> config_error option \<times> cfg" where
  "config_Load ps path c =
     (case ps_readFile ps path of
        None \<Rightarrow> (Some (CannotRead path), c)
      | Some data \<Rightarrow>
          (let ext = map lowerByte (fileExt path)
           in if ext = ''.yaml'' \<or> ext = ''.yml'' then loadYAML (ps_yaml ps) data c
              else if ext = ''.toml'' then loadTOML (ps_toml ps) data c
              else (Some (UnsupportedFormat ext), c)))"

fun loadDir_loop :: "parsers \<Rightarrow> string \<Rightarrow> (string \<times> bool) list \<Rightarrow> cfg \<Rightarrow> config_error option \<times> cfg" where
  "loadDir_loop ps dir [] c = (None, c)"
| "loadDir_loop ps dir ((name, isDir) # es) c =
     (if isDir then loadDir_loop ps dir es c
      else (let ext = map lowerByte (fileExt name)
            in if ext \<noteq> ''.yaml'' \<and> ext \<noteq> ''.yml'' \<and> ext \<noteq> ''.toml'' then loadDir_loop ps dir es c
               else (case config_Load ps (ps_join ps dir name) [] of
                       (Some e, _) \<Rightarrow> (Some e, c)
                     | (None, sub) \<Rightarrow> loadDir_loop ps dir es (Config_Set (TrimSuffix name (fileExt name)) (GMap (Config_All sub)) c))))"

definition config_LoadDir :: "parsers \<Rightarrow> string \<Rightarrow> cfg \<Rightarrow> config_error option \<times> cfg" where
  "config_LoadDir ps dir c =
     (case ps_readDir ps dir of
        None \<Rightarrow> (Some (CannotRead dir), c)
      | Some entries \<Rightarrow> loadDir_loop ps dir entries c)"

section \<open>Lookup after update\<close>

lemma sub_map_GMap [simp]: "sub_map (Some (GMap m)) = Some m" and sub_map_None [simp]: "sub_map None = None"
  by (simp_all add: sub_map_def)

lemma setNested_Cons:
  "ks \<noteq> [] \<Longrightarrow> setNested m (k # ks) v = AList.update k (GMap (setNested (case sub_map (map_of m k) of Some s \<Rightarrow> s | None \<Rightarrow> []) ks v)) m"
  by (cases ks) (simp_all add: Let_def)

lemma getNested_Cons:
  "ks \<noteq> [] \<Longrightarrow> getNested m (k # ks) = (case sub_map (map_of m k) of None \<Rightarrow> None | Some sub \<Rightarrow> getNested sub ks)"
  by (cases ks) (auto simp: sub_map_def split: option.splits gval.splits)

lemma getNested_empty [simp]: "getNested [] ks = None"
  by (cases ks rule: remdups_adj.cases) auto

lemma set_get_same: "ks \<noteq> [] \<Longrightarrow> getNested (setNested m ks v) ks = Some v"
proof (induction ks arbitrary: m)
  case (Cons k ks)
  then show ?case by (cases "ks = []") (simp_all add: setNested_Cons getNested_Cons)
qed simp

lemma set_get_other:
  "ks \<noteq> [] \<Longrightarrow> \<not> prefix ks ks' \<Longrightarrow> \<not> prefix ks' ks \<Longrightarrow> getNested (setNested m ks v) ks' = getNested m ks'"
proof (induction ks arbitrary: m ks')
  case (Cons k ks)
  then obtain k' ks'' where ks': "ks' = k' # ks''" by (cases ks') auto
  show ?case
  proof (cases "ks = []")
    case True
    with Cons.prems ks' have "k \<noteq> k'" by auto
    with True ks' show ?thesis by (cases "ks'' = []") (simp_all add: getNested_Cons)
  next
    case False
    show ?thesis
    proof (cases "k = k'")
      case kk: True
      with Cons.prems ks' have ne: "ks'' \<noteq> []" "\<not> prefix ks ks''" "\<not> prefix ks'' ks" by auto
      with Cons.IH [OF False ne(2,3)] kk False show ?thesis
        by (simp add: ks' setNested_Cons getNested_Cons split: option.splits)
    next
      case kk: False
      with False show ?thesis by (cases "ks'' = []") (simp_all add: ks' setNested_Cons getNested_Cons)
    qed
  qed
qed simp

section \<open>Merging\<close>

fun wf_val :: "gval \<Rightarrow> bool" where
  "wf_val (GMap m) = (distinct (map fst m) \<and> (\<forall>kv \<in> set m. wf_val (snd kv)))"
| "wf_val v = True"

definition is_map :: "gval \<Rightarrow> bool" where
  "is_map v = (case v of GMap _ \<Rightarrow> True | _ \<Rightarrow> False)"

definition merge_val :: "gval option \<Rightarrow> gval \<Rightarrow> gval" where
  "merge_val old v =
     (case v of GMap sm \<Rightarrow> GMap (mergeInto (case sub_map old of Some dm \<Rightarrow> dm | None \<Rightarrow> []) sm) | _ \<Rightarrow> v)"

lemma mergeInto_Nil [simp]: "mergeInto dst [] = dst"
  by (simp add: mergeInto.simps)

lemma mergeInto_Cons: "mergeInto dst ((k, v) # rest) = mergeInto (AList.update k (merge_val (map_of dst k) v) dst) rest"
  by (subst mergeInto.simps) (auto simp: merge_val_def split: gval.splits option.splits)

lemma mergeInto_absent: "k \<notin> fst ` set src \<Longrightarrow> map_of (mergeInto dst src) k = map_of dst k"
proof (induction src arbitrary: dst)
  case (Cons kv src)
  then show ?case by (cases kv) (simp add: mergeInto_Cons)
qed simp

lemma mergeInto_lookup:
  "distinct (map fst src) \<Longrightarrow>
   map_of (mergeInto dst src) k = (case map_of src k of None \<Rightarrow> map_of dst k | Some v \<Rightarrow> Some (merge_val (map_of dst k) v))"
proof (induction src arbitrary: dst)
  case (Cons kv src)
  obtain k' v where kv: "kv = (k', v)" by (cases kv)
  show ?case
  proof (cases "k = k'")
    case True
    with Cons.prems kv have "k \<notin> fst ` set src" by auto
    with True kv show ?thesis by (simp add: mergeInto_Cons mergeInto_absent)
  next
    case False
    with Cons kv show ?thesis by (simp add: mergeInto_Cons split: option.splits)
  qed
qed simp

lemma sub_map_merge_val: "sub_map (Some (merge_val old v))
   = (case v of GMap sm \<Rightarrow> Some (mergeInto (case sub_map old of Some dm \<Rightarrow> dm | None \<Rightarrow> []) sm) | _ \<Rightarrow> None)"
  by (auto simp: merge_val_def sub_map_def split: gval.splits)

lemma wf_sub: "wf_val (GMap src) \<Longrightarrow> map_of src k = Some v \<Longrightarrow> wf_val v"
  by (auto dest: map_of_SomeD)

text \<open>The source says something about a path: it has a value there, or a value that is not a map on the way.\<close>

fun touches :: "cfg \<Rightarrow> string list \<Rightarrow> bool" where
  "touches src [] = False"
| "touches src (k # ks) =
     (case map_of src k of
        None \<Rightarrow> False
      | Some (GMap sub) \<Rightarrow> ks = [] \<or> touches sub ks
      | Some _ \<Rightarrow> True)"

lemma merge_leaf:
  "wf_val (GMap src) \<Longrightarrow> getNested src ks = Some v \<Longrightarrow> \<not> is_map v \<Longrightarrow> getNested (mergeInto dst src) ks = Some v"
proof (induction ks arbitrary: src dst)
  case (Cons k ks)
  have d: "distinct (map fst src)" using Cons.prems(1) by simp
  show ?case
  proof (cases "ks = []")
    case True
    with Cons.prems(2,3) show ?thesis
      by (auto simp: mergeInto_lookup [OF d] merge_val_def is_map_def split: gval.splits)
  next
    case False
    with Cons.prems(2) obtain sub where sub: "map_of src k = Some (GMap sub)" "getNested sub ks = Some v"
      by (auto simp: getNested_Cons sub_map_def split: option.splits gval.splits)
    have "wf_val (GMap sub)" by (rule wf_sub [OF Cons.prems(1) sub(1)])
    from Cons.IH [OF this sub(2) Cons.prems(3)] False show ?thesis
      by (simp add: getNested_Cons mergeInto_lookup [OF d] sub(1) sub_map_merge_val)
  qed
qed simp

lemma merge_untouched: "wf_val (GMap src) \<Longrightarrow> \<not> touches src ks \<Longrightarrow> getNested (mergeInto dst src) ks = getNested dst ks"
proof (induction ks arbitrary: src dst)
  case (Cons k ks)
  have d: "distinct (map fst src)" using Cons.prems(1) by simp
  show ?case
  proof (cases "map_of src k")
    case None
    then show ?thesis by (cases "ks = []") (simp_all add: getNested_Cons mergeInto_lookup [OF d])
  next
    case (Some v)
    with Cons.prems(2) obtain sub where sub: "v = GMap sub" "ks \<noteq> []" "\<not> touches sub ks"
      by (cases v) auto
    have "wf_val (GMap sub)" using wf_sub [OF Cons.prems(1) Some] sub(1) by simp
    from Cons.IH [OF this sub(3)] sub Some show ?thesis
      by (simp add: getNested_Cons mergeInto_lookup [OF d] sub_map_merge_val split: option.splits)
  qed
qed simp

section \<open>Properties\<close>

text \<open>
  Set and Get: after \<open>Set(key, v)\<close> the key reads \<open>v\<close>, and every key that is neither above nor below it in the tree reads as
  before.
\<close>

theorem config_set_get:
  "Config_Get key (Config_Set key v c) = v
   \<and> (\<not> prefix (SplitOn CHR ''.'' key) (SplitOn CHR ''.'' key') \<longrightarrow> \<not> prefix (SplitOn CHR ''.'' key') (SplitOn CHR ''.'' key)
      \<longrightarrow> Config_Get key' (Config_Set key v c) = Config_Get key' c)"
  by (simp add: Config_Get_def Config_Set_def set_get_same set_get_other)

theorem config_set_get_witness:
  "Config_Get ''db.host'' (Config_Set ''db.port'' (GInt 5432) [(''db'', GMap [(''host'', GString ''h'')])]) = GString ''h''"
  using config_set_get [of "''db.port''" "GInt 5432" "[(''db'', GMap [(''host'', GString ''h'')])]" "''db.host''"]
  by (simp add: Config_Get_def sub_map_def)

text \<open>
  Merging is a deep merge in which the later source wins: a value of the source that is not a map is found at its path afterwards,
  and a path about which the source says nothing keeps its value. In particular the order in which the source is visited does
  not matter.
\<close>

theorem config_merge_deep:
  assumes "wf_val (GMap src)"
  shows "(getNested src ks = Some v \<and> \<not> is_map v \<longrightarrow> getNested (Config_Merge src c) ks = Some v)
    \<and> (\<not> touches src ks \<longrightarrow> getNested (Config_Merge src c) ks = getNested c ks)"
  using merge_leaf [OF assms] merge_untouched [OF assms] by (simp add: Config_Merge_def)

theorem config_merge_deep_witness:
  "getNested (Config_Merge [(''a'', GMap [(''x'', GBool True)])] [(''a'', GMap [(''x'', GNil), (''y'', GBool False)])]) [''a'', ''x''] = Some (GBool True)
   \<and> getNested (Config_Merge [(''a'', GMap [(''x'', GBool True)])] [(''a'', GMap [(''x'', GNil), (''y'', GBool False)])]) [''a'', ''y''] = Some (GBool False)"
  using config_merge_deep [of "[(''a'', GMap [(''x'', GBool True)])]" "[''a'', ''x'']" "GBool True" "[(''a'', GMap [(''x'', GNil), (''y'', GBool False)])]"]
    config_merge_deep [of "[(''a'', GMap [(''x'', GBool True)])]" "[''a'', ''y'']" "GBool True" "[(''a'', GMap [(''x'', GNil), (''y'', GBool False)])]"]
  by (simp add: is_map_def sub_map_def)

text \<open>Values built from maps with string keys, slices and values without structure: what the accessors of \<open>Config\<close> can walk.\<close>

fun string_keyed :: "gval \<Rightarrow> bool" where
  "string_keyed (GMap m) = (\<forall>kv \<in> set m. string_keyed (snd kv))"
| "string_keyed (GSlice vs) = (\<forall>v \<in> set vs. string_keyed v)"
| "string_keyed (GStruct t m) = (t \<noteq> ''map[any]any'')"
| "string_keyed v = True"

lemma set_fold_update: "snd ` set (fold (\<lambda>(k, v) out. AList.update k v out) xs acc) \<subseteq> snd ` set xs \<union> snd ` set acc"
proof (induction xs arbitrary: acc)
  case (Cons x xs)
  obtain k v where x: "x = (k, v)" by (cases x)
  have "snd ` set (AList.update k v acc) \<subseteq> insert v (snd ` set acc)"
    by (induction acc) auto
  with Cons.IH [of "AList.update k v acc"] x show ?case by auto
qed simp

lemma normalize_string_keyed: "string_keyed (normalizeYAMLMap v)"
proof (induction v rule: normalizeYAMLMap.induct)
  case (2 t m)
  show ?case
  proof (cases "t = ''map[any]any''")
    case True
    let ?m = "map (\<lambda>kv. (fst kv, normalizeYAMLMap (snd kv))) m"
    have "string_keyed x" if "x \<in> snd ` set (fold (\<lambda>(k, v) out. AList.update k v out) ?m [])" for x
    proof -
      have "x \<in> snd ` set ?m" using set_fold_update [of ?m "[]"] that by auto
      then show ?thesis using 2 True by auto
    qed
    with True show ?thesis by auto
  qed simp
qed auto

lemma normalize_id: "string_keyed v \<Longrightarrow> normalizeYAMLMap v = v"
  by (induction v rule: normalizeYAMLMap.induct) (auto intro!: map_idI)

text \<open>
  Normalising types a YAML document: whatever the YAML library produces, \<open>normalizeYAMLMap\<close> returns a value in which no map has
  keys other than strings, at any depth, and a value of this type is left as it is.
\<close>

theorem normalize_typed:
  "string_keyed (normalizeYAMLMap v) \<and> normalizeYAMLMap (normalizeYAMLMap v) = normalizeYAMLMap v"
  by (simp add: normalize_string_keyed normalize_id)

section \<open>The env file\<close>

text \<open>Text without a space at either end.\<close>

definition trimmed :: "string \<Rightarrow> bool" where
  "trimmed s \<longleftrightarrow> spaceLen s = 0 \<and> spaceLenEnd s = 0"

lemma TrimSpace_trimmed: "trimmed s \<Longrightarrow> TrimSpace s = s"
  by (simp add: trimmed_def TrimSpace_def TrimLeftSpace.simps TrimRightSpace.simps)

lemma Index_byte_first: "c \<notin> set a \<Longrightarrow> Index (a @ c # b) [c] = Some (length a)"
  by (induction a) (auto simp: HasPrefix_def)

lemma Index_byte_none: "c \<notin> set a \<Longrightarrow> Index a [c] = None"
  by (induction a) (auto simp: HasPrefix_def)

lemma no_export_prefix:
  assumes "CHR ''='' \<notin> set key" and "\<not> HasPrefix key ''export ''"
  shows "TrimPrefix (key @ ''='' @ val) ''export '' = key @ ''='' @ val"
proof -
  have "\<not> HasPrefix (key @ ''='' @ val) ''export ''"
  proof
    assume "HasPrefix (key @ ''='' @ val) ''export ''"
    then have t: "take 7 (key @ CHR ''='' # val) = ''export ''" by (simp add: HasPrefix_def eval_nat_numeral)
    show False
    proof (cases "length key < 7")
      case True
      then have "CHR ''='' \<in> set (take 7 (key @ CHR ''='' # val))" by (cases "7 - length key") auto
      with t show False by simp
    next
      case False
      with t assms(2) show False by (simp add: HasPrefix_def eval_nat_numeral)
    qed
  qed
  then show ?thesis by (simp add: TrimPrefix_def)
qed

lemma parseLine_key:
  assumes "CHR ''='' \<notin> set key" and "\<not> HasPrefix key ''export ''" and "trimmed key"
  shows "parseLine (key @ ''='' @ val) = Inr (key, strip_comment (unquote (TrimSpace val)))"
  using no_export_prefix [OF assms(1,2), of val] Index_byte_first [OF assms(1), of val]
  by (simp add: parseLine_def TrimSpace_trimmed [OF assms(3)])

lemma replace2_id: "a \<notin> set s \<Longrightarrow> replace2 a b r s = s"
  by (induction a b r s rule: replace2.induct) auto

lemma unquote_quoted:
  "q \<in> {CHR 0x22, CHR 0x27} \<Longrightarrow> CHR 0x5C \<notin> set v \<Longrightarrow> unquote (q # v @ [q]) = v"
  by (auto simp: unquote_def quotedBy_def replace2_id)

lemma unquote_plain: "\<not> HasPrefix v [CHR 0x22] \<Longrightarrow> \<not> HasPrefix v [CHR 0x27] \<Longrightarrow> unquote v = v"
  by (cases v) (auto simp: unquote_def quotedBy_def HasPrefix_def)

lemma strip_comment_none: "CHR ''#'' \<notin> set v \<Longrightarrow> strip_comment v = v"
  by (simp add: strip_comment_def Index_byte_none)

lemma spaceLen_hd: "s \<noteq> [] \<Longrightarrow> hd s \<notin> hd ` set unicodeSpaces \<Longrightarrow> spaceLen s = 0"
  and spaceLenEnd_last: "s \<noteq> [] \<Longrightarrow> last s \<notin> last ` set unicodeSpaces \<Longrightarrow> spaceLenEnd s = 0"
proof -
  have ne: "w \<noteq> []" if "w \<in> set unicodeSpaces" for w using that by (auto simp: unicodeSpaces_def)
  have "\<not> HasPrefix s w" if "hd s \<notin> hd ` set unicodeSpaces" "w \<in> set unicodeSpaces" for w
    using that ne by (auto simp: HasPrefix_iff image_iff)
  then show "s \<noteq> [] \<Longrightarrow> hd s \<notin> hd ` set unicodeSpaces \<Longrightarrow> spaceLen s = 0"
    by (auto simp: spaceLen_def find_None_iff split: option.splits dest!: find_Some_iff [THEN iffD1])
  have "\<not> HasSuffix s w" if "last s \<notin> last ` set unicodeSpaces" "w \<in> set unicodeSpaces" for w
    using that ne by (auto simp: HasSuffix_iff image_iff)
  then show "s \<noteq> [] \<Longrightarrow> last s \<notin> last ` set unicodeSpaces \<Longrightarrow> spaceLenEnd s = 0"
    by (auto simp: spaceLenEnd_def split: option.splits dest!: find_Some_iff [THEN iffD1])
qed

lemma trimmed_quoted:
  assumes "q \<in> {CHR 0x22, CHR 0x27}"
  shows "trimmed (q # v @ [q])"
proof -
  have "q \<notin> hd ` set unicodeSpaces" "q \<notin> last ` set unicodeSpaces" using assms by (auto simp: unicodeSpaces_def)
  then show ?thesis by (simp add: trimmed_def spaceLen_hd spaceLenEnd_last)
qed

text \<open>
  A line \<open>key=value\<close> reads back as that key and value, plain or in quotes, when key and value have no space at the ends, the value
  has no \<open>#\<close> and no backslash, and a plain value does not start with a quote.
\<close>

theorem env_line_roundtrip:
  assumes "CHR ''='' \<notin> set key" and "\<not> HasPrefix key ''export ''" and "trimmed key"
    and "trimmed val" and "CHR ''#'' \<notin> set val" and "CHR 0x5C \<notin> set val"
    and "\<not> HasPrefix val [CHR 0x22]" and "\<not> HasPrefix val [CHR 0x27]"
  shows "parseLine (key @ ''='' @ val) = Inr (key, val)
    \<and> parseLine (key @ ''='' @ [CHR 0x22] @ val @ [CHR 0x22]) = Inr (key, val)"
proof
  note k = parseLine_key [OF assms(1-3)]
  show "parseLine (key @ ''='' @ val) = Inr (key, val)"
    unfolding k using assms(4-8) by (simp add: TrimSpace_trimmed unquote_plain strip_comment_none)
  show "parseLine (key @ ''='' @ [CHR 0x22] @ val @ [CHR 0x22]) = Inr (key, val)"
    unfolding k using assms(5,6) TrimSpace_trimmed [OF trimmed_quoted [of "CHR 0x22" val]] unquote_quoted [of "CHR 0x22" val]
    by (simp add: strip_comment_none)
qed

theorem env_line_roundtrip_witness: "parseLine ''APP_KEY=base64:abc'' = Inr (''APP_KEY'', ''base64:abc'')"
proof -
  have "trimmed ''APP_KEY''" "trimmed ''base64:abc''" by code_simp+
  with env_line_roundtrip [of "''APP_KEY''" "''base64:abc''"] show ?thesis by (simp add: HasPrefix_def)
qed

text \<open>
  In a quoted value a \<open>#\<close> still starts a comment: the quotes are stripped first, and the test for quotes that should protect the
  value then looks at the stripped text.
\<close>

theorem env_quoted_hash_cut:
  assumes "CHR ''='' \<notin> set key" and "\<not> HasPrefix key ''export ''" and "trimmed key" and "v \<noteq> []"
    and "CHR ''#'' \<notin> set v" and "CHR 0x5C \<notin> set v" and "CHR 0x5C \<notin> set w"
    and "\<not> HasPrefix v [CHR 0x22]" and "\<not> HasPrefix v [CHR 0x27]"
  shows "parseLine (key @ ''='' @ [CHR 0x22] @ v @ ''#'' @ w @ [CHR 0x22]) = Inr (key, TrimSpace v)"
proof -
  have "unquote (TrimSpace ([CHR 0x22] @ (v @ ''#'' @ w) @ [CHR 0x22])) = v @ ''#'' @ w"
    using TrimSpace_trimmed [OF trimmed_quoted [of "CHR 0x22" "v @ ''#'' @ w"]] unquote_quoted [of "CHR 0x22" "v @ ''#'' @ w"] assms(6,7)
    by simp
  moreover have "\<not> HasPrefix (v @ ''#'' @ w) [CHR 0x22]" "\<not> HasPrefix (v @ ''#'' @ w) [CHR 0x27]"
    using assms(4,8,9) by (cases v; simp add: HasPrefix_def)+
  ultimately show ?thesis
    using parseLine_key [OF assms(1-3)] Index_byte_first [OF assms(5), of w] assms(4) by (simp add: strip_comment_def)
qed

lemma env_loop_keeps: "map_of env k = Some v \<Longrightarrow> map_of (snd (env_loop False n lines env)) k = Some v"
proof (induction lines arbitrary: n env)
  case (Cons line lines)
  then show ?case
    by (auto simp: Let_def Setenv_def split: sum.splits option.splits prod.splits intro!: Cons.IH)
qed simp

text \<open>
  \<open>LoadEnv\<close> never overwrites: a variable that is set keeps its value whatever the file says, also when reading the file ends in
  an error.
\<close>

theorem load_env_keeps:
  assumes "map_of env k = Some v"
  shows "map_of (snd (LoadEnv open_file path env)) k = Some v"
proof -
  have "map_of (snd (env_loop False 0 lines env)) k = Some v" for lines using assms by (rule env_loop_keeps)
  then show ?thesis
    using assms by (auto simp: LoadEnv_def parseEnvFile_def split: sum.splits prod.splits option.splits) (metis snd_conv)+
qed

theorem load_env_keeps_witness:
  "map_of (snd (LoadEnv (\<lambda>_. Inr ([''PORT=1''], None)) ''.env'' [(''PORT'', ''8080'')])) ''PORT'' = Some ''8080''"
  by (rule load_env_keeps) simp

end
