(* ===== verification/App_Container.thy ===== *)
theory App_Container
  imports Oni_Prelude
begin

text \<open>
  Model of \<open>framework/app/container.go\<close>, of the provider life cycle in \<open>application.go\<close> and of \<open>framework/seeder/seeder.go\<close>.

  A factory takes the container itself, so bindings hold numbers and \<open>fac\<close> says what factory \<open>n\<close> does to the container. \<open>Make\<close>
  gives up the lock while a factory runs; the step relation \<open>make_step\<close> interleaves any number of calls of \<open>Make\<close> for one name at the
  points where the lock is free. Types of values for \<open>MakeInto\<close> are a function and an assignability relation.
\<close>

section \<open>Data\<close>

record 'v Container =
  ct_bindings :: "(string, nat) gomap"
  ct_singletons :: "(string, bool) gomap"
  ct_instances :: "(string, 'v) gomap"
  ct_aliases :: "(string, string) gomap"
  ct_tags :: "(string, string list) gomap"

datatype container_error = NoBinding string | BuildError string string | BadDest | CannotAssign

type_synonym 'v factories = "nat \<Rightarrow> 'v Container \<Rightarrow> (string + 'v) \<times> 'v Container"

definition NewContainer :: "'v Container" where
  "NewContainer = \<lparr>ct_bindings = [], ct_singletons = [], ct_instances = [], ct_aliases = [], ct_tags = []\<rparr>"

section \<open>Registration\<close>

definition Container_Bind :: "string \<Rightarrow> nat \<Rightarrow> 'v Container \<Rightarrow> 'v Container" where
  "Container_Bind abstract factory c =
     c\<lparr>ct_bindings := AList.update abstract factory (ct_bindings c), ct_singletons := AList.update abstract False (ct_singletons c)\<rparr>"

definition Container_Singleton :: "string \<Rightarrow> nat \<Rightarrow> 'v Container \<Rightarrow> 'v Container" where
  "Container_Singleton abstract factory c =
     c\<lparr>ct_bindings := AList.update abstract factory (ct_bindings c), ct_singletons := AList.update abstract True (ct_singletons c)\<rparr>"

definition Container_Instance :: "string \<Rightarrow> 'v \<Rightarrow> 'v Container \<Rightarrow> 'v Container" where
  "Container_Instance abstract inst c =
     c\<lparr>ct_instances := AList.update abstract inst (ct_instances c), ct_singletons := AList.update abstract True (ct_singletons c)\<rparr>"

definition Container_Alias :: "string \<Rightarrow> string \<Rightarrow> 'v Container \<Rightarrow> 'v Container" where
  "Container_Alias abstract alias c = c\<lparr>ct_aliases := AList.update alias abstract (ct_aliases c)\<rparr>"

definition Container_Tag :: "string list \<Rightarrow> string \<Rightarrow> 'v Container \<Rightarrow> 'v Container" where
  "Container_Tag abstracts tag c =
     c\<lparr>ct_tags := AList.update tag ((case map_of (ct_tags c) tag of None \<Rightarrow> [] | Some ts \<Rightarrow> ts) @ abstracts) (ct_tags c)\<rparr>"

definition Container_Bound :: "string \<Rightarrow> 'v Container \<Rightarrow> bool" where
  "Container_Bound abstract c = (map_of (ct_instances c) abstract \<noteq> None \<or> map_of (ct_bindings c) abstract \<noteq> None)"

definition Container_Flush :: "'v Container \<Rightarrow> 'v Container" where
  "Container_Flush c = c\<lparr>ct_bindings := [], ct_singletons := [], ct_instances := [], ct_aliases := [], ct_tags := []\<rparr>"

section \<open>Resolution\<close>

definition resolve_alias :: "string \<Rightarrow> 'v Container \<Rightarrow> string" where
  "resolve_alias abstract c = (case map_of (ct_aliases c) abstract of Some a \<Rightarrow> a | None \<Rightarrow> abstract)"

text \<open>The critical section after a factory has built an instance.\<close>

definition store_instance :: "string \<Rightarrow> bool \<Rightarrow> 'v \<Rightarrow> 'v Container \<Rightarrow> 'v \<times> 'v Container" where
  "store_instance abstract isSingleton inst c =
     (if isSingleton
      then (case map_of (ct_instances c) abstract of
              Some existing \<Rightarrow> (existing, c)
            | None \<Rightarrow> (inst, c\<lparr>ct_instances := AList.update abstract inst (ct_instances c)\<rparr>))
      else (inst, c))"

definition is_singleton_name :: "string \<Rightarrow> 'v Container \<Rightarrow> bool" where
  "is_singleton_name abstract c = (map_of (ct_singletons c) abstract = Some True)"

definition Container_Make :: "'v factories \<Rightarrow> string \<Rightarrow> 'v Container \<Rightarrow> (container_error + 'v) \<times> 'v Container" where
  "Container_Make fac name c =
     (let abstract = resolve_alias name c
      in case map_of (ct_instances c) abstract of
           Some inst \<Rightarrow> (Inr inst, c)
         | None \<Rightarrow>
             (case map_of (ct_bindings c) abstract of
                None \<Rightarrow> (Inl (NoBinding abstract), c)
              | Some factory \<Rightarrow>
                  (case fac factory c of
                     (Inl e, c1) \<Rightarrow> (Inl (BuildError abstract e), c1)
                   | (Inr inst, c1) \<Rightarrow>
                       (case store_instance abstract (is_singleton_name abstract c) inst c1 of (v, c2) \<Rightarrow> (Inr v, c2)))))"

fun tagged_loop :: "'v factories \<Rightarrow> string list \<Rightarrow> 'v Container \<Rightarrow> (container_error + 'v list) \<times> 'v Container" where
  "tagged_loop fac [] c = (Inr [], c)"
| "tagged_loop fac (a # as) c =
     (case Container_Make fac a c of
        (Inl e, c1) \<Rightarrow> (Inl e, c1)
      | (Inr v, c1) \<Rightarrow> (case tagged_loop fac as c1 of (Inl e, c2) \<Rightarrow> (Inl e, c2) | (Inr vs, c2) \<Rightarrow> (Inr (v # vs), c2)))"

definition Container_Tagged :: "'v factories \<Rightarrow> string \<Rightarrow> 'v Container \<Rightarrow> (container_error + 'v list) \<times> 'v Container" where
  "Container_Tagged fac tag c =
     (case map_of (ct_tags c) tag of
        None \<Rightarrow> (Inr [], c)
      | Some abstracts \<Rightarrow> tagged_loop fac abstracts c)"

text \<open>\<^const>\<open>None\<close> is the panic.\<close>

definition Container_MustMake :: "'v factories \<Rightarrow> string \<Rightarrow> 'v Container \<Rightarrow> 'v option \<times> 'v Container" where
  "Container_MustMake fac name c = (case Container_Make fac name c of (Inl e, c1) \<Rightarrow> (None, c1) | (Inr v, c1) \<Rightarrow> (Some v, c1))"

text \<open>The destination: a pointer to a variable of a type, or something else.\<close>

datatype ('t, 'v) dest = DestPtr 't 'v | DestOther

definition Container_MakeInto ::
  "'v factories \<Rightarrow> ('v \<Rightarrow> 't) \<Rightarrow> ('t \<Rightarrow> 't \<Rightarrow> bool) \<Rightarrow> string \<Rightarrow> ('t, 'v) dest \<Rightarrow> 'v Container
     \<Rightarrow> (container_error option \<times> ('t, 'v) dest) \<times> 'v Container" where
  "Container_MakeInto fac typeOf assignable name dst c =
     (case Container_Make fac name c of
        (Inl e, c1) \<Rightarrow> ((Some e, dst), c1)
      | (Inr inst, c1) \<Rightarrow>
          (case dst of
             DestOther \<Rightarrow> ((Some BadDest, dst), c1)
           | DestPtr t old \<Rightarrow>
               if \<not> assignable (typeOf inst) t then ((Some CannotAssign, dst), c1)
               else ((None, DestPtr t inst), c1)))"

section \<open>Providers\<close>

record 'a ServiceProvider =
  sp_Register :: "'a \<Rightarrow> 'a"
  sp_Boot :: "'a \<Rightarrow> 'a"

record 'a Application =
  ap_app :: 'a \<comment> \<open>the container, configuration and router the providers work on\<close>
  ap_providers :: "'a ServiceProvider list"
  ap_booted :: bool

definition App_Register :: "'a ServiceProvider list \<Rightarrow> 'a Application \<Rightarrow> 'a Application" where
  "App_Register ps a = a\<lparr>ap_providers := ap_providers a @ ps, ap_app := fold sp_Register ps (ap_app a)\<rparr>"

definition App_Boot :: "'a Application \<Rightarrow> 'a Application" where
  "App_Boot a = (if ap_booted a then a else a\<lparr>ap_app := fold sp_Boot (ap_providers a) (ap_app a), ap_booted := True\<rparr>)"

section \<open>Seeders\<close>

record 'd namedSeeder =
  ns_name :: string
  ns_Run :: "'d \<Rightarrow> string option \<times> 'd"

datatype seed_error = SeedFailed string string | NotRegistered string

definition Runner_Register :: "string \<Rightarrow> ('d \<Rightarrow> string option \<times> 'd) \<Rightarrow> 'd namedSeeder list \<Rightarrow> 'd namedSeeder list" where
  "Runner_Register name s r = r @ [\<lparr>ns_name = name, ns_Run = s\<rparr>]"

fun Runner_Run :: "'d namedSeeder list \<Rightarrow> 'd \<Rightarrow> seed_error option \<times> 'd" where
  "Runner_Run [] d = (None, d)"
| "Runner_Run (ns # r) d =
     (case ns_Run ns d of
        (Some e, d1) \<Rightarrow> (Some (SeedFailed (ns_name ns) e), d1)
      | (None, d1) \<Rightarrow> Runner_Run r d1)"

fun Runner_RunOne :: "'d namedSeeder list \<Rightarrow> string \<Rightarrow> 'd \<Rightarrow> seed_error option \<times> 'd" where
  "Runner_RunOne [] name d = (Some (NotRegistered name), d)"
| "Runner_RunOne (ns # r) name d =
     (if ns_name ns = name
      then (case ns_Run ns d of
              (Some e, d1) \<Rightarrow> (Some (SeedFailed name e), d1)
            | (None, d1) \<Rightarrow> (None, d1))
      else Runner_RunOne r name d)"

section \<open>Concurrent resolution\<close>

text \<open>
  A call of \<open>Make\<close> for the name \<open>a\<close>: not started, building with the factory (with the singleton flag it read), or done. Between its
  two critical sections anything may happen to the container except that \<open>Instance\<close> or \<open>Flush\<close> replace the instance of \<open>a\<close> or
  that \<open>a\<close> is registered anew: this covers calls of \<open>Make\<close> for other names, registrations and the effects of factories.
\<close>

datatype 'v call = Waiting | Building bool | Done 'v | Failed

record 'v calls =
  cl_cont :: "'v Container"
  cl_state :: "nat \<Rightarrow> 'v call"

definition leaves_alone :: "string \<Rightarrow> 'v Container \<Rightarrow> 'v Container \<Rightarrow> bool" where
  "leaves_alone a c c' \<longleftrightarrow>
     map_of (ct_instances c') a = map_of (ct_instances c) a \<and> map_of (ct_bindings c') a = map_of (ct_bindings c) a
     \<and> map_of (ct_singletons c') a = map_of (ct_singletons c) a"

inductive make_step :: "string \<Rightarrow> 'v calls \<Rightarrow> 'v calls \<Rightarrow> bool" for a where
  fast: "cl_state s p = Waiting \<Longrightarrow> map_of (ct_instances (cl_cont s)) a = Some v
    \<Longrightarrow> make_step a s (s\<lparr>cl_state := (cl_state s)(p := Done v)\<rparr>)"
| start: "cl_state s p = Waiting \<Longrightarrow> map_of (ct_instances (cl_cont s)) a = None \<Longrightarrow> map_of (ct_bindings (cl_cont s)) a = Some f
    \<Longrightarrow> make_step a s (s\<lparr>cl_state := (cl_state s)(p := Building (is_singleton_name a (cl_cont s)))\<rparr>)"
| built: "cl_state s p = Building sg \<Longrightarrow> store_instance a sg v (cl_cont s) = (w, c)
    \<Longrightarrow> make_step a s (s\<lparr>cl_cont := c, cl_state := (cl_state s)(p := Done w)\<rparr>)"
| failed: "cl_state s p = Building sg \<Longrightarrow> make_step a s (s\<lparr>cl_state := (cl_state s)(p := Failed)\<rparr>)"
| other: "leaves_alone a (cl_cont s) c \<Longrightarrow> make_step a s (s\<lparr>cl_cont := c\<rparr>)"

inductive make_reach :: "string \<Rightarrow> 'v calls \<Rightarrow> 'v calls \<Rightarrow> bool" for a s where
  refl: "make_reach a s s"
| step: "make_reach a s t \<Longrightarrow> make_step a t u \<Longrightarrow> make_reach a s u"

definition shared_inv :: "string \<Rightarrow> 'v calls \<Rightarrow> bool" where
  "shared_inv a s \<longleftrightarrow>
     is_singleton_name a (cl_cont s) \<and> (\<forall>p sg. cl_state s p = Building sg \<longrightarrow> sg)
     \<and> (\<forall>p v. cl_state s p = Done v \<longrightarrow> map_of (ct_instances (cl_cont s)) a = Some v)"

lemma store_instance_single:
  "store_instance a True v c = (w, c') \<Longrightarrow> map_of (ct_instances c') a = Some w \<and> ct_singletons c' = ct_singletons c
     \<and> (\<forall>u. map_of (ct_instances c) a = Some u \<longrightarrow> w = u)"
  by (auto simp: store_instance_def split: option.splits)

lemma shared_inv_step: "make_step a s t \<Longrightarrow> shared_inv a s \<Longrightarrow> shared_inv a t"
proof (induction rule: make_step.induct)
  case (built s p sg v w c)
  then have sg: sg by (auto simp: shared_inv_def)
  with built have "store_instance a True v (cl_cont s) = (w, c)" by simp
  from store_instance_single [OF this] built(3) show ?case
    by (auto simp: shared_inv_def is_singleton_name_def)
qed (auto simp: shared_inv_def leaves_alone_def is_singleton_name_def)

lemma shared_inv_reach: "make_reach a s t \<Longrightarrow> shared_inv a s \<Longrightarrow> shared_inv a t"
  by (induction rule: make_reach.induct) (auto intro: shared_inv_step)

section \<open>Properties\<close>

text \<open>
  C28. A singleton is one object: however the calls of \<open>Make\<close> for a singleton name interleave, with each other and with any other use of
  the container that leaves the name alone, all calls that return return the same instance.
\<close>

theorem singleton_shared:
  assumes "is_singleton_name a (cl_cont s)" and "\<forall>p. cl_state s p = Waiting" and "make_reach a s t"
    and "cl_state t p = Done v" and "cl_state t q = Done w"
  shows "v = w"
proof -
  have "shared_inv a s" using assms(1,2) by (simp add: shared_inv_def)
  from shared_inv_reach [OF assms(3) this] assms(4,5) show ?thesis
    unfolding shared_inv_def by (metis option.inject)
qed

definition demo_calls :: "nat calls" where
  "demo_calls = \<lparr>cl_cont = Container_Singleton ''db'' 7 NewContainer, cl_state = (\<lambda>_. Waiting)\<rparr>"

text \<open>Two calls both start building; the first stores 1, the second gets it although it built 2.\<close>

theorem singleton_shared_witness:
  "\<exists>t. make_reach ''db'' demo_calls t \<and> cl_state t 0 = Done (1 :: nat) \<and> (\<exists>w. cl_state t 1 = Done w \<and> w = 1)"
proof -
  define c where "c = Container_Singleton ''db'' 7 (NewContainer :: nat Container)"
  define c3 where "c3 = c\<lparr>ct_instances := [(''db'', 1)]\<rparr>"
  define s1 where "s1 = \<lparr>cl_cont = c, cl_state = (\<lambda>_. Waiting)(0 := Building True)\<rparr>"
  define s2 where "s2 = \<lparr>cl_cont = c, cl_state = (\<lambda>_. Waiting)(0 := Building True, 1 := Building True)\<rparr>"
  define s3 where "s3 = \<lparr>cl_cont = c3, cl_state = (\<lambda>_. Waiting)(0 := Done 1, 1 := Building True)\<rparr>"
  define s4 where "s4 = \<lparr>cl_cont = c3, cl_state = (\<lambda>_. Waiting)(0 := Done 1, 1 := Done 1)\<rparr>"
  have c: "is_singleton_name ''db'' c" "map_of (ct_instances c) ''db'' = None" "map_of (ct_bindings c) ''db'' = Some 7"
    by (simp_all add: c_def Container_Singleton_def NewContainer_def is_singleton_name_def)
  have st: "store_instance ''db'' True 1 c = (1, c3)" "store_instance ''db'' True 2 c3 = (1, c3)"
    by (simp_all add: store_instance_def c3_def c(2)) (simp add: c_def Container_Singleton_def NewContainer_def)
  have dc: "demo_calls = \<lparr>cl_cont = c, cl_state = (\<lambda>_. Waiting)\<rparr>" by (simp add: demo_calls_def c_def)
  have single: "is_singleton_name ''db'' (cl_cont demo_calls)" by (simp add: dc c(1))
  have a1: "make_step ''db'' demo_calls s1"
    using make_step.start [of demo_calls 0 "''db''" 7] c by (simp add: dc s1_def)
  have a2: "make_step ''db'' s1 s2"
    using make_step.start [of s1 1 "''db''" 7] c by (simp add: s1_def s2_def)
  have a3: "make_step ''db'' s2 s3"
  proof -
    have "(cl_state s2)(0 := Done 1) = cl_state s3" by (rule ext) (simp add: s2_def s3_def)
    then have "s2\<lparr>cl_cont := c3, cl_state := (cl_state s2)(0 := Done 1)\<rparr> = s3" by (simp add: s2_def s3_def)
    moreover have "cl_state s2 0 = Building True" "cl_cont s2 = c" by (simp_all add: s2_def)
    ultimately show ?thesis using make_step.built [of s2 0 True "''db''" 1 1 c3] st(1) by metis
  qed
  have a4: "make_step ''db'' s3 s4"
    using make_step.built [of s3 1 True "''db''" 2 1 c3] st(2) by (simp add: s3_def s4_def)
  have r: "make_reach ''db'' demo_calls s4"
    by (rule make_reach.step [OF make_reach.step [OF make_reach.step [OF make_reach.step [OF make_reach.refl a1] a2] a3] a4])
  have d: "cl_state s4 0 = Done 1" "cl_state s4 1 = Done 1" by (simp_all add: s4_def)
  have "\<forall>p. cl_state demo_calls p = Waiting" by (simp add: demo_calls_def)
  from singleton_shared [OF single this r d] r d show ?thesis by auto
qed

text \<open>
  Registering a name again does not take effect once it has an instance: \<open>Make\<close> keeps returning the old instance, also after a
  transient \<open>Bind\<close>, which should build a new one at every call.
\<close>

theorem rebind_ignored:
  assumes "map_of (ct_aliases c) a = None"
  shows "fst (Container_Make fac a (Container_Bind a f (Container_Instance a v c))) = Inr v"
  using assms by (simp add: Container_Make_def Container_Bind_def Container_Instance_def resolve_alias_def)

text \<open>
  \<open>MakeInto\<close> respects types: the variable it writes to keeps a value that its type can hold, and on an error it is untouched.
\<close>

theorem make_into_typed:
  assumes "assignable (typeOf old) t"
    and "Container_MakeInto fac typeOf assignable name (DestPtr t old) c = ((err, dst), c')"
  shows "\<exists>v. dst = DestPtr t v \<and> assignable (typeOf v) t \<and> (err \<noteq> None \<longrightarrow> v = old)"
  using assms by (auto simp: Container_MakeInto_def split: prod.splits sum.splits if_splits)

theorem make_into_typed_witness:
  "\<exists>v. snd (fst (Container_MakeInto (\<lambda>_ c. (Inr (3 :: int), c)) (\<lambda>v. v < 10) (=) ''n'' (DestPtr True 5) (Container_Bind ''n'' 0 NewContainer)))
     = DestPtr True v \<and> v < 10"
proof -
  obtain err dst c' where r: "Container_MakeInto (\<lambda>_ c. (Inr (3 :: int), c)) (\<lambda>v. v < 10) (=) ''n'' (DestPtr True 5)
      (Container_Bind ''n'' 0 NewContainer) = ((err, dst), c')"
    by (metis prod.collapse)
  show ?thesis using make_into_typed [OF _ r] unfolding r by auto
qed

text \<open>Providers are registered before any of them is booted, and booted once, in the order of registration.\<close>

theorem boot_once:
  "ap_app (App_Boot (App_Register ps \<lparr>ap_app = x, ap_providers = [], ap_booted = False\<rparr>)) = fold sp_Boot ps (fold sp_Register ps x)
   \<and> App_Boot (App_Boot a) = App_Boot a"
  by (simp add: App_Boot_def App_Register_def)

text \<open>A seeder runs only if all seeders before it succeeded, and the run stops at the first error.\<close>

theorem seeders_stop_at_error:
  assumes "Runner_Run r d = (Some e, d')"
  shows "\<exists>us ns vs d1 msg. r = us @ ns # vs \<and> Runner_Run us d = (None, d1) \<and> ns_Run ns d1 = (Some msg, d') \<and> e = SeedFailed (ns_name ns) msg"
  using assms
proof (induction r arbitrary: d)
  case (Cons n r)
  show ?case
  proof (cases "fst (ns_Run n d)")
    case None
    then obtain d1 where n: "ns_Run n d = (None, d1)" by (cases "ns_Run n d") simp
    with Cons obtain us ns vs d2 msg where "r = us @ ns # vs" "Runner_Run us d1 = (None, d2)" "ns_Run ns d2 = (Some msg, d')"
      "e = SeedFailed (ns_name ns) msg" by fastforce
    with n show ?thesis by (intro exI [of _ "n # us"]) auto
  next
    case (Some msg)
    with Cons.prems show ?thesis by (intro exI [of _ "[]"]) (cases "ns_Run n d", auto)
  qed
qed simp

end
