(* ===== verification/Ops_Health.thy ===== *)
theory Ops_Health
  imports Http_Core
begin

text \<open>
  Model of \<open>framework/health/health.go\<close> and \<open>framework/scheduler/scheduler.go\<close>.

  \<open>Run\<close> starts one goroutine per check; \<open>order\<close> lists the positions of the checks in the order in which they finish and
  \<open>latency\<close> says how long each took. A check is a function of the request's context. The encoder of the report is an argument.
  The cron engine of the scheduler is the function that accepts or refuses an expression; ticks and the ends of runs are the steps of
  a relation.
\<close>

section \<open>Health: data\<close>

datatype Status = StatusPass | StatusWarn | StatusFail | StatusOther string

record Result =
  rs_Status :: Status
  rs_Message :: string
  rs_Latency :: duration

record 'x Check =
  ck_Name :: string
  ck_Fn :: "'x \<Rightarrow> Result"

record Report =
  rep_Status :: Status
  rep_Checks :: "(string, Result) gomap"
  rep_Version :: string

record 'x Registry =
  rg_checks :: "'x Check list"
  rg_version :: string

definition Health_New :: "string \<Rightarrow> 'x Registry" where
  "Health_New version = \<lparr>rg_checks = [], rg_version = version\<rparr>"

definition Health_Register :: "string \<Rightarrow> ('x \<Rightarrow> Result) \<Rightarrow> 'x Registry \<Rightarrow> 'x Registry" where
  "Health_Register name fn r = r\<lparr>rg_checks := rg_checks r @ [\<lparr>ck_Name = name, ck_Fn = fn\<rparr>]\<rparr>"

section \<open>Health: running\<close>

definition finished :: "'x Registry \<Rightarrow> 'x \<Rightarrow> (nat \<Rightarrow> duration) \<Rightarrow> nat \<Rightarrow> string \<times> Result" where
  "finished r ctx latency i = (let c = rg_checks r ! i in (ck_Name c, (ck_Fn c ctx)\<lparr>rs_Latency := latency i\<rparr>))"

definition collect_results :: "(string \<times> Result) list \<Rightarrow> (string, Result) gomap" where
  "collect_results ds = fold (\<lambda>(k, v) m. AList.update k v m) ds []"

fun overall_loop :: "Status \<Rightarrow> Result list \<Rightarrow> Status" where
  "overall_loop overall [] = overall"
| "overall_loop overall (res # rest) =
     (if rs_Status res = StatusFail then StatusFail
      else if rs_Status res = StatusWarn \<and> overall \<noteq> StatusFail then overall_loop StatusWarn rest
      else overall_loop overall rest)"

definition Health_Run :: "'x Registry \<Rightarrow> 'x \<Rightarrow> nat list \<Rightarrow> (nat \<Rightarrow> duration) \<Rightarrow> Report" where
  "Health_Run r ctx order latency =
     (let results = collect_results (map (finished r ctx latency) order)
      in \<lparr>rep_Status = overall_loop StatusPass (map snd results), rep_Checks = results, rep_Version = rg_version r\<rparr>)"

definition writeHealth :: "(Report \<Rightarrow> string) \<Rightarrow> Report \<Rightarrow> wire \<Rightarrow> wire" where
  "writeHealth encode resp w =
     (let code = (if rep_Status resp = StatusFail then 503 else 200);
          w1 = w\<lparr>w_header := Header_Set (w_header w) ''Content-Type'' ''application/json''\<rparr>
      in wire_Write (wire_WriteHeader w1 code) (encode resp))"

definition redact :: "Report \<Rightarrow> Report" where
  "redact resp = resp\<lparr>rep_Checks := map (\<lambda>x. (fst x, (snd x)\<lparr>rs_Message := []\<rparr>)) (rep_Checks resp)\<rparr>"

definition Health_Handler :: "(Report \<Rightarrow> string) \<Rightarrow> 'x Registry \<Rightarrow> 'x \<Rightarrow> nat list \<Rightarrow> (nat \<Rightarrow> duration) \<Rightarrow> wire \<Rightarrow> wire" where
  "Health_Handler encode r ctx order latency w = writeHealth encode (redact (Health_Run r ctx order latency)) w"

text \<open>\<open>http.Error\<close>.\<close>

definition http_Error :: "string \<Rightarrow> int \<Rightarrow> wire \<Rightarrow> wire" where
  "http_Error msg code w =
     (let h1 = AList.delete (canonHeader ''Content-Length'') (w_header w);
          h2 = Header_Set (Header_Set h1 ''Content-Type'' ''text/plain; charset=utf-8'') ''X-Content-Type-Options'' ''nosniff''
      in wire_Write (wire_WriteHeader (w\<lparr>w_header := h2\<rparr>) code) (msg @ [CHR 0x0A]))"

definition Health_DetailedHandler ::
  "(Report \<Rightarrow> string) \<Rightarrow> ('q \<Rightarrow> bool) option \<Rightarrow> 'x Registry \<Rightarrow> 'q \<Rightarrow> 'x \<Rightarrow> nat list \<Rightarrow> (nat \<Rightarrow> duration) \<Rightarrow> wire \<Rightarrow> wire" where
  "Health_DetailedHandler encode authorize r req ctx order latency w =
     (case authorize of
        None \<Rightarrow> http_Error ''forbidden'' 403 w
      | Some auth \<Rightarrow>
          if \<not> auth req then http_Error ''forbidden'' 403 w
          else writeHealth encode (Health_Run r ctx order latency) w)"

definition Health_Ping :: "'x Check" where
  "Health_Ping = \<lparr>ck_Name = ''ping'', ck_Fn = (\<lambda>_. \<lparr>rs_Status = StatusPass, rs_Message = ''pong'', rs_Latency = 0\<rparr>)\<rparr>"

definition Health_Database :: "string \<Rightarrow> ('x \<Rightarrow> string option) \<Rightarrow> 'x Check" where
  "Health_Database name ping =
     \<lparr>ck_Name = name,
      ck_Fn = (\<lambda>ctx. case ping ctx of
                 Some e \<Rightarrow> \<lparr>rs_Status = StatusFail, rs_Message = e, rs_Latency = 0\<rparr>
               | None \<Rightarrow> \<lparr>rs_Status = StatusPass, rs_Message = [], rs_Latency = 0\<rparr>)\<rparr>"

section \<open>Health: lemmas\<close>

definition worst :: "Status set \<Rightarrow> Status" where
  "worst S = (if StatusFail \<in> S then StatusFail else if StatusWarn \<in> S then StatusWarn else StatusPass)"

lemma overall_loop_worst:
  "overall \<in> {StatusPass, StatusWarn} \<Longrightarrow> overall_loop overall rs = worst (insert overall (rs_Status ` set rs))"
  by (induction rs arbitrary: overall) (auto simp: worst_def)

lemma collect_fold_lookup:
  "map_of (fold (\<lambda>(k, v) m. AList.update k v m) ds m) k = (case map_of (rev ds) k of None \<Rightarrow> map_of m k | Some v \<Rightarrow> Some v)"
proof (induction ds arbitrary: m)
  case (Cons d ds)
  then show ?case by (cases d) (auto simp: map_add_def split: option.splits)
qed simp

lemma collect_fold_distinct: "distinct (map fst m) \<Longrightarrow> distinct (map fst (fold (\<lambda>(k, v) m. AList.update k v m) ds m))"
  by (induction ds arbitrary: m) (auto simp: distinct_update)

lemma collect_lookup: "map_of (collect_results ds) k = map_of (rev ds) k"
  by (simp add: collect_results_def collect_fold_lookup split: option.splits)

lemma collect_set:
  assumes "distinct (map fst ds)"
  shows "set (collect_results ds) = set ds"
proof -
  have d: "distinct (map fst (collect_results ds))" unfolding collect_results_def by (rule collect_fold_distinct) simp
  have r: "distinct (map fst (rev ds))" using assms by (simp flip: rev_map)
  have "(k, v) \<in> set (collect_results ds) \<longleftrightarrow> (k, v) \<in> set ds" for k v
    using map_of_eq_Some_iff [OF d, of k v] map_of_eq_Some_iff [OF r, of k v] by (simp add: collect_lookup)
  then show ?thesis by auto
qed

lemma names_finished: "map fst (map (finished r ctx latency) order) = map (\<lambda>i. ck_Name (rg_checks r ! i)) order"
  by (simp add: finished_def Let_def)

text \<open>The checks have distinct names and each finishes once.\<close>

definition run_ok :: "'x Registry \<Rightarrow> nat list \<Rightarrow> bool" where
  "run_ok r order \<longleftrightarrow> distinct (map ck_Name (rg_checks r)) \<and> distinct order \<and> set order = {..<length (rg_checks r)}"

lemma run_ok_names: "run_ok r order \<Longrightarrow> distinct (map fst (map (finished r ctx latency) order))"
proof -
  assume a: "run_ok r order"
  let ?ns = "map ck_Name (rg_checks r)"
  have "inj_on (\<lambda>i. ck_Name (rg_checks r ! i)) (set order)"
  proof (rule inj_onI)
    fix i j assume "i \<in> set order" "j \<in> set order" "ck_Name (rg_checks r ! i) = ck_Name (rg_checks r ! j)"
    then have "i < length ?ns" "j < length ?ns" "?ns ! i = ?ns ! j" using a by (auto simp: run_ok_def)
    with a show "i = j" by (simp add: run_ok_def nth_eq_iff_index_eq del: nth_map)
  qed
  with a show ?thesis unfolding names_finished distinct_map by (simp add: run_ok_def)
qed

section \<open>Health: properties\<close>

text \<open>
  The report does not depend on the order in which the checks finish: it has every check's result under its name, and the overall
  status is fail if some check fails, else warn if some check warns, else pass. The endpoint answers 503 exactly for fail.
\<close>

theorem health_status_spec:
  fixes r :: "'x Registry"
  assumes "run_ok r order"
  shows "rep_Status (Health_Run r ctx order latency) = worst ((\<lambda>c. rs_Status (ck_Fn c ctx)) ` set (rg_checks r))
    \<and> set (rep_Checks (Health_Run r ctx order latency)) = finished r ctx latency ` {..<length (rg_checks r)}
    \<and> (w_sent w = None \<longrightarrow> map_option fst (w_sent (Health_Handler encode r ctx order latency w))
        = Some (if \<exists>c \<in> set (rg_checks r). rs_Status (ck_Fn c ctx) = StatusFail then 503 else 200))"
proof -
  let ?ds = "map (finished r ctx latency) order"
  have res: "set (collect_results ?ds) = finished r ctx latency ` {..<length (rg_checks r)}"
    using collect_set [OF run_ok_names [OF assms]] assms by (simp add: run_ok_def)
  have "rs_Status ` snd ` set (collect_results ?ds) = (\<lambda>c. rs_Status (ck_Fn c ctx)) ` (\<lambda>i. rg_checks r ! i) ` {..<length (rg_checks r)}"
    unfolding res image_image by (simp add: finished_def Let_def)
  also have "(\<lambda>i. rg_checks r ! i) ` {..<length (rg_checks r)} = set (rg_checks r)"
    by (auto simp: in_set_conv_nth)
  finally have st: "rep_Status (Health_Run r ctx order latency) = worst ((\<lambda>c. rs_Status (ck_Fn c ctx)) ` set (rg_checks r))"
    by (simp add: Health_Run_def overall_loop_worst) (simp add: worst_def image_image)
  have "w_sent w = None \<Longrightarrow> map_option fst (w_sent (Health_Handler encode r ctx order latency w))
      = Some (if rep_Status (Health_Run r ctx order latency) = StatusFail then 503 else 200)"
    by (simp add: Health_Handler_def writeHealth_def redact_def wire_Write_def wire_WriteHeader_def Let_def)
  moreover have "worst (f ` A) = StatusFail \<longleftrightarrow> (\<exists>c \<in> A. f c = StatusFail)" for f :: "'x Check \<Rightarrow> Status" and A
    by (force simp: worst_def)
  ultimately show ?thesis using st res by (simp add: Health_Run_def Let_def)
qed

definition demo_registry :: "unit Registry" where
  "demo_registry = \<lparr>rg_checks = [Health_Ping, Health_Database ''db'' (\<lambda>_. Some ''refused'')], rg_version = ''1''\<rparr>"

theorem health_status_spec_witness:
  "rep_Status (Health_Run demo_registry () [1, 0] (\<lambda>_. 5)) = StatusFail"
proof -
  have "run_ok demo_registry [1, 0]"
    by (auto simp: run_ok_def demo_registry_def Health_Ping_def Health_Database_def)
  from health_status_spec [OF this] show ?thesis
    by (auto simp: worst_def demo_registry_def Health_Ping_def Health_Database_def)
qed

text \<open>Two registries that differ only in the messages their checks report.\<close>

definition same_but_messages :: "'x Registry \<Rightarrow> 'x Registry \<Rightarrow> 'x \<Rightarrow> bool" where
  "same_but_messages r r' ctx \<longleftrightarrow>
     rg_version r = rg_version r' \<and> length (rg_checks r) = length (rg_checks r')
     \<and> (\<forall>i < length (rg_checks r). ck_Name (rg_checks r ! i) = ck_Name (rg_checks r' ! i)
          \<and> (ck_Fn (rg_checks r ! i) ctx)\<lparr>rs_Message := []\<rparr> = (ck_Fn (rg_checks r' ! i) ctx)\<lparr>rs_Message := []\<rparr>)"

abbreviation no_msg :: "string \<times> Result \<Rightarrow> string \<times> Result" where
  "no_msg x \<equiv> (fst x, (snd x)\<lparr>rs_Message := []\<rparr>)"

lemma update_no_msg: "map no_msg (AList.update k v m) = AList.update k (v\<lparr>rs_Message := []\<rparr>) (map no_msg m)"
  by (induction m) auto

lemma collect_no_msg: "map no_msg (collect_results ds) = collect_results (map no_msg ds)"
proof -
  have "map no_msg (fold (\<lambda>(k, v) m. AList.update k v m) ds m) = fold (\<lambda>(k, v) m. AList.update k v m) (map no_msg ds) (map no_msg m)" for m
    by (induction ds arbitrary: m) (auto simp: update_no_msg)
  then show ?thesis by (simp add: collect_results_def)
qed

lemma overall_no_msg: "overall_loop o' (map snd xs) = overall_loop o' (map snd (map no_msg xs))"
  by (induction xs arbitrary: o') auto

text \<open>
  The public health endpoint leaks no messages: whatever texts the checks put into their messages, the response that goes out is
  the same.
\<close>

theorem health_public_redacts:
  assumes "same_but_messages r r' ctx" and "set order \<subseteq> {..<length (rg_checks r)}"
  shows "Health_Handler encode r ctx order latency w = Health_Handler encode r' ctx order latency w"
proof -
  let ?f = "finished r ctx latency" and ?f' = "finished r' ctx latency"
  have "no_msg (?f i) = no_msg (?f' i)" if "i \<in> set order" for i
  proof -
    have n: "ck_Name (rg_checks r ! i) = ck_Name (rg_checks r' ! i)"
      and m: "(ck_Fn (rg_checks r ! i) ctx)\<lparr>rs_Message := []\<rparr> = (ck_Fn (rg_checks r' ! i) ctx)\<lparr>rs_Message := []\<rparr>"
      using assms that by (auto simp: same_but_messages_def)
    from n m show ?thesis
      by (cases "ck_Fn (rg_checks r ! i) ctx"; cases "ck_Fn (rg_checks r' ! i) ctx") (simp add: finished_def Let_def)
  qed
  then have ds: "map no_msg (map ?f order) = map no_msg (map ?f' order)" by simp
  have checks: "map no_msg (collect_results (map ?f order)) = map no_msg (collect_results (map ?f' order))"
    unfolding collect_no_msg ds ..
  have "redact (Health_Run r ctx order latency) = redact (Health_Run r' ctx order latency)"
    using checks assms(1) overall_no_msg [of StatusPass "collect_results (map ?f order)"]
      overall_no_msg [of StatusPass "collect_results (map ?f' order)"]
    by (simp add: redact_def Health_Run_def same_but_messages_def Let_def case_prod_beta)
  then show ?thesis by (simp add: Health_Handler_def)
qed

theorem health_public_redacts_witness:
  "Health_Handler (\<lambda>rep. concat (map fst (rep_Checks rep))) \<lparr>rg_checks = [Health_Database ''db'' (\<lambda>_ :: unit. Some ''password wrong'')], rg_version = []\<rparr> () [0] (\<lambda>_. 5) new_wire
   = Health_Handler (\<lambda>rep. concat (map fst (rep_Checks rep))) \<lparr>rg_checks = [Health_Database ''db'' (\<lambda>_. Some ''refused'')], rg_version = []\<rparr> () [0] (\<lambda>_. 5) new_wire"
  by (rule health_public_redacts) (simp_all add: same_but_messages_def Health_Database_def)

text \<open>Two checks under one name: the one that finishes last hides the other, so a failure can go unreported.\<close>

theorem duplicate_check_masks_failure:
  assumes "rg_checks r = [Health_Database n (\<lambda>_. Some e), Health_Database n (\<lambda>_. None)]"
  shows "rep_Status (Health_Run r ctx [0, 1] latency) = StatusPass"
  using assms by (simp add: Health_Run_def collect_results_def finished_def Health_Database_def Let_def)

section \<open>Scheduler\<close>

record Job =
  jb_name :: string
  jb_schedule :: string
  jb_fn :: nat \<comment> \<open>which function the job calls\<close>
  jb_timeout :: duration
  jb_running :: bool

record Scheduler =
  sd_jobs :: "Job list"
  sd_registered :: "nat list" \<comment> \<open>the jobs added to the cron engine\<close>
  sd_started :: bool

datatype sched_error = InvalidTime string | RegisterError string string

definition Scheduler_New :: Scheduler where
  "Scheduler_New = \<lparr>sd_jobs = [], sd_registered = [], sd_started = False\<rparr>"

definition Scheduler_Every :: "string \<Rightarrow> string \<Rightarrow> nat \<Rightarrow> Scheduler \<Rightarrow> nat \<times> Scheduler" where
  "Scheduler_Every expr name fn s =
     (length (sd_jobs s),
      s\<lparr>sd_jobs := sd_jobs s @ [\<lparr>jb_name = name, jb_schedule = expr, jb_fn = fn, jb_timeout = 5 * minute, jb_running = False\<rparr>]\<rparr>)"

text \<open>\<open>scan\<close> is \<open>fmt.Sscanf\<close> with the format \<open>%d:%d\<close>.\<close>

definition Scheduler_Daily :: "(string \<Rightarrow> (int \<times> int) option) \<Rightarrow> string \<Rightarrow> string \<Rightarrow> nat \<Rightarrow> Scheduler \<Rightarrow> (sched_error + nat) \<times> Scheduler" where
  "Scheduler_Daily scan hhmm name fn s =
     (case scan hhmm of
        None \<Rightarrow> (Inl (InvalidTime hhmm), s)
      | Some (hh, mm) \<Rightarrow>
          (case Scheduler_Every (''0 '' @ itoa mm @ '' '' @ itoa hh @ '' * * *'') name fn s of (j, s1) \<Rightarrow> (Inr j, s1)))"

definition Scheduler_Hourly :: "string \<Rightarrow> nat \<Rightarrow> Scheduler \<Rightarrow> nat \<times> Scheduler" where
  "Scheduler_Hourly name fn s = Scheduler_Every ''0 0 * * * *'' name fn s"

definition Job_WithTimeout :: "duration \<Rightarrow> Job \<Rightarrow> Job" where
  "Job_WithTimeout d j = j\<lparr>jb_timeout := d\<rparr>"

fun start_loop :: "(string \<Rightarrow> bool) \<Rightarrow> nat list \<Rightarrow> Scheduler \<Rightarrow> sched_error option \<times> Scheduler" where
  "start_loop accepts [] s = (None, s)"
| "start_loop accepts (i # is) s =
     (if accepts (jb_schedule (sd_jobs s ! i)) then start_loop accepts is (s\<lparr>sd_registered := sd_registered s @ [i]\<rparr>)
      else (Some (RegisterError (jb_name (sd_jobs s ! i)) (jb_schedule (sd_jobs s ! i))), s))"

definition Scheduler_Start :: "(string \<Rightarrow> bool) \<Rightarrow> Scheduler \<Rightarrow> sched_error option \<times> Scheduler" where
  "Scheduler_Start accepts s =
     (case start_loop accepts [0..<length (sd_jobs s)] s of
        (Some e, s1) \<Rightarrow> (Some e, s1)
      | (None, s1) \<Rightarrow> (None, s1\<lparr>sd_started := True\<rparr>))"

text \<open>
  A run of a job in two parts: the compare-and-swap at a tick, which says whether the function is called, and the deferred reset after
  the function has returned, failed or panicked.
\<close>

definition run_begin :: "Job \<Rightarrow> bool \<times> Job" where
  "run_begin j = (if jb_running j then (False, j) else (True, j\<lparr>jb_running := True\<rparr>))"

datatype run_result = RunOk | RunError string | RunPanic string

definition run_end :: "run_result \<Rightarrow> Job \<Rightarrow> Job" where
  "run_end res j = j\<lparr>jb_running := False\<rparr>"

text \<open>The state of one job: how many calls of its function are in progress, how many were made in total.\<close>

record job_sys =
  js_job :: Job
  js_active :: nat
  js_calls :: nat

inductive job_step :: "job_sys \<Rightarrow> job_sys \<Rightarrow> bool" where
  tick_run: "run_begin (js_job s) = (True, j)
    \<Longrightarrow> job_step s (s\<lparr>js_job := j, js_active := js_active s + 1, js_calls := js_calls s + 1\<rparr>)"
| tick_skip: "run_begin (js_job s) = (False, j) \<Longrightarrow> job_step s (s\<lparr>js_job := j\<rparr>)"
| run_done: "js_active s > 0 \<Longrightarrow> job_step s (s\<lparr>js_job := run_end res (js_job s), js_active := js_active s - 1\<rparr>)"

inductive_cases job_stepE: "job_step s t"

abbreviation fresh_job :: "Job \<Rightarrow> job_sys" where
  "fresh_job j \<equiv> \<lparr>js_job = j, js_active = 0, js_calls = 0\<rparr>"

definition job_inv :: "job_sys \<Rightarrow> bool" where
  "job_inv s \<longleftrightarrow> js_active s = (if jb_running (js_job s) then 1 else 0)"

lemma job_inv_step: "job_step s t \<Longrightarrow> job_inv s \<Longrightarrow> job_inv t"
  by (induction rule: job_step.induct) (auto simp: job_inv_def run_begin_def run_end_def split: if_splits)

lemma job_inv_reach: "job_step\<^sup>*\<^sup>* s t \<Longrightarrow> job_inv s \<Longrightarrow> job_inv t"
  by (induction rule: rtranclp_induct) (auto intro: job_inv_step)

text \<open>
  A scheduled job never overlaps itself and is never stuck: in every reachable state at most one call of its function is in
  progress, and when none is, also after a run that panicked, the next tick starts one.
\<close>

theorem job_runs_alone:
  assumes "\<not> jb_running j" and "job_step\<^sup>*\<^sup>* (fresh_job j) s"
  shows "js_active s \<le> 1 \<and> (js_active s = 0 \<longrightarrow> fst (run_begin (js_job s)))"
proof -
  have "job_inv (fresh_job j)" using assms(1) by (simp add: job_inv_def)
  from job_inv_reach [OF assms(2) this] show ?thesis by (auto simp: job_inv_def run_begin_def)
qed

theorem job_runs_alone_witness:
  "js_active (\<lparr>js_job = \<lparr>jb_name = ''n'', jb_schedule = ''s'', jb_fn = 0, jb_timeout = 0, jb_running = True\<rparr>, js_active = 1, js_calls = 1\<rparr>) \<le> 1"
proof -
  let ?j = "\<lparr>jb_name = ''n'', jb_schedule = ''s'', jb_fn = 0, jb_timeout = 0, jb_running = False\<rparr>"
  have "job_step (fresh_job ?j) (\<lparr>js_job = ?j\<lparr>jb_running := True\<rparr>, js_active = 1, js_calls = 1\<rparr>)"
    using tick_run [of "fresh_job ?j" "?j\<lparr>jb_running := True\<rparr>"] by (simp add: run_begin_def)
  then have "job_step\<^sup>*\<^sup>* (fresh_job ?j) (\<lparr>js_job = ?j\<lparr>jb_running := True\<rparr>, js_active = 1, js_calls = 1\<rparr>)" by simp
  from job_runs_alone [OF _ this] show ?thesis by simp
qed

text \<open>One job with an expression the engine refuses keeps every job from running: \<open>Start\<close> returns before starting the engine.\<close>

theorem bad_schedule_stops_all:
  assumes "j \<in> set (sd_jobs s)" and "\<not> accepts (jb_schedule j)" and "\<not> sd_started s"
  shows "fst (Scheduler_Start accepts s) \<noteq> None \<and> \<not> sd_started (snd (Scheduler_Start accepts s))"
proof -
  obtain i where i: "i < length (sd_jobs s)" "sd_jobs s ! i = j" using assms(1) by (auto simp: in_set_conv_nth)
  have "sd_jobs s' = sd_jobs s \<Longrightarrow> i \<in> set is \<Longrightarrow> \<not> sd_started s' \<Longrightarrow>
      fst (start_loop accepts is s') \<noteq> None \<and> \<not> sd_started (snd (start_loop accepts is s'))" for "is" s'
    using i(2) assms(2) by (induction "is" arbitrary: s') auto
  from this [of s "[0..<length (sd_jobs s)]"] i(1) assms(3) show ?thesis
    by (auto simp: Scheduler_Start_def split: prod.splits option.splits)
qed

end
