(* ===== verification/Go_Base64.thy ===== *)
theory Go_Base64
  imports Oni_Prelude
begin

text \<open>
  Package \<open>encoding/base64\<close>, the padded encodings \<open>StdEncoding\<close> and \<open>URLEncoding\<close>. An encoding is given by its characters for the
  values 62 and 63. Decoding skips carriage returns and line feeds, wants the padding to be complete and at the end, and does not
  look at the unused bits of the last character.
\<close>

record base64 =
  b64_62 :: char
  b64_63 :: char

definition StdEncoding :: base64 where "StdEncoding = \<lparr>b64_62 = CHR ''+'', b64_63 = CHR ''/''\<rparr>"
definition URLEncoding :: base64 where "URLEncoding = \<lparr>b64_62 = CHR ''-'', b64_63 = CHR ''_''\<rparr>"

definition b64_char :: "base64 \<Rightarrow> nat \<Rightarrow> char" where
  "b64_char e n =
     (if n < 26 then char_of (65 + n)
      else if n < 52 then char_of (71 + n)
      else if n < 62 then char_of (n - 4)
      else if n = 62 then b64_62 e
      else b64_63 e)"

definition b64_value :: "base64 \<Rightarrow> char \<Rightarrow> nat option" where
  "b64_value e c =
     (let n = of_char c
      in if c = b64_62 e then Some 62
         else if c = b64_63 e then Some 63
         else if 65 \<le> n \<and> n < 91 then Some (n - 65)
         else if 97 \<le> n \<and> n < 123 then Some (n - 71)
         else if 48 \<le> n \<and> n < 58 then Some (n + 4)
         else None)"

text \<open>The four 6-bit groups of three bytes.\<close>

fun EncodeToString :: "base64 \<Rightarrow> string \<Rightarrow> string" where
  "EncodeToString e (a # b # c # s) =
     (let x = of_char a; y = of_char b; z = of_char c
      in b64_char e (x div 4) # b64_char e (x mod 4 * 16 + y div 16) # b64_char e (y mod 16 * 4 + z div 64) # b64_char e (z mod 64)
         # EncodeToString e s)"
| "EncodeToString e [a, b] =
     (let x = of_char a; y = of_char b
      in [b64_char e (x div 4), b64_char e (x mod 4 * 16 + y div 16), b64_char e (y mod 16 * 4), CHR ''=''])"
| "EncodeToString e [a] =
     (let x = of_char a in [b64_char e (x div 4), b64_char e (x mod 4 * 16), CHR ''='', CHR ''=''])"
| "EncodeToString e [] = []"

fun b64_decode :: "base64 \<Rightarrow> string \<Rightarrow> string option" where
  "b64_decode e (a # b # c # d # s) =
     (case (b64_value e a, b64_value e b) of
        (Some w, Some x) \<Rightarrow>
          if c = CHR ''=''
          then (if d = CHR ''='' \<and> s = [] then Some [char_of (w * 4 + x div 16)] else None)
          else (case b64_value e c of
                  None \<Rightarrow> None
                | Some y \<Rightarrow>
                    if d = CHR ''=''
                    then (if s = [] then Some [char_of (w * 4 + x div 16), char_of (x mod 16 * 16 + y div 4)] else None)
                    else (case (b64_value e d, b64_decode e s) of
                            (Some z, Some r) \<Rightarrow> Some (char_of (w * 4 + x div 16) # char_of (x mod 16 * 16 + y div 4) # char_of (y mod 4 * 64 + z) # r)
                          | _ \<Rightarrow> None))
      | _ \<Rightarrow> None)"
| "b64_decode e [] = Some []"
| "b64_decode e s = None"

definition DecodeString :: "base64 \<Rightarrow> string \<Rightarrow> string option" where
  "DecodeString e s = b64_decode e (filter (\<lambda>c. c \<noteq> CHR 0x0A \<and> c \<noteq> CHR 0x0D) s)"

section \<open>Round trip\<close>

text \<open>What the two tables have in common; \<open>plain_char\<close> is neither padding nor blank.\<close>

definition plain_char :: "char \<Rightarrow> bool" where
  "plain_char c = ((of_char c :: nat) \<in> {43 ..< 61} \<union> {65 ..< 123})"

definition b64_ok :: "base64 \<Rightarrow> bool" where
  "b64_ok e \<longleftrightarrow> (of_char (b64_62 e) :: nat) \<in> {43, 45} \<and> (of_char (b64_63 e) :: nat) \<in> {47, 95}"

lemma b64_ok_encodings [simp]: "b64_ok StdEncoding" "b64_ok URLEncoding"
  by (simp_all add: b64_ok_def StdEncoding_def URLEncoding_def)

lemma of_char_nat_less: "(of_char c :: nat) < 256"
  using range_nat_of_char by auto

lemma char_eq_code: "c = d \<longleftrightarrow> (of_char c :: nat) = of_char d"
  by simp

lemma of_char_small: "n < 256 \<Longrightarrow> (of_char (char_of (n :: nat)) :: nat) = n"
  by simp

lemma b64_code: "b64_ok e \<Longrightarrow> n < 64 \<Longrightarrow> (of_char (b64_char e n) :: nat) =
    (if n < 26 then 65 + n else if n < 52 then 71 + n else if n < 62 then n - 4 else if n = 62 then of_char (b64_62 e) else of_char (b64_63 e))"
  by (simp add: b64_char_def)

lemma b64_value_char: "b64_ok e \<Longrightarrow> n < 64 \<Longrightarrow> b64_value e (b64_char e n) = Some n"
  unfolding b64_value_def Let_def char_eq_code [of "b64_char e n"] b64_code by (auto simp: b64_ok_def)

lemma b64_plain: "b64_ok e \<Longrightarrow> n < 64 \<Longrightarrow> plain_char (b64_char e n)"
  unfolding plain_char_def b64_code by (auto simp: b64_ok_def)

lemma plain_charD: "plain_char c \<Longrightarrow> c \<noteq> CHR ''='' \<and> c \<noteq> CHR 0x0A \<and> c \<noteq> CHR 0x0D \<and> c \<noteq> CHR '' ''"
  by (auto simp: plain_char_def)

lemma sextets:
  assumes "(x :: nat) < 256" and "(y :: nat) < 256" and "(z :: nat) < 256"
  shows "x div 4 < 64" "x mod 4 * 16 + y div 16 < 64" "y mod 16 * 4 + z div 64 < 64" "z mod 64 < 64" "x mod 4 * 16 < 64" "y mod 16 * 4 < 64"
  using assms by auto

lemma byte_digits:
  assumes "(y :: nat) < 256"
  shows "y div 16 div 16 = 0" "y div 64 div 4 = 0" "y div 16 mod 16 = y div 16" "y div 64 mod 4 = y div 64"
  using assms by simp_all

lemmas join_bytes = byte_digits [OF of_char_nat_less] div_mult_mod_eq

lemma b64_decode_encode: "b64_ok e \<Longrightarrow> b64_decode e (EncodeToString e s) = Some s"
proof (induction e s rule: EncodeToString.induct)
  case (1 e a b c s)
  note lt = of_char_nat_less [of a] of_char_nat_less [of b] of_char_nat_less [of c]
  note p = b64_plain [OF "1.prems", THEN plain_charD, THEN conjunct1]
  have "b64_decode e (EncodeToString e s) = Some s" using 1 by (metis (mono_tags))
  then show ?case
    using sextets [OF lt] p [OF sextets(3) [OF lt]] p [OF sextets(4) [OF lt]]
    by (simp add: Let_def b64_value_char [OF "1.prems"] join_bytes)
next
  case (2 e a b)
  note lt = of_char_nat_less [of a] of_char_nat_less [of b] of_char_nat_less [of b]
  note p = b64_plain [OF 2, THEN plain_charD, THEN conjunct1]
  show ?case
    using sextets [OF lt] p [OF sextets(6) [OF lt]] by (simp add: Let_def b64_value_char [OF 2] join_bytes)
next
  case (3 e a)
  note lt = of_char_nat_less [of a] of_char_nat_less [of a] of_char_nat_less [of a]
  show ?case using sextets [OF lt] by (simp add: Let_def b64_value_char [OF 3] join_bytes)
qed simp

lemma Encode_chars: "b64_ok e \<Longrightarrow> c \<in> set (EncodeToString e s) \<Longrightarrow> plain_char c \<or> c = CHR ''=''"
proof (induction e s rule: EncodeToString.induct)
  case (1 e a b c' s)
  note lt = of_char_nat_less [of a] of_char_nat_less [of b] of_char_nat_less [of c']
  show ?case using 1 b64_plain [OF "1.prems"(1)] sextets [OF lt] by (auto simp: Let_def)
next
  case (2 e a b)
  note lt = of_char_nat_less [of a] of_char_nat_less [of b] of_char_nat_less [of b]
  show ?case using 2 b64_plain [OF "2.prems"(1)] sextets [OF lt] by (auto simp: Let_def)
next
  case (3 e a)
  note lt = of_char_nat_less [of a] of_char_nat_less [of a] of_char_nat_less [of a]
  show ?case using 3 b64_plain [OF "3.prems"(1)] sextets [OF lt] by (auto simp: Let_def)
qed simp

theorem Decode_Encode: "b64_ok e \<Longrightarrow> DecodeString e (EncodeToString e s) = Some s"
proof -
  assume e: "b64_ok e"
  have "filter (\<lambda>c. c \<noteq> CHR 0x0A \<and> c \<noteq> CHR 0x0D) (EncodeToString e s) = EncodeToString e s"
    using Encode_chars [OF e] plain_charD by (intro filter_True) fastforce
  then show ?thesis using b64_decode_encode [OF e] by (simp add: DecodeString_def)
qed

end
