(* ===== verification/Secrets.thy ===== *)
theory Secrets
  imports App_Config Go_Base64
begin

text \<open>
  \<open>framework/secrets/secrets.go\<close>: the secrets manager and authenticated encryption with AES-GCM.

  The cryptographic primitives are parameters, their contract is the locale \<open>aead\<close>. Random bytes are an argument, \<^const>\<open>None\<close> when the
  random source fails; the encodings are those of \<open>encoding/base64\<close>.
\<close>

section \<open>Data\<close>

record crypto =
  cr_Seal :: "string \<Rightarrow> string \<Rightarrow> string \<Rightarrow> string" \<comment> \<open>key, nonce, plain text\<close>
  cr_Open :: "string \<Rightarrow> string \<Rightarrow> string \<Rightarrow> string option" \<comment> \<open>key, nonce, cipher text\<close>
  cr_scrypt :: "string \<Rightarrow> string \<Rightarrow> string option" \<comment> \<open>pass phrase, salt\<close>
  cr_sha256 :: "string \<Rightarrow> string"

datatype secret_error = CipherError nat | NonceError | RandError | Base64Error | TooShort | DecryptError | KeyBase64 | KeyLength nat

record SecretManager =
  sm_appKey :: string
  sm_secrets :: "(string, string) gomap"

section \<open>Encryption\<close>

text \<open>The key sizes of AES and the nonce size of GCM.\<close>

definition aes_key :: "string \<Rightarrow> bool" where
  "aes_key key = (length key \<in> {16, 24, 32})"

definition gcmNonceSize :: nat where "gcmNonceSize = 12"

definition Encrypt :: "crypto \<Rightarrow> string option \<Rightarrow> string \<Rightarrow> string \<Rightarrow> secret_error + string" where
  "Encrypt cr rnd key plaintext =
     (if \<not> aes_key key then Inl (CipherError (length key))
      else (case rnd of
              None \<Rightarrow> Inl NonceError
            | Some nonce \<Rightarrow> Inr (EncodeToString URLEncoding (nonce @ cr_Seal cr key nonce plaintext))))"

definition Decrypt :: "crypto \<Rightarrow> string \<Rightarrow> string \<Rightarrow> secret_error + string" where
  "Decrypt cr key encoded =
     (case DecodeString URLEncoding encoded of
        None \<Rightarrow> Inl Base64Error
      | Some ct \<Rightarrow>
          if \<not> aes_key key then Inl (CipherError (length key))
          else if length ct < gcmNonceSize then Inl TooShort
          else (case cr_Open cr key (take gcmNonceSize ct) (drop gcmNonceSize ct) of
                  None \<Rightarrow> Inl DecryptError
                | Some plain \<Rightarrow> Inr plain))"

section \<open>Keys\<close>

definition GenerateKey :: "string option \<Rightarrow> secret_error + string" where
  "GenerateKey rnd = (case rnd of None \<Rightarrow> Inl RandError | Some b \<Rightarrow> Inr (''base64:'' @ EncodeToString StdEncoding b))"

definition scryptSalt :: string where "scryptSalt = ''oniworks/secrets/kdf/v1''"

definition deriveKey :: "crypto \<Rightarrow> string \<Rightarrow> string" where
  "deriveKey cr passphrase = (case cr_scrypt cr passphrase scryptSalt of Some k \<Rightarrow> k | None \<Rightarrow> cr_sha256 cr passphrase)"

definition ParseKey :: "crypto \<Rightarrow> string \<Rightarrow> secret_error + string" where
  "ParseKey cr s0 =
     (let s = TrimSpace s0
      in if HasPrefix s ''base64:''
         then (case DecodeString StdEncoding (drop 7 s) of
                 None \<Rightarrow> Inl KeyBase64
               | Some b \<Rightarrow> if length b \<noteq> 32 then Inl (KeyLength (length b)) else Inr b)
         else Inr (deriveKey cr s))"

section \<open>The manager\<close>

definition Secrets_New :: "crypto \<Rightarrow> string option \<Rightarrow> string \<Rightarrow> secret_error + SecretManager" where
  "Secrets_New cr rnd appKey =
     (if appKey = []
      then (case rnd of None \<Rightarrow> Inl RandError | Some key \<Rightarrow> Inr \<lparr>sm_appKey = key, sm_secrets = []\<rparr>)
      else (case ParseKey cr appKey of Inl e \<Rightarrow> Inl e | Inr key \<Rightarrow> Inr \<lparr>sm_appKey = key, sm_secrets = []\<rparr>))"

definition Secrets_Set :: "string \<Rightarrow> string \<Rightarrow> SecretManager \<Rightarrow> SecretManager" where
  "Secrets_Set name v sm = sm\<lparr>sm_secrets := AList.update name v (sm_secrets sm)\<rparr>"

definition Secrets_Get :: "string \<Rightarrow> SecretManager \<Rightarrow> string option" where
  "Secrets_Get name sm = map_of (sm_secrets sm) name"

text \<open>\<^const>\<open>None\<close> is the panic.\<close>

definition Secrets_Must :: "string \<Rightarrow> SecretManager \<Rightarrow> string option" where
  "Secrets_Must name sm = Secrets_Get name sm"

definition Secrets_Env :: "environ \<Rightarrow> string \<Rightarrow> string \<Rightarrow> SecretManager \<Rightarrow> SecretManager" where
  "Secrets_Env env name envVar sm =
     (case map_of env envVar of None \<Rightarrow> sm | Some v \<Rightarrow> if v \<noteq> [] then Secrets_Set name v sm else sm)"

definition Manager_Encrypt :: "crypto \<Rightarrow> string option \<Rightarrow> string \<Rightarrow> SecretManager \<Rightarrow> secret_error + string" where
  "Manager_Encrypt cr rnd plaintext sm = Encrypt cr rnd (sm_appKey sm) plaintext"

definition Manager_Decrypt :: "crypto \<Rightarrow> string \<Rightarrow> SecretManager \<Rightarrow> secret_error + string" where
  "Manager_Decrypt cr ciphertext sm = Decrypt cr (sm_appKey sm) ciphertext"

section \<open>What the primitives promise\<close>

text \<open>
  \<open>Open\<close> undoes \<open>Seal\<close>, and accepts nothing but what \<open>Seal\<close> makes from the same key and nonce: the tag is a function of key, nonce and
  cipher text. The key derivation gives keys of 32 bytes.
\<close>

locale aead =
  fixes cr :: crypto
  assumes open_iff: "aes_key key \<Longrightarrow> length nonce = gcmNonceSize \<Longrightarrow> cr_Open cr key nonce c = Some p \<longleftrightarrow> c = cr_Seal cr key nonce p"
    and scrypt_length: "cr_scrypt cr pass salt = Some k \<Longrightarrow> length k = 32"
    and sha_length: "length (cr_sha256 cr s) = 32"
begin

lemma decrypt_encrypt:
  assumes "length nonce = gcmNonceSize" and "Encrypt cr (Some nonce) key p = Inr c"
  shows "Decrypt cr key c = Inr p"
proof -
  have k: "aes_key key" and c: "c = EncodeToString URLEncoding (nonce @ cr_Seal cr key nonce p)"
    using assms(2) by (auto simp: Encrypt_def split: if_splits)
  have "cr_Open cr key nonce (cr_Seal cr key nonce p) = Some p" using open_iff [OF k assms(1)] by blast
  then show ?thesis using k assms(1) by (simp add: c Decrypt_def Decode_Encode)
qed

lemma decrypt_iff:
  assumes "aes_key key"
  shows "Decrypt cr key c = Inr p \<longleftrightarrow>
    (\<exists>nonce. length nonce = gcmNonceSize \<and> DecodeString URLEncoding c = Some (nonce @ cr_Seal cr key nonce p))"
proof
  assume "Decrypt cr key c = Inr p"
  then obtain ct where ct: "DecodeString URLEncoding c = Some ct" "gcmNonceSize \<le> length ct"
    "cr_Open cr key (take gcmNonceSize ct) (drop gcmNonceSize ct) = Some p"
    by (auto simp: Decrypt_def split: option.splits if_splits)
  have "length (take gcmNonceSize ct) = gcmNonceSize" using ct(2) by simp
  then have "drop gcmNonceSize ct = cr_Seal cr key (take gcmNonceSize ct) p" using open_iff [OF assms] ct(3) by blast
  then show "\<exists>nonce. length nonce = gcmNonceSize \<and> DecodeString URLEncoding c = Some (nonce @ cr_Seal cr key nonce p)"
    using ct by (intro exI [of _ "take gcmNonceSize ct"]) (metis append_take_drop_id \<open>length (take gcmNonceSize ct) = gcmNonceSize\<close>)
next
  assume "\<exists>nonce. length nonce = gcmNonceSize \<and> DecodeString URLEncoding c = Some (nonce @ cr_Seal cr key nonce p)"
  then obtain nonce where n: "length nonce = gcmNonceSize" "DecodeString URLEncoding c = Some (nonce @ cr_Seal cr key nonce p)" by blast
  then have "cr_Open cr key nonce (cr_Seal cr key nonce p) = Some p" using open_iff [OF assms n(1)] by blast
  with n assms show "Decrypt cr key c = Inr p" by (simp add: Decrypt_def)
qed

lemma key_length: "ParseKey cr s = Inr k \<Longrightarrow> length k = 32"
  using scrypt_length sha_length by (auto simp: ParseKey_def Let_def deriveKey_def split: if_splits option.splits)

end


section \<open>A cipher without secrecy\<close>

text \<open>The simplest primitives with the contract: the key and the nonce in front of the plain text serve as the tag.\<close>

definition open_crypto :: crypto where
  "open_crypto =
     \<lparr>cr_Seal = (\<lambda>key nonce p. key @ nonce @ p),
      cr_Open = (\<lambda>key nonce c. if HasPrefix c (key @ nonce) then Some (drop (length (key @ nonce)) c) else None),
      cr_scrypt = (\<lambda>pass salt. Some (replicate 32 CHR ''k'')), cr_sha256 = (\<lambda>s. replicate 32 CHR ''h'')\<rparr>"

interpretation open_aead: aead open_crypto
  by unfold_locales (auto simp: open_crypto_def HasPrefix_iff)

section \<open>Properties\<close>

lemma base64_key_trimmed: "TrimSpace (''base64:'' @ EncodeToString StdEncoding b) = ''base64:'' @ EncodeToString StdEncoding b"
proof -
  let ?s = "''base64:'' @ EncodeToString StdEncoding b"
  have "last ?s \<in> set (EncodeToString StdEncoding b) \<or> last ?s = CHR '':''" by (simp add: last_append)
  moreover have "plain_char CHR '':''" by (simp add: plain_char_def)
  ultimately have "plain_char (last ?s) \<or> last ?s = CHR ''=''" using Encode_chars [OF b64_ok_encodings(1)] by metis
  then have "last ?s \<notin> last ` set unicodeSpaces" by (auto simp: unicodeSpaces_def plain_char_def)
  moreover have "hd ?s \<notin> hd ` set unicodeSpaces" by (simp add: unicodeSpaces_def)
  ultimately have "trimmed ?s" by (simp add: trimmed_def spaceLen_hd spaceLenEnd_last)
  then show ?thesis by (rule TrimSpace_trimmed)
qed

text \<open>
  From a generated key to a decrypted secret: the text of \<open>GenerateKey\<close>, given to a new manager as its application key, is read back as the
  random key, and the manager decrypts what it encrypted, for every plain text and nonce.
\<close>

theorem secrets_end_to_end:
  assumes "aead cr" and "length seed = 32" and "length nonce = gcmNonceSize"
  shows "\<exists>k sm c. GenerateKey (Some seed) = Inr k \<and> Secrets_New cr rnd k = Inr sm \<and> sm_appKey sm = seed
    \<and> Manager_Encrypt cr (Some nonce) p sm = Inr c \<and> Manager_Decrypt cr c sm = Inr p"
proof -
  let ?k = "''base64:'' @ EncodeToString StdEncoding seed" and ?sm = "\<lparr>sm_appKey = seed, sm_secrets = []\<rparr>"
  have "ParseKey cr ?k = Inr seed"
    using assms(2) by (simp only: ParseKey_def base64_key_trimmed Let_def) (simp add: HasPrefix_def Decode_Encode)
  then have n: "Secrets_New cr rnd ?k = Inr ?sm" by (simp add: Secrets_New_def)
  obtain c where c: "Encrypt cr (Some nonce) seed p = Inr c" using assms(2) by (simp add: Encrypt_def aes_key_def)
  with aead.decrypt_encrypt [OF assms(1,3) c] n show ?thesis
    by (intro exI [of _ ?k] exI [of _ ?sm] exI [of _ c]) (simp add: GenerateKey_def Manager_Encrypt_def Manager_Decrypt_def)
qed

theorem secrets_end_to_end_witness:
  "\<exists>k sm c. GenerateKey (Some (replicate 32 CHR ''s'')) = Inr k \<and> Secrets_New open_crypto None k = Inr sm
    \<and> sm_appKey sm = replicate 32 CHR ''s'' \<and> Manager_Encrypt open_crypto (Some (replicate 12 CHR ''n'')) ''hello'' sm = Inr c
    \<and> Manager_Decrypt open_crypto c sm = Inr ''hello''"
  by (rule secrets_end_to_end [OF open_aead.aead_axioms]) (simp_all add: gcmNonceSize_def)

text \<open>
  C22. Decryption is authenticated: a text decrypts to a plain text exactly when it is the encoding of some nonce followed by what the cipher makes of
  that plain text under the same key and nonce. Every other text is refused.
\<close>

theorem decrypt_authentic:
  assumes "aead cr" and "aes_key key"
  shows "Decrypt cr key c = Inr p \<longleftrightarrow>
    (\<exists>nonce. length nonce = gcmNonceSize \<and> DecodeString URLEncoding c = Some (nonce @ cr_Seal cr key nonce p))"
  by (rule aead.decrypt_iff [OF assms])

theorem decrypt_authentic_witness: "Decrypt open_crypto (replicate 16 CHR ''k'') ''AAAA'' \<noteq> Inr ''x''"
proof
  assume "Decrypt open_crypto (replicate 16 CHR ''k'') ''AAAA'' = Inr ''x''"
  moreover have "aes_key (replicate 16 CHR ''k'')" by (simp add: aes_key_def)
  ultimately obtain nonce where "length nonce = gcmNonceSize"
    "DecodeString URLEncoding ''AAAA'' = Some (nonce @ cr_Seal open_crypto (replicate 16 CHR ''k'') nonce ''x'')"
    using decrypt_authentic [OF open_aead.aead_axioms] by blast
  moreover have "DecodeString URLEncoding ''AAAA'' = Some [CHR 0x00, CHR 0x00, CHR 0x00]" by code_simp
  ultimately show False by (auto simp: gcmNonceSize_def dest: arg_cong [of _ _ length])
qed

end
