(* ===== verification/Error_Pages.thy ===== *)
theory Error_Pages
  imports Http_Core Go_Strconv
begin

text \<open>
  The error handlers of \<open>framework/errors/handler.go\<close>: clean JSON for HTTP errors, a fixed answer in production, and the debug
  pages with a parsed stack trace.

  An error is the chain of its \<open>Unwrap\<close> results, outermost first; each has its text, the name of its dynamic type and, if it is an
  \<open>HTTPError\<close>, code and message. The stack trace of \<open>debug.Stack\<close> and the page template are arguments.
\<close>

section \<open>Data\<close>

record err_node =
  en_text :: string
  en_type :: string
  en_http :: "(int \<times> string) option"

type_synonym go_error = "err_node list" \<comment> \<open>not empty\<close>

record stackFrame =
  st_Func :: string
  st_File :: string
  st_Line :: int
  st_IsApp :: bool

section \<open>Stack traces\<close>

definition LastIndex :: "string \<Rightarrow> string \<Rightarrow> nat option" where
  "LastIndex s sub = find (\<lambda>i. HasPrefix (drop i s) sub) (rev [0 ..< length s + 1])"

definition isInternalFrame :: "string \<Rightarrow> string \<Rightarrow> bool" where
  "isInternalFrame fn path =
     (\<exists>p \<in> set [''runtime/'', ''runtime.'', ''testing.'', ''net/http.'', ''github.com/onipixel/oniworks/framework/'', ''github.com/jackc/'',
        ''github.com/golang-jwt/'']. Contains fn p \<or> Contains path p)"

definition stack_frame :: "string \<Rightarrow> string \<Rightarrow> stackFrame" where
  "stack_frame fn fileLine0 =
     (let fileLine = (case LastIndex fileLine0 '' +0x'' of Some idx \<Rightarrow> take idx fileLine0 | None \<Rightarrow> fileLine0);
          (path, lineNum) =
            (case LastIndex fileLine '':'' of
               Some idx \<Rightarrow> (case Atoi (drop (idx + 1) fileLine) of (n, err) \<Rightarrow> if err = None then (take idx fileLine, n) else (fileLine, 0))
             | None \<Rightarrow> (fileLine, 0))
      in \<lparr>st_Func = fn, st_File = path, st_Line = lineNum, st_IsApp = (\<not> isInternalFrame fn path)\<rparr>)"

text \<open>A line that is not followed by a file line is skipped alone, a frame takes two lines.\<close>

fun parse_frames :: "string list \<Rightarrow> stackFrame list" where
  "parse_frames (l # l2 # ls) =
     (let fn = TrimSpace l; fileLine = TrimSpace l2
      in if \<not> HasPrefix fileLine ''/'' \<and> \<not> Contains fileLine (CHR '':'' # [CHR 0x5C]) then parse_frames (l2 # ls)
         else stack_frame fn fileLine # parse_frames ls)"
| "parse_frames ls = []"

definition parseStack :: "string \<Rightarrow> stackFrame list" where
  "parseStack raw = parse_frames (SplitOn CHR 0x0A raw)"

section \<open>Pages\<close>

text \<open>\<open>html.EscapeString\<close>.\<close>

definition escapeChar :: "char \<Rightarrow> string" where
  "escapeChar c =
     (if c = CHR ''&'' then ''&amp;'' else if c = CHR 0x27 then ''&#39;'' else if c = CHR ''<'' then ''&lt;''
      else if c = CHR ''>'' then ''&gt;'' else if c = CHR 0x22 then ''&#34;'' else [c])"

definition EscapeString :: "string \<Rightarrow> string" where
  "EscapeString s = concat (map escapeChar s)"

text \<open>
  \<open>strings.NewReplacer\<close> with non-empty patterns: at each position the first pattern that matches is replaced; replaced text is not looked at
  again.
\<close>

function Replace :: "(string \<times> string) list \<Rightarrow> string \<Rightarrow> string" where
  "Replace ps [] = []"
| "Replace ps (c # s) =
     (case find (\<lambda>(old, new). old \<noteq> [] \<and> HasPrefix (c # s) old) ps of
        None \<Rightarrow> c # Replace ps s
      | Some (old, new) \<Rightarrow> new @ Replace ps (drop (length old) (c # s)))"
  by pat_completeness auto
termination
proof (relation "measure (\<lambda>(ps, s). length s)", simp_all, goal_cases)
  case (1 ps c s p old new)
  then have "old \<noteq> []" by (auto simp: find_Some_iff)
  then show ?case by (cases old) auto
qed

definition frame_html :: "stackFrame \<Rightarrow> string" where
  "frame_html f =
     ''<div class='' @ [CHR 0x22] @ ''frame '' @ (if st_IsApp f then ''app'' else ''fw'') @ [CHR 0x22] @ ''><div class='' @ [CHR 0x22] @ ''fn'' @ [CHR 0x22] @ ''>''
     @ EscapeString (st_Func f) @ ''</div><div class='' @ [CHR 0x22] @ ''file'' @ [CHR 0x22] @ ''>'' @ EscapeString (st_File f) @ '':<span class='' @ [CHR 0x22]
     @ ''lineno'' @ [CHR 0x22] @ ''>'' @ itoa (st_Line f) @ ''</span></div></div>''"

definition error_page :: "string \<Rightarrow> string \<Rightarrow> string \<Rightarrow> go_error \<Rightarrow> stackFrame list \<Rightarrow> string" where
  "error_page template meth path err frames =
     Replace [(''{{METHOD}}'', EscapeString meth), (''{{PATH}}'', EscapeString path), (''{{TYPE}}'', EscapeString (en_type (hd err))),
        (''{{MSG}}'', EscapeString (en_text (hd err))), (''{{FRAMES}}'', concat (map frame_html frames))] template"

definition renderHTML :: "string \<Rightarrow> go_error \<Rightarrow> stackFrame list \<Rightarrow> 'a Context_scheme \<Rightarrow> 'a Context_scheme" where
  "renderHTML template err frames c =
     (let page = error_page template (rq_Method (cx_req c)) (rq_Path (cx_req c)) err frames;
          c1 = setHeader ''Content-Type'' ''text/html; charset=utf-8'' c;
          c2 = on_resp (\<lambda>r. Response_WriteHeader r 500) c1
      in on_resp (\<lambda>r. Response_Write r page) c2)"

definition frame_json :: "stackFrame \<Rightarrow> gval" where
  "frame_json f = GMap [(''func'', GString (st_Func f)), (''file'', GString (st_File f)), (''line'', GInt (word_of_int (st_Line f))),
     (''app'', GBool (st_IsApp f))]"

definition renderJSON :: "go_error \<Rightarrow> stackFrame list \<Rightarrow> 'a Context_scheme \<Rightarrow> 'a Context_scheme" where
  "renderJSON err frames c =
     snd (Context_JSON 500 (GMap [(''error'', GString (en_text (hd err))), (''type'', GString (en_type (hd err))),
       (''stack'', GSlice (map frame_json frames)),
       (''request'', GMap [(''method'', GString (rq_Method (cx_req c))), (''path'', GString (rq_Path (cx_req c)))])]) c)"

section \<open>The handlers\<close>

text \<open>The walk along the chain for an \<open>HTTPError\<close>.\<close>

fun find_http :: "go_error \<Rightarrow> (int \<times> string) option" where
  "find_http [] = None"
| "find_http (e # es) = (case en_http e of Some h \<Rightarrow> Some h | None \<Rightarrow> find_http es)"

definition errors_Handler :: "string \<Rightarrow> string \<Rightarrow> bool \<Rightarrow> go_error \<Rightarrow> 'a Context_scheme \<Rightarrow> 'a Context_scheme" where
  "errors_Handler template stack debugMode err c =
     (case find_http err of
        Some (code, msg) \<Rightarrow> snd (Context_JSON code (GMap [(''error'', GString msg)]) c)
      | None \<Rightarrow>
          if \<not> debugMode then snd (Context_JSON 500 (GMap [(''error'', GString ''internal server error'')]) c)
          else (let frames = parseStack stack; accept = Header_Get (rq_Header (cx_req c)) ''Accept''
                in if Contains accept ''text/html'' then renderHTML template err frames c else renderJSON err frames c))"

definition HandlerForEnv :: "string \<Rightarrow> string \<Rightarrow> string \<Rightarrow> go_error \<Rightarrow> 'a Context_scheme \<Rightarrow> 'a Context_scheme" where
  "HandlerForEnv template stack env =
     errors_Handler template stack (map lowerByte (TrimSpace env) \<in> set [''local'', ''dev'', ''development'', ''debug''])"


section \<open>Properties\<close>

text \<open>
  Internals stay inside: unless the environment is named local, dev, development or debug, the answer to an error that is no HTTP error is the same
  for all errors, stack traces and templates. Nothing of them reaches the client.
\<close>

theorem errors_hide_internals:
  assumes "map lowerByte (TrimSpace env) \<notin> {''local'', ''dev'', ''development'', ''debug''}" and "find_http err = None" and "find_http err' = None"
  shows "HandlerForEnv template stack env err c = HandlerForEnv template' stack' env err' c"
  using assms by (simp add: HandlerForEnv_def errors_Handler_def)

definition error_ctx :: Context where
  "error_ctx = NewContext new_wire \<lparr>rq_Method = ''GET'', rq_Path = ''/'', rq_Query = [], rq_Header = [], rq_Form = [], rq_Cookies = [],
     rq_RemoteAddr = [], rq_TLS = False, rq_params = []\<rparr> [] (\<lambda>_. [])"

theorem errors_hide_internals_witness:
  "HandlerForEnv [] ''goroutine 1'' ''production'' [\<lparr>en_text = ''password is x'', en_type = ''*errors.errorString'', en_http = None\<rparr>] error_ctx
   = HandlerForEnv [] [] ''production'' [\<lparr>en_text = ''other'', en_type = [], en_http = None\<rparr>] error_ctx"
proof -
  have "map lowerByte (TrimSpace ''production'') \<notin> {''local'', ''dev'', ''development'', ''debug''}" by code_simp
  then show ?thesis by (rule errors_hide_internals) simp_all
qed

text \<open>The characters that make HTML out of text.\<close>

definition markup :: "string \<Rightarrow> string" where
  "markup s = filter (\<lambda>c. c \<in> {CHR ''<'', CHR ''>'', CHR 0x22, CHR 0x27}) s"

lemma markup_append [simp]: "markup (a @ b) = markup a @ markup b" and markup_Nil [simp]: "markup [] = []"
  by (simp_all add: markup_def)

lemma markup_Escape [simp]: "markup (EscapeString s) = []"
  by (induction s) (auto simp: EscapeString_def escapeChar_def markup_def)


lemma markup_concat [simp]: "markup (concat ws) = concat (map markup ws)"
  by (induction ws) simp_all

lemma digit_no_markup: "n < 10 \<Longrightarrow> markup [digit n] = []"
  by (auto simp: digit_def markup_def dest!: arg_cong [of _ _ "of_char :: char \<Rightarrow> nat"])

lemma natToBase_no_markup: "markup (natToBase 10 n) = []"
proof (induction n rule: less_induct)
  case (less n)
  show ?case
  proof (cases "n < 10")
    case True
    then show ?thesis by (subst natToBase.simps) (simp add: digit_no_markup)
  next
    case False
    with less have "markup (natToBase 10 (n div 10)) = []" by simp
    with False digit_no_markup [of "n mod 10"] show ?thesis by (subst natToBase.simps) simp
  qed
qed

lemma itoa_no_markup [simp]: "markup (itoa i) = []"
proof (cases "i < 0")
  case True
  have "markup (CHR ''-'' # natToBase 10 (nat (- i))) = markup (natToBase 10 (nat (- i)))" by (simp add: markup_def)
  with True show ?thesis by (simp add: itoa_def natToBase_no_markup)
qed (simp add: itoa_def natToBase_no_markup)

text \<open>Replacing the same patterns by texts with the same markup gives texts with the same markup.\<close>

lemma markup_Replace:
  assumes "list_all2 (\<lambda>(old, new) (old', new'). old = old' \<and> markup new = markup new') ps qs"
  shows "markup (Replace ps s) = markup (Replace qs s)"
  using assms
proof (induction ps s arbitrary: qs rule: Replace.induct)
  case (2 ps c s)
  let ?P = "\<lambda>(old, new). old \<noteq> [] \<and> HasPrefix (c # s) old"
  have *: "(find ?P ps = None \<longleftrightarrow> find ?P qs = None)
    \<and> (\<forall>old new. find ?P ps = Some (old, new) \<longrightarrow> (\<exists>new'. find ?P qs = Some (old, new') \<and> markup new = markup new'))"
    using "2.prems" by (induction ps qs rule: list_all2_induct) auto
  show ?case
  proof (cases "find ?P ps")
    case None
    with * have q: "find ?P qs = None" by blast
    have IH: "markup (Replace ps s) = markup (Replace qs s)" by (rule "2.IH"(1) [OF None "2.prems"])
    have "markup (c # t) = markup [c] @ markup t" for t using markup_append [of "[c]" t] by simp
    with IH show ?thesis unfolding Replace.simps None q option.case by metis
  next
    case (Some p)
    then obtain old new where p: "find ?P ps = Some (old, new)" by (cases p) simp
    with * obtain new' where q: "find ?P qs = Some (old, new')" "markup new = markup new'" by blast
    have "markup (Replace ps (drop (length old) (c # s))) = markup (Replace qs (drop (length old) (c # s)))"
      by (rule "2.IH"(2) [OF p refl "2.prems"])
    then show ?thesis unfolding Replace.simps p q(1) option.case prod.case markup_append q(2) by simp
  qed
qed simp

lemma markup_frames:
  "map st_IsApp fs = map st_IsApp gs \<Longrightarrow> markup (concat (map frame_html fs)) = markup (concat (map frame_html gs))"
proof (induction fs arbitrary: gs)
  case (Cons f fs)
  then obtain g gs' where g: "gs = g # gs'" "st_IsApp g = st_IsApp f" "map st_IsApp fs = map st_IsApp gs'" by auto
  have "markup (frame_html f) = markup (frame_html g)" by (simp only: frame_html_def markup_append markup_Escape itoa_no_markup g(2))
  with Cons.IH [OF g(3)] g(1) show ?case by simp
qed simp

text \<open>
  C21. No markup is injected into the debug page: the angle brackets and quotes of the page are the same whatever the request's method and path, the error's
  text and type, and the names, files and lines of the stack frames are. Only the number of frames and their kind can change them.
\<close>

theorem error_page_no_injection:
  assumes "map st_IsApp frames = map st_IsApp frames'"
  shows "markup (error_page template meth path err frames) = markup (error_page template meth' path' err' frames')"
  unfolding error_page_def by (rule markup_Replace) (use markup_frames [OF assms] in simp)

theorem error_page_no_injection_witness:
  "markup (error_page ''<b>{{PATH}}</b>'' ''GET'' ''/<script>'' [\<lparr>en_text = [], en_type = [], en_http = None\<rparr>] [])
   = markup (error_page ''<b>{{PATH}}</b>'' ''GET'' ''/'' [\<lparr>en_text = [], en_type = [], en_http = None\<rparr>] [])"
  by (rule error_page_no_injection) simp

end
