(* ===== verification/Admin_Panel.thy ===== *)
theory Admin_Panel
  imports Orm_Types Http_Core Local_Storage
begin

text \<open>
  Model of \<open>framework/admin/admin.go\<close>: the panel with its resources, the guard, the routes and the handlers, on top of the query
  builder. A handler is a function of the request and of the database state; what it asks \<open>net/http\<close> to write is a value of
  \<open>admin_resp\<close>, which names the page and carries the data of the page but not the rendered text. \<open>http.ServeMux\<close> is modelled for
  patterns without methods, hosts and wildcards and for request paths that need no escaping. \<open>rq_Form\<close> holds what
  \<open>FormValue\<close> returns.
\<close>

section \<open>The request multiplexer\<close>

type_synonym 'h mux = "(string \<times> 'h) list"

datatype 'h mux_decision = MuxNotFound | MuxRedirect string | MuxServe 'h

text \<open>Registration panics on an empty pattern and on a pattern that is registered already.\<close>

definition mux_HandleFunc :: "string \<Rightarrow> 'h \<Rightarrow> 'h mux \<Rightarrow> 'h mux option" where
  "mux_HandleFunc p h m = (if p = [] \<or> p \<in> fst ` set m then None else Some (m @ [(p, h)]))"

definition endsSlash :: "string \<Rightarrow> bool" where
  "endsSlash s = (s \<noteq> [] \<and> last s = CHR ''/'')"

definition cleanURLPath :: "string \<Rightarrow> string" where
  "cleanURLPath p = (let c = Clean p in if endsSlash p \<and> c \<noteq> ''/'' then c @ ''/'' else c)"

fun longest :: "(string \<times> 'h) list \<Rightarrow> (string \<times> 'h) option" where
  "longest [] = None"
| "longest (x # xs) = (case longest xs of None \<Rightarrow> Some x | Some y \<Rightarrow> if length (fst x) < length (fst y) then Some y else Some x)"

definition mux_match :: "'h mux \<Rightarrow> string \<Rightarrow> (string \<times> 'h) option" where
  "mux_match m path =
     (case map_of m path of
        Some h \<Rightarrow> Some (path, h)
      | None \<Rightarrow> longest (filter (\<lambda>(p, _). endsSlash p \<and> HasPrefix path p) m))"

definition mux_exact :: "(string \<times> 'h) option \<Rightarrow> string \<Rightarrow> bool" where
  "mux_exact n path = (case n of None \<Rightarrow> False | Some (p, _) \<Rightarrow> \<not> endsSlash p \<or> p = path)"

definition mux_find :: "'h mux \<Rightarrow> string \<Rightarrow> 'h mux_decision" where
  "mux_find m path =
     (let c = cleanURLPath path; n = mux_match m c
      in if \<not> mux_exact n c \<and> \<not> endsSlash c \<and> mux_exact (mux_match m (c @ ''/'')) (c @ ''/'') then MuxRedirect (c @ ''/'')
         else if c \<noteq> path then MuxRedirect c
         else (case n of None \<Rightarrow> MuxNotFound | Some (_, h) \<Rightarrow> MuxServe h))"

section \<open>Resources and panel\<close>

record Resource =
  ar_Name :: string
  ar_Slug :: string
  ar_Model :: "goty option" \<comment> \<open>the dynamic type of the model, \<open>None\<close> for nil\<close>
  ar_Columns :: "string list"
  ar_Searchable :: string
  ar_PerPage :: i64

type_synonym Authorizer = "Request \<Rightarrow> bool"

record Panel =
  pa_db :: DB
  pa_resources :: "Resource list"
  pa_prefix :: string
  pa_title :: string
  pa_authorize :: "Authorizer option"

type_synonym panel_option = "Panel \<Rightarrow> Panel"

definition admin_New :: "DB \<Rightarrow> panel_option list \<Rightarrow> Panel" where
  "admin_New db opts =
     fold (\<lambda>f p. f p) opts
       \<lparr>pa_db = db, pa_resources = [], pa_prefix = ''/admin'', pa_title = ''Oni Admin'', pa_authorize = None\<rparr>"

definition WithAuth :: "Authorizer \<Rightarrow> panel_option" where
  "WithAuth fn p = p\<lparr>pa_authorize := Some fn\<rparr>"

definition WithPrefix :: "string \<Rightarrow> panel_option" where
  "WithPrefix prefix p = p\<lparr>pa_prefix := trimRightSlash prefix\<rparr>"

definition WithTitle :: "string \<Rightarrow> panel_option" where
  "WithTitle title p = p\<lparr>pa_title := title\<rparr>"

definition hasColumn :: "Resource \<Rightarrow> string \<Rightarrow> bool" where
  "hasColumn r name = (\<exists>c \<in> set (ar_Columns r). c = name)"

fun strip_ptrs :: "goty \<Rightarrow> goty" where
  "strip_ptrs (TyPtr t) = strip_ptrs t"
| "strip_ptrs t = t"

text \<open>\<open>strings.ToLower\<close> of a field name; letters outside ASCII are left as they are. No struct type: a panic.\<close>

definition field_column :: "sfield \<Rightarrow> string" where
  "field_column f = (if sf_Tag f = [] then map lowerByte (sf_Name f) else sf_Tag f)"

definition exportedFields :: "types \<Rightarrow> goty option \<Rightarrow> string list option" where
  "exportedFields T model =
     (case map_option strip_ptrs model of
        Some (TyStruct n) \<Rightarrow> Some (map field_column (filter (\<lambda>f. sf_Exported f \<and> sf_Tag f \<noteq> ''-'') (ty_fields T n)))
      | _ \<Rightarrow> None)"

definition Panel_Register :: "types \<Rightarrow> Resource \<Rightarrow> Panel \<Rightarrow> Panel option" where
  "Panel_Register T r p =
     (let r1 = (if ar_Slug r = [] then r\<lparr>ar_Slug := map lowerByte (ar_Name r) @ ''s''\<rparr> else r);
          r2 = (if sint (ar_PerPage r1) \<le> 0 then r1\<lparr>ar_PerPage := 25\<rparr> else r1)
      in if ar_Columns r2 = []
         then map_option (\<lambda>cols. p\<lparr>pa_resources := pa_resources p @ [r2\<lparr>ar_Columns := cols\<rparr>]\<rparr>) (exportedFields T (ar_Model r2))
         else Some (p\<lparr>pa_resources := pa_resources p @ [r2]\<rparr>))"

section \<open>Responses\<close>

record list_page =
  lp_Title :: string
  lp_Resource :: Resource
  lp_Rows :: "(string, gval) gomap list"
  lp_Total :: i64
  lp_Page :: i64
  lp_PerPage :: i64
  lp_Search :: string
  lp_Prefix :: string

record form_page =
  fp_Title :: string
  fp_Resource :: Resource
  fp_Row :: "(string, gval) gomap option"
  fp_ID :: "string option"
  fp_Prefix :: string

datatype admin_resp =
    HttpError int string
  | HttpDbError int string sql_error \<comment> \<open>the text is the prefix with the text of the error\<close>
  | NotFoundPage
  | RedirectTo int string
  | DashboardPage string "Resource list"
  | ListPage list_page
  | FormPage form_page
  | JSONError int sql_error
  | JSONRows int "(string, gval) gomap list"

definition resp_status :: "admin_resp \<Rightarrow> int" where
  "resp_status r =
     (case r of
        HttpError c _ \<Rightarrow> c | HttpDbError c _ _ \<Rightarrow> c | NotFoundPage \<Rightarrow> 404 | RedirectTo c _ \<Rightarrow> c | DashboardPage _ _ \<Rightarrow> 200
      | ListPage _ \<Rightarrow> 200 | FormPage _ \<Rightarrow> 200 | JSONError c _ \<Rightarrow> c | JSONRows c _ \<Rightarrow> c)"

type_synonym 'd admin_handler = "Request \<Rightarrow> 'd \<Rightarrow> admin_resp \<times> 'd"

definition guard :: "Panel \<Rightarrow> 'd admin_handler \<Rightarrow> 'd admin_handler" where
  "guard p nxt rq d =
     (case pa_authorize p of
        None \<Rightarrow> (HttpError 403 (''Oni Admin: access denied '' @ [CHR 0xE2, CHR 0x80, CHR 0x94]
            @ '' no authorizer configured. Protect the panel with admin.WithAuth(...).''), d)
      | Some authorize \<Rightarrow> if \<not> authorize rq then (HttpError 403 ''Oni Admin: forbidden'', d) else nxt rq d)"

section \<open>Handlers\<close>

definition query_Get :: "Request \<Rightarrow> string \<Rightarrow> string" where
  "query_Get rq k = (case map_of (rq_Query rq) k of Some (v # _) \<Rightarrow> v | _ \<Rightarrow> [])"

definition FormValue :: "Request \<Rightarrow> string \<Rightarrow> string" where
  "FormValue rq k = (case map_of (rq_Form rq) k of Some v \<Rightarrow> v | None \<Rightarrow> [])"

text \<open>
  \<open>sql.Rows.Scan\<close> with one destination that is a pointer to a map or to a slice of maps: the number of columns has to be one, and no
  driver value can be stored in such a destination.
\<close>

definition scan_into_map :: "gval list \<Rightarrow> string + 'm" where
  "scan_into_map row =
     Inl (if length row \<noteq> 1 then ''sql: expected '' @ itoa (int (length row)) @ '' destination arguments in Scan, not 1''
          else ''sql: Scan error on column index 0: unsupported Scan'')"

definition admin_where :: "Panel \<Rightarrow> Resource \<Rightarrow> string \<Rightarrow> Builder" where
  "admin_where p res rid = Where ''id = ?'' [GString rid] (DB_Table (pa_db p) (ar_Slug res))"

definition handleDashboard :: "Panel \<Rightarrow> 'd admin_handler" where
  "handleDashboard p rq d =
     (if rq_Path rq \<noteq> pa_prefix p @ ''/'' \<and> rq_Path rq \<noteq> pa_prefix p then (NotFoundPage, d)
      else (DashboardPage (pa_title p) (pa_resources p), d))"

definition list_query :: "Panel \<Rightarrow> Resource \<Rightarrow> string \<Rightarrow> i64 \<Rightarrow> Builder" where
  "list_query p res search page =
     (let qb = DB_Table (pa_db p) (ar_Slug res);
          qb1 = (if search \<noteq> [] \<and> ar_Searchable res \<noteq> [] \<and> hasColumn res (ar_Searchable res)
                 then Where (QuoteIdent (db_driver (pa_db p)) (ar_Searchable res) @ '' ILIKE ?'') [GString (''%'' @ search @ ''%'')] qb
                 else qb)
      in Builder_Offset ((page - 1) * ar_PerPage res) (Builder_Limit (ar_PerPage res) qb1))"

definition list_page_number :: "Request \<Rightarrow> i64" where
  "list_page_number rq = (let page = word_of_int (fst (Atoi (query_Get rq ''page''))) in if sint page < 1 then 1 else page)"

definition handleList ::
  "'d sql_server \<Rightarrow> (gval list \<Rightarrow> string + i64) \<Rightarrow> Panel \<Rightarrow> Resource \<Rightarrow> 'd admin_handler" where
  "handleList sv scan p res rq d =
     (let page = list_page_number rq; search = query_Get rq ''q''
      in case Builder_Scan sv scan_into_map (list_query p res search page) d of
           (Inl e, d1) \<Rightarrow> (HttpDbError 500 ''db error: '' e, d1)
         | (Inr rows, d1) \<Rightarrow>
             (case Builder_Count sv scan (DB_Table (pa_db p) (ar_Slug res)) d1 of
                (tot, d2) \<Rightarrow>
                  (ListPage \<lparr>lp_Title = pa_title p, lp_Resource = res, lp_Rows = (case rows of None \<Rightarrow> [] | Some rs \<Rightarrow> rs),
                     lp_Total = (case tot of Inl _ \<Rightarrow> 0 | Inr n \<Rightarrow> n), lp_Page = page, lp_PerPage = ar_PerPage res, lp_Search = search,
                     lp_Prefix = pa_prefix p\<rparr>, d2)))"

definition form_row :: "Resource \<Rightarrow> Request \<Rightarrow> (string, gval) gomap" where
  "form_row res rq = fold (\<lambda>col row. AList.update col (GString (FormValue rq col)) row) (ar_Columns res) []"

definition handleNew :: "Panel \<Rightarrow> Resource \<Rightarrow> 'd admin_handler" where
  "handleNew p res rq d =
     (if rq_Method rq = ''POST''
      then (case Builder_Insert_map (form_row res rq) (DB_Table (pa_db p) (ar_Slug res)) d of
              (Some e, d1) \<Rightarrow> (HttpDbError 500 ''insert failed: '' e, d1)
            | (None, d1) \<Rightarrow> (RedirectTo 302 (pa_prefix p @ ''/'' @ ar_Slug res), d1))
      else (FormPage \<lparr>fp_Title = pa_title p, fp_Resource = res, fp_Row = None, fp_ID = None, fp_Prefix = pa_prefix p\<rparr>, d))"

definition edit_id :: "Panel \<Rightarrow> Resource \<Rightarrow> Request \<Rightarrow> string" where
  "edit_id p res rq = hd (SplitOn CHR ''/'' (TrimPrefix (rq_Path rq) (pa_prefix p @ ''/'' @ ar_Slug res @ ''/'')))"

definition handleEdit :: "'d sql_server \<Rightarrow> string \<Rightarrow> Panel \<Rightarrow> Resource \<Rightarrow> 'd admin_handler" where
  "handleEdit sv now p res rq d =
     (let rid = edit_id p res rq; back = RedirectTo 302 (pa_prefix p @ ''/'' @ ar_Slug res)
      in if rid = [] then (NotFoundPage, d)
         else if rq_Method rq = ''POST''
         then
          (if FormValue rq ''_method'' = ''DELETE''
           then (case Builder_Delete sv now (admin_where p res rid) d of
                   (Some e, d1) \<Rightarrow> (HttpDbError 500 ''delete failed: '' e, d1)
                 | (None, d1) \<Rightarrow> (back, d1))
           else (case Builder_Update sv (form_row res rq) (admin_where p res rid) d of
                   (Some e, d1) \<Rightarrow> (HttpDbError 500 ''update failed: '' e, d1)
                 | (None, d1) \<Rightarrow> (back, d1)))
         else
          (case Builder_Scan sv scan_into_map (admin_where p res rid) d of
             (Inl e, d1) \<Rightarrow> (HttpError 404 ''not found'', d1)
           | (Inr row, d1) \<Rightarrow>
               (FormPage \<lparr>fp_Title = pa_title p, fp_Resource = res, fp_Row = row, fp_ID = Some rid, fp_Prefix = pa_prefix p\<rparr>, d1)))"

section \<open>Routes\<close>

datatype admin_route = DashboardRoute | ListRoute Resource | NewRoute Resource | EditRoute Resource | APIRoute Resource

fun mux_add_all :: "(string \<times> 'h) list \<Rightarrow> 'h mux \<Rightarrow> 'h mux option" where
  "mux_add_all [] m = Some m"
| "mux_add_all ((pat, h) # rest) m = (case mux_HandleFunc pat h m of None \<Rightarrow> None | Some m1 \<Rightarrow> mux_add_all rest m1)"

definition panel_routes :: "Panel \<Rightarrow> (string \<times> admin_route) list" where
  "panel_routes p =
     (pa_prefix p @ ''/'', DashboardRoute)
     # concat (map (\<lambda>r. let base = pa_prefix p @ ''/'' @ ar_Slug r
                        in [(base, ListRoute r), (base @ ''/new'', NewRoute r), (base @ ''/'', EditRoute r)]) (pa_resources p))"

definition Panel_Handler :: "Panel \<Rightarrow> admin_route mux option" where
  "Panel_Handler p = mux_add_all (panel_routes p) []"

definition APIHandler :: "Panel \<Rightarrow> admin_route mux option" where
  "APIHandler p = mux_add_all (map (\<lambda>r. (''/'' @ ar_Slug r, APIRoute r)) (pa_resources p)) []"

definition api_list :: "'d sql_server \<Rightarrow> Panel \<Rightarrow> Resource \<Rightarrow> 'd admin_handler" where
  "api_list sv p r rq d =
     (case Builder_Scan sv scan_into_map (Builder_Limit (ar_PerPage r) (DB_Table (pa_db p) (ar_Slug r))) d of
        (Inl e, d1) \<Rightarrow> (JSONError 500 e, d1)
      | (Inr rows, d1) \<Rightarrow> (JSONRows 200 (case rows of None \<Rightarrow> [] | Some rs \<Rightarrow> rs), d1))"

record 'd admin_env =
  ae_sv :: "'d sql_server"
  ae_scan :: "gval list \<Rightarrow> string + i64" \<comment> \<open>\<open>Scan\<close> of the count\<close>
  ae_now :: string

fun route_handler :: "'d admin_env \<Rightarrow> Panel \<Rightarrow> admin_route \<Rightarrow> 'd admin_handler" where
  "route_handler env p DashboardRoute = handleDashboard p"
| "route_handler env p (ListRoute r) = handleList (ae_sv env) (ae_scan env) p r"
| "route_handler env p (NewRoute r) = handleNew p r"
| "route_handler env p (EditRoute r) = handleEdit (ae_sv env) (ae_now env) p r"
| "route_handler env p (APIRoute r) = api_list (ae_sv env) p r"

definition Panel_ServeHTTP :: "'d admin_env \<Rightarrow> Panel \<Rightarrow> admin_route mux \<Rightarrow> 'd admin_handler" where
  "Panel_ServeHTTP env p m rq d =
     (case mux_find m (rq_Path rq) of
        MuxNotFound \<Rightarrow> (NotFoundPage, d)
      | MuxRedirect u \<Rightarrow> (RedirectTo 301 u, d)
      | MuxServe h \<Rightarrow> guard p (route_handler env p h) rq d)"

section \<open>Templates\<close>

text \<open>
  The template set of \<open>html/template\<close>: parsing a file adds its own text under the name of the file and each of its \<open>define\<close> and
  \<open>block\<close> bodies under their names, replacing what has the name already; an empty body replaces nothing. The texts of the four files
  are named, not transcribed.
\<close>

datatype tmpl_text = EmptyText | LayoutText | DashboardText | DashboardContent | ListText | ListContent | FormText | FormContent

type_synonym tmpl_set = "(string, tmpl_text) gomap"

definition tmpl_add :: "string \<times> tmpl_text \<Rightarrow> tmpl_set \<Rightarrow> tmpl_set" where
  "tmpl_add nt ts = (if snd nt = EmptyText \<and> map_of ts (fst nt) \<noteq> None then ts else AList.update (fst nt) (snd nt) ts)"

definition tmpl_Parse :: "string \<Rightarrow> tmpl_text \<Rightarrow> (string \<times> tmpl_text) list \<Rightarrow> tmpl_set \<Rightarrow> tmpl_set" where
  "tmpl_Parse name body blocks ts = fold tmpl_add (blocks @ [(name, body)]) ts"

definition buildTemplates :: tmpl_set where
  "buildTemplates =
     (let ts1 = tmpl_Parse ''layout.html'' LayoutText [(''content'', EmptyText)] [];
          ts2 = tmpl_Parse ''dashboard.html'' DashboardText [(''content'', DashboardContent)] ts1;
          ts3 = tmpl_Parse ''list.html'' ListText [(''content'', ListContent)] ts2
      in tmpl_Parse ''form.html'' FormText [(''content'', FormContent)] ts3)"

text \<open>Each page executes \<open>layout.html\<close>, which executes \<open>content\<close>.\<close>

definition page_content :: "string \<Rightarrow> tmpl_text option" where
  "page_content name = (case map_of buildTemplates name of None \<Rightarrow> None | Some _ \<Rightarrow> map_of buildTemplates ''content'')"

section \<open>The routes that are reached\<close>

lemma longest_mem: "longest xs = Some x \<Longrightarrow> x \<in> set xs"
  by (induction xs arbitrary: x) (auto split: option.splits if_splits)

lemma mux_match_mem: "mux_match m path = Some (q, h) \<Longrightarrow> (q, h) \<in> set m"
  by (auto simp: mux_match_def dest: map_of_SomeD longest_mem split: option.splits)

lemma mux_find_mem: "mux_find m path = MuxServe h \<Longrightarrow> h \<in> snd ` set m"
  unfolding mux_find_def Let_def by (auto dest!: mux_match_mem split: if_split_asm option.split_asm) (metis image_eqI snd_conv)+

lemma mux_HandleFunc_Some: "mux_HandleFunc pat h m = Some m' \<Longrightarrow> m' = m @ [(pat, h)] \<and> pat \<notin> fst ` set m"
  by (simp add: mux_HandleFunc_def split: if_split_asm)

lemma mux_add_all_set: "mux_add_all xs m = Some m' \<Longrightarrow> set m' = set m \<union> set xs"
proof (induction xs m arbitrary: m' rule: mux_add_all.induct)
  case (2 pat h rest m)
  then show ?case by (cases "mux_HandleFunc pat h m") (auto dest!: mux_HandleFunc_Some)
qed simp

lemma panel_routes_handlers:
  "(pat, h) \<in> set (panel_routes p) \<Longrightarrow> h = DashboardRoute \<or> (\<exists>r \<in> set (pa_resources p). h \<in> {ListRoute r, NewRoute r, EditRoute r})"
  by (auto simp: panel_routes_def Let_def)

lemma served_route:
  assumes "Panel_Handler p = Some m" and "mux_find m path = MuxServe h"
  shows "h = DashboardRoute \<or> (\<exists>r \<in> set (pa_resources p). h \<in> {ListRoute r, NewRoute r, EditRoute r})"
proof -
  obtain pat where "(pat, h) \<in> set m" using mux_find_mem [OF assms(2)] by auto
  then have "(pat, h) \<in> set (panel_routes p)" using mux_add_all_set [OF assms(1) [unfolded Panel_Handler_def]] by simp
  then show ?thesis by (rule panel_routes_handlers)
qed

section \<open>What the handlers do to the database\<close>

definition reads_only :: "'d sql_server \<Rightarrow> bool" where
  "reads_only sv = (\<forall>tx q args d. snd (sv_query sv tx q args d) = d)"

lemma query_reads: "reads_only sv \<Longrightarrow> queryContext sv db qa d = (r, d1) \<Longrightarrow> d1 = d"
  unfolding reads_only_def queryContext_def by (metis snd_conv)

lemma Scan_reads: "reads_only sv \<Longrightarrow> Builder_Scan sv scan b d = (r, d1) \<Longrightarrow> d1 = d"
  by (auto simp: Builder_Scan_def dest: query_reads split: option.split_asm prod.split_asm sum.split_asm list.split_asm)

lemma Count_reads: "reads_only sv \<Longrightarrow> Builder_Count sv scan b d = (n, d1) \<Longrightarrow> d1 = d"
  by (auto simp: Builder_Count_def dest: query_reads split: option.split_asm prod.split_asm sum.split_asm list.split_asm)

lemma Scan_map_never: "Builder_Scan sv scan_into_map b d = (Inr rows, d1) \<Longrightarrow> rows = None"
  by (auto simp: Builder_Scan_def scan_into_map_def split: option.splits prod.splits sum.splits list.splits)

lemma guard_cases:
  "guard p nxt rq d = nxt rq d \<and> (\<exists>f. pa_authorize p = Some f \<and> f rq)
   \<or> snd (guard p nxt rq d) = d \<and> resp_status (fst (guard p nxt rq d)) = 403 \<and> (\<forall>f. pa_authorize p = Some f \<longrightarrow> \<not> f rq)"
  by (auto simp: guard_def resp_status_def split: option.splits)

lemma form_row_cols: "set (map fst (form_row res rq)) = set (ar_Columns res) \<and> distinct (map fst (form_row res rq))"
proof -
  have "set (map fst (fold (\<lambda>col row. AList.update col (f col) row) cs row)) = set (map fst row) \<union> set cs \<and>
      (distinct (map fst row) \<longrightarrow> distinct (map fst (fold (\<lambda>col row. AList.update col (f col) row) cs row)))"
    for cs and row :: "(string, gval) gomap" and f
    by (induction cs arbitrary: row) (auto simp: dom_update intro: distinct_update)
  from this [where cs="ar_Columns res" and row="[]" and f="\<lambda>col. GString (FormValue rq col)"] show ?thesis
    by (simp add: form_row_def)
qed


lemma edit_delete:
  "Builder_Delete sv now (admin_where p res rid) d =
     exec_stmt sv (pa_db p) (''DELETE FROM '' @ QuoteIdent (db_driver (pa_db p)) (ar_Slug res) @ '' WHERE (id = ?)'', [GString rid]) d"
  by (simp add: Builder_Delete_def admin_where_def DB_Table_def Builder_reset_def Where_def buildDeleteStmt_def buildDelete_def
      buildWhere_def where_part_def Let_def)

definition update_row_sql :: "Driver \<Rightarrow> string \<Rightarrow> string list \<Rightarrow> string" where
  "update_row_sql g table cols =
     ''UPDATE '' @ QuoteIdent g table @ '' SET '' @ Join '', '' (map (\<lambda>c. QuoteIdent g c @ '' = ?'') cols) @ '' WHERE (id = ?)''"

lemma edit_update:
  "Builder_Update sv row (admin_where p res rid) d =
     exec_stmt sv (pa_db p) (update_row_sql (db_driver (pa_db p)) (ar_Slug res) (map fst row), map snd row @ [GString rid]) d"
  by (simp add: Builder_Update_def admin_where_def DB_Table_def Builder_reset_def Where_def buildUpdate_def update_row_sql_def
      buildWhere_def where_part_def Let_def)

lemma handleEdit_effect:
  assumes "reads_only sv" and "snd (handleEdit sv now p res rq d) \<noteq> d"
  shows "rq_Method rq = ''POST'' \<and> edit_id p res rq \<noteq> [] \<and>
    (snd (handleEdit sv now p res rq d) = snd (Builder_Delete sv now (admin_where p res (edit_id p res rq)) d)
     \<or> snd (handleEdit sv now p res rq d) = snd (Builder_Update sv (form_row res rq) (admin_where p res (edit_id p res rq)) d))"
  using assms by (auto simp: handleEdit_def Let_def dest: Scan_reads split: if_splits prod.splits option.splits sum.splits)

lemma handleList_reads: "reads_only sv \<Longrightarrow> snd (handleList sv scan p res rq d) = d"
  by (auto simp: handleList_def Let_def dest: Scan_reads Count_reads split: prod.splits sum.splits)

lemma handleNew_reads: "snd (handleNew p res rq d) = d" "snd (handleDashboard p rq d) = d"
  by (auto simp: handleNew_def handleDashboard_def Builder_Insert_map_def)

section \<open>Properties\<close>

text \<open>
  Every panel route fails closed: as long as no authorizer is configured, or it refuses the request, no request whatsoever
  changes the database, and the only answers are 403, the redirects of the multiplexer and 404.
\<close>

theorem admin_fails_closed:
  assumes "\<forall>f. pa_authorize p = Some f \<longrightarrow> \<not> f rq"
  shows "snd (Panel_ServeHTTP env p m rq d) = d \<and> resp_status (fst (Panel_ServeHTTP env p m rq d)) \<in> {301, 403, 404}"
  using assms guard_cases [of p "route_handler env p h" rq d for h]
  by (auto simp: Panel_ServeHTTP_def resp_status_def guard_def split: mux_decision.splits option.splits)

definition log_server :: "(string \<times> gval list) list sql_server" where
  "log_server =
     \<lparr>sv_query = (\<lambda>tx q args d. (Inr \<lparr>rw_cols = [], rw_rows = [], rw_err = None, rw_close = None\<rparr>, d)),
      sv_exec = (\<lambda>tx q args d. (Inr 0, d @ [(q, args)])), sv_begin = (\<lambda>d. (None, d)), sv_commit = (\<lambda>d. (None, d)),
      sv_rollback = (\<lambda>d. (None, d))\<rparr>"

definition demo_panel :: "Authorizer list \<Rightarrow> Panel" where
  "demo_panel auths =
     (admin_New \<lparr>db_driver = DriverPostgres, db_tx = False, db_txDepth = 0\<rparr> (map WithAuth auths))
       \<lparr>pa_resources := [\<lparr>ar_Name = ''User'', ar_Slug = ''users'', ar_Model = None, ar_Columns = [''id'', ''name''],
          ar_Searchable = ''name'', ar_PerPage = 25\<rparr>]\<rparr>"

definition demo_admin_env :: "(string \<times> gval list) list admin_env" where
  "demo_admin_env = \<lparr>ae_sv = log_server, ae_scan = (\<lambda>_. Inr 0), ae_now = []\<rparr>"

definition delete_user :: Request where
  "delete_user = \<lparr>rq_Method = ''POST'', rq_Path = ''/admin/users/7'', rq_Query = [], rq_Header = [], rq_Form = [(''_method'', ''DELETE'')],
     rq_Cookies = [], rq_RemoteAddr = [], rq_TLS = False, rq_params = []\<rparr>"

abbreviation demo_admin_mux :: "admin_route mux" where
  "demo_admin_mux \<equiv> the (Panel_Handler (demo_panel []))"

theorem admin_fails_closed_witness:
  "snd (Panel_ServeHTTP demo_admin_env (demo_panel []) demo_admin_mux delete_user []) = []"
  using admin_fails_closed [of "demo_panel []" delete_user demo_admin_env demo_admin_mux "[]"]
  by (simp add: demo_panel_def admin_New_def)

text \<open>
  C23. What the panel can do to the data: a request that changes the database is an authorized POST for one row of one
  registered resource, and it runs one statement, a DELETE or an UPDATE of registered columns, whose text consists of quoted
  registered names only and which is restricted to the row whose ID the URL names, passed as an argument.
\<close>

theorem admin_writes_scoped:
  assumes "Panel_Handler p = Some m" and "reads_only (ae_sv env)"
    and "Panel_ServeHTTP env p m rq d = (resp, d')" and "d' \<noteq> d"
  shows "rq_Method rq = ''POST'' \<and> (\<exists>f. pa_authorize p = Some f \<and> f rq) \<and>
    (\<exists>res \<in> set (pa_resources p). \<exists>rid. rid \<noteq> [] \<and> rid = edit_id p res rq \<and>
       (d' = snd (exec_stmt (ae_sv env) (pa_db p)
                   (''DELETE FROM '' @ QuoteIdent (db_driver (pa_db p)) (ar_Slug res) @ '' WHERE (id = ?)'', [GString rid]) d) \<or>
        (\<exists>cols vals. set cols = set (ar_Columns res) \<and> distinct cols \<and> length vals = length cols \<and>
           d' = snd (exec_stmt (ae_sv env) (pa_db p)
                   (update_row_sql (db_driver (pa_db p)) (ar_Slug res) cols, vals @ [GString rid]) d))))"
proof -
  obtain h where h: "mux_find m (rq_Path rq) = MuxServe h" and run: "guard p (route_handler env p h) rq d = (resp, d')"
    using assms(3,4) by (auto simp: Panel_ServeHTTP_def split: mux_decision.splits)
  from guard_cases [of p "route_handler env p h" rq d] run assms(4)
  have auth: "\<exists>f. pa_authorize p = Some f \<and> f rq" and d': "d' = snd (route_handler env p h rq d)" by (auto simp: prod_eq_iff)
  from served_route [OF assms(1) h] d' assms(2,4) obtain res where res: "res \<in> set (pa_resources p)" "h = EditRoute res"
    by (auto simp: handleNew_reads handleList_reads)
  let ?row = "form_row res rq"
  from handleEdit_effect [OF assms(2), of "ae_now env" p res rq d] d' res assms(4)
  have eff: "rq_Method rq = ''POST''" "edit_id p res rq \<noteq> []"
    "d' = snd (Builder_Delete (ae_sv env) (ae_now env) (admin_where p res (edit_id p res rq)) d)
     \<or> d' = snd (Builder_Update (ae_sv env) ?row (admin_where p res (edit_id p res rq)) d)" by auto
  have "set (map fst ?row) = set (ar_Columns res)" "distinct (map fst ?row)" "length (map snd ?row) = length (map fst ?row)"
    using form_row_cols by simp_all
  with auth eff res show ?thesis unfolding edit_delete edit_update by blast
qed

theorem admin_writes_scoped_witness:
  "let out = snd (Panel_ServeHTTP demo_admin_env (demo_panel [\<lambda>_. True]) demo_admin_mux delete_user [])
   in out = [(''DELETE FROM '' @ [CHR 0x22] @ ''users'' @ [CHR 0x22] @ '' WHERE (id = $1)'', [GString ''7''])]
      \<and> (\<exists>f. pa_authorize (demo_panel [\<lambda>_. True]) = Some f \<and> f delete_user)"
proof -
  let ?p = "demo_panel [\<lambda>_. True]"
  obtain resp d' where run: "Panel_ServeHTTP demo_admin_env ?p demo_admin_mux delete_user [] = (resp, d')"
    by (cases "Panel_ServeHTTP demo_admin_env ?p demo_admin_mux delete_user []")
  have "snd (Panel_ServeHTTP demo_admin_env ?p demo_admin_mux delete_user [])
      = [(''DELETE FROM '' @ [CHR 0x22] @ ''users'' @ [CHR 0x22] @ '' WHERE (id = $1)'', [GString ''7''])]"
    by code_simp
  moreover have "reads_only (ae_sv demo_admin_env)" by (simp add: reads_only_def demo_admin_env_def log_server_def)
  moreover have "Panel_Handler ?p = Some demo_admin_mux"
    by (simp add: demo_panel_def admin_New_def WithAuth_def Panel_Handler_def panel_routes_def mux_HandleFunc_def)
  ultimately show ?thesis using admin_writes_scoped [OF _ _ run] run by (auto simp: Let_def)
qed

text \<open>
  The panel never shows a row: \<open>Scan\<close> stores one column of one row, so reading into a slice of maps or into a map fails whenever
  a row is found. Lists and forms are only ever rendered without data, the list and the JSON API of a table with rows answer 500,
  and creating a row always fails because \<open>Insert\<close> refuses maps.
\<close>

theorem admin_never_shows_rows:
  "case fst (Panel_ServeHTTP env p m rq d) of
     ListPage l \<Rightarrow> lp_Rows l = [] | FormPage f \<Rightarrow> fp_Row f = None | JSONRows _ rows \<Rightarrow> rows = [] | _ \<Rightarrow> True"
proof -
  have "case fst (route_handler env p h rq d) of
      ListPage l \<Rightarrow> lp_Rows l = [] | FormPage f \<Rightarrow> fp_Row f = None | JSONRows _ rows \<Rightarrow> rows = [] | _ \<Rightarrow> True" for h
    by (cases h) (auto simp: handleDashboard_def handleNew_def Builder_Insert_map_def handleList_def handleEdit_def api_list_def Let_def
        dest: Scan_map_never split: prod.splits sum.splits option.splits)
  then show ?thesis by (auto simp: Panel_ServeHTTP_def guard_def split: mux_decision.splits option.splits)
qed

text \<open>
  All pages have the content of the form: the three page files define the same template name in one set, and the last one parsed
  is the form.
\<close>

theorem pages_share_content:
  "page_content ''dashboard.html'' = Some FormContent \<and> page_content ''list.html'' = Some FormContent
   \<and> page_content ''form.html'' = Some FormContent"
  by code_simp

end
