(* ===== verification/Disk_Storage.thy ===== *)
theory Disk_Storage
  imports Local_Storage
begin

text \<open>
  Model of \<open>framework/storage/storage.go\<close> and \<open>framework/storage/s3.go\<close>: the manager of named disks, the S3 driver, and the contract
  both drivers keep. The AWS client is a record of functions on the state of the object store; the locale \<open>s3_service\<close> states what S3
  documents about them, with \<open>CopyObject\<close> taking a source of the form bucket/key that is percent-decoded by the service. Readers are
  read to the end when they are stored.
\<close>

section \<open>The client\<close>

datatype s3_error = S3NotFound | S3NoSuchKey | S3Error string

record PutObjectInput =
  po_Bucket :: string
  po_Key :: string
  po_Body :: string
  po_ContentType :: string
  po_Metadata :: "(string, string) gomap"
  po_ACL :: "string option"

record 's s3_client =
  sc_PutObject :: "PutObjectInput \<Rightarrow> 's \<Rightarrow> s3_error option \<times> 's"
  sc_GetObject :: "string \<Rightarrow> string \<Rightarrow> 's \<Rightarrow> s3_error + string"
  sc_HeadObject :: "string \<Rightarrow> string \<Rightarrow> 's \<Rightarrow> s3_error + i64 option" \<comment> \<open>with the content length, if the answer has one\<close>
  sc_DeleteObject :: "string \<Rightarrow> string \<Rightarrow> 's \<Rightarrow> s3_error option \<times> 's"
  sc_CopyObject :: "string \<Rightarrow> string \<Rightarrow> string \<Rightarrow> 's \<Rightarrow> s3_error option \<times> 's" \<comment> \<open>bucket, source, key\<close>
  sc_ListPages :: "string \<Rightarrow> string \<Rightarrow> 's \<Rightarrow> (s3_error + string list) list" \<comment> \<open>what \<open>NextPage\<close> returns, page by page\<close>
  sc_Presign :: "string \<Rightarrow> string \<Rightarrow> duration \<Rightarrow> s3_error + string"

section \<open>The S3 driver\<close>

record S3Config =
  s3_Bucket :: string
  s3_Region :: string
  s3_AccessKeyID :: string
  s3_SecretAccessKey :: string
  s3_Endpoint :: string
  s3_BaseURL :: string
  s3_DefaultACL :: string
  s3_ForcePathStyle :: bool

record PutOptions =
  pt_ContentType :: string
  pt_ACL :: string
  pt_Metadata :: "(string, string) gomap"

text \<open>The options \<open>NewS3\<close> gives to the client: region, keys, path style and endpoint.\<close>

record s3_options =
  so_Region :: string
  so_Keys :: "string \<times> string"
  so_UsePathStyle :: bool
  so_BaseEndpoint :: "string option"

definition NewS3 :: "(s3_options \<Rightarrow> string + 'c) \<Rightarrow> S3Config \<Rightarrow> string + S3Config \<times> 'c" where
  "NewS3 load cfg =
     (let cfg = (if s3_DefaultACL cfg = [] then cfg\<lparr>s3_DefaultACL := ''private''\<rparr> else cfg)
      in case load \<lparr>so_Region = s3_Region cfg, so_Keys = (s3_AccessKeyID cfg, s3_SecretAccessKey cfg),
                    so_UsePathStyle = s3_ForcePathStyle cfg,
                    so_BaseEndpoint = (if s3_Endpoint cfg \<noteq> [] then Some (s3_Endpoint cfg) else None)\<rparr> of
           Inl e \<Rightarrow> Inl (''storage/s3: load config: '' @ e)
         | Inr client \<Rightarrow> Inr (cfg, client))"

definition put_input :: "S3Config \<Rightarrow> string \<Rightarrow> string \<Rightarrow> PutOptions list \<Rightarrow> PutObjectInput" where
  "put_input cfg path body opts =
     (let (ct, acl, meta) =
        (case opts of
           [] \<Rightarrow> (''application/octet-stream'', s3_DefaultACL cfg, [])
         | o1 # _ \<Rightarrow> (if pt_ContentType o1 \<noteq> [] then pt_ContentType o1 else ''application/octet-stream'',
                      if pt_ACL o1 \<noteq> [] then pt_ACL o1 else s3_DefaultACL cfg, pt_Metadata o1))
      in \<lparr>po_Bucket = s3_Bucket cfg, po_Key = path, po_Body = body, po_ContentType = ct, po_Metadata = meta,
          po_ACL = (if acl \<noteq> [] \<and> acl \<noteq> ''private'' then Some acl else None)\<rparr>)"

datatype disk_error = S3Failed string string s3_error | S3Plain s3_error

definition S3_Put :: "'s s3_client \<Rightarrow> S3Config \<Rightarrow> string \<Rightarrow> string \<Rightarrow> PutOptions list \<Rightarrow> 's \<Rightarrow> disk_error option \<times> 's" where
  "S3_Put c cfg path body opts s =
     (case sc_PutObject c (put_input cfg path body opts) s of
        (Some e, s1) \<Rightarrow> (Some (S3Failed ''put'' path e), s1)
      | (None, s1) \<Rightarrow> (None, s1))"

definition S3_Get :: "'s s3_client \<Rightarrow> S3Config \<Rightarrow> string \<Rightarrow> 's \<Rightarrow> disk_error + string" where
  "S3_Get c cfg path s = map_sum (S3Failed ''get'' path) id (sc_GetObject c (s3_Bucket cfg) path s)"

definition S3_Delete :: "'s s3_client \<Rightarrow> S3Config \<Rightarrow> string \<Rightarrow> 's \<Rightarrow> disk_error option \<times> 's" where
  "S3_Delete c cfg path s = map_prod (map_option S3Plain) id (sc_DeleteObject c (s3_Bucket cfg) path s)"

definition S3_Exists :: "'s s3_client \<Rightarrow> S3Config \<Rightarrow> string \<Rightarrow> 's \<Rightarrow> disk_error + bool" where
  "S3_Exists c cfg path s =
     (case sc_HeadObject c (s3_Bucket cfg) path s of
        Inl e \<Rightarrow> if e = S3NotFound \<or> e = S3NoSuchKey then Inr False else Inl (S3Failed ''head'' path e)
      | Inr _ \<Rightarrow> Inr True)"

definition S3_URL :: "S3Config \<Rightarrow> string \<Rightarrow> string" where
  "S3_URL cfg path =
     (if s3_BaseURL cfg \<noteq> [] then trimRightSlash (s3_BaseURL cfg) @ ''/'' @ dropWhile (\<lambda>c. c = CHR ''/'') path
      else ''https://'' @ s3_Bucket cfg @ ''.s3.'' @ s3_Region cfg @ ''.amazonaws.com/'' @ path)"

definition S3_SignedURL :: "'s s3_client \<Rightarrow> S3Config \<Rightarrow> string \<Rightarrow> duration \<Rightarrow> disk_error + string" where
  "S3_SignedURL c cfg path ttl = map_sum (S3Failed ''sign url'' path) id (sc_Presign c (s3_Bucket cfg) path ttl)"

fun list_pages :: "string \<Rightarrow> string list \<Rightarrow> (s3_error + string list) list \<Rightarrow> disk_error + string list" where
  "list_pages prefix keys [] = Inr keys"
| "list_pages prefix keys (Inl e # pages) = Inl (S3Failed ''list'' prefix e)"
| "list_pages prefix keys (Inr page # pages) = list_pages prefix (keys @ page) pages"

definition S3_List :: "'s s3_client \<Rightarrow> S3Config \<Rightarrow> string \<Rightarrow> 's \<Rightarrow> disk_error + string list" where
  "S3_List c cfg prefix s = list_pages prefix [] (sc_ListPages c (s3_Bucket cfg) prefix s)"

definition S3_Size :: "'s s3_client \<Rightarrow> S3Config \<Rightarrow> string \<Rightarrow> 's \<Rightarrow> disk_error + i64" where
  "S3_Size c cfg path s =
     map_sum S3Plain (\<lambda>n. case n of Some k \<Rightarrow> k | None \<Rightarrow> 0) (sc_HeadObject c (s3_Bucket cfg) path s)"

definition S3_Copy :: "'s s3_client \<Rightarrow> S3Config \<Rightarrow> string \<Rightarrow> string \<Rightarrow> 's \<Rightarrow> disk_error option \<times> 's" where
  "S3_Copy c cfg src dst s =
     map_prod (map_option S3Plain) id (sc_CopyObject c (s3_Bucket cfg) (s3_Bucket cfg @ ''/'' @ src) dst s)"

definition S3_Move :: "'s s3_client \<Rightarrow> S3Config \<Rightarrow> string \<Rightarrow> string \<Rightarrow> 's \<Rightarrow> disk_error option \<times> 's" where
  "S3_Move c cfg src dst s =
     (case S3_Copy c cfg src dst s of
        (Some e, s1) \<Rightarrow> (Some e, s1)
      | (None, s1) \<Rightarrow> S3_Delete c cfg src s1)"

section \<open>The manager\<close>

record 'disk DiskManager =
  dm_disks :: "(string, 'disk) gomap"
  dm_Default :: string

definition NewDiskManager :: "string \<Rightarrow> (string, 'disk) gomap \<Rightarrow> 'disk DiskManager" where
  "NewDiskManager defaultDisk disks = \<lparr>dm_disks = disks, dm_Default = defaultDisk\<rparr>"

text \<open>\<open>Disk\<close> panics for an unknown name. \<open>Put\<close>, \<open>Get\<close>, \<open>Delete\<close> and \<open>URL\<close> run the operation of the default disk.\<close>

definition Manager_Disk :: "'disk DiskManager \<Rightarrow> string \<Rightarrow> string + 'disk" where
  "Manager_Disk m name = (case map_of (dm_disks m) name of Some d \<Rightarrow> Inr d | None \<Rightarrow> Inl (''storage: unknown disk '' @ name))"

definition on_default :: "('disk \<Rightarrow> 'r) \<Rightarrow> 'disk DiskManager \<Rightarrow> string + 'r" where
  "on_default f m = map_sum id f (Manager_Disk m (dm_Default m))"

section \<open>The contract of a disk\<close>

text \<open>
  What clients rely on: a disk holds contents under normalised keys; a successful \<open>put\<close>, \<open>delete\<close> or \<open>copy\<close> changes the content of
  its target and of nothing else, \<open>get\<close> and \<open>exists\<close> tell what is stored. Copying a key onto itself is left open.
\<close>

locale disk =
  fixes put :: "string \<Rightarrow> string \<Rightarrow> 's \<Rightarrow> 'e option \<times> 's"
    and get :: "string \<Rightarrow> 's \<Rightarrow> 'e + string"
    and delete :: "string \<Rightarrow> 's \<Rightarrow> 'e option \<times> 's"
    and copy :: "string \<Rightarrow> string \<Rightarrow> 's \<Rightarrow> 'e option \<times> 's"
    and move :: "string \<Rightarrow> string \<Rightarrow> 's \<Rightarrow> 'e option \<times> 's"
    and norm :: "string \<Rightarrow> 'k"
    and contents :: "'s \<Rightarrow> 'k \<Rightarrow> string option"
    and inv :: "'s \<Rightarrow> bool"
    and good :: "string \<Rightarrow> bool" \<comment> \<open>the keys that can be the source of a copy\<close>
  assumes put_ok: "inv s \<Longrightarrow> put k v s = (None, s') \<Longrightarrow> contents s' = (contents s)(norm k \<mapsto> v)"
    and get_sound: "inv s \<Longrightarrow> get k s = Inr v \<Longrightarrow> contents s (norm k) = Some v"
    and delete_ok: "inv s \<Longrightarrow> delete k s = (None, s') \<Longrightarrow> contents s' = (contents s)(norm k := None)"
    and copy_ok: "inv s \<Longrightarrow> good src \<Longrightarrow> norm src \<noteq> norm dst \<Longrightarrow> copy src dst s = (None, s') \<Longrightarrow>
      contents s (norm src) \<noteq> None \<and> contents s' = (contents s)(norm dst := contents s (norm src))"
    and move_copies: "move src dst s = (case copy src dst s of (Some e, s1) \<Rightarrow> (Some e, s1) | (None, s1) \<Rightarrow> delete src s1)"
    and put_inv: "inv s \<Longrightarrow> inv (snd (put k v s))"
    and delete_inv: "inv s \<Longrightarrow> inv (snd (delete k s))"
    and copy_inv: "inv s \<Longrightarrow> inv (snd (copy src dst s))"
begin

lemma get_after_put: "inv s \<Longrightarrow> put k v s = (None, s') \<Longrightarrow> get k s' = Inr w \<Longrightarrow> w = v"
  using put_inv [of s k v] get_sound [of s' k w] by (auto simp: put_ok)

lemma move_inv: "inv s \<Longrightarrow> inv (snd (move src dst s))"
  using copy_inv [of s src dst] delete_inv by (auto simp: move_copies split: prod.splits option.splits)

lemma move_renames:
  assumes "inv s" and "good src" and "norm src \<noteq> norm dst" and "move src dst s = (None, s')"
  shows "\<exists>v. contents s (norm src) = Some v \<and> contents s' = (contents s)(norm dst \<mapsto> v, norm src := None)"
proof -
  from assms(4) obtain s1 where c: "copy src dst s = (None, s1)" and d: "delete src s1 = (None, s')"
    by (auto simp: move_copies split: prod.splits option.splits)
  with copy_inv [OF assms(1), of src dst] have "contents s' = (contents s1)(norm src := None)" by (auto intro: delete_ok)
  with copy_ok [OF assms(1-3) c] show ?thesis by auto
qed

text \<open>After a successful move the content is read under the new key, and moving it back restores every key but the target's.\<close>

lemma move_there_and_back:
  assumes "inv s" and "good src" and "good dst" and "norm src \<noteq> norm dst"
    and "move src dst s = (None, s1)" and "move dst src s1 = (None, s2)"
  shows "(\<forall>w. get dst s1 = Inr w \<longrightarrow> contents s (norm src) = Some w) \<and> contents s2 = (contents s)(norm dst := None)"
proof -
  obtain v where v: "contents s (norm src) = Some v" and c1: "contents s1 = (contents s)(norm dst \<mapsto> v, norm src := None)"
    using move_renames [OF assms(1,2,4,5)] by blast
  have inv1: "inv s1" using move_inv [OF assms(1), of src dst] assms(5) by simp
  have stored: "contents s1 (norm dst) = Some v" using c1 assms(4) by simp
  moreover have "contents s2 = (contents s1)(norm src := contents s1 (norm dst), norm dst := None)"
    using move_renames [OF inv1 assms(3) not_sym [OF assms(4)] assms(6)] by auto
  ultimately have "contents s2 = (contents s)(norm dst := None)" using c1 v assms(4) by (auto simp: fun_eq_iff)
  with v get_sound [OF inv1] stored show ?thesis by fastforce
qed

end

section \<open>The local disk keeps the contract\<close>

text \<open>File systems in which every entry lies in a directory.\<close>

definition fs_wf :: "fs \<Rightarrow> bool" where
  "fs_wf fs = (\<forall>k. map_of fs k \<noteq> None \<longrightarrow> k \<noteq> [] \<and> (\<forall>j. 0 < j \<and> j < length k \<longrightarrow> map_of fs (take j k) = Some Dir))"

lemma walk_iff:
  "walk fs pre cs = None \<longleftrightarrow> (\<forall>j. 0 < j \<and> j < length cs \<longrightarrow> fs_node fs (pre @ take j cs) = Some Dir)"
proof (induction fs pre cs rule: walk.induct)
  case (3 fs pre c d cs)
  have split: "(\<forall>j. 0 < j \<and> j < length (c # d # cs) \<longrightarrow> P (pre @ take j (c # d # cs)))
      \<longleftrightarrow> P (pre @ [c]) \<and> (\<forall>j. 0 < j \<and> j < length (d # cs) \<longrightarrow> P ((pre @ [c]) @ take j (d # cs)))"
    (is "?all \<longleftrightarrow> ?one \<and> ?rest") for P :: "string list \<Rightarrow> bool"
  proof
    assume all: ?all
    from all [rule_format, of 1] have ?one by simp
    moreover have ?rest using all [rule_format, of "Suc j" for j] by auto
    ultimately show "?one \<and> ?rest" ..
  next
    assume r: "?one \<and> ?rest"
    show ?all
    proof (intro allI impI)
      fix j assume "0 < j \<and> j < length (c # d # cs)"
      then show "P (pre @ take j (c # d # cs))" using r by (cases j) (auto simp: take_Cons' split: if_splits)
    qed
  qed
  show ?case using 3 unfolding split [of "\<lambda>k. fs_node fs k = Some Dir"] by (auto split: option.splits node.splits)
qed auto

lemma wf_walk: "fs_wf fs \<Longrightarrow> map_of fs k \<noteq> None \<Longrightarrow> walk fs [] k = None"
  by (auto simp: walk_iff fs_wf_def fs_node_def)

lemma wf_stat: "fs_wf fs \<Longrightarrow> map_of fs k = Some n \<Longrightarrow> os_Stat fs k = Inr n"
  using wf_walk [of fs k] by (auto simp: os_Stat_def fs_node_def fs_wf_def)


lemma wf_add:
  assumes "fs_wf fs" and "k \<noteq> []" and "\<And>j. 0 < j \<Longrightarrow> j < length k \<Longrightarrow> map_of fs (take j k) = Some Dir"
    and "map_of fs k = Some Dir \<longrightarrow> n = Dir"
  shows "fs_wf (AList.update k n fs)"
  unfolding fs_wf_def
proof (intro allI impI)
  fix q assume q: "map_of (AList.update k n fs) q \<noteq> None"
  have old: "map_of fs (take j q) = Some Dir" if "0 < j" "j < length q" for j
    using q assms(1,3) that by (cases "q = k") (auto simp: fs_wf_def)
  then have "map_of (AList.update k n fs) (take j q) = Some Dir" if "0 < j" "j < length q" for j
    using that assms(4) by (cases "take j q = k") auto
  moreover have "q \<noteq> []" using q assms(1,2) by (cases "q = k") (auto simp: fs_wf_def)
  ultimately show "q \<noteq> [] \<and> (\<forall>j. 0 < j \<and> j < length q \<longrightarrow> map_of (AList.update k n fs) (take j q) = Some Dir)" by blast
qed

lemma wf_MkdirAll:
  "fs_wf fs \<Longrightarrow> (\<And>j. 0 < j \<Longrightarrow> j \<le> length pre \<Longrightarrow> map_of fs (take j pre) = Some Dir) \<Longrightarrow> fs_wf (snd (os_MkdirAll fs pre cs))"
proof (induction fs pre cs rule: os_MkdirAll.induct)
  case (2 fs pre c cs)
  have pre: "map_of fs (take j (pre @ [c])) = Some Dir" if "0 < j" "j < length (pre @ [c])" for j
    using 2(4) [of j] that by simp
  show ?case
  proof (cases "map_of fs (pre @ [c])")
    case None
    have "fs_wf (AList.update (pre @ [c]) Dir fs)" by (rule wf_add) (use 2(3) pre in auto)
    moreover have "map_of (AList.update (pre @ [c]) Dir fs) (take j (pre @ [c])) = Some Dir" if "0 < j" "j \<le> length (pre @ [c])" for j
      using pre [of j] that by (cases "j = length (pre @ [c])") (auto simp: update_conv')
    ultimately have "fs_wf (snd (os_MkdirAll (AList.update (pre @ [c]) Dir fs) (pre @ [c]) cs))" by (rule 2(1) [OF None])
    then show ?thesis using None by simp
  next
    case (Some n)
    have "map_of fs (take j (pre @ [c])) = Some Dir" if "n = Dir" "0 < j" "j \<le> length (pre @ [c])" for j
      using pre [of j] that Some by (cases "j = length (pre @ [c])") auto
    then show ?thesis using 2(2) [OF Some] 2(3) Some by (cases n) auto
  qed
qed simp

lemma wf_Create: "fs_wf fs \<Longrightarrow> fs_wf (snd (os_Create fs cs))"
proof -
  assume wf: "fs_wf fs"
  show ?thesis
  proof (cases "walk fs [] cs = None \<and> fs_node fs cs \<noteq> Some Dir")
    case True
    then have w: "fs_node fs (take j cs) = Some Dir" if "0 < j" "j < length cs" for j
      using that by (auto simp: walk_iff)
    have "fs_wf (AList.update cs (File []) fs)"
    proof (rule wf_add [OF wf])
      show "cs \<noteq> []" using True by (auto simp: fs_node_def)
      show "map_of fs (take j cs) = Some Dir" if "0 < j" "j < length cs" for j
        using w [OF that] that by (auto simp: fs_node_def split: if_splits)
      show "map_of fs cs = Some Dir \<longrightarrow> File [] = Dir" using True by (auto simp: fs_node_def split: if_splits)
    qed
    then show ?thesis using True by (auto simp: os_Create_def split: option.splits node.splits)
  qed (use wf in \<open>auto simp: os_Create_def split: option.splits node.splits\<close>)
qed


lemma wf_Remove: "fs_wf fs \<Longrightarrow> fs_wf (snd (os_Remove fs cs))"
proof -
  assume wf: "fs_wf fs"
  have del: "fs_wf (AList.delete cs fs)"
    if "\<And>k. map_of fs k \<noteq> None \<Longrightarrow> length cs < length k \<Longrightarrow> take (length cs) k \<noteq> cs"
    using wf that unfolding fs_wf_def
    by (auto simp: delete_conv' split: if_splits) (metis length_take less_imp_le_nat min.absorb2 option.distinct(1))
  show ?thesis
  proof (cases "os_Stat fs cs")
    case (Inr n)
    then have node: "fs_node fs cs = Some n" by (auto simp: os_Stat_def split: option.splits)
    show ?thesis
    proof (cases n)
      case (File b)
      have "take (length cs) k \<noteq> cs" if "map_of fs k \<noteq> None" "length cs < length k" for k
      proof
        assume "take (length cs) k = cs"
        moreover have "cs \<noteq> []" using node File by (auto simp: fs_node_def)
        ultimately have "map_of fs cs = Some Dir" using wf that unfolding fs_wf_def by (metis length_greater_0_conv)
        with node File show False by (auto simp: fs_node_def split: if_splits)
      qed
      from del [OF this] show ?thesis using Inr File by (simp add: os_Remove_def)
    next
      case Dir
      have "fs_wf (AList.delete cs fs)" if "\<not> (\<exists>k \<in> fst ` set fs. length k > length cs \<and> take (length cs) k = cs)"
        by (rule del) (use that in \<open>auto simp: map_of_eq_None_iff\<close>)
      then show ?thesis using Inr Dir wf by (auto simp: os_Remove_def)
    qed
  qed (simp add: os_Remove_def wf)
qed

definition local_at :: "string \<Rightarrow> string \<Rightarrow> Local" where
  "local_at dir url = \<lparr>lo_root = Clean dir, lo_baseURL = url\<rparr>"

definition local_contents :: "string \<Rightarrow> fs \<Rightarrow> string list \<Rightarrow> string option" where
  "local_contents dir fs k = (case map_of fs (cleanComps dir @ k) of Some (File b) \<Rightarrow> Some b | _ \<Rightarrow> None)"

lemma local_at_root: "lo_root (local_at dir url) = rooted (cleanComps dir)" "list_all good_comp (cleanComps dir)"
  by (simp_all add: local_at_def Clean_def cleanComps_good)

lemma local_contents_file: "local_contents dir fs k = Some b \<longleftrightarrow> map_of fs (cleanComps dir @ k) = Some (File b)"
  by (auto simp: local_contents_def split: option.splits node.splits)

lemma local_contents_eqI:
  "(\<And>k b. local_contents dir fs k = Some b \<longleftrightarrow> m k = Some b) \<Longrightarrow> local_contents dir fs = m"
  by (rule ext) (metis not_None_eq)

lemma local_Put_wf: "fs_wf fs \<Longrightarrow> fs_wf (snd (Local_Put l fs path r))"
proof -
  assume wf: "fs_wf fs"
  have upd: "fs_wf (AList.update cs (File b) fs2)" if "os_Create fs1 cs = (None, fs2)" "fs_wf fs1" for cs fs1 fs2 b
  proof -
    have "fs_wf fs2" using wf_Create [OF that(2), of cs] that(1) by simp
    moreover have "map_of fs2 cs = Some (File [])" using that(1) by (auto simp: os_Create_def split: option.splits node.splits)
    ultimately show ?thesis by (intro wf_add) (auto simp: fs_wf_def)
  qed
  have "fs_wf fs1" if "os_MkdirAll fs [] cs = (e, fs1)" for cs e fs1
    using wf_MkdirAll [OF wf, of "[]" cs] that by simp
  then show ?thesis using wf wf_Create upd
    by (auto simp: Local_Put_def split: sum.split prod.split option.split) (metis snd_conv)+
qed

lemma local_Delete_wf: "fs_wf fs \<Longrightarrow> fs_wf (snd (Local_Delete l fs path))"
  using wf_Remove by (auto simp: Local_Delete_def split: sum.split prod.split option.split storage_error.split) (metis snd_conv)+


lemma local_Put_contents:
  assumes "Local_Put (local_at dir url) fs path r = (None, fs')"
  shows "\<exists>fs2 b. r fs2 = Some b \<and> local_contents dir fs' = (local_contents dir fs)(cleanComps path \<mapsto> b) \<and>
    (\<forall>k. k \<noteq> cleanComps dir @ cleanComps path \<longrightarrow> file_reader k fs2 = file_reader k fs)"
proof -
  let ?cs = "cleanComps dir @ cleanComps path"
  note root = local_at_root(1) [of dir url] local_at_root(2) [of dir]
  have dst: "Local_abs (local_at dir url) path = Inr (rooted ?cs)" "cleanComps (rooted ?cs) = ?cs"
    using abs_rooted [OF root] abs_in_root [OF root] by blast+
  from assms obtain fs1 fs2 b where m: "os_MkdirAll fs [] (butlast ?cs) = (None, fs1)" and c: "os_Create fs1 ?cs = (None, fs2)"
    and r: "r fs2 = Some b" and fs': "fs' = AList.update ?cs (File b) fs2"
    by (auto simp: Local_Put_def dst split: prod.splits option.splits)
  have same: "map_of fs2 k = Some (File x) \<longleftrightarrow> map_of fs k = Some (File x)" if "k \<noteq> ?cs" for k x
    using MkdirAll_keeps_files [of fs k x] MkdirAll_files_old [of fs "[]" "butlast ?cs" k x] m Create_other [OF that, of fs1] c
    by (metis snd_conv)
  have "local_contents dir fs' k = Some x \<longleftrightarrow> ((local_contents dir fs)(cleanComps path \<mapsto> b)) k = Some x" for k x
    using same [of "cleanComps dir @ k" x] by (auto simp: local_contents_file fs' update_conv')
  then have "local_contents dir fs' = (local_contents dir fs)(cleanComps path \<mapsto> b)" by (rule local_contents_eqI)
  with r same show ?thesis using file_reader_cong [of fs2 _ fs] by blast
qed

definition local_get :: "Local \<Rightarrow> string \<Rightarrow> fs \<Rightarrow> storage_error + string" where
  "local_get l path fs = (case Local_Get l fs path of Inl e \<Rightarrow> Inl e | Inr rd \<Rightarrow> (case rd fs of None \<Rightarrow> Inl ReadFailed | Some b \<Rightarrow> Inr b))"

lemma local_get_contents:
  assumes "local_get (local_at dir url) path fs = Inr v"
  shows "local_contents dir fs (cleanComps path) = Some v"
proof -
  let ?cs = "cleanComps dir @ cleanComps path"
  note root = local_at_root(1) [of dir url] local_at_root(2) [of dir]
  have dst: "Local_abs (local_at dir url) path = Inr (rooted ?cs)" "cleanComps (rooted ?cs) = ?cs"
    using abs_rooted [OF root] abs_in_root [OF root] by blast+
  from assms show ?thesis
    by (auto simp: local_get_def Local_Get_def dst file_reader_def fs_node_def local_contents_file split: sum.splits option.splits node.splits if_splits)
qed

lemma local_Delete_contents:
  assumes "fs_wf fs" and "Local_Delete (local_at dir url) fs path = (None, fs')"
  shows "local_contents dir fs' = (local_contents dir fs)(cleanComps path := None)"
proof (rule local_contents_eqI)
  fix k b
  let ?cs = "cleanComps dir @ cleanComps path"
  note root = local_at_root(1) [of dir url] local_at_root(2) [of dir]
  have dst: "Local_abs (local_at dir url) path = Inr (rooted ?cs)" "cleanComps (rooted ?cs) = ?cs"
    using abs_rooted [OF root] abs_in_root [OF root] by blast+
  have "\<not> (\<exists>b. map_of fs' ?cs = Some (File b))"
  proof (cases "os_Stat fs ?cs")
    case (Inl e)
    then have "map_of fs ?cs = None" using wf_stat [OF assms(1), of ?cs] by (cases "map_of fs ?cs") auto
    moreover have "fs' = fs" using assms(2) Inl by (auto simp: Local_Delete_def dst os_Remove_def split: storage_error.splits)
    ultimately show ?thesis by simp
  next
    case (Inr n)
    then show ?thesis using assms(2)
      by (cases n) (auto simp: Local_Delete_def dst os_Remove_def delete_conv' split: if_splits)
  qed
  then show "local_contents dir fs' k = Some b \<longleftrightarrow> ((local_contents dir fs)(cleanComps path := None)) k = Some b"
    using Delete_other_files [OF root, of "cleanComps dir @ k" path fs] assms(2) by (auto simp: local_contents_file)
qed

lemma local_Copy_contents:
  assumes "cleanComps src \<noteq> cleanComps dst" and "Local_Copy (local_at dir url) fs src dst = (None, fs')"
  shows "local_contents dir fs (cleanComps src) \<noteq> None \<and>
    local_contents dir fs' = (local_contents dir fs)(cleanComps dst := local_contents dir fs (cleanComps src))"
proof -
  let ?cs = "cleanComps dir @ cleanComps src"
  note root = local_at_root(1) [of dir url] local_at_root(2) [of dir]
  have "cleanComps (rooted ?cs) = ?cs" "Local_abs (local_at dir url) src = Inr (rooted ?cs)"
    using abs_rooted [OF root] abs_in_root [OF root] by blast+
  with assms(2) have put: "Local_Put (local_at dir url) fs dst (file_reader ?cs) = (None, fs')"
    by (auto simp: Local_Copy_def Local_Get_def split: sum.splits)
  from local_Put_contents [OF put] assms(1) obtain b where b: "file_reader ?cs fs = Some b"
    and c: "local_contents dir fs' = (local_contents dir fs)(cleanComps dst \<mapsto> b)" by auto
  have "local_contents dir fs (cleanComps src) = Some b"
    using b by (auto simp: local_contents_file file_reader_def fs_node_def split: option.splits node.splits if_splits)
  with c show ?thesis by simp
qed

interpretation local_disk: disk "\<lambda>k v fs. Local_Put (local_at dir url) fs k (\<lambda>_. Some v)" "local_get (local_at dir url)"
  "\<lambda>k fs. Local_Delete (local_at dir url) fs k" "\<lambda>src dst fs. Local_Copy (local_at dir url) fs src dst"
  "\<lambda>src dst fs. Local_Move (local_at dir url) fs src dst" cleanComps "local_contents dir" fs_wf "\<lambda>_. True"
  for dir url
proof
  show "fs_wf (snd (Local_Copy (local_at dir url) fs src dst))" if "fs_wf fs" for fs src dst
    using that local_Put_wf by (auto simp: Local_Copy_def split: sum.splits)
qed (auto dest: local_Put_contents local_get_contents local_Copy_contents local_Delete_contents intro: local_Put_wf local_Delete_wf
    simp: Local_Move_def split: prod.splits option.splits)


section \<open>The S3 driver keeps the contract\<close>

text \<open>Keys that percent-decoding and the version syntax leave alone.\<close>

definition plain_key :: "string \<Rightarrow> bool" where
  "plain_key k = (CHR ''%'' \<notin> set k \<and> CHR ''+'' \<notin> set k \<and> CHR ''?'' \<notin> set k)"

locale s3_service =
  fixes c :: "'s s3_client"
    and objects :: "'s \<Rightarrow> string \<times> string \<Rightarrow> string option"
    and decode :: "string \<Rightarrow> string"
  assumes put_object: "sc_PutObject c inp s = (None, s') \<Longrightarrow> objects s' = (objects s)((po_Bucket inp, po_Key inp) \<mapsto> po_Body inp)"
    and get_object: "sc_GetObject c b k s = Inr v \<Longrightarrow> objects s (b, k) = Some v"
    and delete_object: "sc_DeleteObject c b k s = (None, s') \<Longrightarrow> objects s' = (objects s)((b, k) := None)"
    and copy_object: "sc_CopyObject c b source k s = (None, s') \<Longrightarrow> decode source = sb @ ''/'' @ sk \<Longrightarrow> CHR ''/'' \<notin> set sb \<Longrightarrow>
      objects s (sb, sk) \<noteq> None \<and> objects s' = (objects s)((b, k) := objects s (sb, sk))"
    and decode_plain: "plain_key k \<Longrightarrow> decode k = k"

definition bucket_contents :: "('s \<Rightarrow> string \<times> string \<Rightarrow> string option) \<Rightarrow> S3Config \<Rightarrow> 's \<Rightarrow> string \<Rightarrow> string option" where
  "bucket_contents objects cfg s k = objects s (s3_Bucket cfg, k)"

locale s3_bucket = s3_service +
  fixes cfg :: S3Config
  assumes bucket_name: "plain_key (s3_Bucket cfg)" "CHR ''/'' \<notin> set (s3_Bucket cfg)"
begin

lemma bucket_put: "S3_Put c cfg k v opts s = (None, s') \<Longrightarrow> bucket_contents objects cfg s' = (bucket_contents objects cfg s)(k \<mapsto> v)"
  by (auto simp: S3_Put_def bucket_contents_def put_input_def fun_eq_iff dest!: put_object split: prod.splits option.splits list.splits)

lemma bucket_copy:
  assumes "plain_key src" and "S3_Copy c cfg src dst s = (None, s')"
  shows "bucket_contents objects cfg s src \<noteq> None \<and> bucket_contents objects cfg s' = (bucket_contents objects cfg s)(dst := bucket_contents objects cfg s src)"
proof -
  have "plain_key (s3_Bucket cfg @ ''/'' @ src)" using assms(1) bucket_name(1) by (auto simp: plain_key_def)
  then have d: "decode (s3_Bucket cfg @ ''/'' @ src) = s3_Bucket cfg @ ''/'' @ src" by (rule decode_plain)
  from assms(2) have "sc_CopyObject c (s3_Bucket cfg) (s3_Bucket cfg @ ''/'' @ src) dst s = (None, s')"
    by (cases "sc_CopyObject c (s3_Bucket cfg) (s3_Bucket cfg @ ''/'' @ src) dst s") (auto simp: S3_Copy_def)
  from copy_object [OF this d bucket_name(2)] show ?thesis by (auto simp: bucket_contents_def fun_eq_iff)
qed

end

sublocale s3_bucket \<subseteq> s3d: disk "\<lambda>k v s. S3_Put c cfg k v [] s" "S3_Get c cfg" "S3_Delete c cfg" "S3_Copy c cfg" "S3_Move c cfg"
  "\<lambda>k. k" "bucket_contents objects cfg" "\<lambda>_. True" plain_key
proof
  show "bucket_contents objects cfg s k = Some v" if "S3_Get c cfg k s = Inr v" for s k v
    using that get_object by (cases "sc_GetObject c (s3_Bucket cfg) k s") (auto simp: S3_Get_def bucket_contents_def)
  show "bucket_contents objects cfg s' = (bucket_contents objects cfg s)(k := None)" if "S3_Delete c cfg k s = (None, s')" for s k s'
    using that delete_object by (cases "sc_DeleteObject c (s3_Bucket cfg) k s") (auto simp: S3_Delete_def bucket_contents_def fun_eq_iff)
qed (auto simp: bucket_put bucket_copy S3_Move_def split: prod.splits option.splits)


context s3_bucket
begin

lemma bucket_move:
  "plain_key src \<Longrightarrow> src \<noteq> dst \<Longrightarrow> S3_Move c cfg src dst s = (None, s') \<Longrightarrow>
     \<exists>v. bucket_contents objects cfg s src = Some v \<and>
       bucket_contents objects cfg s' = (bucket_contents objects cfg s)(dst \<mapsto> v, src := None)"
  by (rule s3d.move_renames) simp_all

end

section \<open>An object store in memory\<close>

definition hex_digit :: "char \<Rightarrow> nat option" where
  "hex_digit ch =
     (if between (CHR ''0'') (CHR ''9'') ch then Some (of_char ch - 48)
      else if between (CHR ''A'') (CHR ''F'') ch then Some (of_char ch - 55)
      else if between (CHR ''a'') (CHR ''f'') ch then Some (of_char ch - 87) else None)"

fun pct_decode :: "string \<Rightarrow> string" where
  "pct_decode (ch # a # b # s) =
     (if ch = CHR ''%''
      then (case (hex_digit a, hex_digit b) of
              (Some x, Some y) \<Rightarrow> char_of (16 * x + y) # pct_decode s
            | _ \<Rightarrow> ch # pct_decode (a # b # s))
      else ch # pct_decode (a # b # s))"
| "pct_decode s = s"

lemma pct_decode_plain: "plain_key k \<Longrightarrow> pct_decode k = k"
  by (induction k rule: pct_decode.induct) (auto simp: plain_key_def)

definition split_source :: "string \<Rightarrow> string \<times> string" where
  "split_source source = (takeWhile (\<lambda>ch. ch \<noteq> CHR ''/'') source, drop 1 (dropWhile (\<lambda>ch. ch \<noteq> CHR ''/'') source))"

lemma split_source_parts: "CHR ''/'' \<notin> set sb \<Longrightarrow> split_source (sb @ ''/'' @ sk) = (sb, sk)"
  by (auto simp: split_source_def takeWhile_append dropWhile_append)

definition memory_s3 :: "(string \<times> string, string) gomap s3_client" where
  "memory_s3 =
     \<lparr>sc_PutObject = (\<lambda>inp s. (None, AList.update (po_Bucket inp, po_Key inp) (po_Body inp) s)),
      sc_GetObject = (\<lambda>b k s. case map_of s (b, k) of None \<Rightarrow> Inl S3NoSuchKey | Some v \<Rightarrow> Inr v),
      sc_HeadObject = (\<lambda>b k s. case map_of s (b, k) of None \<Rightarrow> Inl S3NotFound | Some v \<Rightarrow> Inr (Some (word_of_nat (length v)))),
      sc_DeleteObject = (\<lambda>b k s. (None, AList.delete (b, k) s)),
      sc_CopyObject = (\<lambda>b source k s.
        case map_of s (split_source (pct_decode source)) of
          None \<Rightarrow> (Some S3NoSuchKey, s)
        | Some v \<Rightarrow> (None, AList.update (b, k) v s)),
      sc_ListPages = (\<lambda>b prefix s. [Inr (map snd (filter (\<lambda>(b', k). b' = b \<and> HasPrefix k prefix) (map fst s)))]),
      sc_Presign = (\<lambda>b k ttl. Inr (b @ ''/'' @ k))\<rparr>"

interpretation memory_s3: s3_service memory_s3 map_of pct_decode
  by unfold_locales
    (auto simp: memory_s3_def pct_decode_plain split_source_parts[simplified] update_conv' delete_conv' split: option.splits)

definition demo_bucket :: S3Config where
  "demo_bucket = \<lparr>s3_Bucket = ''files'', s3_Region = ''eu'', s3_AccessKeyID = [], s3_SecretAccessKey = [], s3_Endpoint = [], s3_BaseURL = [],
     s3_DefaultACL = ''private'', s3_ForcePathStyle = False\<rparr>"

interpretation memory_bucket: s3_bucket memory_s3 map_of pct_decode demo_bucket
  by unfold_locales (simp_all add: demo_bucket_def plain_key_def)

section \<open>Properties\<close>

text \<open>
  Moving a file on the local disk renames it: when \<open>Move\<close> succeeds for two keys that name different files, the content of the
  source is afterwards stored under the target and nowhere else, and the content of every other key is as before.
\<close>

theorem local_move_renames:
  assumes "fs_wf fs" and "cleanComps src \<noteq> cleanComps dst" and "Local_Move (local_at dir url) fs src dst = (None, fs')"
  shows "\<exists>v. local_contents dir fs (cleanComps src) = Some v \<and>
    local_contents dir fs' = (local_contents dir fs)(cleanComps dst \<mapsto> v, cleanComps src := None)"
  using local_disk.move_renames [OF assms(1) TrueI assms(2), where dir=dir and url=url] assms(3) by blast

theorem local_move_renames_witness:
  "\<exists>fs'. Local_Move (local_at ''/srv'' []) [([''srv''], Dir), ([''srv'', ''a''], File ''x'')] ''a'' ''b'' = (None, fs')
     \<and> local_contents ''/srv'' fs' [''b''] = Some ''x'' \<and> local_contents ''/srv'' fs' [''a''] = None"
proof -
  let ?fs = "[([''srv''], Dir), ([''srv'', ''a''], File ''x'')]"
  have wf: "fs_wf ?fs" by (auto simp: fs_wf_def less_Suc_eq split: if_splits)
  have "fst (Local_Move (local_at ''/srv'' []) ?fs ''a'' ''b'') = None" by code_simp
  then obtain fs' where run: "Local_Move (local_at ''/srv'' []) ?fs ''a'' ''b'' = (None, fs')" by (cases "Local_Move (local_at ''/srv'' []) ?fs ''a'' ''b''") auto
  have comps: "cleanComps ''a'' = [''a'']" "cleanComps ''b'' = [''b'']" "cleanComps ''/srv'' = [''srv'']" by (simp_all add: cleanComps_def)
  have "cleanComps ''a'' \<noteq> cleanComps ''b''" by (simp add: comps)
  from local_move_renames [OF wf this run] obtain v where v: "local_contents ''/srv'' ?fs [''a''] = Some v"
    and c: "local_contents ''/srv'' fs' = (local_contents ''/srv'' ?fs)([''b''] \<mapsto> v, [''a''] := None)" unfolding comps by blast
  from v have "v = ''x''" by (simp add: local_contents_def comps)
  with c run show ?thesis by simp
qed

text \<open>
  The S3 driver renames too, for source keys without the characters that the service decodes: when \<open>Move\<close> succeeds between two
  different keys, the object is stored under the target and no longer under the source, and all other objects are as before.
\<close>

theorem s3_move_renames:
  assumes "s3_bucket c objects decode cfg" and "plain_key src" and "src \<noteq> dst" and "S3_Move c cfg src dst s = (None, s')"
  shows "\<exists>v. bucket_contents objects cfg s src = Some v \<and>
    bucket_contents objects cfg s' = (bucket_contents objects cfg s)(dst \<mapsto> v, src := None)"
  by (rule s3_bucket.bucket_move [OF assms])

theorem s3_move_renames_witness:
  "\<exists>s'. S3_Move memory_s3 demo_bucket ''a'' ''b'' [((''files'', ''a''), ''x'')] = (None, s') \<and> map_of s' (''files'', ''b'') = Some ''x''
     \<and> map_of s' (''files'', ''a'') = None"
proof -
  let ?s = "[((''files'', ''a''), ''x'')]"
  have "fst (S3_Move memory_s3 demo_bucket ''a'' ''b'' ?s) = None" by code_simp
  then obtain s' where run: "S3_Move memory_s3 demo_bucket ''a'' ''b'' ?s = (None, s')"
    by (cases "S3_Move memory_s3 demo_bucket ''a'' ''b'' ?s") auto
  from s3_move_renames [OF memory_bucket.s3_bucket_axioms _ _ run] obtain v
    where v: "bucket_contents map_of demo_bucket ?s ''a'' = Some v"
      and c: "bucket_contents map_of demo_bucket s' = (bucket_contents map_of demo_bucket ?s)(''b'' \<mapsto> v, ''a'' := None)"
    by (auto simp: plain_key_def)
  from v have "v = ''x''" by (simp add: bucket_contents_def demo_bucket_def)
  with fun_cong [OF c, of "''b''"] fun_cong [OF c, of "''a''"] run show ?thesis by (simp add: bucket_contents_def demo_bucket_def)
qed

text \<open>
  With a percent sign in the source key \<open>Move\<close> can lose data: the copy source is not escaped, so the service copies the object with
  the decoded key, and the object that was to be moved is deleted without having been copied.
\<close>

theorem s3_move_loses_object:
  "\<exists>s'. S3_Move memory_s3 demo_bucket ''a%41'' ''b'' [((''files'', ''a%41''), ''wanted''), ((''files'', ''aA''), ''other'')] = (None, s')
     \<and> ''wanted'' \<notin> snd ` set s' \<and> map_of s' (''files'', ''b'') = Some ''other''"
proof -
  have "S3_Move memory_s3 demo_bucket ''a%41'' ''b'' [((''files'', ''a%41''), ''wanted''), ((''files'', ''aA''), ''other'')]
      = (None, [((''files'', ''aA''), ''other''), ((''files'', ''b''), ''other'')])" by code_simp
  then show ?thesis by simp
qed

text \<open>
  \<open>Exists\<close> of the S3 driver answers false only for a missing object: every other failure of the service is returned as an error.
\<close>

theorem s3_exists_spec:
  "S3_Exists c cfg path s = Inr False \<longleftrightarrow>
     sc_HeadObject c (s3_Bucket cfg) path s = Inl S3NotFound \<or> sc_HeadObject c (s3_Bucket cfg) path s = Inl S3NoSuchKey"
  by (auto simp: S3_Exists_def split: sum.splits)

end
