(* ===== verification/Go_Filepath.thy ===== *)
theory Go_Filepath
  imports Local_Storage
begin

text \<open>
  \<open>path/filepath\<close> on POSIX for paths that may be relative, and their resolution against the working directory into the components
  that key the file system.
\<close>

fun rel_loop :: "string list \<Rightarrow> string list \<Rightarrow> string list" where
  "rel_loop out [] = rev out"
| "rel_loop out (c # cs) =
     (if c = [] \<or> c = ''.'' then rel_loop out cs
      else if c = ''..'' then (if out \<noteq> [] \<and> hd out \<noteq> ''..'' then rel_loop (tl out) cs else rel_loop (''..'' # out) cs)
      else rel_loop (c # out) cs)"

definition filepath_Clean :: "string \<Rightarrow> string" where
  "filepath_Clean p =
     (if HasPrefix p ''/'' then Clean p
      else (let out = rel_loop [] (SplitOn CHR ''/'' p) in if out = [] then ''.'' else Join ''/'' out))"

text \<open>\<open>Join\<close> drops empty elements.\<close>

definition filepath_Join :: "string list \<Rightarrow> string" where
  "filepath_Join ps = (let qs = filter (\<lambda>p. p \<noteq> []) ps in if qs = [] then [] else filepath_Clean (Join ''/'' qs))"

definition filepath_Dir :: "string \<Rightarrow> string" where
  "filepath_Dir p = filepath_Clean (rev (dropWhile (\<lambda>c. c \<noteq> CHR ''/'') (rev p)))"

text \<open>The place a path names for a process with working directory \<open>cwd\<close>.\<close>

definition resolve :: "string list \<Rightarrow> string \<Rightarrow> string list" where
  "resolve cwd p = (if HasPrefix p ''/'' then cleanComps p else clean_loop (rev cwd) (SplitOn CHR ''/'' p))"

definition os_WriteFile :: "fs \<Rightarrow> string list \<Rightarrow> string \<Rightarrow> storage_error option \<times> fs" where
  "os_WriteFile fs cs data =
     (case os_Create fs cs of
        (Some e, fs1) \<Rightarrow> (Some e, fs1)
      | (None, fs1) \<Rightarrow> (None, AList.update cs (File data) fs1))"

definition os_ReadFile :: "fs \<Rightarrow> string list \<Rightarrow> storage_error + string" where
  "os_ReadFile fs cs = (case os_Stat fs cs of Inl e \<Rightarrow> Inl e | Inr Dir \<Rightarrow> Inl IsADirectory | Inr (File b) \<Rightarrow> Inr b)"

text \<open>\<open>os.ReadDir\<close>: the names in a directory, sorted.\<close>

definition os_ReadDir :: "fs \<Rightarrow> string list \<Rightarrow> storage_error + string list" where
  "os_ReadDir fs cs =
     (case os_Stat fs cs of
        Inl e \<Rightarrow> Inl e
      | Inr (File _) \<Rightarrow> Inl NotADirectory
      | Inr Dir \<Rightarrow> Inr (sort (remdups (map last (filter (\<lambda>k. k \<noteq> [] \<and> butlast k = cs) (map fst fs))))))"

lemma clean_loop_resolve: "list_all good_comp cwd \<Longrightarrow> clean_loop [] (cwd @ cs) = clean_loop (rev cwd) cs"
  by (simp add: clean_loop_append)

lemma resolve_good: "list_all good_comp cwd \<Longrightarrow> list_all good_comp (resolve cwd p)"
proof -
  assume "list_all good_comp cwd"
  moreover have "list_all (\<lambda>c. CHR ''/'' \<notin> set c) (SplitOn CHR ''/'' p)" by (auto simp: list_all_iff dest: SplitOn_parts_no_sep)
  ultimately show ?thesis by (auto simp: resolve_def cleanComps_good intro!: clean_loop_good)
qed

lemma os_WriteFile_reads:
  assumes "os_WriteFile fs cs data = (None, fs')"
  shows "os_ReadFile fs' cs = Inr data" and "\<And>k. k \<noteq> cs \<Longrightarrow> map_of fs' k = map_of fs k"
proof -
  from assms obtain fs1 where c: "os_Create fs cs = (None, fs1)" and fs': "fs' = AList.update cs (File data) fs1"
    by (auto simp: os_WriteFile_def split: prod.splits option.splits)
  from c have w: "walk fs [] cs = None" and fs1: "fs1 = AList.update cs (File []) fs" and ne: "cs \<noteq> []"
    by (auto simp: os_Create_def fs_node_def split: option.splits node.splits if_splits)
  have "os_Stat fs' cs = Inr (File data)" using walk_update [OF ne, of "[]"] w ne by (simp add: os_Stat_def fs' fs1 fs_node_def)
  then show "os_ReadFile fs' cs = Inr data" by (simp add: os_ReadFile_def)
  show "map_of fs' k = map_of fs k" if "k \<noteq> cs" for k using that by (simp add: fs' fs1 update_conv')
qed

end
