(* ===== verification/Ops_Backup.thy ===== *)
theory Ops_Backup
  imports Go_Filepath
begin

text \<open>
  Model of \<open>framework/backup/backup.go\<close>: dump and restore commands, the backup files and their list, and the upload to a disk. The
  programs pg_dump, psql, mysqldump and mysql are an argument \<open>run\<close> that takes a command with its standard input and the database
  and returns its exit error, its output and the new database; gzip is a pair of functions. Input and output errors of the backup file
  itself are not modelled beyond those of opening it. Formatted times are arguments.
\<close>

section \<open>Configuration and commands\<close>

datatype backup_driver = BackupPostgres | BackupMySQL | BackupOther string

record BackupConfig =
  bk_Driver :: backup_driver
  bk_Host :: string
  bk_Port :: i64
  bk_User :: string
  bk_Password :: string
  bk_DBName :: string
  bk_BackupDir :: string

definition Backup_New :: "BackupConfig \<Rightarrow> BackupConfig" where
  "Backup_New cfg =
     (let cfg1 = (if bk_BackupDir cfg = [] then cfg\<lparr>bk_BackupDir := ''./backups''\<rparr> else cfg)
      in if bk_Port cfg1 = 0 then cfg1\<lparr>bk_Port := (if bk_Driver cfg1 = BackupMySQL then 3306 else 5432)\<rparr> else cfg1)"

record os_command =
  cmd_Path :: string
  cmd_Args :: "string list"
  cmd_Env :: "string list"

definition port_text :: "BackupConfig \<Rightarrow> string" where
  "port_text cfg = itoa (sint (bk_Port cfg))"

definition pg_args :: "BackupConfig \<Rightarrow> string list" where
  "pg_args cfg = [''-h'', bk_Host cfg, ''-p'', port_text cfg, ''-U'', bk_User cfg, ''-d'', bk_DBName cfg, ''--no-password'']"

definition mysql_args :: "BackupConfig \<Rightarrow> string list" where
  "mysql_args cfg = [''-h'' @ bk_Host cfg, ''-P'' @ port_text cfg, ''-u'' @ bk_User cfg, bk_DBName cfg]"

definition pgDumpCmd :: "string list \<Rightarrow> BackupConfig \<Rightarrow> os_command" where
  "pgDumpCmd environ cfg = \<lparr>cmd_Path = ''pg_dump'', cmd_Args = pg_args cfg, cmd_Env = environ @ [''PGPASSWORD='' @ bk_Password cfg]\<rparr>"

definition psqlCmd :: "string list \<Rightarrow> BackupConfig \<Rightarrow> os_command" where
  "psqlCmd environ cfg = \<lparr>cmd_Path = ''psql'', cmd_Args = pg_args cfg, cmd_Env = environ @ [''PGPASSWORD='' @ bk_Password cfg]\<rparr>"

definition mysqlDumpCmd :: "string list \<Rightarrow> BackupConfig \<Rightarrow> os_command" where
  "mysqlDumpCmd environ cfg = \<lparr>cmd_Path = ''mysqldump'', cmd_Args = mysql_args cfg, cmd_Env = environ @ [''MYSQL_PWD='' @ bk_Password cfg]\<rparr>"

definition mysqlCmd :: "string list \<Rightarrow> BackupConfig \<Rightarrow> os_command" where
  "mysqlCmd environ cfg = \<lparr>cmd_Path = ''mysql'', cmd_Args = mysql_args cfg, cmd_Env = environ @ [''MYSQL_PWD='' @ bk_Password cfg]\<rparr>"

definition dump_cmd :: "string list \<Rightarrow> BackupConfig \<Rightarrow> os_command option" where
  "dump_cmd environ cfg =
     (case bk_Driver cfg of
        BackupPostgres \<Rightarrow> Some (pgDumpCmd environ cfg) | BackupMySQL \<Rightarrow> Some (mysqlDumpCmd environ cfg) | BackupOther _ \<Rightarrow> None)"

definition load_cmd :: "string list \<Rightarrow> BackupConfig \<Rightarrow> os_command option" where
  "load_cmd environ cfg =
     (case bk_Driver cfg of
        BackupPostgres \<Rightarrow> Some (psqlCmd environ cfg) | BackupMySQL \<Rightarrow> Some (mysqlCmd environ cfg) | BackupOther _ \<Rightarrow> None)"

section \<open>Backup and restore\<close>

record 'd backup_env =
  be_run :: "os_command \<Rightarrow> string \<Rightarrow> 'd \<Rightarrow> string option \<times> string \<times> 'd"
  be_gzip :: "string \<Rightarrow> string"
  be_gunzip :: "string \<Rightarrow> string option"
  be_environ :: "string list"
  be_cwd :: "string list"

datatype backup_error =
    BackupMkdir storage_error | BackupCreate storage_error | BackupUnsupported | BackupDump string
  | RestoreOpen storage_error | RestoreDecompress | RestoreUnsupported | RestoreFailed string

definition backup_path :: "BackupConfig \<Rightarrow> string \<Rightarrow> string" where
  "backup_path cfg ts = filepath_Join [bk_BackupDir cfg, bk_DBName cfg @ ''-'' @ ts @ ''.sql.gz'']"

text \<open>The deferred \<open>Close\<close> of the compressor writes the end of the stream also when the driver is refused.\<close>

definition Backup :: "'d backup_env \<Rightarrow> BackupConfig \<Rightarrow> string \<Rightarrow> fs \<times> 'd \<Rightarrow> (backup_error + string) \<times> fs \<times> 'd" where
  "Backup env cfg ts w =
     (case w of (fs, d) \<Rightarrow>
        (case os_MkdirAll fs [] (resolve (be_cwd env) (bk_BackupDir cfg)) of
           (Some e, fs1) \<Rightarrow> (Inl (BackupMkdir e), fs1, d)
         | (None, fs1) \<Rightarrow>
             (let path = backup_path cfg ts; cs = resolve (be_cwd env) path
              in case os_Create fs1 cs of
                   (Some e, fs2) \<Rightarrow> (Inl (BackupCreate e), fs2, d)
                 | (None, fs2) \<Rightarrow>
                     (case dump_cmd (be_environ env) cfg of
                        None \<Rightarrow> (Inl BackupUnsupported, AList.update cs (File (be_gzip env [])) fs2, d)
                      | Some cmd \<Rightarrow>
                          (case be_run env cmd [] d of
                             (Some e, _, d1) \<Rightarrow> (Inl (BackupDump e), snd (os_Remove fs2 cs), d1)
                           | (None, out, d1) \<Rightarrow> (Inr path, AList.update cs (File (be_gzip env out)) fs2, d1))))))"

definition Restore :: "'d backup_env \<Rightarrow> BackupConfig \<Rightarrow> string \<Rightarrow> fs \<times> 'd \<Rightarrow> backup_error option \<times> 'd" where
  "Restore env cfg path w =
     (case w of (fs, d) \<Rightarrow>
        (case os_ReadFile fs (resolve (be_cwd env) path) of
           Inl e \<Rightarrow> (Some (RestoreOpen e), d)
         | Inr data \<Rightarrow>
             (case be_gunzip env data of
                None \<Rightarrow> (Some RestoreDecompress, d)
              | Some sql \<Rightarrow>
                  (case load_cmd (be_environ env) cfg of
                     None \<Rightarrow> (Some RestoreUnsupported, d)
                   | Some cmd \<Rightarrow>
                       (case be_run env cmd sql d of
                          (Some e, _, d1) \<Rightarrow> (Some (RestoreFailed e), d1)
                        | (None, _, d1) \<Rightarrow> (None, d1))))))"

record BackupFile =
  bf_Name :: string
  bf_Path :: string
  bf_Size :: nat
  bf_At :: gotime

definition list_entry :: "BackupConfig \<Rightarrow> (string list \<Rightarrow> gotime) \<Rightarrow> fs \<Rightarrow> string list \<Rightarrow> string \<Rightarrow> BackupFile list" where
  "list_entry cfg mtime fs dir n =
     (case map_of fs (dir @ [n]) of
        Some (File b) \<Rightarrow>
          if HasSuffix n ''.sql.gz''
          then [\<lparr>bf_Name = n, bf_Path = filepath_Join [bk_BackupDir cfg, n], bf_Size = length b, bf_At = mtime (dir @ [n])\<rparr>]
          else []
      | _ \<Rightarrow> [])"

definition Backup_List ::
  "'d backup_env \<Rightarrow> BackupConfig \<Rightarrow> (string list \<Rightarrow> gotime) \<Rightarrow> fs \<Rightarrow> storage_error + BackupFile list" where
  "Backup_List env cfg mtime fs =
     (let dir = resolve (be_cwd env) (bk_BackupDir cfg)
      in case os_ReadDir fs dir of
           Inl e \<Rightarrow> if e = NotExist then Inr [] else Inl e
         | Inr names \<Rightarrow> Inr (concat (map (list_entry cfg mtime fs dir) (rev names))))"

section \<open>Upload\<close>

text \<open>
  The dump runs in a goroutine that writes to a pipe; the disk reads the other end. A stream is the data with the error that ends it;
  \<open>partial\<close> is what the compressor has written when the dump fails. The disk is assumed to read the stream to its end.
\<close>

type_synonym byte_stream = "string \<times> string option"

definition upload_stream :: "'d backup_env \<Rightarrow> (string \<Rightarrow> string) \<Rightarrow> BackupConfig \<Rightarrow> 'd \<Rightarrow> byte_stream \<times> 'd" where
  "upload_stream env partial cfg d =
     (case dump_cmd (be_environ env) cfg of
        None \<Rightarrow> (([], Some ''unsupported driver''), d)
      | Some cmd \<Rightarrow>
          (case be_run env cmd [] d of
             (Some e, out, d1) \<Rightarrow> ((partial out, Some e), d1)
           | (None, out, d1) \<Rightarrow> ((be_gzip env out, None), d1)))"

definition Upload ::
  "'d backup_env \<Rightarrow> (string \<Rightarrow> string) \<Rightarrow> BackupConfig \<Rightarrow> (string \<Rightarrow> byte_stream \<Rightarrow> 's \<Rightarrow> string option \<times> 's) \<Rightarrow> string
     \<Rightarrow> 'd \<times> 's \<Rightarrow> string option \<times> 'd \<times> 's" where
  "Upload env partial cfg put remotePath w =
     (case w of (d, s) \<Rightarrow>
        (case upload_stream env partial cfg d of
           (stream, d1) \<Rightarrow>
             (case put remotePath stream s of
                (Some e, s1) \<Rightarrow> (Some e, d1, s1)
              | (None, s1) \<Rightarrow> (snd stream, d1, s1))))"

text \<open>The lines a command writes to its standard error.\<close>

definition logWriter_Write :: "string \<Rightarrow> string list" where
  "logWriter_Write p =
     map (\<lambda>line. ''backup/db: '' @ line)
       (filter (\<lambda>line. line \<noteq> []) (SplitOn (CHR 0x0A) (rev (dropWhile (\<lambda>c. c = CHR 0x0A) (rev p)))))"

section \<open>What a backup leaves behind\<close>

lemma Backup_success:
  assumes "Backup env cfg ts (fs, d) = (Inr path, fs', d')"
  shows "\<exists>cmd out. path = backup_path cfg ts \<and> dump_cmd (be_environ env) cfg = Some cmd \<and> be_run env cmd [] d = (None, out, d') \<and>
    os_ReadFile fs' (resolve (be_cwd env) path) = Inr (be_gzip env out)"
proof -
  from assms obtain fs1 fs2 cmd out where "path = backup_path cfg ts" "dump_cmd (be_environ env) cfg = Some cmd"
    and c: "os_Create fs1 (resolve (be_cwd env) path) = (None, fs2)" and "be_run env cmd [] d = (None, out, d')"
    and "fs' = AList.update (resolve (be_cwd env) path) (File (be_gzip env out)) fs2"
    by (auto simp: Backup_def Let_def split: prod.splits option.splits)
  moreover from this have "os_WriteFile fs1 (resolve (be_cwd env) path) (be_gzip env out) = (None, fs')"
    by (simp add: os_WriteFile_def)
  ultimately show ?thesis by (blast dest: os_WriteFile_reads(1))
qed

lemma Create_None:
  assumes "os_Create fs cs = (None, fs')"
  shows "cs \<noteq> [] \<and> os_Stat fs' cs = Inr (File []) \<and> fs' = AList.update cs (File []) fs"
proof -
  have "os_WriteFile fs cs [] = (None, AList.update cs (File []) fs')" by (simp add: os_WriteFile_def assms)
  with assms have "os_ReadFile (AList.update cs (File []) fs') cs = Inr []" by (blast dest: os_WriteFile_reads(1))
  with assms show ?thesis
    by (auto simp: os_Create_def os_ReadFile_def os_Stat_def fs_node_def walk_update split: option.splits node.splits if_splits)
qed

text \<open>What the external tools promise: the dump of a database is its text, loading it into an empty database restores it, and gzip is lossless.\<close>

locale dump_tools =
  fixes env :: "'d backup_env"
    and cfg :: BackupConfig
    and dump :: "'d \<Rightarrow> string"
    and empty_db :: "'d \<Rightarrow> bool"
  assumes dump_exact: "dump_cmd (be_environ env) cfg = Some cmd \<Longrightarrow> be_run env cmd [] d = (None, out, d') \<Longrightarrow> out = dump d \<and> d' = d"
    and load_exact: "load_cmd (be_environ env) cfg = Some cmd \<Longrightarrow> empty_db d \<Longrightarrow> be_run env cmd (dump d0) d = (None, out, d') \<Longrightarrow> d' = d0"
    and gzip_lossless: "be_gunzip env (be_gzip env s) = Some s"
begin

lemma restores:
  assumes "Backup env cfg ts (fs, d0) = (Inr path, fs1, d1)"
  shows "d1 = d0 \<and> (\<exists>cmd. load_cmd (be_environ env) cfg = Some cmd \<and>
    (case be_run env cmd (dump d0) d of
       (Some e, _, d2) \<Rightarrow> Restore env cfg path (fs1, d) = (Some (RestoreFailed e), d2)
     | (None, _, d2) \<Rightarrow> Restore env cfg path (fs1, d) = (None, d2) \<and> (empty_db d \<longrightarrow> d2 = d0)))"
proof -
  from Backup_success [OF assms] obtain cmd out where cmd: "dump_cmd (be_environ env) cfg = Some cmd"
    and run: "be_run env cmd [] d0 = (None, out, d1)" and stored: "os_ReadFile fs1 (resolve (be_cwd env) path) = Inr (be_gzip env out)"
    by blast
  from dump_exact [OF cmd run] have out: "out = dump d0" "d1 = d0" by auto
  from cmd obtain lcmd where "load_cmd (be_environ env) cfg = Some lcmd"
    by (auto simp: dump_cmd_def load_cmd_def split: backup_driver.splits)
  with out stored gzip_lossless load_exact show ?thesis by (auto simp: Restore_def split: prod.splits option.splits)
qed

end

section \<open>Properties\<close>


definition text_tools :: "string backup_env" where
  "text_tools =
     \<lparr>be_run = (\<lambda>cmd inp d. if cmd_Path cmd = ''pg_dump'' then (None, d, d) else (None, [], d @ inp)),
      be_gzip = (\<lambda>s. ''gz:'' @ s), be_gunzip = (\<lambda>s. if HasPrefix s ''gz:'' then Some (drop 3 s) else None), be_environ = [], be_cwd = [''app'']\<rparr>"

definition text_backup :: BackupConfig where
  "text_backup = Backup_New \<lparr>bk_Driver = BackupPostgres, bk_Host = ''db'', bk_Port = 0, bk_User = ''u'', bk_Password = ''pw'', bk_DBName = ''shop'',
     bk_BackupDir = []\<rparr>"

interpretation text_tools: dump_tools text_tools text_backup "\<lambda>d. d" "\<lambda>d. d = []"
  by unfold_locales
    (auto simp: text_tools_def text_backup_def Backup_New_def dump_cmd_def load_cmd_def pgDumpCmd_def psqlCmd_def HasPrefix_def)

lemma text_paths:
  "backup_path text_backup ''t'' = ''backups/shop-t.sql.gz''"
  "resolve [''app''] ''backups/shop-t.sql.gz'' = [''app'', ''backups'', ''shop-t.sql.gz'']"
  "resolve [''app''] (bk_BackupDir text_backup) = [''app'', ''backups'']"
  by code_simp+

lemma text_run:
  "be_cwd env = [''app''] \<Longrightarrow> Backup env text_backup ''t'' ([([''app''], Dir)], d) =
     (case be_run env (pgDumpCmd (be_environ env) text_backup) [] d of
        (Some e, _, d1) \<Rightarrow> (Inl (BackupDump e), [([''app''], Dir), ([''app'', ''backups''], Dir)], d1)
      | (None, out, d1) \<Rightarrow> (Inr ''backups/shop-t.sql.gz'',
          [([''app''], Dir), ([''app'', ''backups''], Dir), ([''app'', ''backups'', ''shop-t.sql.gz''], File (be_gzip env out))], d1))"
proof -
  have "bk_Driver text_backup = BackupPostgres" by (simp add: text_backup_def Backup_New_def)
  then show "be_cwd env = [''app''] \<Longrightarrow> ?thesis"
    by (simp add: Backup_def text_paths os_Create_def fs_node_def dump_cmd_def os_Remove_def os_Stat_def split: prod.split option.split)
qed


text \<open>
  A dump that fails leaves no file: when \<open>Backup\<close> reports a failed dump there is nothing at the path of the backup, and every file
  that was there before, under other paths, is as before.
\<close>

theorem failed_dump_leaves_no_file:
  assumes "Backup env cfg ts (fs, d) = (Inl (BackupDump e), fs', d')"
  shows "map_of fs' (resolve (be_cwd env) (backup_path cfg ts)) = None \<and>
    (k \<noteq> resolve (be_cwd env) (backup_path cfg ts) \<longrightarrow> (map_of fs' k = Some (File b) \<longleftrightarrow> map_of fs k = Some (File b)))"
proof -
  let ?cs = "resolve (be_cwd env) (backup_path cfg ts)"
  from assms obtain fs1 fs2 where m: "os_MkdirAll fs [] (resolve (be_cwd env) (bk_BackupDir cfg)) = (None, fs1)"
    and c: "os_Create fs1 ?cs = (None, fs2)" and fs': "fs' = snd (os_Remove fs2 ?cs)"
    by (auto simp: Backup_def Let_def split: prod.splits option.splits)
  from Create_None [OF c] have st: "os_Stat fs2 ?cs = Inr (File [])" and fs2: "fs2 = AList.update ?cs (File []) fs1" by auto
  have "fs' = AList.delete ?cs fs2" by (simp add: fs' os_Remove_def st)
  then have "map_of fs' k = (if k = ?cs then None else map_of fs1 k)" for k by (simp add: fs2 delete_conv' update_conv')
  then show ?thesis using MkdirAll_keeps_files [of fs k b] MkdirAll_files_old [of fs "[]" _ k b] m by (metis snd_conv)
qed

theorem failed_dump_leaves_no_file_witness:
  "\<exists>fs' d'. Backup (text_tools\<lparr>be_run := \<lambda>cmd inp d. (Some ''exit status 1'', ''half'', d)\<rparr>) text_backup ''t'' ([([''app''], Dir)], ''rows'')
       = (Inl (BackupDump ''exit status 1''), fs', d') \<and> map_of fs' [''app'', ''backups'', ''shop-t.sql.gz''] = None"
proof -
  let ?env = "text_tools\<lparr>be_run := \<lambda>cmd inp d. (Some ''exit status 1'', ''half'', d)\<rparr>"
  let ?b = "Backup ?env text_backup ''t'' ([([''app''], Dir)], ''rows'')"
  have "be_cwd ?env = [''app'']" by (simp add: text_tools_def)
  then obtain fs' d' where b: "?b = (Inl (BackupDump ''exit status 1''), fs', d')" by (simp add: text_run)
  have "resolve (be_cwd ?env) (backup_path text_backup ''t'') = [''app'', ''backups'', ''shop-t.sql.gz'']"
    by (simp add: text_paths text_tools_def)
  with failed_dump_leaves_no_file [OF b] b show ?thesis by auto
qed


text \<open>
  A driver that is not supported is refused only after the file has been created, and the deferred close of the compressor completes
  it: an empty backup stays behind and is listed.
\<close>

theorem unsupported_driver_leaves_file:
  assumes "Backup env cfg ts (fs, d) = (Inl BackupUnsupported, fs', d')"
  shows "os_ReadFile fs' (resolve (be_cwd env) (backup_path cfg ts)) = Inr (be_gzip env [])"
proof -
  let ?cs = "resolve (be_cwd env) (backup_path cfg ts)"
  from assms obtain fs1 fs2 where "os_Create fs1 ?cs = (None, fs2)" and "fs' = AList.update ?cs (File (be_gzip env [])) fs2"
    by (auto simp: Backup_def Let_def split: prod.splits option.splits)
  then have "os_WriteFile fs1 ?cs (be_gzip env []) = (None, fs')" by (simp add: os_WriteFile_def)
  then show ?thesis by (rule os_WriteFile_reads(1))
qed

text \<open>
  The password is not visible in the process list: program and arguments of every command are the same for all passwords, which only
  enter the last variable of the environment.
\<close>

theorem password_not_in_arguments:
  "map_option (\<lambda>c. (cmd_Path c, cmd_Args c, butlast (cmd_Env c))) (dump_cmd environ (cfg\<lparr>bk_Password := pw\<rparr>))
     = map_option (\<lambda>c. (cmd_Path c, cmd_Args c, butlast (cmd_Env c))) (dump_cmd environ cfg)
   \<and> map_option (\<lambda>c. (cmd_Path c, cmd_Args c, butlast (cmd_Env c))) (load_cmd environ (cfg\<lparr>bk_Password := pw\<rparr>))
     = map_option (\<lambda>c. (cmd_Path c, cmd_Args c, butlast (cmd_Env c))) (load_cmd environ cfg)"
  by (auto simp: dump_cmd_def load_cmd_def pgDumpCmd_def psqlCmd_def mysqlDumpCmd_def mysqlCmd_def pg_args_def mysql_args_def
      port_text_def split: backup_driver.splits)

lemma less_same_prefix: "(p @ s < p @ t) \<longleftrightarrow> (s < (t :: string))"
  by (induction p) auto

lemma less_same_suffix: "length s = length t \<Longrightarrow> (s @ q < t @ q) \<longleftrightarrow> (s < (t :: string))"
  by (induction s t rule: list_induct2) auto

lemma sorted_distinct_remdups: "sorted_wrt (<) (sort (remdups (xs :: string list)))"
  by (simp add: strict_sorted_iff)

lemma sorted_wrt_concat_map:
  assumes "\<And>n. f n = [] \<or> (\<exists>y. f n = [y] \<and> g y = n)" and "sorted_wrt R ns"
  shows "sorted_wrt R (map g (concat (map f ns)))"
  using assms(2)
proof (induction ns)
  case (Cons n ns)
  have "g y \<in> set ns" if "m \<in> set ns" "y \<in> set (f m)" for m y using assms(1) [of m] that by auto
  with Cons assms(1) [of n] show ?case by (auto simp: sorted_wrt_append)
qed simp

text \<open>
  The backups of one database are listed newest first: of two listed files of the same database, whose time stamps have the same
  length, the one listed first has the later stamp.
\<close>

theorem backups_newest_first:
  assumes "Backup_List env cfg mtime fs = Inr (xs @ f # ys @ g # zs)"
    and "bf_Name f = db @ ''-'' @ t1 @ ''.sql.gz''" and "bf_Name g = db @ ''-'' @ t2 @ ''.sql.gz''" and "length t1 = length t2"
  shows "t2 < t1"
proof -
  let ?dir = "resolve (be_cwd env) (bk_BackupDir cfg)"
  obtain names where names: "os_ReadDir fs ?dir = Inr names"
    using assms(1) by (auto simp: Backup_List_def Let_def split: sum.splits if_splits)
  then have "sorted_wrt (<) names" using sorted_distinct_remdups by (auto simp: os_ReadDir_def split: sum.splits node.splits)
  then have "sorted_wrt (\<lambda>x y. y < x) (rev names)" by (simp add: sorted_wrt_rev)
  moreover have "list_entry cfg mtime fs ?dir n = [] \<or> (\<exists>y. list_entry cfg mtime fs ?dir n = [y] \<and> bf_Name y = n)" for n
    by (auto simp: list_entry_def split: option.splits node.splits)
  ultimately have "sorted_wrt (\<lambda>x y. y < x) (map bf_Name (concat (map (list_entry cfg mtime fs ?dir) (rev names))))"
    by (intro sorted_wrt_concat_map)
  then have "sorted_wrt (\<lambda>x y. y < x) (map bf_Name (xs @ f # ys @ g # zs))" using assms(1) by (simp add: Backup_List_def names)
  then have "bf_Name g < bf_Name f" by (simp add: sorted_wrt_append)
  then show ?thesis using assms(2-4) less_same_suffix [of t2 t1 "''.sql.gz''"] by (simp add: less_same_prefix del: append_Cons append.simps)
qed

end
