(* ===== verification/Oni_Cli.thy ===== *)
theory Oni_Cli
  imports App_Config Orm_Types Go_Filepath
begin

text \<open>
  Model of \<open>cmd/oni/commands.go\<close>, the command line tool: the commands and what they forward to the application, the generators with
  their file names, the \<open>.env\<close> helpers, creation and removal of databases, and the command dispatch of the generated application
  (the Go text of \<open>mainGoStub\<close>). Rendering a template is an argument, as are the embedded stubs, the answers typed at a prompt, the random
  bytes and the SQL server. Console output is left out.
\<close>

section \<open>Names\<close>

text \<open>\<open>strings.FieldsFunc\<close> with the separators underscore, hyphen and space.\<close>

definition nameSep :: "char \<Rightarrow> bool" where
  "nameSep c = (c = CHR ''_'' \<or> c = CHR ''-'' \<or> c = CHR '' '')"

fun nameFields :: "string \<Rightarrow> string \<Rightarrow> string list" where
  "nameFields cur [] = (if cur = [] then [] else [rev cur])"
| "nameFields cur (c # s) =
     (if nameSep c then (if cur = [] then [] else [rev cur]) @ nameFields [] s else nameFields (c # cur) s)"

text \<open>\<open>strings.ToUpper\<close> of a string of one byte: a byte that is no complete rune becomes U+FFFD.\<close>

definition upperFirst :: "string \<Rightarrow> string" where
  "upperFirst p = (case p of [] \<Rightarrow> [] | c # s \<Rightarrow> (if c < CHR 0x80 then [upperByte c] else runeError) @ s)"

definition toPascalCase :: "string \<Rightarrow> string" where
  "toPascalCase s = concat (map upperFirst (nameFields [] s))"

definition toSnakeCase :: "string \<Rightarrow> string" where
  "toSnakeCase s = ReplaceByte CHR ''-'' ''_'' (toSnake s)"

section \<open>The env file\<close>

definition env_unquote :: "string \<Rightarrow> string" where
  "env_unquote v =
     (if length v \<ge> 2 \<and> (hd v = CHR 0x22 \<and> last v = CHR 0x22 \<or> hd v = CHR 0x27 \<and> last v = CHR 0x27) then butlast (tl v) else v)"

definition env_entry :: "string \<Rightarrow> (string \<times> string) option" where
  "env_entry line0 =
     (let line = TrimSpace line0
      in if line = [] \<or> HasPrefix line ''#'' then None
         else (case Index line ''='' of
                 None \<Rightarrow> None
               | Some i \<Rightarrow> Some (TrimSpace (take i line), env_unquote (TrimSpace (drop (i + 1) line)))))"

fun env_entries :: "string list \<Rightarrow> (string, string) gomap \<Rightarrow> (string, string) gomap" where
  "env_entries [] m = m"
| "env_entries (line # lines) m =
     env_entries lines (case env_entry line of None \<Rightarrow> m | Some (k, v) \<Rightarrow> AList.update k v m)"

definition readDotEnv :: "string list \<Rightarrow> fs \<Rightarrow> (string, string) gomap" where
  "readDotEnv cwd fs =
     (case os_ReadFile fs (cwd @ [''.env'']) of
        Inl _ \<Rightarrow> []
      | Inr data \<Rightarrow> env_entries (SplitOn (CHR 0x0A) data) [])"

definition getEnv :: "environ \<Rightarrow> (string, string) gomap \<Rightarrow> string \<Rightarrow> string \<Rightarrow> string" where
  "getEnv e m key def =
     (case map_of m key of
        Some v \<Rightarrow> if v \<noteq> [] then v else (case map_of e key of Some w \<Rightarrow> if w \<noteq> [] then w else def | None \<Rightarrow> def)
      | None \<Rightarrow> (case map_of e key of Some w \<Rightarrow> if w \<noteq> [] then w else def | None \<Rightarrow> def))"

fun set_env_line :: "string \<Rightarrow> string \<Rightarrow> string list \<Rightarrow> string list" where
  "set_env_line key val [] = [key @ ''='' @ val]"
| "set_env_line key val (line # lines) =
     (if HasPrefix line (key @ ''='') then (key @ ''='' @ val) # lines else line # set_env_line key val lines)"

definition updateEnvKey :: "string list \<Rightarrow> string \<Rightarrow> string \<Rightarrow> fs \<Rightarrow> fs" where
  "updateEnvKey cwd key val fs =
     (case os_ReadFile fs (cwd @ [''.env'']) of
        Inl _ \<Rightarrow> fs
      | Inr data \<Rightarrow> snd (os_WriteFile fs (cwd @ [''.env'']) (Join [CHR 0x0A] (set_env_line key val (SplitOn (CHR 0x0A) data)))))"

definition hexByte :: "char \<Rightarrow> string" where
  "hexByte c = [digit (of_char c div 16), digit (of_char c mod 16)]"

definition generateKey :: "string option \<Rightarrow> string option" where
  "generateKey rnd = map_option (\<lambda>b. concat (map hexByte b)) rnd"

definition keyGenerate :: "string list \<Rightarrow> string option \<Rightarrow> fs \<Rightarrow> string option \<times> fs" where
  "keyGenerate cwd rnd fs =
     (case generateKey rnd of
        None \<Rightarrow> (None, fs)
      | Some key \<Rightarrow> (Some key, updateEnvKey cwd ''APP_KEY'' key fs))"

section \<open>Commands forwarded to the application\<close>

datatype cli_error = NoMainGo | StubNotFound string | TemplateError string | FileError storage_error | NoDbName | UnsupportedDriver string | SqlFailed string

text \<open>A process to start: its arguments and the variables added to its environment.\<close>

record cli_process =
  pr_argv :: "string list"
  pr_env :: "string list"

definition runAppCommand :: "string list \<Rightarrow> fs \<Rightarrow> string \<Rightarrow> cli_error + cli_process" where
  "runAppCommand cwd fs cmd =
     (case os_Stat fs (cwd @ [''main.go'']) of
        Inl _ \<Rightarrow> Inl NoMainGo
      | Inr _ \<Rightarrow> Inr \<lparr>pr_argv = [''go'', ''run'', ''.'', ''--oni-cmd='' @ cmd], pr_env = []\<rparr>)"

datatype app_command =
    Deploy | Migrate | MigrateRollback | MigrateFresh | MigrateStatus | DbSeed string | RouteList | AdminInstall | QueueWork string int
  | QueueRestart | ScheduleRun | BackupCmd | RestoreCmd string | HealthCmd | DocsServe string | SecretsSet string string | SecretsGet string

fun forwarded :: "app_command \<Rightarrow> string" where
  "forwarded Deploy = ''deploy''"
| "forwarded Migrate = ''migrate''"
| "forwarded MigrateRollback = ''migrate:rollback''"
| "forwarded MigrateFresh = ''migrate:fresh''"
| "forwarded MigrateStatus = ''migrate:status''"
| "forwarded (DbSeed cls) = (if cls \<noteq> [] then ''db:seed:'' @ cls else ''db:seed'')"
| "forwarded RouteList = ''route:list''"
| "forwarded AdminInstall = ''admin:install''"
| "forwarded (QueueWork q tries) = ''queue:work queue='' @ q @ '' tries='' @ itoa tries"
| "forwarded QueueRestart = ''queue:restart''"
| "forwarded ScheduleRun = ''schedule:run''"
| "forwarded BackupCmd = ''backup''"
| "forwarded (RestoreCmd f) = ''restore:'' @ f"
| "forwarded HealthCmd = ''health''"
| "forwarded (DocsServe port) = ''docs:serve port='' @ port"
| "forwarded (SecretsSet k v) = ''secrets:set '' @ k @ '' '' @ v"
| "forwarded (SecretsGet k) = ''secrets:get '' @ k"

text \<open>What the user types is asked for before \<open>migrate:fresh\<close> only; \<open>None\<close> is an aborted command.\<close>

definition run_app_command :: "string list \<Rightarrow> fs \<Rightarrow> string \<Rightarrow> app_command \<Rightarrow> (cli_error + cli_process) option" where
  "run_app_command cwd fs answer c =
     (if c = MigrateFresh \<and> TrimSpace answer \<noteq> ''yes'' then None else Some (runAppCommand cwd fs (forwarded c)))"

definition serve_process :: "string option \<Rightarrow> string \<Rightarrow> cli_process" where
  "serve_process air port =
     \<lparr>pr_argv = (case air of Some path \<Rightarrow> [path] | None \<Rightarrow> [''go'', ''run'', ''.'']), pr_env = [''APP_PORT='' @ port]\<rparr>"

text \<open>\<open>oni build\<close>: the name of the binary is that of the working directory, given by its components, unless one is asked for.\<close>

definition buildCmd :: "bool \<Rightarrow> string list \<Rightarrow> string \<Rightarrow> cli_process" where
  "buildCmd windows cwd output =
     (let base = (if cwd = [] then ''/'' else last cwd);
          out = (if output = [] then (if windows then base @ ''.exe'' else base) else output)
      in \<lparr>pr_argv = [''go'', ''build'', ''-ldflags=-s -w'', ''-o'', out, ''.''], pr_env = []\<rparr>)"

section \<open>The dispatch of the generated application\<close>

fun oniCommand :: "string list \<Rightarrow> string option" where
  "oniCommand [] = None"
| "oniCommand (arg # args) = (if HasPrefix arg ''--oni-cmd='' then Some (TrimPrefix arg ''--oni-cmd='') else oniCommand args)"

datatype app_action = Serve | ListRoutes | DoMigrate | DoRollback | DoFresh | DoStatus | DoHealth | NotWired string

definition runOniCmd :: "string \<Rightarrow> app_action" where
  "runOniCmd cmd =
     (if cmd = ''route:list'' then ListRoutes
      else if cmd = ''migrate'' then DoMigrate
      else if cmd = ''migrate:rollback'' then DoRollback
      else if cmd = ''migrate:fresh'' then DoFresh
      else if cmd = ''migrate:status'' then DoStatus
      else if cmd = ''health'' then DoHealth
      else NotWired cmd)"

definition generated_main :: "string list \<Rightarrow> app_action" where
  "generated_main argv = (case oniCommand (tl argv) of None \<Rightarrow> Serve | Some cmd \<Rightarrow> runOniCmd cmd)"

section \<open>Generators\<close>

definition stubOutputPath :: "string \<Rightarrow> string \<Rightarrow> string \<Rightarrow> string \<times> string" where
  "stubOutputPath ts kind name =
     (let snake = toSnakeCase name
      in if kind = ''controller'' then (filepath_Join [''app'', ''http'', ''controllers''], snake @ ''_controller.go'')
         else if kind = ''model'' then (filepath_Join [''app'', ''models''], snake @ ''.go'')
         else if kind = ''migration'' then (filepath_Join [''database'', ''migrations''], ts @ ''_'' @ snake @ ''.go'')
         else if kind = ''middleware'' then (filepath_Join [''app'', ''http'', ''middleware''], snake @ ''.go'')
         else if kind = ''job'' then (filepath_Join [''app'', ''jobs''], snake @ ''_job.go'')
         else if kind = ''mail'' then (filepath_Join [''app'', ''mail''], snake @ ''_mail.go'')
         else if kind = ''seeder'' then (filepath_Join [''database'', ''seeders''], snake @ ''_seeder.go'')
         else if kind = ''policy'' then (filepath_Join [''app'', ''policies''], snake @ ''_policy.go'')
         else if kind = ''test'' then (''tests'', snake @ ''_test.go'')
         else if kind = ''channel'' then (filepath_Join [''app'', ''channels''], snake @ ''_channel.go'')
         else (''.'', snake @ ''.go''))"

record gen_env =
  ge_cwd :: "string list"
  ge_stubs :: "string \<Rightarrow> string option"
  ge_parse :: "string \<Rightarrow> string option" \<comment> \<open>the error of parsing a template\<close>
  ge_render :: "string \<Rightarrow> (string, string) gomap \<Rightarrow> string option \<times> string" \<comment> \<open>the error of executing it and what was written until then\<close>
  ge_ts :: string
  ge_date :: string

definition stub_data :: "gen_env \<Rightarrow> string \<Rightarrow> (string, string) gomap" where
  "stub_data ge name =
     [(''Name'', toPascalCase name), (''NameSnake'', toSnakeCase name), (''Timestamp'', ge_ts ge), (''Date'', ge_date ge)]"

definition stub_place :: "gen_env \<Rightarrow> string \<Rightarrow> string \<Rightarrow> string list" where
  "stub_place ge kind name = (case stubOutputPath (ge_ts ge) kind name of (dir, filename) \<Rightarrow> resolve (ge_cwd ge) (filepath_Join [dir, filename]))"

definition makeStub :: "gen_env \<Rightarrow> string \<Rightarrow> string \<Rightarrow> fs \<Rightarrow> cli_error option \<times> fs" where
  "makeStub ge kind name fs =
     (case ge_stubs ge kind of
        None \<Rightarrow> (Some (StubNotFound kind), fs)
      | Some content \<Rightarrow>
          (case ge_parse ge content of
             Some e \<Rightarrow> (Some (TemplateError e), fs)
           | None \<Rightarrow>
               (case os_MkdirAll fs [] (resolve (ge_cwd ge) (fst (stubOutputPath (ge_ts ge) kind name))) of
                  (Some e, fs1) \<Rightarrow> (Some (FileError e), fs1)
                | (None, fs1) \<Rightarrow>
                    (case os_Create fs1 (stub_place ge kind name) of
                       (Some e, fs2) \<Rightarrow> (Some (FileError e), fs2)
                     | (None, fs2) \<Rightarrow>
                         (case ge_render ge content (stub_data ge name) of
                            (e, out) \<Rightarrow> (map_option TemplateError e, AList.update (stub_place ge kind name) (File out) fs2))))))"

datatype make_command =
    MakeController string | MakeModel string bool | MakeMigration string | MakeMiddleware string | MakeJob string | MakeMail string
  | MakeSeeder string | MakePolicy string | MakeTest string | MakeChannel string | MakeResource string

definition table_migration :: "string \<Rightarrow> string" where
  "table_migration name = ''create_'' @ toSnakeCase name @ ''s_table''"

fun made_stubs :: "make_command \<Rightarrow> (string \<times> string) list" where
  "made_stubs (MakeController n) = [(''controller'', n)]"
| "made_stubs (MakeModel n m) = (''model'', n) # (if m then [(''migration'', table_migration n)] else [])"
| "made_stubs (MakeMigration n) = [(''migration'', n)]"
| "made_stubs (MakeMiddleware n) = [(''middleware'', n)]"
| "made_stubs (MakeJob n) = [(''job'', n)]"
| "made_stubs (MakeMail n) = [(''mail'', n)]"
| "made_stubs (MakeSeeder n) = [(''seeder'', n)]"
| "made_stubs (MakePolicy n) = [(''policy'', n)]"
| "made_stubs (MakeTest n) = [(''test'', n)]"
| "made_stubs (MakeChannel n) = [(''channel'', n)]"
| "made_stubs (MakeResource n) = [(''controller'', n), (''model'', n), (''migration'', table_migration n)]"

fun makeStubs :: "gen_env \<Rightarrow> (string \<times> string) list \<Rightarrow> fs \<Rightarrow> cli_error option \<times> fs" where
  "makeStubs ge [] fs = (None, fs)"
| "makeStubs ge ((kind, name) # rest) fs =
     (case makeStub ge kind name fs of
        (Some e, fs1) \<Rightarrow> (Some e, fs1)
      | (None, fs1) \<Rightarrow> makeStubs ge rest fs1)"

section \<open>A new application\<close>

definition scaffold_dirs :: "bool \<Rightarrow> string list" where
  "scaffold_dirs frontend =
     [''app/http/controllers'', ''app/http/middleware'', ''app/models'', ''app/jobs'', ''app/mail'', ''app/policies'', ''config'',
      ''database/migrations'', ''database/seeders'', ''storage/app'', ''storage/logs'', ''tests'', ''public'']
     @ (if frontend then [''resources/ts'', ''resources/css'', ''resources/views''] else [])"

text \<open>The file templates by the names of their constants; \<open>tmpl\<close> gives their texts.\<close>

definition scaffold_files :: "string \<Rightarrow> string \<Rightarrow> bool \<Rightarrow> (string \<times> string \<times> (string, string) gomap) list" where
  "scaffold_files name key frontend =
     [(''main.go'', ''mainGoStub'', [(''Name'', name)]), (''.env'', ''envStub'', [(''AppKey'', key), (''Name'', name)]),
      (''config/app.yaml'', ''appYamlStub'', [(''Name'', name)]), (''.gitignore'', ''gitignoreStub'', []),
      (''database/migrations/migrations.go'', ''migrationsPkgStub'', [])]
     @ (if frontend
        then [(''vite.config.ts'', ''viteConfigStub'', []), (''tailwind.config.ts'', ''tailwindConfigStub'', []),
              (''resources/css/app.css'', ''tailwindCSSStub'', []), (''resources/ts/app.ts'', ''appTSStub'', []),
              (''package.json'', ''packageJSONStub'', [(''Name'', name)]), (''tsconfig.json'', ''tsconfigStub'', [])]
        else [])"

definition writeProjectFile :: "gen_env \<Rightarrow> string \<Rightarrow> string \<Rightarrow> string \<Rightarrow> (string, string) gomap \<Rightarrow> fs \<Rightarrow> fs" where
  "writeProjectFile ge base path text data fs =
     (let full = filepath_Join [base, path]; fs1 = snd (os_MkdirAll fs [] (resolve (ge_cwd ge) (filepath_Dir full)))
      in case ge_parse ge text of
           Some _ \<Rightarrow> fs1
         | None \<Rightarrow>
             (case os_Create fs1 (resolve (ge_cwd ge) full) of
                (Some _, fs2) \<Rightarrow> fs2
              | (None, fs2) \<Rightarrow> AList.update (resolve (ge_cwd ge) full) (File (snd (ge_render ge text data))) fs2))"

fun mkdirs :: "string list \<Rightarrow> string \<Rightarrow> string list \<Rightarrow> fs \<Rightarrow> storage_error option \<times> fs" where
  "mkdirs cwd name [] fs = (None, fs)"
| "mkdirs cwd name (d # ds) fs =
     (case os_MkdirAll fs [] (resolve cwd (filepath_Join [name, d])) of
        (Some e, fs1) \<Rightarrow> (Some e, fs1)
      | (None, fs1) \<Rightarrow> mkdirs cwd name ds fs1)"

definition scaffoldNew :: "gen_env \<Rightarrow> (string \<Rightarrow> string) \<Rightarrow> string option \<Rightarrow> string \<Rightarrow> bool \<Rightarrow> fs \<Rightarrow> cli_error option \<times> fs" where
  "scaffoldNew ge tmpl rnd name frontend fs =
     (case mkdirs (ge_cwd ge) name (scaffold_dirs frontend) fs of
        (Some e, fs1) \<Rightarrow> (Some (FileError e), fs1)
      | (None, fs1) \<Rightarrow>
          (let key = (case generateKey rnd of Some k \<Rightarrow> k | None \<Rightarrow> [])
           in (None, fold (\<lambda>(path, t, data) fs. writeProjectFile ge name path (tmpl t) data fs) (scaffold_files name key frontend) fs1)))"

section \<open>Databases\<close>

text \<open>The SQL server: the driver's name, the data source name and the statement; the result is the error.\<close>

type_synonym 'd admin_sql = "string \<Rightarrow> string \<Rightarrow> string \<Rightarrow> 'd \<Rightarrow> string option \<times> 'd"

definition pg_admin_dsn :: "environ \<Rightarrow> (string, string) gomap \<Rightarrow> string" where
  "pg_admin_dsn e env =
     ''host='' @ getEnv e env ''DB_HOST'' ''127.0.0.1'' @ '' port='' @ getEnv e env ''DB_PORT'' ''5432'' @ '' user='' @ getEnv e env ''DB_USER'' ''postgres''
     @ '' password='' @ getEnv e env ''DB_PASSWORD'' [] @ '' dbname=postgres sslmode=disable''"

definition mysql_admin_dsn :: "environ \<Rightarrow> (string, string) gomap \<Rightarrow> string" where
  "mysql_admin_dsn e env =
     getEnv e env ''DB_USER'' ''postgres'' @ '':'' @ getEnv e env ''DB_PASSWORD'' [] @ ''@tcp('' @ getEnv e env ''DB_HOST'' ''127.0.0.1'' @ '':''
     @ getEnv e env ''DB_PORT'' ''5432'' @ '')/''"

definition dbCreate :: "'d admin_sql \<Rightarrow> environ \<Rightarrow> (string, string) gomap \<Rightarrow> 'd \<Rightarrow> cli_error option \<times> 'd" where
  "dbCreate ex e env d =
     (let driver = getEnv e env ''DB_DRIVER'' ''postgres''; name = getEnv e env ''DB_NAME'' []
      in if name = [] then (Some NoDbName, d)
         else if driver = ''postgres''
         then (case ex ''pgx'' (pg_admin_dsn e env) (''CREATE DATABASE '' @ [CHR 0x22] @ name @ [CHR 0x22]) d of
                 (Some err, d1) \<Rightarrow> (if Contains err ''already exists'' then None else Some (SqlFailed err), d1)
               | (None, d1) \<Rightarrow> (None, d1))
         else if driver = ''mysql''
         then (case ex ''mysql'' (mysql_admin_dsn e env)
                      (''CREATE DATABASE IF NOT EXISTS '' @ [CHR 0x60] @ name @ [CHR 0x60] @ '' CHARACTER SET utf8mb4 COLLATE utf8mb4_unicode_ci'') d of
                 (err, d1) \<Rightarrow> (map_option SqlFailed err, d1))
         else (Some (UnsupportedDriver driver), d))"

definition dbDrop :: "'d admin_sql \<Rightarrow> environ \<Rightarrow> (string, string) gomap \<Rightarrow> string \<Rightarrow> 'd \<Rightarrow> cli_error option \<times> 'd" where
  "dbDrop ex e env answer d =
     (let driver = getEnv e env ''DB_DRIVER'' ''postgres''; name = getEnv e env ''DB_NAME'' []
      in if name = [] then (Some NoDbName, d)
         else if TrimSpace answer \<noteq> ''yes'' then (None, d)
         else if driver = ''postgres''
         then (let dsn = pg_admin_dsn e env;
                   d1 = snd (ex ''pgx'' dsn (''SELECT pg_terminate_backend(pid) FROM pg_stat_activity WHERE datname = '' @ [CHR 0x27] @ name @ [CHR 0x27]) d)
               in case ex ''pgx'' dsn (''DROP DATABASE IF EXISTS '' @ [CHR 0x22] @ name @ [CHR 0x22]) d1 of
                    (err, d2) \<Rightarrow> (map_option SqlFailed err, d2))
         else if driver = ''mysql''
         then (case ex ''mysql'' (mysql_admin_dsn e env) (''DROP DATABASE IF EXISTS '' @ [CHR 0x60] @ name @ [CHR 0x60]) d of
                 (err, d1) \<Rightarrow> (map_option SqlFailed err, d1))
         else (Some (UnsupportedDriver driver), d))"

section \<open>Names round trip\<close>

text \<open>Names in Pascal case: ASCII letters and digits, starting with a capital letter.\<close>

definition upperCh :: "char \<Rightarrow> bool" where "upperCh c = between (CHR ''A'') (CHR ''Z'') c"

definition nameCh :: "char \<Rightarrow> bool" where
  "nameCh c = (upperCh c \<or> between (CHR ''a'') (CHR ''z'') c \<or> between (CHR ''0'') (CHR ''9'') c)"

definition pascal_name :: "string \<Rightarrow> bool" where
  "pascal_name s = (s \<noteq> [] \<and> upperCh (hd s) \<and> list_all nameCh s)"

definition snake_ch :: "char \<Rightarrow> string" where
  "snake_ch c = (if upperCh c then ''_'' @ [lowerByte c] else [c])"

lemma between_code: "between a b c \<longleftrightarrow> of_char a \<le> (of_char c :: nat) \<and> of_char c \<le> (of_char b :: nat)"
  by (simp add: between_def less_eq_char_def)

lemma char_code: "c = d \<longleftrightarrow> of_char c = (of_char d :: nat)" by simp

lemma lower_code: "upperCh c \<Longrightarrow> of_char (lowerByte c) = of_char c + (32 :: nat)"
  by (auto simp: upperCh_def between_def lowerByte_def less_eq_char_def)

lemma upper_code: "between (CHR ''a'') (CHR ''z'') c \<Longrightarrow> of_char (upperByte c) = of_char c - (32 :: nat)"
  by (auto simp: between_def upperByte_def less_eq_char_def)

lemma upper_lower: "upperCh c \<Longrightarrow> upperByte (lowerByte c) = c"
  using lower_code [of c] upper_code [of "lowerByte c"] unfolding char_code [of _ c] by (simp add: between_code upperCh_def)

lemma nameCh_facts:
  assumes "nameCh c"
  shows "c < CHR 0x80" "\<not> nameSep c" "c \<noteq> CHR ''-''"
  using assms unfolding nameCh_def upperCh_def nameSep_def between_code char_code [of c] less_char_def by auto

lemma upperCh_facts:
  assumes "upperCh c"
  shows "\<not> nameSep (lowerByte c)" "lowerByte c < CHR 0x80" "lowerByte c \<noteq> CHR ''-''"
  using assms lower_code [OF assms] unfolding upperCh_def nameSep_def between_code char_code [of "lowerByte c"] less_char_def by auto

lemma snakeRune_name: "snakeRune first [c] = (if upperCh c then (if first then [] else ''_'') @ [lowerByte c] else [c])"
  unfolding snakeRune_def lowerByte_def list.case upperCh_def between_def
  by (rule if_cong [OF refl _ refl]) (simp only: if_True simp_thms)

lemma snake_ch_no_hyphen: "nameCh c \<Longrightarrow> CHR ''-'' \<notin> set (snake_ch c)"
  using nameCh_facts(3) [of c] upperCh_facts(3) [of c] by (auto simp: snake_ch_def)

lemma toSnake_name:
  assumes "pascal_name (c # s)"
  shows "toSnakeCase (c # s) = lowerByte c # concat (map snake_ch s)"
proof -
  have names: "nameCh c" "upperCh c" "\<forall>x \<in> set s. nameCh x" using assms by (auto simp: pascal_name_def list_all_iff)
  then have "\<forall>x \<in> set (c # s). x < CHR 0x80" using nameCh_facts by auto
  then have "runes (c # s) = map (\<lambda>c. [c]) (c # s)" by (rule runes_ascii_string)
  moreover have "map (snakeRune False) (map (\<lambda>c. [c]) s) = map snake_ch s"
    using names(3) by (simp add: snakeRune_name snake_ch_def)
  moreover have "snakeRune True [c] = [lowerByte c]" using names(1,2) by (simp add: snakeRune_name)
  ultimately have snake: "toSnake (c # s) = lowerByte c # concat (map snake_ch s)" by (simp only: toSnake_def list.map list.case append.simps)
  have "CHR ''-'' \<notin> set (lowerByte c # concat (map snake_ch s))"
    using names(3) upperCh_facts(3) [OF names(2)] snake_ch_no_hyphen by auto
  then show ?thesis by (simp only: toSnakeCase_def snake ReplaceByte_id not_False_eq_True)
qed

lemma pascal_of_snake:
  "\<forall>x \<in> set s. nameCh x \<Longrightarrow> cur \<noteq> [] \<Longrightarrow> last cur < CHR 0x80 \<Longrightarrow>
     concat (map upperFirst (nameFields cur (concat (map snake_ch s)))) = upperFirst (rev cur) @ s"
proof (induction s arbitrary: cur)
  case (Cons c s)
  have c: "nameCh c" using Cons.prems by simp
  show ?case
  proof (cases "upperCh c")
    case True
    have "concat (map upperFirst (nameFields [lowerByte c] (concat (map snake_ch s)))) = upperFirst [lowerByte c] @ s"
      using Cons.IH [of "[lowerByte c]"] Cons.prems(1) upperCh_facts [OF True] by simp
    moreover have "upperFirst [lowerByte c] = [c]" using upperCh_facts(2) [OF True] upper_lower [OF True] by (simp add: upperFirst_def)
    moreover have "\<not> nameSep (lowerByte c)" "nameSep CHR ''_''" using upperCh_facts(1) [OF True] by (simp_all add: nameSep_def)
    ultimately show ?thesis using True Cons.prems(2) by (simp add: snake_ch_def [of c])
  next
    case False
    have "last (c # cur) < CHR 0x80" using Cons.prems by simp
    then have "concat (map upperFirst (nameFields (c # cur) (concat (map snake_ch s)))) = upperFirst (rev cur @ [c]) @ s"
      using Cons.IH [of "c # cur"] Cons.prems(1) by simp
    moreover have "upperFirst (rev cur @ [c]) = upperFirst (rev cur) @ [c]" using Cons.prems(2) by (cases "rev cur") (auto simp: upperFirst_def)
    ultimately show ?thesis using False nameCh_facts [OF c] by (simp add: snake_ch_def [of c])
  qed
qed (simp)

section \<open>The env file\<close>

lemma env_entries_append: "env_entries (xs @ ys) m = env_entries ys (env_entries xs m)"
  by (induction xs arbitrary: m) auto

lemma env_entries_other:
  "\<forall>l \<in> set ls. \<forall>v. env_entry l \<noteq> Some (k, v) \<Longrightarrow> map_of (env_entries ls m) k = map_of m k"
  by (induction ls arbitrary: m) (auto split: option.splits)

lemma set_env_line_split:
  "(\<exists>a l b. ls = a @ l # b \<and> HasPrefix l (key @ ''='') \<and> set_env_line key val ls = a @ (key @ ''='' @ val) # b)
   \<or> (\<forall>l \<in> set ls. \<not> HasPrefix l (key @ ''='')) \<and> set_env_line key val ls = ls @ [key @ ''='' @ val]"
proof (induction ls)
  case (Cons l ls)
  show ?case
  proof (cases "HasPrefix l (key @ ''='')")
    case True
    then show ?thesis by (intro disjI1 exI [of _ "[]"] exI [of _ l] exI [of _ ls]) simp
  next
    case False
    with Cons show ?thesis
    proof (elim disjE exE conjE)
      fix a m b assume "ls = a @ m # b" "HasPrefix m (key @ ''='')" "set_env_line key val ls = a @ (key @ ''='' @ val) # b"
      with False show ?thesis by (intro disjI1 exI [of _ "l # a"] exI [of _ m] exI [of _ b]) simp
    qed (use False in simp)
  qed
qed simp


text \<open>Text that does not start or end with a byte of a space.\<close>

definition plain_text :: "string \<Rightarrow> bool" where
  "plain_text s = (s \<noteq> [] \<longrightarrow> hd s \<notin> hd ` set unicodeSpaces \<and> last s \<notin> last ` set unicodeSpaces)"

lemma TrimSpace_plain: "plain_text s \<Longrightarrow> TrimSpace s = s"
  using spaceLen_hd [of s] spaceLenEnd_last [of s] by (cases "s = []") (auto simp: plain_text_def intro!: TrimSpace_trimmed simp: trimmed_def)

lemma eq_no_space: "w \<in> set unicodeSpaces \<Longrightarrow> CHR ''='' \<notin> set w \<and> w \<noteq> []"
  by (auto simp: unicodeSpaces_def)

lemma eq_no_space_end: "CHR ''='' \<notin> last ` set unicodeSpaces"
  using eq_no_space last_in_set by (metis imageE)

lemma spaceLenEnd_after_eq: "spaceLenEnd (p @ CHR ''='' # r) \<le> length r"
proof (cases "find (HasSuffix (p @ CHR ''='' # r)) unicodeSpaces")
  case (Some w)
  then have w: "w \<in> set unicodeSpaces" "HasSuffix (p @ CHR ''='' # r) w" by (auto simp: find_Some_iff)
  then obtain q where q: "p @ CHR ''='' # r = q @ w" by (auto simp: HasSuffix_iff)
  have "length w \<le> length r"
  proof (rule ccontr)
    assume "\<not> length w \<le> length r"
    then have "length q \<le> length p" using arg_cong [OF q, of length] by simp
    then have "(q @ w) ! length p \<in> set w" using arg_cong [OF q, of length] by (simp add: nth_append)
    moreover have "(q @ w) ! length p = CHR ''=''" unfolding q [symmetric] by (simp add: nth_append)
    ultimately show False using eq_no_space [OF w(1)] by simp
  qed
  then show ?thesis using Some by (simp add: spaceLenEnd_def)
qed (simp add: spaceLenEnd_def)

lemma TrimRight_after_eq: "\<exists>r'. TrimRightSpace (p @ CHR ''='' # r) = p @ CHR ''='' # r'"
proof (induction r rule: length_induct)
  case (1 r)
  let ?n = "spaceLenEnd (p @ CHR ''='' # r)"
  show ?case
  proof (cases "?n = 0")
    case True
    then show ?thesis by (subst TrimRightSpace.simps) auto
  next
    case False
    have "take (length (p @ CHR ''='' # r) - ?n) (p @ CHR ''='' # r) = p @ CHR ''='' # take (length r - ?n) r"
      using spaceLenEnd_after_eq [of p r] by (simp add: Suc_diff_le)
    moreover have "length (take (length r - ?n) r) < length r" using False spaceLenEnd_after_eq [of p r] by auto
    ultimately show ?thesis using 1 False by (subst TrimRightSpace.simps) auto
  qed
qed

definition env_key :: "string \<Rightarrow> bool" where
  "env_key key = (key \<noteq> [] \<and> plain_text key \<and> CHR ''='' \<notin> set key \<and> CHR 0x0A \<notin> set key \<and> hd key \<noteq> CHR ''#'')"

definition env_val :: "string \<Rightarrow> bool" where
  "env_val v = (plain_text v \<and> CHR 0x0A \<notin> set v \<and> env_unquote v = v)"

lemma env_entry_key:
  assumes "env_key key"
  shows "\<exists>w. env_entry (key @ ''='' @ v) = Some (key, w)"
proof -
  have "spaceLen (key @ ''='' @ v) = 0" using assms spaceLen_hd [of "key @ ''='' @ v"] by (simp add: env_key_def plain_text_def)
  then have "TrimLeftSpace (key @ ''='' @ v) = key @ CHR ''='' # v" by (subst TrimLeftSpace.simps) simp
  then obtain r where "TrimSpace (key @ ''='' @ v) = key @ CHR ''='' # r"
    using TrimRight_after_eq [of key v] by (auto simp: TrimSpace_def)
  moreover have "\<not> HasPrefix (key @ CHR ''='' # r) ''#''" using assms by (cases key) (auto simp: env_key_def HasPrefix_def)
  moreover have "Index (key @ CHR ''='' # r) ''='' = Some (length key)" using assms by (intro Index_byte_first) (simp add: env_key_def)
  ultimately show ?thesis using assms TrimSpace_plain [of key] by (auto simp: env_entry_def env_key_def)
qed

lemma env_entry_set:
  assumes "env_key key" and "env_val v"
  shows "env_entry (key @ ''='' @ v) = Some (key, v)"
proof -
  have "plain_text (key @ ''='' @ v)"
    using assms eq_no_space_end by (auto simp: env_key_def env_val_def plain_text_def)
  then have "TrimSpace (key @ ''='' @ v) = key @ CHR ''='' # v" using TrimSpace_plain by fastforce
  moreover have "\<not> HasPrefix (key @ CHR ''='' # v) ''#''" using assms(1) by (cases key) (auto simp: env_key_def HasPrefix_def)
  moreover have "Index (key @ CHR ''='' # v) ''='' = Some (length key)" using assms(1) by (intro Index_byte_first) (simp add: env_key_def)
  ultimately show ?thesis using assms TrimSpace_plain [of key] TrimSpace_plain [of v] by (auto simp: env_entry_def env_key_def env_val_def)
qed

lemma env_entries_cong: "map_of m k = map_of m' k \<Longrightarrow> map_of (env_entries ls m) k = map_of (env_entries ls m') k"
proof (induction ls arbitrary: m m')
  case (Cons l ls)
  let ?step = "\<lambda>m. case env_entry l of None \<Rightarrow> m | Some (k, v) \<Rightarrow> AList.update k v m"
  have "map_of (?step m) k = map_of (?step m') k" using Cons.prems by (cases "env_entry l") (simp_all add: case_prod_beta)
  from Cons.IH [OF this] show ?case by simp
qed simp

lemma set_env_line_lines:
  assumes "env_key key" and "env_val val"
    and "\<forall>l \<in> set ls. (\<exists>v. env_entry l = Some (key, v)) \<longrightarrow> HasPrefix l (key @ ''='')"
    and "length (filter (\<lambda>l. HasPrefix l (key @ ''='')) ls) \<le> 1"
  shows "map_of (env_entries (set_env_line key val ls) []) key = Some val"
    and "k \<noteq> key \<Longrightarrow> map_of (env_entries (set_env_line key val ls) []) k = map_of (env_entries ls []) k"
proof -
  note new = env_entry_set [OF assms(1,2)]
  consider (old) a l b where "ls = a @ l # b" "HasPrefix l (key @ ''='')" "set_env_line key val ls = a @ (key @ ''='' @ val) # b"
    | (none) "\<forall>l \<in> set ls. \<not> HasPrefix l (key @ ''='')" "set_env_line key val ls = ls @ [key @ ''='' @ val]"
    using set_env_line_split [of ls key val] by blast
  then have "map_of (env_entries (set_env_line key val ls) []) key = Some val
      \<and> (k \<noteq> key \<longrightarrow> map_of (env_entries (set_env_line key val ls) []) k = map_of (env_entries ls []) k)"
  proof cases
    case old
    obtain v where v: "l = key @ ''='' @ v" using old(2) by (auto simp: HasPrefix_iff)
    obtain w where w: "env_entry l = Some (key, w)" using env_entry_key [OF assms(1), of v] v by auto
    have "filter (\<lambda>l. HasPrefix l (key @ ''='')) b = []" using assms(4) old(1,2) by (auto simp: filter_empty_conv)
    then have "\<forall>l \<in> set b. \<forall>v. env_entry l \<noteq> Some (key, v)" using assms(3) old(1) by (auto simp: filter_empty_conv)
    then have "map_of (env_entries (set_env_line key val ls) []) key = Some val"
      using new by (simp add: old(3) env_entries_append env_entries_other)
    moreover have "map_of (env_entries (set_env_line key val ls) []) k = map_of (env_entries ls []) k" if "k \<noteq> key"
    proof -
      have "env_entries (set_env_line key val ls) [] = env_entries b (AList.update key val (env_entries a []))"
        using new by (simp add: old(3) env_entries_append)
      moreover have "env_entries ls [] = env_entries b (AList.update key w (env_entries a []))"
        using w by (simp add: old(1) env_entries_append)
      ultimately show ?thesis using that by (simp add: env_entries_cong [of "AList.update key val (env_entries a [])" k "AList.update key w (env_entries a [])"])
    qed
    ultimately show ?thesis by blast
  next
    case none
    with new show ?thesis by (simp add: env_entries_append)
  qed
  then show "map_of (env_entries (set_env_line key val ls) []) key = Some val"
    and "k \<noteq> key \<Longrightarrow> map_of (env_entries (set_env_line key val ls) []) k = map_of (env_entries ls []) k" by blast+
qed


section \<open>Properties\<close>

text \<open>
  Names survive the trip through file names: a name in Pascal case, turned into snake case for the file and back for the identifiers of
  the generated code, is the same name.
\<close>

theorem name_case_roundtrip:
  assumes "pascal_name s"
  shows "toPascalCase (toSnakeCase s) = s"
proof (cases s)
  case (Cons c r)
  have c: "upperCh c" "\<forall>x \<in> set r. nameCh x" using assms Cons by (auto simp: pascal_name_def list_all_iff)
  have "nameFields [] (lowerByte c # concat (map snake_ch r)) = nameFields [lowerByte c] (concat (map snake_ch r))"
    using upperCh_facts(1) [OF c(1)] by simp
  moreover have "concat (map upperFirst (nameFields [lowerByte c] (concat (map snake_ch r)))) = upperFirst [lowerByte c] @ r"
    using pascal_of_snake [OF c(2), of "[lowerByte c]"] upperCh_facts(2) [OF c(1)] by simp
  moreover have "upperFirst [lowerByte c] = [c]" using upperCh_facts(2) [OF c(1)] upper_lower [OF c(1)] by (simp add: upperFirst_def)
  ultimately show ?thesis using toSnake_name [of c r] assms Cons by (simp add: toPascalCase_def)
qed (use assms in \<open>simp add: pascal_name_def\<close>)

theorem name_case_roundtrip_witness: "toPascalCase (toSnakeCase ''UserID2'') = ''UserID2''"
  by (rule name_case_roundtrip) (simp add: pascal_name_def nameCh_def upperCh_def between_def less_eq_char_def)

text \<open>
  What \<open>updateEnvKey\<close> writes is what \<open>readDotEnv\<close> reads: if the file defines the key at most once, and on a line that starts with it,
  then after the update the key has the new value and every other key the old one.
\<close>

theorem update_env_roundtrip:
  assumes "os_ReadFile fs (cwd @ [''.env'']) = Inr data" and "env_key key" and "env_val val"
    and "\<forall>l \<in> set (SplitOn (CHR 0x0A) data). (\<exists>v. env_entry l = Some (key, v)) \<longrightarrow> HasPrefix l (key @ ''='')"
    and "length (filter (\<lambda>l. HasPrefix l (key @ ''='')) (SplitOn (CHR 0x0A) data)) \<le> 1"
  shows "map_of (readDotEnv cwd (updateEnvKey cwd key val fs)) key = Some val
    \<and> (k \<noteq> key \<longrightarrow> map_of (readDotEnv cwd (updateEnvKey cwd key val fs)) k = map_of (readDotEnv cwd fs) k)"
proof -
  let ?f = "cwd @ [''.env'']" and ?ls = "SplitOn (CHR 0x0A) data"
  let ?new = "set_env_line key val ?ls"
  have st: "walk fs [] ?f = None" "\<exists>b. fs_node fs ?f = Some (File b)"
    using assms(1) by (auto simp: os_ReadFile_def os_Stat_def split: sum.splits node.splits option.splits)
  then have "os_WriteFile fs ?f (Join [CHR 0x0A] ?new) = (None, snd (os_WriteFile fs ?f (Join [CHR 0x0A] ?new)))"
    by (auto simp: os_WriteFile_def os_Create_def)
  then have "os_ReadFile (updateEnvKey cwd key val fs) ?f = Inr (Join [CHR 0x0A] ?new)"
    using os_WriteFile_reads(1) assms(1) by (simp add: updateEnvKey_def)
  moreover have "SplitOn (CHR 0x0A) (Join [CHR 0x0A] ?new) = ?new"
  proof (rule SplitOn_Join)
    show "?new \<noteq> []" using set_env_line_split [of ?ls key val] by auto
    have "CHR 0x0A \<notin> set (key @ ''='' @ val)" using assms(2,3) by (auto simp: env_key_def env_val_def)
    then show "\<forall>w \<in> set ?new. CHR 0x0A \<notin> set w"
      using set_env_line_split [of ?ls key val] SplitOn_parts_no_sep [of _ "CHR 0x0A" data] by auto
  qed
  ultimately show ?thesis using set_env_line_lines [OF assms(2-5)] assms(1) by (simp add: readDotEnv_def)
qed

theorem update_env_roundtrip_witness:
  "map_of (readDotEnv [''app''] (updateEnvKey [''app''] ''APP_KEY'' ''ab12''
     [([''app''], Dir), ([''app'', ''.env''], File (''A=1'' @ [CHR 0x0A] @ ''APP_KEY=''))])) ''APP_KEY'' = Some ''ab12''"
proof -
  let ?data = "''A=1'' @ [CHR 0x0A] @ ''APP_KEY=''"
  have "env_entry ''A=1'' = Some (''A'', ''1'')" by code_simp
  moreover have "env_key ''APP_KEY'' \<and> env_val ''ab12''" by code_simp
  moreover have "SplitOn (CHR 0x0A) ?data = [''A=1'', ''APP_KEY='']" by simp
  moreover have "os_ReadFile [([''app''], Dir), ([''app'', ''.env''], File ?data)] ([''app''] @ [''.env'']) = Inr ?data"
    by (simp add: os_ReadFile_def os_Stat_def fs_node_def)
  ultimately show ?thesis
    by (intro update_env_roundtrip [where data="?data", THEN conjunct1]) (auto simp: HasPrefix_def)
qed

text \<open>
  What the tool forwards reaches the application, and of the forwarded commands exactly six are wired in a generated application; all
  others end in its error for unknown commands.
\<close>

theorem forwarded_commands_wired:
  assumes "run_app_command cwd fs answer c = Some (Inr pr)"
  shows "generated_main (prog # drop 3 (pr_argv pr)) =
    (case c of RouteList \<Rightarrow> ListRoutes | Migrate \<Rightarrow> DoMigrate | MigrateRollback \<Rightarrow> DoRollback | MigrateFresh \<Rightarrow> DoFresh
     | MigrateStatus \<Rightarrow> DoStatus | HealthCmd \<Rightarrow> DoHealth | _ \<Rightarrow> NotWired (forwarded c))"
proof -
  have "pr_argv pr = [''go'', ''run'', ''.'', ''--oni-cmd='' @ forwarded c]"
    using assms by (auto simp: run_app_command_def runAppCommand_def split: if_splits sum.splits)
  moreover have "oniCommand [''--oni-cmd='' @ w] = Some w" for w
    by (simp only: oniCommand.simps HasPrefix_append TrimPrefix_append if_True)
  ultimately have "generated_main (prog # drop 3 (pr_argv pr)) = runOniCmd (forwarded c)"
    by (simp add: generated_main_def eval_nat_numeral)
  then show ?thesis by (cases c) (simp_all add: runOniCmd_def)
qed

theorem forwarded_commands_wired_witness:
  "generated_main [''app'', ''--oni-cmd=backup''] = NotWired ''backup''"
proof -
  have "run_app_command [] [([''main.go''], File [])] [] BackupCmd = Some (Inr \<lparr>pr_argv = [''go'', ''run'', ''.'', ''--oni-cmd=backup''], pr_env = []\<rparr>)"
    by (simp add: run_app_command_def runAppCommand_def os_Stat_def fs_node_def)
  from forwarded_commands_wired [OF this, of "''app''"] show ?thesis by simp
qed

text \<open>
  Nothing is dropped without the typed confirmation.
\<close>

theorem drop_needs_yes:
  assumes "TrimSpace answer \<noteq> ''yes''"
  shows "snd (dbDrop ex e env answer d) = d \<and> run_app_command cwd fs answer MigrateFresh = None"
  using assms by (auto simp: dbDrop_def Let_def run_app_command_def)

text \<open>
  A generator replaces the file of the stub and no other: after a successful \<open>makeStub\<close> the file holds the rendered stub, whatever
  was there before, and all other files are unchanged.
\<close>

theorem make_stub_effect:
  assumes "makeStub ge kind name fs = (None, fs')"
  shows "\<exists>content. ge_stubs ge kind = Some content
      \<and> map_of fs' (stub_place ge kind name) = Some (File (snd (ge_render ge content (stub_data ge name))))
      \<and> (\<forall>k b. k \<noteq> stub_place ge kind name \<longrightarrow> (map_of fs' k = Some (File b) \<longleftrightarrow> map_of fs k = Some (File b)))"
proof -
  let ?p = "stub_place ge kind name"
  from assms obtain content fs1 fs2 where "ge_stubs ge kind = Some content"
    and m: "os_MkdirAll fs [] (resolve (ge_cwd ge) (fst (stubOutputPath (ge_ts ge) kind name))) = (None, fs1)"
    and c: "os_Create fs1 ?p = (None, fs2)" and fs': "fs' = AList.update ?p (File (snd (ge_render ge content (stub_data ge name)))) fs2"
    by (auto simp: makeStub_def split: prod.splits option.splits)
  moreover have "map_of fs' k = Some (File b) \<longleftrightarrow> map_of fs k = Some (File b)" if "k \<noteq> ?p" for k b
    using MkdirAll_keeps_files [of fs k b] MkdirAll_files_old [of fs "[]" _ k b] m Create_other [OF that, of fs1] c that
    by (simp add: fs') (metis snd_conv)
  ultimately show ?thesis by auto
qed

end
