(* ===== verification/Frontend_Assets.thy ===== *)
theory Frontend_Assets
  imports Go_Filepath
begin

text \<open>
  Model of \<open>framework/frontend/assets.go\<close>: the asset manager with its script tags, and the generator of TypeScript declarations from Go
  sources. Decoding the manifest's JSON and \<open>strconv.Quote\<close> are arguments; the reverse proxy and the file server of \<open>net/http\<close> are named
  by what they are given.
\<close>

section \<open>The manager\<close>

record viteChunk =
  vc_File :: string
  vc_CSS :: "string list"

type_synonym viteMani = "(string, viteChunk) gomap"

record FrontendManager =
  fm_mode :: string
  fm_devURL :: string
  fm_pubFS :: "fs option"
  fm_manifest :: "viteMani option"

type_synonym frontend_option = "FrontendManager \<Rightarrow> FrontendManager"

definition Frontend_New :: "string \<Rightarrow> frontend_option list \<Rightarrow> FrontendManager" where
  "Frontend_New mode opts =
     fold (\<lambda>f m. f m) opts \<lparr>fm_mode = mode, fm_devURL = ''http://localhost:5173'', fm_pubFS = None, fm_manifest = None\<rparr>"

definition WithDevURL :: "string \<Rightarrow> frontend_option" where
  "WithDevURL u m = m\<lparr>fm_devURL := u\<rparr>"

definition WithFS :: "fs \<Rightarrow> frontend_option" where
  "WithFS fsys m = m\<lparr>fm_pubFS := Some fsys\<rparr>"

datatype frontend_handler = ReverseProxy string | FileServer fs | NotFoundHandler

definition prodHandler :: "FrontendManager \<Rightarrow> frontend_handler" where
  "prodHandler m = (case fm_pubFS m of None \<Rightarrow> NotFoundHandler | Some fsys \<Rightarrow> FileServer fsys)"

definition devProxy :: "FrontendManager \<Rightarrow> frontend_handler" where
  "devProxy m = ReverseProxy (fm_devURL m)"

definition Frontend_Handler :: "FrontendManager \<Rightarrow> frontend_handler" where
  "Frontend_Handler m = (if fm_mode m = ''dev'' then devProxy m else prodHandler m)"

definition scriptTag :: "string \<Rightarrow> string" where
  "scriptTag src = ''<script type='' @ [CHR 0x22] @ ''module'' @ [CHR 0x22] @ '' src='' @ [CHR 0x22] @ src @ [CHR 0x22] @ ''></script>''"

definition styleTag :: "string \<Rightarrow> string" where
  "styleTag css = ''<link rel='' @ [CHR 0x22] @ ''stylesheet'' @ [CHR 0x22] @ '' href='' @ [CHR 0x22] @ ''/'' @ css @ [CHR 0x22] @ ''>''"

definition ViteTag :: "(string \<Rightarrow> string) \<Rightarrow> FrontendManager \<Rightarrow> string \<Rightarrow> string" where
  "ViteTag quote m entry =
     (if fm_mode m = ''dev'' then scriptTag (trimRightSlash (fm_devURL m) @ ''/'' @ entry)
      else (case fm_manifest m of
              None \<Rightarrow> ''<!-- vite manifest not loaded -->''
            | Some mani \<Rightarrow>
                (case map_of mani entry of
                   None \<Rightarrow> ''<!-- vite: entry '' @ quote entry @ '' not found in manifest -->''
                 | Some chunk \<Rightarrow> concat (map styleTag (vc_CSS chunk)) @ scriptTag (''/'' @ vc_File chunk))))"

datatype manifest_error = ManifestRead storage_error | ManifestParse string

definition LoadManifest ::
  "(string \<Rightarrow> string + (string, viteChunk) gomap) \<Rightarrow> string list \<Rightarrow> string \<Rightarrow> fs \<Rightarrow> FrontendManager \<Rightarrow> manifest_error option \<times> FrontendManager" where
  "LoadManifest decode cwd path fs m =
     (case os_ReadFile fs (resolve cwd path) of
        Inl e \<Rightarrow> (Some (ManifestRead e), m)
      | Inr data \<Rightarrow>
          (case decode data of
             Inl e \<Rightarrow> (Some (ManifestParse e), m)
           | Inr raw \<Rightarrow> (None, m\<lparr>fm_manifest := Some (fold (\<lambda>(src, chunk) mani. AList.update src chunk mani) raw [])\<rparr>)))"

section \<open>Types\<close>

text \<open>Field parts have no spaces inside, and \<open>Fields\<close> splits them again at the same places.\<close>

definition spaceFree :: "string \<Rightarrow> bool" where
  "spaceFree t = (\<forall>i < length t. spaceLen (drop i t) = 0)"

lemma spaceLen_zero_iff: "spaceLen s = 0 \<longleftrightarrow> (\<forall>w \<in> set unicodeSpaces. \<not> HasPrefix s w)"
proof -
  have "w \<noteq> []" if "w \<in> set unicodeSpaces" for w using that by (auto simp: unicodeSpaces_def)
  then show ?thesis
    by (auto simp: spaceLen_def find_None_iff split: option.splits dest!: find_Some_iff [THEN iffD1])
qed

lemma spaceLen_prefix: "spaceLen (u @ r) = 0 \<Longrightarrow> spaceLen u = 0"
  by (auto simp: spaceLen_zero_iff HasPrefix_iff)

lemma space_inner: "w \<in> set unicodeSpaces \<Longrightarrow> CHR '' '' \<notin> set (tl w)"
  by (auto simp: unicodeSpaces_def)

lemma spaceLen_before_blank:
  assumes "u \<noteq> []" and "spaceLen u = 0"
  shows "spaceLen (u @ CHR '' '' # r) = 0"
  unfolding spaceLen_zero_iff
proof (intro ballI notI)
  fix w assume w: "w \<in> set unicodeSpaces" and p: "HasPrefix (u @ CHR '' '' # r) w"
  then obtain q where q: "u @ CHR '' '' # r = w @ q" by (auto simp: HasPrefix_iff)
  show False
  proof (cases "length w \<le> length u")
    case True
    then have "HasPrefix u w" using q by (metis HasPrefix_iff append_eq_append_conv_if append_take_drop_id)
    with assms(2) w show False by (auto simp: spaceLen_zero_iff)
  next
    case False
    have "(w @ q) ! length u = CHR '' ''" using q [symmetric] by (simp add: nth_append)
    then have "w ! length u = CHR '' ''" using False by (simp add: nth_append)
    then have "tl w ! (length u - 1) = CHR '' ''" "length u - 1 < length (tl w)" using False assms(1) by (cases u; cases w; simp)+
    with space_inner [OF w] show False by (metis nth_mem)
  qed
qed

lemma Fields_loop_word:
  "spaceFree t \<Longrightarrow> Fields_loop (t @ CHR '' '' # r) cur = Fields_loop (CHR '' '' # r) (rev t @ cur)"
proof (induction t arbitrary: cur)
  case (Cons c t)
  have "spaceLen (c # t) = 0" using Cons.prems unfolding spaceFree_def by (metis drop0 length_greater_0_conv list.distinct(1))
  then have "spaceLen ((c # t) @ CHR '' '' # r) = 0" by (intro spaceLen_before_blank) auto
  moreover have "spaceFree t" using Cons.prems by (auto simp: spaceFree_def)
  ultimately show ?case using Cons.IH [of "c # cur"] by (subst Fields_loop.simps) simp
qed simp

lemma spaceLen_blank: "spaceLen (CHR '' '' # r) = 1"
  by (simp add: spaceLen_def unicodeSpaces_def HasPrefix_def)

lemma spaceLen_x: "spaceLen ''x'' = 0"
  by (simp add: spaceLen_def unicodeSpaces_def HasPrefix_def)

lemma Fields_two: "spaceFree t \<Longrightarrow> Fields (t @ '' x'') = (if t = [] then [''x''] else [t, ''x''])"
  by (simp add: Fields_def Fields_loop_word [of t "''x''", simplified] Fields_loop.simps [of "'' x''"] Fields_loop.simps [of "''x''"]
      Fields_loop.simps [of "[]"] spaceLen_blank spaceLen_x)

lemma Fields_loop_free: "w \<in> set (Fields_loop s cur) \<Longrightarrow>
    (\<forall>i < length cur. spaceLen (drop i (rev cur) @ s) = 0) \<Longrightarrow> spaceFree w"
proof (induction s cur rule: Fields_loop.induct)
  case (1 s cur)
  have flush: "spaceFree (rev cur)" unfolding spaceFree_def
    using 1(4) spaceLen_prefix by auto
  show ?case
  proof (cases "s = []")
    case True
    with 1(3) flush show ?thesis by (auto simp: Fields_loop.simps [of "[]"] split: if_splits)
  next
    case False
    show ?thesis
    proof (cases "spaceLen s = 0")
      case True
      have "\<forall>i < length (hd s # cur). spaceLen (drop i (rev (hd s # cur)) @ tl s) = 0"
        using 1(4) False True by (auto simp: less_Suc_eq)
      moreover have "w \<in> set (Fields_loop (tl s) (hd s # cur))" using 1(3) False True by (simp add: Fields_loop.simps [of s])
      ultimately show ?thesis using 1(1) [OF False True] by blast
    next
      case sp: False
      then have "w = rev cur \<or> w \<in> set (Fields_loop (drop (spaceLen s) s) [])"
        using 1(3) False by (auto simp: Fields_loop.simps [of s] split: if_splits)
      then show ?thesis using flush 1(2) [OF False sp] by auto
    qed
  qed
qed

lemma Fields_free: "w \<in> set (Fields s) \<Longrightarrow> spaceFree w"
  unfolding Fields_def by (rule Fields_loop_free) auto

lemma spaceFree_drop: "spaceFree t \<Longrightarrow> spaceFree (drop n t)"
  by (auto simp: spaceFree_def)


lemma type_part_free: "2 \<le> length (Fields field) \<Longrightarrow> spaceFree (TrimPrefix (TrimPrefix (Fields field ! 1) ''*'') ''[]'')"
  using Fields_free [of "Fields field ! 1" field] by (auto simp: TrimPrefix_def intro!: spaceFree_drop)

definition goScalar :: "string \<Rightarrow> string option" where
  "goScalar goType =
     (if goType = ''string'' then Some ''string''
      else if goType = ''bool'' then Some ''boolean''
      else if goType \<in> set [''int'', ''int8'', ''int16'', ''int32'', ''int64'', ''uint'', ''uint8'', ''uint16'', ''uint32'', ''uint64'', ''float32'', ''float64'']
      then Some ''number''
      else if goType = ''time.Time'' then Some ''string''
      else if goType = ''json.RawMessage'' then Some ''unknown''
      else None)"

function goTypeToTS :: "string \<Rightarrow> string" where
  "goTypeToTS field =
     (let parts = Fields field
      in if length parts < 2 then ''unknown''
         else (let goType = TrimPrefix (parts ! 1) ''*''
               in case goScalar goType of
                    Some t \<Rightarrow> t
                  | None \<Rightarrow>
                      if HasPrefix goType ''[]'' then goTypeToTS (TrimPrefix goType ''[]'' @ '' x'') @ ''[]''
                      else if HasPrefix goType ''map['' then ''Record<string, unknown>''
                      else goType))"
  by pat_completeness auto

termination
proof (relation "measure (\<lambda>s. if 2 \<le> length (Fields s) then length (Fields s ! 1) else 0)", goal_cases)
  case (2 field parts goType)
  let ?t = "TrimPrefix goType ''[]''"
  have "spaceFree ?t" using type_part_free [of field] 2 by simp
  then have f: "Fields (?t @ '' x'') = (if ?t = [] then [''x''] else [?t, ''x''])" by (rule Fields_two)
  have "2 \<le> length (Fields field ! 1)" using 2 by (auto simp: TrimPrefix_def HasPrefix_iff split: if_splits)
  then show ?case using 2 unfolding in_measure f by (auto split: if_splits)
qed simp

declare goTypeToTS.simps [simp del]

record tsField =
  tf_Name :: string
  tf_TSType :: string
  tf_Optional :: bool

record tsStruct =
  tt_Name :: string
  tt_Fields :: "tsField list"

definition field_ts :: "tsField \<Rightarrow> string" where
  "field_ts f = ''  '' @ tf_Name f @ (if tf_Optional f then ''?'' else []) @ '': '' @ tf_TSType f @ '';'' @ [CHR 0x0A]"

definition toTS :: "tsStruct \<Rightarrow> string" where
  "toTS s = ''export interface '' @ tt_Name s @ '' {'' @ [CHR 0x0A] @ concat (map field_ts (tt_Fields s)) @ ''}'' @ [CHR 0x0A]"

definition extractJSONName :: "string \<Rightarrow> string" where
  "extractJSONName field =
     (case Index field (''json:'' @ [CHR 0x22]) of
        None \<Rightarrow> []
      | Some start \<Rightarrow>
          (let rest = drop (start + 6) field
           in case Index rest [CHR 0x22] of None \<Rightarrow> [] | Some e \<Rightarrow> take e rest))"

text \<open>\<open>strings.ReplaceAll\<close> with a pattern of several bytes.\<close>

function replaceAll :: "string \<Rightarrow> string \<Rightarrow> string \<Rightarrow> string" where
  "replaceAll old new s =
     (if s = [] then []
      else if old \<noteq> [] \<and> HasPrefix s old then new @ replaceAll old new (drop (length old) s)
      else hd s # replaceAll old new (tl s))"
  by pat_completeness auto
termination by (relation "measure (\<lambda>(old, new, s). length s)") auto

declare replaceAll.simps [simp del]

definition json_field :: "string \<Rightarrow> tsField option" where
  "json_field trimmed =
     (let jsonTag = extractJSONName trimmed
      in if jsonTag \<noteq> [] \<and> jsonTag \<noteq> ''-''
         then Some \<lparr>tf_Name = replaceAll '',omitempty'' [] jsonTag, tf_TSType = goTypeToTS trimmed, tf_Optional = Contains jsonTag ''omitempty''\<rparr>
         else None)"

fun struct_lines :: "tsStruct option \<Rightarrow> string list \<Rightarrow> tsStruct list" where
  "struct_lines cur [] = []"
| "struct_lines None (line # lines) =
     (let trimmed = TrimSpace line
      in if HasPrefix trimmed ''type '' \<and> Contains trimmed '' struct {''
         then (let parts = Fields trimmed
               in struct_lines (if length parts \<ge> 3 then Some \<lparr>tt_Name = parts ! 1, tt_Fields = []\<rparr> else None) lines)
         else struct_lines None lines)"
| "struct_lines (Some s) (line # lines) =
     (let trimmed = TrimSpace line
      in if trimmed = ''}'' then (if tt_Fields s \<noteq> [] then [s] else []) @ struct_lines None lines
         else (case json_field trimmed of
                 None \<Rightarrow> struct_lines (Some s) lines
               | Some f \<Rightarrow> struct_lines (Some (s\<lparr>tt_Fields := tt_Fields s @ [f]\<rparr>)) lines))"

definition extractStructs :: "string \<Rightarrow> tsStruct list" where
  "extractStructs src = struct_lines None (SplitOn (CHR 0x0A) src)"

definition parseGoStructs :: "string list \<Rightarrow> string \<Rightarrow> fs \<Rightarrow> storage_error + tsStruct list" where
  "parseGoStructs cwd dir fs =
     (case os_ReadDir fs (resolve cwd dir) of
        Inl e \<Rightarrow> Inl e
      | Inr names \<Rightarrow>
          Inr (concat (map (\<lambda>n. case os_ReadFile fs (resolve cwd (filepath_Join [dir, n])) of
                                  Inl _ \<Rightarrow> []
                                | Inr data \<Rightarrow> if HasSuffix n ''.go'' then extractStructs data else []) names)))"

definition generated_header :: string where
  "generated_header = ''// AUTO-GENERATED by oni '' @ [CHR 0xE2, CHR 0x80, CHR 0x94] @ '' do not edit manually'' @ [CHR 0x0A, CHR 0x0A]"

definition GenerateTypes :: "string list \<Rightarrow> string \<Rightarrow> string \<Rightarrow> fs \<Rightarrow> storage_error option \<times> fs" where
  "GenerateTypes cwd srcDir outFile fs =
     (case parseGoStructs cwd srcDir fs of
        Inl e \<Rightarrow> (Some e, fs)
      | Inr structs \<Rightarrow>
          (case os_MkdirAll fs [] (resolve cwd (filepath_Dir outFile)) of
             (Some e, fs1) \<Rightarrow> (Some e, fs1)
           | (None, fs1) \<Rightarrow>
               os_WriteFile fs1 (resolve cwd outFile) (generated_header @ concat (map (\<lambda>s. toTS s @ [CHR 0x0A]) structs))))"

section \<open>Properties\<close>

text \<open>
  Types of the declarations: basic types, pointers to them and named types are translated as intended, maps become records. But every slice
  becomes an array of the type \<open>x\<close>: the recursive call hands the element type over as the name of the field and the letter x as
  its type.
\<close>

theorem slice_types_lost:
  assumes "2 \<le> length (Fields field)" and "TrimPrefix (Fields field ! 1) ''*'' = ''[]'' @ t" and "t \<noteq> []"
  shows "goTypeToTS field = ''x[]''"
proof -
  have "spaceFree t" using type_part_free [OF assms(1)] assms(2) by (metis TrimPrefix_append)
  then have f: "Fields (t @ '' x'') = [t, ''x'']" using assms(3) by (simp add: Fields_two)
  have "goTypeToTS (t @ '' x'') = ''x''"
    by (subst goTypeToTS.simps) (simp only: f Let_def, simp add: TrimPrefix_def HasPrefix_def goScalar_def)
  moreover have "goScalar (''[]'' @ t) = None" by (simp add: goScalar_def)
  ultimately show ?thesis using assms(1,2)
    by (subst goTypeToTS.simps) (simp add: Let_def HasPrefix_def TrimPrefix_append [of "''[]''" t, simplified])
qed

theorem slice_types_lost_witness: "goTypeToTS ''Tags []string'' = ''x[]''"
proof -
  have "Fields ''Tags []string'' = [''Tags'', ''[]string'']" by code_simp
  then show ?thesis by (intro slice_types_lost [where t="''string''"]) (simp_all add: TrimPrefix_def HasPrefix_def)
qed

theorem scalar_types_kept:
  assumes "2 \<le> length (Fields field)" and "goScalar (TrimPrefix (Fields field ! 1) ''*'') = Some t"
  shows "goTypeToTS field = t"
  using assms by (subst goTypeToTS.simps) (simp add: Let_def)

text \<open>Every interface that is written has at least one field, and no field is named by the tag that hides it from JSON.\<close>

definition tagged :: "tsStruct \<Rightarrow> bool" where
  "tagged s = (\<forall>f \<in> set (tt_Fields s). \<exists>l. json_field l = Some f)"

lemma tagged_add: "tagged s \<Longrightarrow> json_field l = Some f \<Longrightarrow> tagged (s\<lparr>tt_Fields := tt_Fields s @ [f]\<rparr>)"
  by (auto simp: tagged_def)

lemma struct_lines_tagged:
  "pred_option tagged cur \<Longrightarrow> list_all (\<lambda>s. tt_Fields s \<noteq> [] \<and> tagged s) (struct_lines cur lines)"
proof (induction lines arbitrary: cur)
  case (Cons line lines)
  show ?case
  proof (cases cur)
    case None
    have "pred_option tagged (if b then Some \<lparr>tt_Name = n, tt_Fields = []\<rparr> else None)" for b n by (simp add: tagged_def)
    with Cons.IH None show ?thesis by (simp add: Let_def)
  next
    case (Some s)
    with Cons.prems have s: "tagged s" by simp
    show ?thesis
    proof (cases "TrimSpace line = ''}''")
      case True
      with Cons.IH [of None] s Some show ?thesis by simp
    next
      case False
      then show ?thesis
        using Cons.IH [of "Some s"] Cons.IH [of "Some (s\<lparr>tt_Fields := tt_Fields s @ [f]\<rparr>)" for f] s tagged_add [OF s] Some
        by (cases "json_field (TrimSpace line)") (simp_all add: Let_def)
    qed
  qed
qed simp

theorem extracted_structs_have_fields:
  assumes "s \<in> set (extractStructs src)"
  shows "tt_Fields s \<noteq> [] \<and> (\<forall>f \<in> set (tt_Fields s). \<exists>line. json_field line = Some f \<and> extractJSONName line \<notin> {[], ''-''})"
proof -
  have s: "tt_Fields s \<noteq> []" "tagged s"
    using struct_lines_tagged [of None "SplitOn (CHR 0x0A) src"] assms by (auto simp: extractStructs_def list_all_iff)
  have "extractJSONName line \<notin> {[], ''-''}" if "json_field line = Some f" for line f
    using that by (auto simp: json_field_def Let_def split: if_splits)
  with s show ?thesis unfolding tagged_def by blast
qed

text \<open>
  A tag without a name, as in \<open>json:",omitempty"\<close>, gives a field with an empty name.
\<close>

theorem omitempty_field_unnamed:
  "map_option tf_Name (json_field (''Age int `json:'' @ [CHR 0x22] @ '',omitempty'' @ [CHR 0x22] @ ''`'')) = Some []"
  by code_simp

text \<open>Generating the declarations writes one file: the text of all structs of the directory, in the order of the file names.\<close>

theorem generate_types_effect:
  assumes "GenerateTypes cwd srcDir outFile fs = (None, fs')"
  shows "\<exists>structs. parseGoStructs cwd srcDir fs = Inr structs
      \<and> os_ReadFile fs' (resolve cwd outFile) = Inr (generated_header @ concat (map (\<lambda>s. toTS s @ [CHR 0x0A]) structs))
      \<and> (\<forall>k b. k \<noteq> resolve cwd outFile \<longrightarrow> (map_of fs' k = Some (File b) \<longleftrightarrow> map_of fs k = Some (File b)))"
proof -
  from assms obtain structs fs1 where s: "parseGoStructs cwd srcDir fs = Inr structs"
    and m: "os_MkdirAll fs [] (resolve cwd (filepath_Dir outFile)) = (None, fs1)"
    and w: "os_WriteFile fs1 (resolve cwd outFile) (generated_header @ concat (map (\<lambda>s. toTS s @ [CHR 0x0A]) structs)) = (None, fs')"
    by (auto simp: GenerateTypes_def split: sum.splits prod.splits option.splits)
  have "map_of fs' k = Some (File b) \<longleftrightarrow> map_of fs k = Some (File b)" if "k \<noteq> resolve cwd outFile" for k b
    using os_WriteFile_reads(2) [OF w that] MkdirAll_keeps_files [of fs k b] MkdirAll_files_old [of fs "[]" _ k b] m by (metis snd_conv)
  with s os_WriteFile_reads(1) [OF w] show ?thesis by blast
qed

end
