(* ===== verification/Mail_Sender.thy ===== *)
theory Mail_Sender
  imports App_Config Go_Filepath Http_Upload Disk_Storage
begin

text \<open>
  Model of \<open>framework/mail/mail.go\<close>: the message builder, the mailer and its two transports. The go-mail library is the record \<open>gomail\<close>:
  what its setters accept, what a client can be made of and what sending does to the outside world; a go-mail message is the data given
  to the setters. The template set is a function. Readers are the bytes they give. Times are formatted by the caller. The order
  of an association list of headers stands for the iteration order of the Go map.
\<close>

section \<open>The library\<close>

record gomail_msg =
  gm_From :: "string \<times> string"
  gm_To :: "string list"
  gm_Cc :: "string list"
  gm_Bcc :: "string list"
  gm_Subject :: string
  gm_Parts :: "(string \<times> string) list" \<comment> \<open>content type and body, alternatives after the first\<close>
  gm_Files :: "(string \<times> string \<times> bool) list" \<comment> \<open>name, content, embedded\<close>
  gm_Headers :: "(string \<times> string) list"

datatype tls_policy = TLSMandatory | NoTLS

datatype gomail_option =
    WithPort i64 | WithSMTPAuthPlain | WithUsername string | WithPassword string | WithTimeout duration | WithSSL | WithTLSPolicy tls_policy

record ('c, 'w) gomail =
  gl_FromFormat :: "string \<Rightarrow> string \<Rightarrow> string option"
  gl_Addresses :: "string list \<Rightarrow> string option" \<comment> \<open>the error of \<open>To\<close>, \<open>Cc\<close> and \<open>Bcc\<close>\<close>
  gl_NewClient :: "string \<Rightarrow> gomail_option list \<Rightarrow> string + 'c"
  gl_DialAndSend :: "'c \<Rightarrow> gomail_msg \<Rightarrow> 'w \<Rightarrow> string option \<times> 'w"

section \<open>Configuration\<close>

record MailConfig =
  mc_Driver :: string
  mc_Host :: string
  mc_Port :: i64
  mc_Username :: string
  mc_Password :: string
  mc_FromName :: string
  mc_FromAddr :: string
  mc_Encryption :: string
  mc_Timeout :: duration

datatype mail_transport = SMTPTransport MailConfig | LogTransport string

type_synonym template_set = "string \<Rightarrow> gval \<Rightarrow> string + string"

record Mailer =
  ml_cfg :: MailConfig
  ml_transport :: mail_transport
  ml_tmpls :: "template_set option"

definition mail_defaults :: "MailConfig \<Rightarrow> MailConfig" where
  "mail_defaults cfg =
     (let cfg1 = (if mc_Encryption cfg = [] then cfg\<lparr>mc_Encryption := ''tls''\<rparr> else cfg);
          cfg2 = (if mc_Timeout cfg1 = 0 then cfg1\<lparr>mc_Timeout := 15 * second\<rparr> else cfg1)
      in if mc_Driver cfg2 = [] then cfg2\<lparr>mc_Driver := ''smtp''\<rparr> else cfg2)"

definition Mailer_New :: "MailConfig \<Rightarrow> Mailer" where
  "Mailer_New cfg0 =
     (let cfg = mail_defaults cfg0
      in \<lparr>ml_cfg = cfg,
          ml_transport = (if map lowerByte (mc_Driver cfg) = ''log'' then LogTransport ''storage/logs/mail.log'' else SMTPTransport cfg),
          ml_tmpls = None\<rparr>)"

definition Mailer_NewFromConfig :: "(gval \<Rightarrow> string) \<Rightarrow> cfg \<Rightarrow> Mailer" where
  "Mailer_NewFromConfig show c =
     Mailer_New
       \<lparr>mc_Driver = Config_String show ''mail.driver'' ''smtp'' c, mc_Host = Config_String show ''mail.host'' ''localhost'' c,
        mc_Port = Config_Int ''mail.port'' 1025 c, mc_Username = Config_String show ''mail.username'' [] c,
        mc_Password = Config_String show ''mail.password'' [] c, mc_FromName = Config_String show ''mail.from_name'' ''App'' c,
        mc_FromAddr = Config_String show ''mail.from'' ''noreply@app.com'' c, mc_Encryption = Config_String show ''mail.encryption'' ''tls'' c,
        mc_Timeout = 0\<rparr>"

definition LoadTemplates :: "(string \<Rightarrow> string + template_set) \<Rightarrow> string \<Rightarrow> Mailer \<Rightarrow> string option \<times> Mailer" where
  "LoadTemplates parse dir m =
     (case parse (filepath_Join [dir, ''*.html'']) of
        Inl e \<Rightarrow> (Some e, m)
      | Inr t \<Rightarrow> (None, m\<lparr>ml_tmpls := Some t\<rparr>))"

section \<open>Messages\<close>

record attachment =
  at_name :: string
  at_data :: string
  at_inline :: bool

record Message =
  ms_mailer :: Mailer
  ms_to :: "string list"
  ms_cc :: "string list"
  ms_bcc :: "string list"
  ms_from :: string
  ms_subject :: string
  ms_html :: string
  ms_text :: string
  ms_headers :: "(string, string) gomap"
  ms_attachments :: "attachment list"

definition NewMessage :: "Mailer \<Rightarrow> Message" where
  "NewMessage m = \<lparr>ms_mailer = m, ms_to = [], ms_cc = [], ms_bcc = [], ms_from = [], ms_subject = [], ms_html = [], ms_text = [], ms_headers = [],
     ms_attachments = []\<rparr>"

definition Message_To :: "string list \<Rightarrow> Message \<Rightarrow> Message" where
  "Message_To addrs m = m\<lparr>ms_to := ms_to m @ addrs\<rparr>"

definition Message_CC :: "string list \<Rightarrow> Message \<Rightarrow> Message" where
  "Message_CC addrs m = m\<lparr>ms_cc := ms_cc m @ addrs\<rparr>"

definition Message_BCC :: "string list \<Rightarrow> Message \<Rightarrow> Message" where
  "Message_BCC addrs m = m\<lparr>ms_bcc := ms_bcc m @ addrs\<rparr>"

definition Message_From :: "string \<Rightarrow> Message \<Rightarrow> Message" where
  "Message_From addr m = m\<lparr>ms_from := addr\<rparr>"

definition Message_Subject :: "string \<Rightarrow> Message \<Rightarrow> Message" where
  "Message_Subject s m = m\<lparr>ms_subject := s\<rparr>"

definition Message_HTML :: "string \<Rightarrow> Message \<Rightarrow> Message" where
  "Message_HTML body m = m\<lparr>ms_html := body\<rparr>"

definition Message_Text :: "string \<Rightarrow> Message \<Rightarrow> Message" where
  "Message_Text body m = m\<lparr>ms_text := body\<rparr>"

definition Message_View :: "string \<Rightarrow> gval \<Rightarrow> Message \<Rightarrow> Message" where
  "Message_View name data m =
     (case ml_tmpls (ms_mailer m) of
        None \<Rightarrow> m\<lparr>ms_html := ''<p>Template engine not loaded. Template: '' @ name @ ''</p>''\<rparr>
      | Some t \<Rightarrow>
          (case t name data of
             Inl err \<Rightarrow> m\<lparr>ms_html := ''<p>Template error: '' @ err @ ''</p>''\<rparr>
           | Inr out \<Rightarrow> m\<lparr>ms_html := out\<rparr>))"

definition Message_Attach :: "string list \<Rightarrow> fs \<Rightarrow> string \<Rightarrow> Message \<Rightarrow> Message" where
  "Message_Attach cwd fs path m =
     (case os_ReadFile fs (resolve cwd path) of
        Inl _ \<Rightarrow> m
      | Inr data \<Rightarrow> m\<lparr>ms_attachments := ms_attachments m @ [\<lparr>at_name = Base path, at_data = data, at_inline = False\<rparr>]\<rparr>)"

definition AttachReader :: "string \<Rightarrow> string \<Rightarrow> Message \<Rightarrow> Message" where
  "AttachReader name data m = m\<lparr>ms_attachments := ms_attachments m @ [\<lparr>at_name = name, at_data = data, at_inline = False\<rparr>]\<rparr>"

definition Message_Header :: "string \<Rightarrow> string \<Rightarrow> Message \<Rightarrow> Message" where
  "Message_Header key val m = m\<lparr>ms_headers := AList.update key val (ms_headers m)\<rparr>"

section \<open>Transports\<close>

datatype mail_error =
    SetFrom string | SetTo string | SetCc string | SetBcc string | CreateClient string | SendFailed string | NoRecipients
  | LogMkdir storage_error | LogOpen storage_error

definition tls_option :: "MailConfig \<Rightarrow> gomail_option" where
  "tls_option cfg =
     (let enc = map lowerByte (mc_Encryption cfg)
      in if enc = ''tls'' then WithSSL else if enc = ''starttls'' then WithTLSPolicy TLSMandatory
         else if enc = ''none'' then WithTLSPolicy NoTLS else WithSSL)"

definition smtp_options :: "MailConfig \<Rightarrow> gomail_option list" where
  "smtp_options cfg =
     [WithPort (mc_Port cfg), WithSMTPAuthPlain, WithUsername (mc_Username cfg), WithPassword (mc_Password cfg), WithTimeout (mc_Timeout cfg),
      tls_option cfg]"

definition dialSMTP :: "('c, 'w) gomail \<Rightarrow> MailConfig \<Rightarrow> mail_error + 'c" where
  "dialSMTP gl cfg = map_sum CreateClient id (gl_NewClient gl (mc_Host cfg) (smtp_options cfg))"

definition body_parts :: "Message \<Rightarrow> (string \<times> string) list" where
  "body_parts m =
     (if ms_html m \<noteq> [] \<and> ms_text m \<noteq> [] then [(''text/plain'', ms_text m), (''text/html'', ms_html m)]
      else if ms_html m \<noteq> [] then [(''text/html'', ms_html m)]
      else if ms_text m \<noteq> [] then [(''text/plain'', ms_text m)]
      else [])"

definition gomail_of :: "MailConfig \<Rightarrow> Message \<Rightarrow> gomail_msg" where
  "gomail_of cfg m =
     \<lparr>gm_From = (mc_FromName cfg, if ms_from m = [] then mc_FromAddr cfg else ms_from m), gm_To = ms_to m, gm_Cc = ms_cc m, gm_Bcc = ms_bcc m,
      gm_Subject = ms_subject m, gm_Parts = body_parts m,
      gm_Files = map (\<lambda>a. (at_name a, at_data a, at_inline a)) (ms_attachments m), gm_Headers = ms_headers m\<rparr>"

definition SMTP_Send :: "('c, 'w) gomail \<Rightarrow> MailConfig \<Rightarrow> Message \<Rightarrow> 'w \<Rightarrow> mail_error option \<times> 'w" where
  "SMTP_Send gl cfg m w =
     (let gm = gomail_of cfg m
      in case gl_FromFormat gl (fst (gm_From gm)) (snd (gm_From gm)) of
           Some e \<Rightarrow> (Some (SetFrom e), w)
         | None \<Rightarrow>
             (case gl_Addresses gl (ms_to m) of
                Some e \<Rightarrow> (Some (SetTo e), w)
              | None \<Rightarrow>
                  (case (if ms_cc m \<noteq> [] then gl_Addresses gl (ms_cc m) else None) of
                     Some e \<Rightarrow> (Some (SetCc e), w)
                   | None \<Rightarrow>
                       (case (if ms_bcc m \<noteq> [] then gl_Addresses gl (ms_bcc m) else None) of
                          Some e \<Rightarrow> (Some (SetBcc e), w)
                        | None \<Rightarrow>
                            (case dialSMTP gl cfg of
                               Inl e \<Rightarrow> (Some e, w)
                             | Inr client \<Rightarrow>
                                 (case gl_DialAndSend gl client gm w of
                                    (Some e, w1) \<Rightarrow> (Some (SendFailed e), w1)
                                  | (None, w1) \<Rightarrow> (None, w1)))))))"

definition log_entry :: "string \<Rightarrow> Message \<Rightarrow> string" where
  "log_entry now m =
     ''-------------------- '' @ now @ '' --------------------'' @ [CHR 0x0A]
     @ ''To:      '' @ Join '', '' (ms_to m) @ [CHR 0x0A] @ ''Subject: '' @ ms_subject m @ [CHR 0x0A]
     @ (if ms_html m \<noteq> [] then ''Body (HTML):'' @ [CHR 0x0A] @ ms_html m @ [CHR 0x0A] else ''Body:'' @ [CHR 0x0A] @ ms_text m @ [CHR 0x0A])
     @ [CHR 0x0A]"

text \<open>Opening a file for appending creates it when it is missing.\<close>

definition os_Append :: "fs \<Rightarrow> string list \<Rightarrow> string \<Rightarrow> storage_error option \<times> fs" where
  "os_Append fs cs data =
     (case os_ReadFile fs cs of
        Inr old \<Rightarrow> (None, AList.update cs (File (old @ data)) fs)
      | Inl NotExist \<Rightarrow> os_WriteFile fs cs data
      | Inl e \<Rightarrow> (Some e, fs))"

definition Log_Send :: "string list \<Rightarrow> string \<Rightarrow> string \<Rightarrow> Message \<Rightarrow> fs \<Rightarrow> mail_error option \<times> fs" where
  "Log_Send cwd now path m fs =
     (case os_MkdirAll fs [] (resolve cwd (filepath_Dir path)) of
        (Some e, fs1) \<Rightarrow> (Some (LogMkdir e), fs1)
      | (None, fs1) \<Rightarrow> (case os_Append fs1 (resolve cwd path) (log_entry now m) of (e, fs2) \<Rightarrow> (map_option LogOpen e, fs2)))"

definition Message_Send ::
  "('c, 'w) gomail \<Rightarrow> string list \<Rightarrow> string \<Rightarrow> Message \<Rightarrow> 'w \<times> fs \<Rightarrow> mail_error option \<times> 'w \<times> fs" where
  "Message_Send gl cwd now m s =
     (case s of (w, fs) \<Rightarrow>
        if ms_to m = [] then (Some NoRecipients, w, fs)
        else (case ml_transport (ms_mailer m) of
                SMTPTransport cfg \<Rightarrow> (case SMTP_Send gl cfg m w of (e, w1) \<Rightarrow> (e, w1, fs))
              | LogTransport path \<Rightarrow> (case Log_Send cwd now path m fs of (e, fs1) \<Rightarrow> (e, w, fs1))))"

definition mail_Send ::
  "('c, 'w) gomail \<Rightarrow> string list \<Rightarrow> string \<Rightarrow> Mailer \<Rightarrow> string \<Rightarrow> string \<Rightarrow> string \<Rightarrow> gval \<Rightarrow> 'w \<times> fs \<Rightarrow> mail_error option \<times> 'w \<times> fs" where
  "mail_Send gl cwd now m to subject tmpl data s =
     Message_Send gl cwd now (Message_View tmpl data (Message_Subject subject (Message_To [to] (NewMessage m)))) s"

section \<open>Properties\<close>

text \<open>
  Credentials do not travel in the clear by accident: the client of a mailer is created with implicit or mandatory TLS
  unless the configuration says \<open>none\<close>, and a configuration that does not mention encryption gives implicit TLS.
\<close>

theorem mail_encrypted:
  assumes "ml_transport (Mailer_New cfg0) = SMTPTransport cfg" and "map lowerByte (mc_Encryption cfg0) \<noteq> ''none''"
  shows "WithTLSPolicy NoTLS \<notin> set (smtp_options cfg) \<and> (WithSSL \<in> set (smtp_options cfg) \<or> WithTLSPolicy TLSMandatory \<in> set (smtp_options cfg))
    \<and> (mc_Encryption cfg0 = [] \<longrightarrow> WithSSL \<in> set (smtp_options cfg))"
proof -
  have cfg: "cfg = mail_defaults cfg0" using assms(1) by (auto simp: Mailer_New_def Let_def split: if_splits)
  have enc: "mc_Encryption cfg = (if mc_Encryption cfg0 = [] then ''tls'' else mc_Encryption cfg0)"
    unfolding cfg mail_defaults_def Let_def by auto
  have low: "map lowerByte ''tls'' = ''tls''" by (simp add: lowerByte_def less_eq_char_def)
  have "tls_option cfg \<noteq> WithTLSPolicy NoTLS \<and> (tls_option cfg = WithSSL \<or> tls_option cfg = WithTLSPolicy TLSMandatory)
      \<and> (mc_Encryption cfg0 = [] \<longrightarrow> tls_option cfg = WithSSL)"
    using assms(2) low by (auto simp: tls_option_def enc Let_def)
  then show ?thesis by (auto simp: smtp_options_def)
qed

theorem mail_encrypted_witness:
  "WithSSL \<in> set (smtp_options (mail_defaults \<lparr>mc_Driver = [], mc_Host = ''mx'', mc_Port = 25, mc_Username = ''u'', mc_Password = ''p'', mc_FromName = [],
     mc_FromAddr = [], mc_Encryption = [], mc_Timeout = 0\<rparr>))"
proof -
  let ?c = "\<lparr>mc_Driver = [], mc_Host = ''mx'', mc_Port = 25, mc_Username = ''u'', mc_Password = ''p'', mc_FromName = [],
     mc_FromAddr = [], mc_Encryption = [], mc_Timeout = 0\<rparr>"
  have "ml_transport (Mailer_New ?c) = SMTPTransport (mail_defaults ?c)"
    by (simp add: Mailer_New_def mail_defaults_def lowerByte_def less_eq_char_def Let_def)
  from mail_encrypted [OF this] show ?thesis by simp
qed

text \<open>
  A message is handed over once and whole: \<open>Send\<close> over SMTP succeeds only if there is a recipient and the library accepts sender and
  addresses, and then the world has changed by exactly one delivery, to the recipients, copies and blind copies of the message, with its bodies,
  attachments and headers. If an address is refused nothing is sent.
\<close>

theorem send_delivers_once:
  assumes "ml_transport (ms_mailer m) = SMTPTransport cfg" and "Message_Send gl cwd now m (w, fs) = (r, w', fs')"
  shows "fs' = fs \<and> (w' \<noteq> w \<longrightarrow> (\<exists>client. gl_NewClient gl (mc_Host cfg) (smtp_options cfg) = Inr client
      \<and> (map_option SendFailed (fst (gl_DialAndSend gl client (gomail_of cfg m) w)), w') = (r, snd (gl_DialAndSend gl client (gomail_of cfg m) w))))
    \<and> (r = None \<longrightarrow> ms_to m \<noteq> [] \<and> gl_Addresses gl (ms_to m) = None \<and> (\<exists>client. gl_DialAndSend gl client (gomail_of cfg m) w = (None, w')))"
  using assms by (auto simp: Message_Send_def SMTP_Send_def dialSMTP_def Let_def map_sum_def split: if_splits prod.splits option.splits sum.splits)

definition counting_gomail :: "(unit, gomail_msg list) gomail" where
  "counting_gomail = \<lparr>gl_FromFormat = (\<lambda>_ _. None), gl_Addresses = (\<lambda>as. if [] \<in> set as then Some ''empty address'' else None),
     gl_NewClient = (\<lambda>_ _. Inr ()), gl_DialAndSend = (\<lambda>_ gm w. (None, w @ [gm]))\<rparr>"

definition demo_mail :: Message where
  "demo_mail = Message_Text ''hi'' (Message_To [''a@b.c''] (NewMessage \<lparr>ml_cfg = mail_defaults \<lparr>mc_Driver = [], mc_Host = [], mc_Port = 25,
     mc_Username = [], mc_Password = [], mc_FromName = ''App'', mc_FromAddr = ''app@b.c'', mc_Encryption = [], mc_Timeout = 0\<rparr>,
     ml_transport = SMTPTransport \<lparr>mc_Driver = [], mc_Host = [], mc_Port = 25, mc_Username = [], mc_Password = [], mc_FromName = ''App'',
       mc_FromAddr = ''app@b.c'', mc_Encryption = ''tls'', mc_Timeout = 0\<rparr>, ml_tmpls = None\<rparr>))"

theorem send_delivers_once_witness:
  "\<exists>gm. Message_Send counting_gomail [] [] demo_mail ([], []) = (None, [gm], []) \<and> gm_To gm = [''a@b.c''] \<and> gm_Parts gm = [(''text/plain'', ''hi'')]"
proof -
  obtain cfg where cfg: "ml_transport (ms_mailer demo_mail) = SMTPTransport cfg"
    by (simp add: demo_mail_def NewMessage_def Message_To_def Message_Text_def)
  obtain r w' fs' where run: "Message_Send counting_gomail [] [] demo_mail ([], []) = (r, w', fs')"
    by (cases "Message_Send counting_gomail [] [] demo_mail ([], [])")
  have r: "r = None" using run cfg
    by (auto simp: Message_Send_def SMTP_Send_def dialSMTP_def counting_gomail_def demo_mail_def NewMessage_def Message_To_def Message_Text_def Let_def)
  with send_delivers_once [OF cfg run] have "w' = [gomail_of cfg demo_mail]" "fs' = []" by (auto simp: counting_gomail_def)
  with run r show ?thesis by (simp add: gomail_of_def demo_mail_def NewMessage_def Message_To_def Message_Text_def body_parts_def)
qed

text \<open>
  A template that fails is not reported: \<open>View\<close> turns the error into the body, and the message goes out with it.
\<close>

theorem template_error_is_sent:
  assumes "ml_tmpls m = Some t" and "t tmpl data = Inl err" and "ml_transport m = SMTPTransport cfg"
    and "gl_FromFormat gl (mc_FromName cfg) (mc_FromAddr cfg) = None" and "gl_Addresses gl [to] = None"
    and "gl_NewClient gl (mc_Host cfg) (smtp_options cfg) = Inr client"
  shows "\<exists>gm. gm_Parts gm = [(''text/html'', ''<p>Template error: '' @ err @ ''</p>'')] \<and>
    mail_Send gl cwd now m to subject tmpl data (w, fs) =
      (map_option SendFailed (fst (gl_DialAndSend gl client gm w)), snd (gl_DialAndSend gl client gm w), fs)"
  by (rule exI [of _ "gomail_of cfg (Message_View tmpl data (Message_Subject subject (Message_To [to] (NewMessage m))))"])
    (use assms in \<open>auto simp: mail_Send_def Message_Send_def SMTP_Send_def dialSMTP_def Message_View_def Message_Subject_def Message_To_def
       NewMessage_def gomail_of_def body_parts_def Let_def split: prod.splits option.splits\<close>)

lemma MkdirAll_keeps: "map_of fs k = Some n \<Longrightarrow> map_of (snd (os_MkdirAll fs pre cs)) k = Some n"
proof (induction fs pre cs rule: os_MkdirAll.induct)
  case (2 fs pre c cs)
  then show ?case by (cases "k = pre @ [c]") (auto split: option.splits node.splits)
qed simp

lemma MkdirAll_keeps_read:
  assumes "os_ReadFile fs cs = Inr b" and "os_MkdirAll fs pre ds = (e, fs1)"
  shows "os_ReadFile fs1 cs = Inr b"
proof -
  have keep: "fs_node fs1 k = Some n" if "fs_node fs k = Some n" for k n
    using that MkdirAll_keeps [of fs k n pre ds] assms(2) by (auto simp: fs_node_def split: if_splits)
  have "walk fs [] cs = None" "fs_node fs cs = Some (File b)"
    using assms(1) by (auto simp: os_ReadFile_def os_Stat_def split: sum.splits node.splits option.splits)
  with keep have "walk fs1 [] cs = None" "fs_node fs1 cs = Some (File b)" by (simp_all add: walk_iff)
  then show ?thesis by (simp add: os_ReadFile_def os_Stat_def)
qed

text \<open>The log transport appends the entry of the message to the file and changes no other file.\<close>

theorem log_transport_appends:
  assumes "Log_Send cwd now path m fs = (None, fs')" and "os_ReadFile fs (resolve cwd path) = Inr old"
  shows "map_of fs' (resolve cwd path) = Some (File (old @ log_entry now m))
    \<and> (k \<noteq> resolve cwd path \<longrightarrow> (map_of fs' k = Some (File b) \<longleftrightarrow> map_of fs k = Some (File b)))"
proof -
  from assms(1) obtain fs1 where m: "os_MkdirAll fs [] (resolve cwd (filepath_Dir path)) = (None, fs1)"
    and a: "os_Append fs1 (resolve cwd path) (log_entry now m) = (None, fs')"
    by (auto simp: Log_Send_def split: prod.splits option.splits)
  have "fs' = AList.update (resolve cwd path) (File (old @ log_entry now m)) fs1"
    using a MkdirAll_keeps_read [OF assms(2) m] by (simp add: os_Append_def)
  then show ?thesis using MkdirAll_keeps_files [of fs k b] MkdirAll_files_old [of fs "[]" _ k b] m by (simp add: update_conv') (metis snd_conv)
qed

end
