(* ===== verification/Web_Observe.thy ===== *)
theory Web_Observe
  imports Http_Router Web_Middleware
begin

text \<open>
  Model of \<open>framework/middleware/logger.go\<close>, \<open>framework/metrics/metrics.go\<close> and \<open>framework/logging/logger.go\<close>: what is logged and
  counted for each request, and the loggers a configuration makes and a context carries. The
  Prometheus library is given by when it panics; the calls made to its collectors are recorded as a list of events. A \<open>net/http\<close> handler
  below the metrics middleware is the list of its calls on the response writer with the way it ends.
\<close>

section \<open>The logger\<close>

datatype log_level = LevelInfo | LevelWarn | LevelError

record log_record =
  lg_level :: log_level
  lg_method :: string
  lg_path :: string
  lg_status :: int
  lg_latency :: duration
  lg_bytes :: nat
  lg_ip :: string

record LogContext = Context +
  cx_log :: "log_record list"

definition status_level :: "int \<Rightarrow> log_level" where
  "status_level status = (if status \<ge> 500 then LevelError else if status \<ge> 400 then LevelWarn else LevelInfo)"

text \<open>The latency the clock shows is an argument; the client address is the one of \<open>Request_IP\<close>. A panic passes by unlogged.\<close>

definition mw_Logger :: "string list \<Rightarrow> 'n netlib \<Rightarrow> 'n proxyConfig option \<Rightarrow> duration \<Rightarrow> LogContext middleware" where
  "mw_Logger skipPaths nl cfg latency nxt c =
     (if rq_Path (cx_req c) \<in> set skipPaths then nxt c
      else (case nxt c of
              (HPanic p, c1) \<Rightarrow> (HPanic p, c1)
            | (res, c1) \<Rightarrow>
                (res, c1\<lparr>cx_log := cx_log c1 @
                   [\<lparr>lg_level = status_level (rp_status (cx_resp c1)), lg_method = rq_Method (cx_req c1), lg_path = rq_Path (cx_req c1),
                     lg_status = rp_status (cx_resp c1), lg_latency = latency, lg_bytes = rp_size (cx_resp c1), lg_ip = Request_IP nl cfg (cx_req c1)\<rparr>]\<rparr>)))"

section \<open>Metrics\<close>

datatype metric_event =
    ActiveInc | ActiveDec
  | ObserveDuration string string string duration
  | RequestCount string string string

definition isDigitByte :: "char \<Rightarrow> bool" where
  "isDigitByte c = between (CHR ''0'') (CHR ''9'') c"

definition isHexish :: "char \<Rightarrow> bool" where
  "isHexish c = (isDigitByte c \<or> between (CHR ''a'') (CHR ''f'') c \<or> between (CHR ''A'') (CHR ''F'') c \<or> c = CHR ''-'')"

text \<open>The counted runes are single bytes, so counting bytes gives the same numbers.\<close>

definition isVariableSegment :: "string \<Rightarrow> bool" where
  "isVariableSegment s =
     (if s = [] then False
      else (let digits = length (filter isDigitByte s); hexish = length (filter isHexish s)
            in digits = length s \<or> (length s \<ge> 16 \<and> hexish = length s)))"

definition normalize_segment :: "string \<Rightarrow> string" where
  "normalize_segment s = (if isVariableSegment s then '':id'' else s)"

definition normalizePath :: "string \<Rightarrow> string" where
  "normalizePath p =
     (let p1 = (if length p > 512 then take 512 p else p)
      in Join ''/'' (map normalize_segment (SplitOn CHR ''/'' p1)))"

record responseRecorder =
  rd_status :: int
  rd_writer :: wire

definition recorder_WriteHeader :: "int \<Rightarrow> responseRecorder \<Rightarrow> responseRecorder" where
  "recorder_WriteHeader code rr = rr\<lparr>rd_status := code, rd_writer := wire_WriteHeader (rd_writer rr) code\<rparr>"

fun recorder_act :: "responseRecorder \<Rightarrow> resp_act \<Rightarrow> responseRecorder" where
  "recorder_act rr (ASet k v) = rr\<lparr>rd_writer := (rd_writer rr)\<lparr>w_header := Header_Set (w_header (rd_writer rr)) k v\<rparr>\<rparr>"
| "recorder_act rr (AStatus n) = recorder_WriteHeader n rr"
| "recorder_act rr (ABody b) = rr\<lparr>rd_writer := wire_Write (rd_writer rr) b\<rparr>"

type_synonym plain_handler = "Request \<Rightarrow> resp_act list \<times> bool" \<comment> \<open>the calls, and whether it panics after them\<close>

definition metrics_Middleware :: "plain_handler \<Rightarrow> duration \<Rightarrow> Request \<Rightarrow> wire \<Rightarrow> wire \<times> bool \<times> metric_event list" where
  "metrics_Middleware nxt dur req w =
     (case nxt req of (acts, panics) \<Rightarrow>
        (let rr = foldl recorder_act \<lparr>rd_status = 200, rd_writer = w\<rparr> acts
         in if panics then (rd_writer rr, True, [ActiveInc, ActiveDec])
            else (let status = itoa (rd_status rr); path = normalizePath (rq_Path req)
                  in (rd_writer rr, False,
                      [ActiveInc, ObserveDuration (rq_Method req) path status dur, RequestCount (rq_Method req) path status, ActiveDec]))))"

text \<open>
  The registry: each metric with its options and label names. As its documentation says, the Prometheus library joins the parts of a
  name that are not empty by underscores, and refuses, with a panic, a second collector of the same full name and a
  number of label values other than the number of label names.
\<close>

datatype metric_kind = HistogramVec | CounterVec | PlainGauge

record metric_desc =
  md_kind :: metric_kind
  md_Namespace :: string
  md_Subsystem :: string
  md_Name :: string
  md_labels :: "string list"

record metrics_Registry =
  RequestDuration :: metric_desc
  RequestsTotal :: metric_desc
  ActiveRequests :: metric_desc
  JobsProcessed :: metric_desc
  JobsFailed :: metric_desc
  WebSocketConns :: metric_desc
  registered :: "metric_desc list"

definition fqName :: "metric_desc \<Rightarrow> string" where
  "fqName d = (if md_Name d = [] then [] else Join ''_'' (filter (\<lambda>p. p \<noteq> []) [md_Namespace d, md_Subsystem d, md_Name d]))"

definition MustRegister :: "metric_desc list \<Rightarrow> metrics_Registry \<Rightarrow> metrics_Registry option" where
  "MustRegister ds r =
     (if distinct (map fqName (registered r @ ds)) then Some (r\<lparr>registered := registered r @ ds\<rparr>) else None)"

definition metrics_New :: "metrics_Registry option" where
  "metrics_New =
     (let http = (\<lambda>k n ls. \<lparr>md_kind = k, md_Namespace = ''oni'', md_Subsystem = ''http'', md_Name = n, md_labels = ls\<rparr>);
          jobs = (\<lambda>n. \<lparr>md_kind = CounterVec, md_Namespace = ''oni'', md_Subsystem = ''queue'', md_Name = n, md_labels = [''queue'', ''class'']\<rparr>);
          r = \<lparr>RequestDuration = http HistogramVec ''request_duration_seconds'' [''method'', ''path'', ''status''],
               RequestsTotal = http CounterVec ''requests_total'' [''method'', ''path'', ''status''],
               ActiveRequests = http PlainGauge ''active_requests'' [],
               JobsProcessed = jobs ''jobs_processed_total'', JobsFailed = jobs ''jobs_failed_total'',
               WebSocketConns = \<lparr>md_kind = PlainGauge, md_Namespace = ''oni'', md_Subsystem = ''realtime'',
                                 md_Name = ''websocket_connections'', md_labels = []\<rparr>,
               registered = []\<rparr>
      in MustRegister [RequestDuration r, RequestsTotal r, ActiveRequests r, JobsProcessed r, JobsFailed r, WebSocketConns r] r)"

text \<open>The collector an event goes to and the label values it is given.\<close>

fun event_labels :: "metrics_Registry \<Rightarrow> metric_event \<Rightarrow> metric_desc \<times> string list" where
  "event_labels r (ObserveDuration m p s _) = (RequestDuration r, [m, p, s])"
| "event_labels r (RequestCount m p s) = (RequestsTotal r, [m, p, s])"
| "event_labels r _ = (ActiveRequests r, [])"

definition event_ok :: "metrics_Registry \<Rightarrow> metric_event \<Rightarrow> bool" where
  "event_ok r e = (case event_labels r e of (d, vs) \<Rightarrow> d \<in> set (registered r) \<and> length vs = length (md_labels d))"

text \<open>The scrape endpoint: \<open>None\<close> is no authorizer.\<close>

definition metrics_Handler :: "(Request \<Rightarrow> bool) option \<Rightarrow> (Request \<Rightarrow> 'r) \<Rightarrow> Request \<Rightarrow> (int \<times> string) + 'r" where
  "metrics_Handler authorize prom req =
     (case authorize of
        None \<Rightarrow> Inl (403, ''forbidden'')
      | Some f \<Rightarrow> if \<not> f req then Inl (403, ''forbidden'') else Inr (prom req))"

section \<open>Loggers\<close>

record LogConfig =
  lc_Level :: string
  lc_Format :: string
  lc_Output :: "string option" \<comment> \<open>a writer, by name; \<^const>\<open>None\<close> is nil\<close>
  lc_AddSource :: bool

record slog_Logger =
  sl_level :: int
  sl_text :: bool
  sl_output :: string
  sl_addSource :: bool
  sl_attrs :: "(string \<times> string) list"

definition parseLevel :: "string \<Rightarrow> int" where
  "parseLevel s =
     (let l = map lowerByte (TrimSpace s)
      in if l = ''debug'' then - 4 else if l = ''warn'' \<or> l = ''warning'' then 4 else if l = ''error'' then 8 else 0)"

text \<open>\<open>New\<close>; the second component is the global logger it sets.\<close>

definition logging_New :: "LogConfig \<Rightarrow> slog_Logger \<times> slog_Logger" where
  "logging_New cfg =
     (let l = \<lparr>sl_level = parseLevel (lc_Level cfg), sl_text = (map lowerByte (lc_Format cfg) = ''text''),
               sl_output = (case lc_Output cfg of None \<Rightarrow> ''stderr'' | Some w \<Rightarrow> w), sl_addSource = lc_AddSource cfg, sl_attrs = []\<rparr>
      in (l, l))"

datatype ctx_key = RequestIDKey | LoggerKey | OtherKey string
datatype ctx_val = CtxString string | CtxLogger slog_Logger | CtxOther

type_synonym go_ctx = "(ctx_key \<times> ctx_val) list" \<comment> \<open>innermost value first\<close>

definition WithRequestID :: "go_ctx \<Rightarrow> slog_Logger \<Rightarrow> string \<Rightarrow> go_ctx \<times> slog_Logger" where
  "WithRequestID ctx lg0 rid =
     (let enriched = lg0\<lparr>sl_attrs := sl_attrs lg0 @ [(''request_id'', rid)]\<rparr>
      in ((LoggerKey, CtxLogger enriched) # (RequestIDKey, CtxString rid) # ctx, enriched))"

definition FromContext :: "slog_Logger \<Rightarrow> go_ctx \<Rightarrow> slog_Logger" where
  "FromContext global ctx = (case map_of ctx LoggerKey of Some (CtxLogger l) \<Rightarrow> l | _ \<Rightarrow> global)"

definition RequestID :: "go_ctx \<Rightarrow> string" where
  "RequestID ctx = (case map_of ctx RequestIDKey of Some (CtxString i) \<Rightarrow> i | _ \<Rightarrow> [])"

section \<open>Lemmas\<close>

lemma length_filter_all: "length (filter P xs) = length xs \<longleftrightarrow> list_all P xs"
proof (induction xs)
  case (Cons x xs)
  have "length (filter P xs) \<noteq> Suc (length xs)" using length_filter_le [of P xs] by linarith
  then show ?case using Cons by auto
qed simp

lemma isVariableSegment_iff:
  "isVariableSegment s \<longleftrightarrow> s \<noteq> [] \<and> (list_all isDigitByte s \<or> 16 \<le> length s \<and> list_all isHexish s)"
  by (simp add: isVariableSegment_def Let_def length_filter_all)

lemma normalize_segment_no_slash: "CHR ''/'' \<notin> set s \<Longrightarrow> CHR ''/'' \<notin> set (normalize_segment s)"
  by (simp add: normalize_segment_def)

lemma normalizePath_segments:
  "SplitOn CHR ''/'' (normalizePath p) = map normalize_segment (SplitOn CHR ''/'' (take 512 p))"
proof -
  have t: "(if length p > 512 then take 512 p else p) = take 512 p" by simp
  have "\<forall>w \<in> set (map normalize_segment (SplitOn CHR ''/'' (take 512 p))). CHR ''/'' \<notin> set w"
    using SplitOn_parts_no_sep normalize_segment_no_slash by fastforce
  then show ?thesis by (simp only: normalizePath_def Let_def t SplitOn_Join map_is_Nil_conv SplitOn_ne not_False_eq_True)
qed

text \<open>The recorder passes every call on.\<close>

fun wire_act :: "wire \<Rightarrow> resp_act \<Rightarrow> wire" where
  "wire_act w (ASet k v) = w\<lparr>w_header := Header_Set (w_header w) k v\<rparr>"
| "wire_act w (AStatus n) = wire_WriteHeader w n"
| "wire_act w (ABody b) = wire_Write w b"

lemma recorder_passes_on: "rd_writer (foldl recorder_act rr acts) = foldl wire_act (rd_writer rr) acts"
proof (induction acts arbitrary: rr)
  case (Cons a acts)
  then show ?case by (cases a) (simp_all add: recorder_WriteHeader_def)
qed simp

text \<open>A well-behaved handler sets the status at most once, before the body.\<close>

fun sets_status :: "resp_act \<Rightarrow> bool" where
  "sets_status (AStatus _) = True"
| "sets_status _ = False"

fun one_status :: "resp_act list \<Rightarrow> bool" where
  "one_status [] = True"
| "one_status (ASet k v # acts) = one_status acts"
| "one_status (a # acts) = list_all (\<lambda>b. \<not> sets_status b) acts"

lemma recorder_quiet:
  "list_all (\<lambda>b. \<not> sets_status b) acts \<Longrightarrow> rd_status (foldl recorder_act rr acts) = rd_status rr"
proof (induction acts arbitrary: rr)
  case (Cons a acts)
  then show ?case by (cases a) simp_all
qed simp

lemma wire_sent_stays:
  "w_sent w = Some x \<Longrightarrow> w_sent (foldl wire_act w acts) = Some x"
proof (induction acts arbitrary: w)
  case (Cons a acts)
  then show ?case by (cases a) (simp_all add: wire_WriteHeader_def wire_Write_def)
qed simp

lemma recorder_status_sent:
  "one_status acts \<Longrightarrow> w_sent (rd_writer rr) = None \<Longrightarrow> \<not> w_discard (rd_writer rr) \<Longrightarrow> rd_status rr = 200 \<Longrightarrow>
   w_sent (foldl wire_act (rd_writer rr) acts) = Some (code, hs) \<Longrightarrow> rd_status (foldl recorder_act rr acts) = code"
proof (induction acts arbitrary: rr)
  case (Cons a acts)
  show ?case
  proof (cases a)
    case (ASet k v)
    then show ?thesis using Cons.prems Cons.IH [of "recorder_act rr a"] by simp
  next
    case (AStatus n)
    then show ?thesis using Cons.prems wire_sent_stays [of "wire_WriteHeader (rd_writer rr) n" "(n, w_header (rd_writer rr))" acts]
      by (simp add: recorder_quiet recorder_WriteHeader_def wire_WriteHeader_def)
  next
    case (ABody b)
    then show ?thesis using Cons.prems wire_sent_stays [of "wire_Write (rd_writer rr) b" "(200, w_header (rd_writer rr))" acts]
      by (simp add: recorder_quiet wire_Write_def wire_WriteHeader_def)
  qed
qed simp

section \<open>Properties\<close>

text \<open>Two paths whose segments differ only in identifiers are counted under one label.\<close>

theorem ids_share_label:
  assumes "list_all2 (\<lambda>a b. a = b \<or> isVariableSegment a \<and> isVariableSegment b)
             (SplitOn CHR ''/'' (take 512 p)) (SplitOn CHR ''/'' (take 512 q))"
  shows "normalizePath p = normalizePath q"
proof -
  have m: "list_all2 (\<lambda>a b. a = b \<or> isVariableSegment a \<and> isVariableSegment b) xs ys \<Longrightarrow>
      map normalize_segment xs = map normalize_segment ys" for xs ys
    by (induction rule: list_all2_induct) (auto simp: normalize_segment_def)
  then have "SplitOn CHR ''/'' (normalizePath p) = SplitOn CHR ''/'' (normalizePath q)"
    using m [OF assms] by (simp add: normalizePath_segments)
  then show ?thesis by (metis Join_SplitOn)
qed

theorem ids_share_label_witness: "normalizePath ''/users/17/posts'' = normalizePath ''/users/254/posts''"
proof (rule ids_share_label)
  show "list_all2 (\<lambda>a b. a = b \<or> isVariableSegment a \<and> isVariableSegment b)
          (SplitOn CHR ''/'' (take 512 ''/users/17/posts'')) (SplitOn CHR ''/'' (take 512 ''/users/254/posts''))"
    by (simp add: isVariableSegment_def isDigitByte_def between_def)
qed

text \<open>The metrics middleware passes the response of the handler on unchanged, and counts the request under the status that went out.\<close>

theorem metrics_true:
  assumes "nxt req = (acts, False)" "one_status acts" "w_sent (foldl wire_act new_wire acts) = Some (code, hs)"
  shows "metrics_Middleware nxt dur req new_wire =
    (foldl wire_act new_wire acts, False,
     [ActiveInc, ObserveDuration (rq_Method req) (normalizePath (rq_Path req)) (itoa code) dur,
      RequestCount (rq_Method req) (normalizePath (rq_Path req)) (itoa code), ActiveDec])"
  using assms recorder_status_sent [of acts "\<lparr>rd_status = 200, rd_writer = new_wire\<rparr>" code hs]
  by (simp add: metrics_Middleware_def Let_def recorder_passes_on new_wire_def)

text \<open>
  The gauge of active requests after any sequence of requests, panicking ones included, is where it was: every handler that came
  in is counted out.
\<close>

fun gauge :: "metric_event \<Rightarrow> int" where
  "gauge ActiveInc = 1"
| "gauge ActiveDec = - 1"
| "gauge _ = 0"

definition run_requests :: "(plain_handler \<times> duration \<times> Request \<times> wire) list \<Rightarrow> metric_event list" where
  "run_requests rs = concat (map (\<lambda>(h, d, q, w). snd (snd (metrics_Middleware h d q w))) rs)"

theorem gauge_balanced: "sum_list (map gauge (run_requests rs)) = 0"
proof (induction rs)
  case (Cons r rs)
  obtain h d q w where r: "r = (h, d, q, w)" using prod_cases4 by blast
  obtain acts panics where "h q = (acts, panics)" by (cases "h q") auto
  then show ?case using Cons by (cases panics) (simp_all add: run_requests_def r metrics_Middleware_def Let_def)
qed (simp add: run_requests_def)

lemma MustRegister_keeps: "MustRegister ds r = Some r' \<Longrightarrow> event_ok r e \<Longrightarrow> event_ok r' e"
  by (cases e) (auto simp: MustRegister_def event_ok_def split: if_splits)

lemma metrics_New_ok: "metrics_New = Some r \<Longrightarrow> event_ok r e"
  by (cases e) (auto simp: metrics_New_def MustRegister_def Let_def event_ok_def simp del: distinct.simps split: if_splits)

text \<open>
  The registry can be built, and the middleware keeps to it: every event goes to a registered collector with one value per label, also
  after further collectors were registered, so neither the registration nor the middleware makes the Prometheus library panic.
\<close>

theorem metrics_never_panic:
  "\<exists>r. metrics_New = Some r \<and> (\<forall>ds r'. MustRegister ds r = Some r' \<longrightarrow> list_all (event_ok r') (run_requests rs))"
proof -
  obtain r where "metrics_New = Some r" by (simp add: metrics_New_def MustRegister_def fqName_def)
  then show ?thesis by (intro exI [of _ r]) (auto simp: list_all_iff intro: MustRegister_keeps metrics_New_ok)
qed

text \<open>
  The scrape endpoint is closed unless an authorizer lets the request in.
\<close>

theorem metrics_fails_closed:
  "metrics_Handler authorize prom req = Inr page \<longleftrightarrow> (\<exists>f. authorize = Some f \<and> f req) \<and> page = prom req"
  by (auto simp: metrics_Handler_def split: option.splits)

text \<open>
  What the comment of \<open>normalizePath\<close> says it prevents is possible: every path of letters outside the hexadecimal range is its own
  label, so requests for made-up paths grow the number of labels without bound.
\<close>

theorem made_up_paths_are_labels:
  assumes "length p \<le> 512" "list_all (\<lambda>c. c = CHR ''/'' \<or> \<not> isHexish c) p"
  shows "normalizePath p = p"
proof -
  have sub: "w \<in> set (SplitOn CHR ''/'' p) \<Longrightarrow> set w \<subseteq> set p" for w
  proof (induction p arbitrary: w)
    case (Cons a p)
    then show ?case by (cases "SplitOn CHR ''/'' p") (fastforce split: if_splits)+
  qed simp
  have "normalize_segment w = w" if w: "w \<in> set (SplitOn CHR ''/'' p)" for w
  proof (cases w)
    case (Cons c cs)
    then have "\<not> isHexish c" 
      using sub [OF w] SplitOn_parts_no_sep [OF w] assms(2) unfolding list_all_iff by (metis list.set_intros(1) subset_iff)
    moreover from this have "\<not> isDigitByte c" unfolding isHexish_def by blast
    ultimately show ?thesis using Cons by (simp add: normalize_segment_def isVariableSegment_iff)
  qed (simp add: normalize_segment_def isVariableSegment_def)
  then have "map normalize_segment (SplitOn CHR ''/'' p) = SplitOn CHR ''/'' p" by (simp add: map_idI)
  then have "SplitOn CHR ''/'' (normalizePath p) = SplitOn CHR ''/'' p" using assms(1) by (simp add: normalizePath_segments)
  then show ?thesis by (metis Join_SplitOn)
qed

theorem made_up_paths_are_labels_witness: "normalizePath ''/xyz'' = ''/xyz''"
  by (rule made_up_paths_are_labels) (simp_all add: isHexish_def isDigitByte_def between_def)

text \<open>
  The logger leaves the handler's result and response alone and writes one line for a request it does not skip; the line has the
  status of that moment. A handler that returns an error answers nothing, so the line says 200 and the error handler answers 500
  afterwards.
\<close>

theorem logger_one_line:
  assumes "nxt c = (res, c1)" "\<forall>p. res \<noteq> HPanic p" "rq_Path (cx_req c) \<notin> set skipPaths"
  shows "\<exists>l. mw_Logger skipPaths nl cfg latency nxt c = (res, c1\<lparr>cx_log := cx_log c1 @ [l]\<rparr>) \<and>
             lg_status l = rp_status (cx_resp c1) \<and> lg_level l = status_level (rp_status (cx_resp c1)) \<and> lg_bytes l = rp_size (cx_resp c1)"
  using assms
  by (intro exI [of _ "\<lparr>lg_level = status_level (rp_status (cx_resp c1)), lg_method = rq_Method (cx_req c1), lg_path = rq_Path (cx_req c1),
      lg_status = rp_status (cx_resp c1), lg_latency = latency, lg_bytes = rp_size (cx_resp c1), lg_ip = Request_IP nl cfg (cx_req c1)\<rparr>"])
    (cases res; simp add: mw_Logger_def)

theorem errors_logged_as_200:
  assumes "nxt c = (HErr (OtherError e), c)" "\<not> rp_committed (cx_resp c)" "rp_status (cx_resp c) = 200" "rq_Path (cx_req c) \<notin> set skipPaths"
  shows "\<exists>l c1. mw_Logger skipPaths nl cfg latency nxt c = (HErr (OtherError e), c1) \<and> cx_log c1 = cx_log c @ [l] \<and>
             lg_status l = 200 \<and> lg_level l = LevelInfo \<and> rp_status (cx_resp (defaultErrorHandler (OtherError e) c1)) = 500"
  using assms
  by (simp add: mw_Logger_def status_level_def defaultErrorHandler_def Context_JSON_def httpsimps setHeader_def on_resp_def)

text \<open>A context made for a request gives its logger and its ID back, also from below further values, and other loggers are untouched.\<close>

theorem request_id_roundtrip:
  assumes "WithRequestID ctx lg0 rid = (ctx', l)"
  shows "FromContext g ((OtherKey k, v) # ctx') = l \<and> RequestID ((OtherKey k, v) # ctx') = rid \<and> sl_level l = sl_level lg0 \<and>
    sl_attrs l = sl_attrs lg0 @ [(''request_id'', rid)]"
  using assms by (auto simp: WithRequestID_def FromContext_def RequestID_def Let_def)

text \<open>Without a format the output is JSON, in development too.\<close>

theorem default_format_is_json: "lc_Format cfg = [] \<Longrightarrow> \<not> sl_text (fst (logging_New cfg))"
  by (simp add: logging_New_def Let_def)

end
