(* ===== verification/App_Server.thy ===== *)
theory App_Server
  imports App_Container App_Config Http_Router Error_Pages
begin

text \<open>
  Model of \<open>framework/http/kernel.go\<close> and of the rest of \<open>framework/app/application.go\<close>: the server's configuration, its run from
  start to graceful shutdown, and how an application loads its configuration, boots and serves. The run is an automaton on the
  events the kernel waits for; \<open>http.Server\<close> behaves as package \<open>net/http\<close> documents it: \<open>Shutdown\<close> closes the listeners at
  once, makes \<open>ListenAndServe\<close> return \<open>ErrServerClosed\<close> at once, and returns when no request is left or its deadline has
  passed. Log lines are left out, except the errors an application only logs.
\<close>

section \<open>Server configuration\<close>

record ServerConfig =
  sc_Host :: string
  sc_Port :: i64
  sc_TLSCertFile :: string
  sc_TLSKeyFile :: string
  sc_ReadTimeout :: duration
  sc_WriteTimeout :: duration
  sc_IdleTimeout :: duration
  sc_ShutdownTimeout :: duration

definition DefaultServerConfig :: ServerConfig where
  "DefaultServerConfig =
     \<lparr>sc_Host = [], sc_Port = 8080, sc_TLSCertFile = [], sc_TLSKeyFile = [], sc_ReadTimeout = 30 * second, sc_WriteTimeout = 30 * second,
      sc_IdleTimeout = 120 * second, sc_ShutdownTimeout = 30 * second\<rparr>"

text \<open>The fields of \<open>http.Server\<close> the kernel sets; a timeout of zero is none.\<close>

record http_Server =
  hs_Addr :: string
  hs_ReadTimeout :: duration
  hs_WriteTimeout :: duration
  hs_IdleTimeout :: duration
  hs_MinVersion :: "nat option" \<comment> \<open>of the TLS configuration, if there is one\<close>

record Kernel =
  kn_cfg :: ServerConfig
  kn_server :: http_Server

definition VersionTLS13 :: nat where
  "VersionTLS13 = 0x0304"

definition listen_addr :: "string \<Rightarrow> i64 \<Rightarrow> string" where
  "listen_addr host port = host @ '':'' @ itoa (sint port)"

definition uses_tls :: "ServerConfig \<Rightarrow> bool" where
  "uses_tls cfg = (sc_TLSCertFile cfg \<noteq> [] \<and> sc_TLSKeyFile cfg \<noteq> [])"

definition NewKernel :: "ServerConfig \<Rightarrow> Kernel" where
  "NewKernel cfg0 =
     (let cfg = (if sc_Port cfg0 = 0 then cfg0\<lparr>sc_Port := 8080\<rparr> else cfg0)
      in \<lparr>kn_cfg = cfg,
          kn_server = \<lparr>hs_Addr = listen_addr (sc_Host cfg) (sc_Port cfg), hs_ReadTimeout = sc_ReadTimeout cfg,
                       hs_WriteTimeout = sc_WriteTimeout cfg, hs_IdleTimeout = sc_IdleTimeout cfg,
                       hs_MinVersion = (if uses_tls cfg then Some VersionTLS13 else None)\<rparr>\<rparr>)"

definition Kernel_Addr :: "Kernel \<Rightarrow> string" where
  "Kernel_Addr k = hs_Addr (kn_server k)"

text \<open>\<open>listen\<close> is \<open>net.Listen\<close>: the address it bound, or an error.\<close>

definition ListenAndServeBackground :: "(string \<Rightarrow> string + string) \<Rightarrow> Kernel \<Rightarrow> (string + string) \<times> Kernel" where
  "ListenAndServeBackground listen k =
     (case listen (hs_Addr (kn_server k)) of
        Inl e \<Rightarrow> (Inl (''kernel: listen: '' @ e), k)
      | Inr addr \<Rightarrow> (Inr addr, k\<lparr>kn_server := (kn_server k)\<lparr>hs_Addr := addr\<rparr>\<rparr>))"

section \<open>The run of a server\<close>

datatype serve_result = ServeNil | ServeFailed string | ShutdownFailed

text \<open>\<open>Draining t\<close>: the kernel waits in \<open>Shutdown\<close> and has \<open>t\<close> left.\<close>

datatype kernel_phase = Serving | Draining duration | Returned serve_result

record server_run =
  sv_phase :: kernel_phase
  sv_listening :: bool
  sv_started :: nat \<comment> \<open>requests accepted\<close>
  sv_finished :: nat \<comment> \<open>requests answered\<close>

datatype kernel_event =
    ListenError string \<comment> \<open>\<open>ListenAndServe\<close> or \<open>ListenAndServeTLS\<close> returns an error\<close>
  | Accepted
  | Answered
  | Signal \<comment> \<open>SIGINT or SIGTERM\<close>
  | Elapsed duration \<comment> \<open>time passes\<close>
  | Drained \<comment> \<open>\<open>http.Server.Shutdown\<close> finds no request left\<close>
  | DeadlineOver \<comment> \<open>its context expires\<close>
  | OtherShutdown \<comment> \<open>\<open>Kernel.Shutdown\<close> is called from another goroutine\<close>

definition shutdown_timeout :: "ServerConfig \<Rightarrow> duration" where
  "shutdown_timeout cfg = (if sc_ShutdownTimeout cfg = 0 then 30 * second else sc_ShutdownTimeout cfg)"

definition start_run :: server_run where
  "start_run = \<lparr>sv_phase = Serving, sv_listening = True, sv_started = 0, sv_finished = 0\<rparr>"

text \<open>\<^const>\<open>None\<close> means the event cannot happen.\<close>

fun kernel_step :: "Kernel \<Rightarrow> kernel_event \<Rightarrow> server_run \<Rightarrow> server_run option" where
  "kernel_step k (ListenError e) s = (if sv_phase s = Serving then Some (s\<lparr>sv_phase := Returned (ServeFailed e), sv_listening := False\<rparr>) else None)"
| "kernel_step k Accepted s = (if sv_listening s then Some (s\<lparr>sv_started := sv_started s + 1\<rparr>) else None)"
| "kernel_step k Answered s = (if sv_finished s < sv_started s then Some (s\<lparr>sv_finished := sv_finished s + 1\<rparr>) else None)"
| "kernel_step k Signal s =
     (if sv_phase s = Serving then Some (s\<lparr>sv_phase := Draining (shutdown_timeout (kn_cfg k)), sv_listening := False\<rparr>) else None)"
| "kernel_step k (Elapsed d) s =
     (case sv_phase s of Draining t \<Rightarrow> if 0 \<le> d \<and> d \<le> t then Some (s\<lparr>sv_phase := Draining (t - d)\<rparr>) else None | _ \<Rightarrow> Some s)"
| "kernel_step k Drained s =
     (case sv_phase s of Draining t \<Rightarrow> if sv_started s = sv_finished s then Some (s\<lparr>sv_phase := Returned ServeNil\<rparr>) else None | _ \<Rightarrow> None)"
| "kernel_step k DeadlineOver s =
     (case sv_phase s of Draining t \<Rightarrow> if t \<le> 0 then Some (s\<lparr>sv_phase := Returned ShutdownFailed\<rparr>) else None | _ \<Rightarrow> None)"
| "kernel_step k OtherShutdown s = (if sv_phase s = Serving then Some (s\<lparr>sv_phase := Returned ServeNil, sv_listening := False\<rparr>) else None)"

fun kernel_run :: "Kernel \<Rightarrow> kernel_event list \<Rightarrow> server_run \<Rightarrow> server_run option" where
  "kernel_run k [] s = Some s"
| "kernel_run k (e # es) s = (case kernel_step k e s of None \<Rightarrow> None | Some s1 \<Rightarrow> kernel_run k es s1)"

section \<open>The application\<close>

record AppCore =
  co_Config :: cfg
  co_Router :: Router
  co_env :: environ
  co_logged :: "(string \<times> config_error) list" \<comment> \<open>the files that could not be loaded\<close>

text \<open>The files an application can open are arguments, as in the configuration package.\<close>

record app_files =
  af_lines :: "string \<Rightarrow> bool + string list \<times> string option"
  af_parsers :: parsers

definition App_New :: "environ \<Rightarrow> AppCore Application" where
  "App_New env =
     \<lparr>ap_app = \<lparr>co_Config = [], co_Router = Router_New, co_env = env, co_logged = []\<rparr>, ap_providers = [], ap_booted = False\<rparr>"

definition log_failure :: "string \<Rightarrow> config_error option \<Rightarrow> AppCore \<Rightarrow> AppCore" where
  "log_failure path err a = (case err of None \<Rightarrow> a | Some e \<Rightarrow> a\<lparr>co_logged := co_logged a @ [(path, e)]\<rparr>)"

definition load_one :: "app_files \<Rightarrow> string \<Rightarrow> AppCore \<Rightarrow> AppCore" where
  "load_one fs f a =
     (if fileExt f = ''.env'' \<or> fileExt f = []
      then (case LoadEnv (af_lines fs) f (co_env a) of (err, env) \<Rightarrow> log_failure f err (a\<lparr>co_env := env\<rparr>))
      else (case config_Load (af_parsers fs) f (co_Config a) of (err, c) \<Rightarrow> log_failure f err (a\<lparr>co_Config := c\<rparr>)))"

definition App_Load :: "app_files \<Rightarrow> string list \<Rightarrow> AppCore Application \<Rightarrow> AppCore Application" where
  "App_Load fs files a = a\<lparr>ap_app := fold (load_one fs) files (ap_app a)\<rparr>"

definition App_LoadDir :: "app_files \<Rightarrow> string \<Rightarrow> AppCore Application \<Rightarrow> AppCore Application" where
  "App_LoadDir fs dir a =
     (case config_LoadDir (af_parsers fs) dir (co_Config (ap_app a)) of
        (err, c) \<Rightarrow> a\<lparr>ap_app := log_failure dir err ((ap_app a)\<lparr>co_Config := c\<rparr>)\<rparr>)"

definition App_Route :: "(Router \<Rightarrow> Router) \<Rightarrow> AppCore Application \<Rightarrow> AppCore Application" where
  "App_Route fn a = a\<lparr>ap_app := (ap_app a)\<lparr>co_Router := fn (co_Router (ap_app a))\<rparr>\<rparr>"

definition App_Use :: "nat list \<Rightarrow> AppCore Application \<Rightarrow> AppCore Application" where
  "App_Use mw = App_Route (\<lambda>r. Router_Use r mw)"

definition App_Env :: "string \<Rightarrow> string \<Rightarrow> AppCore Application \<Rightarrow> string" where
  "App_Env key def a = Env (co_env (ap_app a)) key def"

text \<open>\<open>os.Getenv\<close> gives the empty string for a variable that is not set.\<close>

definition IsDebug :: "AppCore Application \<Rightarrow> bool" where
  "IsDebug a = (Config_Bool ''app.debug'' False (co_Config (ap_app a)) \<or> Env (co_env (ap_app a)) ''APP_DEBUG'' [] = ''true'')"

definition IsProduction :: "(gval \<Rightarrow> string) \<Rightarrow> AppCore Application \<Rightarrow> bool" where
  "IsProduction sprint a = (Config_String sprint ''app.env'' (Env (co_env (ap_app a)) ''APP_ENV'' []) (co_Config (ap_app a)) = ''production'')"

text \<open>
  \<open>Serve\<close> up to the run of the kernel: the booted application with the error handler \<open>h\<close> installed, the mode the handler was made
  with, and the kernel. \<open>errors_Handler\<close> with that mode is the entry \<open>h\<close> of the table of error handlers.
\<close>

definition install_handler :: "nat \<Rightarrow> AppCore Application \<Rightarrow> AppCore Application" where
  "install_handler h = App_Route (\<lambda>r. Router_OnError r h)"

definition App_Serve :: "(gval \<Rightarrow> string) \<Rightarrow> nat \<Rightarrow> AppCore Application \<Rightarrow> AppCore Application \<times> bool \<times> Kernel" where
  "App_Serve sprint h a0 =
     (let a = App_Boot a0; conf = co_Config (ap_app a);
          cfg = \<lparr>sc_Host = Config_String sprint ''server.host'' [] conf, sc_Port = Config_Int ''server.port'' 8080 conf,
                 sc_TLSCertFile = Config_String sprint ''server.tls_cert'' [] conf, sc_TLSKeyFile = Config_String sprint ''server.tls_key'' [] conf,
                 sc_ReadTimeout = 0, sc_WriteTimeout = 0, sc_IdleTimeout = 0, sc_ShutdownTimeout = 0\<rparr>
      in (install_handler h a, IsDebug a, NewKernel cfg))"

definition SplitHostPort :: "string \<Rightarrow> (string \<times> string) option" where
  "SplitHostPort hp =
     (case (SplitHost hp, lastIndexByte CHR '':'' hp) of (Some h, Some i) \<Rightarrow> Some (h, drop (i + 1) hp) | _ \<Rightarrow> None)"

definition ServeAddr_config :: "string \<Rightarrow> ServerConfig" where
  "ServeAddr_config addr =
     (case SplitHostPort addr of
        None \<Rightarrow> DefaultServerConfig
      | Some (host, portStr) \<Rightarrow>
          (let port = (case Atoi portStr of (p, err) \<Rightarrow> if err = None then word_of_int p else 8080)
           in DefaultServerConfig\<lparr>sc_Host := host, sc_Port := port\<rparr>))"

definition App_ServeAddr :: "nat \<Rightarrow> string \<Rightarrow> AppCore Application \<Rightarrow> AppCore Application \<times> bool \<times> Kernel" where
  "App_ServeAddr h addr a0 = (let a = App_Boot a0 in (install_handler h a, IsDebug a, NewKernel (ServeAddr_config addr)))"

section \<open>Lemmas\<close>

definition run_ok :: "server_run \<Rightarrow> bool" where
  "run_ok s = (sv_finished s \<le> sv_started s \<and> (sv_phase s \<noteq> Serving \<longrightarrow> \<not> sv_listening s))"


lemma run_ok_step: "run_ok s \<Longrightarrow> kernel_step k e s = Some s' \<Longrightarrow> run_ok s'"
  by (cases e) (auto simp: run_ok_def split: if_splits kernel_phase.splits)

lemma run_ok_run: "kernel_run k es s = Some s' \<Longrightarrow> run_ok s \<Longrightarrow> run_ok s'"
  by (induction es arbitrary: s) (auto split: option.splits dest: run_ok_step)

lemma kernel_run_append:
  "kernel_run k (es @ fs) s = (case kernel_run k es s of None \<Rightarrow> None | Some s1 \<Rightarrow> kernel_run k fs s1)"
  by (induction es arbitrary: s) (auto split: option.splits)




fun elapsed :: "kernel_event \<Rightarrow> duration" where
  "elapsed (Elapsed d) = d"
| "elapsed _ = 0"

lemma draining_back: "kernel_step k e s = Some s' \<Longrightarrow> sv_phase s' = Draining t \<Longrightarrow> sv_phase s \<noteq> Serving \<Longrightarrow>
    0 \<le> elapsed e \<and> sv_phase s = Draining (t + elapsed e) \<and> (0 \<le> t + elapsed e \<longrightarrow> 0 \<le> t)"
  by (cases e) (auto split: if_splits kernel_phase.splits)

lemma not_serving_step: "kernel_step k e s = Some s' \<Longrightarrow> sv_phase s \<noteq> Serving \<Longrightarrow> sv_phase s' \<noteq> Serving"
  by (cases e) (auto split: if_splits kernel_phase.splits)

lemma draining_run: "kernel_run k es s = Some s' \<Longrightarrow> sv_phase s' = Draining t \<Longrightarrow> sv_phase s \<noteq> Serving \<Longrightarrow>
    sv_phase s = Draining (t + sum_list (map elapsed es)) \<and> (0 \<le> t + sum_list (map elapsed es) \<longrightarrow> 0 \<le> t)"
proof (induction es arbitrary: s)
  case (Cons e es)
  then obtain s1 where s1: "kernel_step k e s = Some s1" "kernel_run k es s1 = Some s'" by (auto split: option.splits)
  note ih = Cons.IH [OF s1(2) Cons.prems(2) not_serving_step [OF s1(1) Cons.prems(3)]]
  have eq: "t + sum_list (map elapsed (e # es)) = t + sum_list (map elapsed es) + elapsed e" by simp
  show ?case unfolding eq using ih draining_back [OF s1(1) conjunct1 [OF ih] Cons.prems(3)] by blast
qed simp

lemma lastIndexByte_sep: "c \<notin> set b \<Longrightarrow> lastIndexByte c (a @ c # b) = Some (length a)"
proof -
  assume c: "c \<notin> set b"
  have "Index (rev b @ c # rev a) [c] = Some (length b)" if "c \<notin> set b"
    using Index_byte_first [of c "rev b" "rev a"] that by simp
  then show ?thesis using c by (simp add: lastIndexByte_def)
qed

lemma SplitHostPort_listen_addr:
  assumes "CHR '':'' \<notin> set host" "CHR ''['' \<notin> set host" "CHR '']'' \<notin> set host"
  shows "SplitHostPort (listen_addr host p) = Some (host, itoa (sint p))"
proof -
  have "digitVal CHR '':'' = None" "digitVal CHR ''['' = None" "digitVal CHR '']'' = None" by (simp_all add: digitVal_def less_eq_char_def)
  then have n: "CHR '':'' \<notin> set (itoa (sint p))" "CHR ''['' \<notin> set (itoa (sint p))" "CHR '']'' \<notin> set (itoa (sint p))"
    by (simp_all add: itoa_chars)
  have h: "host = [] \<or> hd host \<noteq> CHR ''[''" using assms(2) by (cases host) auto
  have l: "lastIndexByte CHR '':'' (host @ CHR '':'' # itoa (sint p)) = Some (length host)" by (rule lastIndexByte_sep) (rule n(1))
  have "hd (host @ CHR '':'' # itoa (sint p)) \<noteq> CHR ''[''" using h by (cases host) auto
  then have "SplitHost (host @ CHR '':'' # itoa (sint p)) = Some host" using n assms unfolding SplitHost_def l by simp
  then show ?thesis using l by (simp add: SplitHostPort_def listen_addr_def)
qed

section \<open>Properties\<close>



text \<open>
  Shutdown is bounded: the time spent draining never exceeds the configured timeout (thirty seconds when it is zero), and when it
  has passed \<open>Serve\<close> returns even if handlers hang.
\<close>

theorem shutdown_bounded:
  assumes "kernel_run k (es @ Signal # fs) start_run = Some s" "sv_phase s = Draining t" "0 \<le> shutdown_timeout (kn_cfg k)"
  shows "sum_list (map elapsed fs) \<le> shutdown_timeout (kn_cfg k) \<and>
    (\<exists>s'. kernel_run k [Elapsed t, DeadlineOver] s = Some s' \<and> sv_phase s' = Returned ShutdownFailed)"
proof -
  obtain s1 where s1: "kernel_step k Signal s1 = Some (s1\<lparr>sv_phase := Draining (shutdown_timeout (kn_cfg k)), sv_listening := False\<rparr>)"
      "kernel_run k fs (s1\<lparr>sv_phase := Draining (shutdown_timeout (kn_cfg k)), sv_listening := False\<rparr>) = Some s"
    using assms(1) by (auto simp: kernel_run_append split: option.splits if_splits)
  have "shutdown_timeout (kn_cfg k) = t + sum_list (map elapsed fs) \<and> 0 \<le> t"
    using draining_run [OF s1(2) assms(2)] assms(3) by auto
  then show ?thesis using assms(2) by simp
qed

text \<open>
  When another goroutine calls \<open>Shutdown\<close>, \<open>Serve\<close> returns nil at once, with requests still running: its channel is closed without
  an error as soon as the listener is.
\<close>

theorem other_shutdown_returns_early:
  "\<exists>s. kernel_run k [Accepted, OtherShutdown] start_run = Some s \<and> sv_phase s = Returned ServeNil \<and> sv_finished s < sv_started s"
  by (simp add: start_run_def)

text \<open>
  A kernel speaks TLS only if both files are given, and then at least version 1.3; with one of them it serves plain HTTP.
\<close>

theorem tls_needs_both_files:
  "hs_MinVersion (kn_server (NewKernel cfg)) = (if sc_TLSCertFile cfg \<noteq> [] \<and> sc_TLSKeyFile cfg \<noteq> [] then Some VersionTLS13 else None)"
  by (simp add: NewKernel_def Let_def uses_tls_def)

text \<open>\<open>Serve\<close> sets none of the timeouts \<open>DefaultServerConfig\<close> has: a client may hold a connection for ever.\<close>

theorem serve_has_no_timeouts:
  "App_Serve sprint h a = (a', dbg, k) \<Longrightarrow>
   hs_ReadTimeout (kn_server k) = 0 \<and> hs_WriteTimeout (kn_server k) = 0 \<and> hs_IdleTimeout (kn_server k) = 0"
  by (auto simp: App_Serve_def NewKernel_def Let_def)

text \<open>
  In production the application's error answers show nothing: when neither the configuration nor the environment asks for debug mode,
  any two errors that are not HTTP errors get the same answer.
\<close>

theorem serve_hides_errors:
  assumes "App_Serve sprint h a = (a', dbg, k)" "\<not> IsDebug (App_Boot a)" "find_http err = None" "find_http err' = None"
  shows "rr_onError (co_Router (ap_app a')) = CustomHandler h \<and>
    errors_Handler template stack dbg err c = errors_Handler template' stack' dbg err' c"
  using assms by (auto simp: App_Serve_def Let_def install_handler_def App_Route_def Router_OnError_def errors_Handler_def)

text \<open>
  \<open>ServeAddr\<close> listens where it is told: for a host name or IPv4 address and any port but zero the server's address is the given one,
  with the default timeouts.
\<close>

theorem ServeAddr_roundtrip:
  assumes "CHR '':'' \<notin> set host" "CHR ''['' \<notin> set host" "CHR '']'' \<notin> set host" "p \<noteq> 0"
  shows "Kernel_Addr (NewKernel (ServeAddr_config (listen_addr host p))) = listen_addr host p"
proof -
  have "Atoi (itoa (sint p)) = (sint p, None)"
    by (rule Atoi_itoa) (use sint_greater_eq [of p] sint_lt [of p] in simp_all)
  then show ?thesis using assms
    by (simp add: ServeAddr_config_def SplitHostPort_listen_addr Kernel_Addr_def NewKernel_def Let_def)
qed

theorem ServeAddr_roundtrip_witness: "Kernel_Addr (NewKernel (ServeAddr_config (listen_addr ''localhost'' 3000))) = listen_addr ''localhost'' 3000"
  by (rule ServeAddr_roundtrip) simp_all

text \<open>The brackets of an IPv6 address are lost, so the server is given an address nothing can listen on.\<close>

theorem ServeAddr_loses_brackets: "Kernel_Addr (NewKernel (ServeAddr_config ''[::1]:80'')) = ''::1:80''"
proof -
  have "SplitHostPort ''[::1]:80'' = Some (''::1'', ''80'')" by code_simp
  moreover have i: "itoa 80 = ''80''" by code_simp
  moreover have "Atoi ''80'' = (80, None)" unfolding i [symmetric] by (rule Atoi_itoa) simp_all
  ultimately show ?thesis by (simp add: ServeAddr_config_def Kernel_Addr_def NewKernel_def Let_def listen_addr_def)
qed

end
