(* ===== verification/Http_Bind.thy ===== *)
theory Http_Bind
  imports Http_Router Validation_Spec
begin

text \<open>
  Model of request binding in \<open>framework/http/request.go\<close> and of the operations of \<open>framework/http/context.go\<close> that build on it:
  \<open>Bind\<close>, \<open>Validate\<close>, \<open>XML\<close>, \<open>MustGet\<close> and the short accessors. The JSON and XML codecs and the form parser of
  \<open>net/http\<close> are arguments.
\<close>

section \<open>Reading the body\<close>

text \<open>A body is the bytes it yields and the error it ends with, if it does not end regularly.\<close>

type_synonym body_reader = "string \<times> string option"

definition body_limit :: nat where
  "body_limit = 33554432" \<comment> \<open>\<open>32 << 20\<close>\<close>

text \<open>\<open>io.ReadAll(io.LimitReader(body, n))\<close>: after \<open>n\<close> bytes the body is not read any more.\<close>

definition ReadAll_limit :: "nat \<Rightarrow> body_reader \<Rightarrow> string + string" where
  "ReadAll_limit n rd =
     (case snd rd of
        Some e \<Rightarrow> if length (fst rd) < n then Inl e else Inr (take n (fst rd))
      | None \<Rightarrow> Inr (take n (fst rd)))"

definition BodyBytes :: "body_reader \<Rightarrow> string + string" where
  "BodyBytes = ReadAll_limit body_limit"

section \<open>Binding\<close>

record 'd codecs =
  cd_json :: "string \<Rightarrow> 'd \<Rightarrow> string option \<times> 'd" \<comment> \<open>\<open>json.Unmarshal\<close>: error and destination\<close>
  cd_xml :: "string \<Rightarrow> 'd \<Rightarrow> string option \<times> 'd"
  cd_multipart :: "body_reader \<Rightarrow> string option" \<comment> \<open>the error of \<open>ParseMultipartForm\<close>\<close>
  cd_form :: "body_reader \<Rightarrow> string option" \<comment> \<open>the error of \<open>ParseForm\<close>\<close>

definition bindJSON :: "'d codecs \<Rightarrow> body_reader \<Rightarrow> 'd \<Rightarrow> string option \<times> 'd" where
  "bindJSON cd rd dest =
     (case ReadAll_limit body_limit rd of
        Inl e \<Rightarrow> (Some (''request: reading body: '' @ e), dest)
      | Inr body \<Rightarrow>
          if length body = 0 then (None, dest)
          else (case cd_json cd body dest of
                  (Some e, d) \<Rightarrow> (Some (''request: JSON decode: '' @ e), d)
                | (None, d) \<Rightarrow> (None, d)))"

definition bindXML :: "'d codecs \<Rightarrow> body_reader \<Rightarrow> 'd \<Rightarrow> string option \<times> 'd" where
  "bindXML cd rd dest =
     (case ReadAll_limit body_limit rd of
        Inl e \<Rightarrow> (Some (''request: reading body: '' @ e), dest)
      | Inr body \<Rightarrow>
          (case cd_xml cd body dest of
             (Some e, d) \<Rightarrow> (Some (''request: XML decode: '' @ e), d)
           | (None, d) \<Rightarrow> (None, d)))"

definition bindForm :: "'d codecs \<Rightarrow> body_reader \<Rightarrow> 'd \<Rightarrow> string option \<times> 'd" where
  "bindForm cd rd dest =
     (if cd_multipart cd rd \<noteq> None
      then (case cd_form cd rd of Some e \<Rightarrow> (Some (''request: parse form: '' @ e), dest) | None \<Rightarrow> (None, dest))
      else (None, dest))"

definition Request_Bind :: "'d codecs \<Rightarrow> 'a Request_scheme \<Rightarrow> body_reader \<Rightarrow> 'd \<Rightarrow> string option \<times> 'd" where
  "Request_Bind cd r rd dest =
     (let ct = Header_Get (rq_Header r) ''Content-Type''
      in if Contains ct ''application/json'' then bindJSON cd rd dest
         else if Contains ct ''application/xml'' \<or> Contains ct ''text/xml'' then bindXML cd rd dest
         else if Contains ct ''application/x-www-form-urlencoded'' \<or> Contains ct ''multipart/form-data'' then bindForm cd rd dest
         else bindJSON cd rd dest)"

section \<open>Context operations\<close>

text \<open>\<open>c.Bind\<close>, \<open>c.Param\<close>, \<open>c.FormValue\<close>, \<open>c.IP\<close>, \<open>c.Method\<close> and \<open>c.Path\<close>.\<close>

definition Context_Bind :: "'d codecs \<Rightarrow> 'a Context_scheme \<Rightarrow> body_reader \<Rightarrow> 'd \<Rightarrow> string option \<times> 'd" where
  "Context_Bind cd c = Request_Bind cd (cx_req c)"

definition Context_Param :: "'a Context_scheme \<Rightarrow> string \<Rightarrow> string" where
  "Context_Param c = Request_Param (cx_req c)"

definition Context_FormValue :: "'a Context_scheme \<Rightarrow> string \<Rightarrow> string" where
  "Context_FormValue c name = (case map_of (rq_Form (cx_req c)) name of Some v \<Rightarrow> v | None \<Rightarrow> [])"

definition Context_IP :: "'n netlib \<Rightarrow> 'n proxyConfig option \<Rightarrow> 'a Context_scheme \<Rightarrow> string" where
  "Context_IP nl cfg c = Request_IP nl cfg (cx_req c)"

text \<open>\<^const>\<open>Inl\<close> is the panic.\<close>

definition Context_MustGet :: "'a Context_scheme \<Rightarrow> string \<Rightarrow> string + gval" where
  "Context_MustGet c key =
     (case Context_Get c key of None \<Rightarrow> Inl (''context: key \"'' @ key @ ''\" not found in store'') | Some v \<Rightarrow> Inr v)"

definition xml_Header :: string where
  "xml_Header = ''<?xml version=\"1.0\" encoding=\"UTF-8\"?>'' @ [CHR 0x0A]"

text \<open>\<open>enc\<close> is the XML encoder: the bytes it writes and its error.\<close>

definition Context_XML :: "(gval \<Rightarrow> string \<times> string option) \<Rightarrow> int \<Rightarrow> gval \<Rightarrow> 'a Context_scheme handler" where
  "Context_XML enc status v c =
     (let c1 = setHeader ''Content-Type'' ''application/xml; charset=utf-8'' c;
          c2 = on_resp (\<lambda>r. Response_WriteHeader r status) c1;
          c3 = on_resp (\<lambda>r. Response_Write r xml_Header) c2
      in case enc v of (out, err) \<Rightarrow>
           (case err of None \<Rightarrow> HNil | Some e \<Rightarrow> HErr (OtherError e), on_resp (\<lambda>r. Response_Write r out) c3))"

definition HTTPError_Error :: "int \<Rightarrow> string \<Rightarrow> string" where
  "HTTPError_Error code message = ''HTTP '' @ itoa code @ '': '' @ message"

definition errors_json :: "Errors \<Rightarrow> gval" where
  "errors_json errs = GMap [(''message'', GString ''validation failed''), (''errors'', GMap (map (\<lambda>(f, ms). (f, GSlice (map GString ms))) errs))]"

text \<open>
  \<open>Validate\<close> returns the handler result, the context, the destination and the validator with its cache. The validator returns no
  error other than \<open>Errors\<close>, so the branch for another error has no case here; a panic of the validator is one of the handler.
\<close>

definition Context_Validate ::
  "vlib \<Rightarrow> rv codecs \<Rightarrow> body_reader \<Rightarrow> rv \<Rightarrow> Validator \<Rightarrow> 'a Context_scheme \<Rightarrow> hresult \<times> 'a Context_scheme \<times> rv \<times> Validator" where
  "Context_Validate lib cd rd dest v c =
     (case Request_Bind cd (cx_req c) rd dest of
        (Some e, d) \<Rightarrow> (HErr (HTTPError 400 (''invalid request body: '' @ e)), c, d, v)
      | (None, d) \<Rightarrow>
          (case Validate lib d v of
             None \<Rightarrow> (HPanic ''reflect: unexported field'', c, d, v)
           | Some (None, v1) \<Rightarrow> (HNil, c, d, v1)
           | Some (Some errs, v1) \<Rightarrow> (HErr (OtherError (Errors_Error errs)), snd (Context_JSON 422 (errors_json errs) c), d, v1)))"

section \<open>Lemmas\<close>

definition is_form :: "'a Request_scheme \<Rightarrow> bool" where
  "is_form r = (let ct = Header_Get (rq_Header r) ''Content-Type''
     in \<not> Contains ct ''application/json'' \<and> \<not> Contains ct ''application/xml'' \<and> \<not> Contains ct ''text/xml'' \<and>
        (Contains ct ''application/x-www-form-urlencoded'' \<or> Contains ct ''multipart/form-data''))"

lemma Bind_form: "is_form r \<Longrightarrow> Request_Bind cd r rd dest = bindForm cd rd dest"
  by (auto simp: is_form_def Request_Bind_def Let_def)

lemma snd_bindForm: "snd (bindForm cd rd dest) = dest"
  by (simp add: bindForm_def split: option.splits)

text \<open>The bytes a binding looks at are the first 32 MiB.\<close>

lemma ReadAll_limit_take: "n \<le> length s \<Longrightarrow> ReadAll_limit n (s, e) = ReadAll_limit n (take n s, None)"
  by (simp add: ReadAll_limit_def split: option.splits)

lemma ReadAll_limit_bound: "ReadAll_limit n rd = Inr b \<Longrightarrow> length b \<le> n"
  by (auto simp: ReadAll_limit_def split: option.splits if_splits)

lemma JSON_body:
  "w_body (rp_wire (cx_resp (snd (Context_JSON code v c)))) =
     (if w_discard (rp_wire (cx_resp c)) then w_body (rp_wire (cx_resp c)) else w_body (rp_wire (cx_resp c)) @ cx_json c v)"
  by (simp add: httpsimps setHeader_def on_resp_def split: option.splits)

lemma JSON_keeps:
  "cx_json (snd (Context_JSON code v c)) = cx_json c"
  "w_discard (rp_wire (cx_resp (snd (Context_JSON code v c)))) = w_discard (rp_wire (cx_resp c))"
  by (simp_all add: httpsimps setHeader_def on_resp_def split: option.splits)

lemma JSON_sent_first:
  "w_sent (rp_wire (cx_resp c)) = None \<Longrightarrow> \<not> rp_committed (cx_resp c) \<Longrightarrow>
   \<exists>hs. w_sent (rp_wire (cx_resp (snd (Context_JSON code v c)))) = Some (code, hs)"
  by (simp add: httpsimps setHeader_def on_resp_def)

lemma JSON_sent_stays:
  "w_sent (rp_wire (cx_resp c)) = Some x \<Longrightarrow> w_sent (rp_wire (cx_resp (snd (Context_JSON code v c)))) = Some x"
  by (simp add: httpsimps setHeader_def on_resp_def)

section \<open>Properties\<close>

text \<open>
  What a body can make the decoder do is bounded: of a body of more than 32 MiB only the first 32 MiB are read and decoded, and what
  follows them, an error of the connection included, makes no difference.
\<close>

theorem bind_reads_at_most_limit:
  assumes "body_limit \<le> length s" "\<not> is_form r"
  shows "Request_Bind cd r (s, e) dest = Request_Bind cd r (take body_limit s, None) dest \<and> length (take body_limit s) = body_limit"
  using assms ReadAll_limit_take [OF assms(1), of e]
  by (auto simp: Request_Bind_def is_form_def bindJSON_def bindXML_def Let_def)

definition plain_request :: Request where
  "plain_request = \<lparr>rq_Method = ''POST'', rq_Path = ''/'', rq_Query = [], rq_Header = [], rq_Form = [], rq_Cookies = [], rq_RemoteAddr = [],
     rq_TLS = False, rq_params = []\<rparr>"

definition fixed_codecs :: "'d \<Rightarrow> 'd codecs" where
  "fixed_codecs d = \<lparr>cd_json = (\<lambda>_ _. (None, d)), cd_xml = (\<lambda>_ _. (Some ''EOF'', d)), cd_multipart = (\<lambda>_. None), cd_form = (\<lambda>_. None)\<rparr>"

lemma plain_request_json: "\<not> is_form plain_request" "Request_Bind cd plain_request rd dest = bindJSON cd rd dest"
proof -
  have c: "Header_Get [] ''Content-Type'' = []" by code_simp
  have "\<not> Contains [] ''application/x-www-form-urlencoded''" "\<not> Contains [] ''multipart/form-data''" by code_simp+
  moreover have "\<not> Contains [] ''application/xml''" "\<not> Contains [] ''text/xml''" by code_simp+
  ultimately show "\<not> is_form plain_request" "Request_Bind cd plain_request rd dest = bindJSON cd rd dest"
    by (simp_all add: is_form_def plain_request_def c Request_Bind_def)
qed

theorem bind_reads_at_most_limit_witness:
  "Request_Bind (fixed_codecs (7 :: nat)) plain_request (replicate body_limit CHR ''x'' @ ''tail'', Some ''reset'') 0
   = Request_Bind (fixed_codecs 7) plain_request (replicate body_limit CHR ''x'', None) 0"
  using bind_reads_at_most_limit [of "replicate body_limit CHR ''x'' @ ''tail''" plain_request "fixed_codecs 7" "Some ''reset''" 0]
  by (simp add: plain_request_json)

text \<open>
  \<open>Validate\<close> lets a request through exactly if the body could be bound and every check of the destination passes, and then it has
  written nothing to the client.
\<close>

theorem validate_lets_through:
  assumes "Request_Bind cd (cx_req c) rd dest = (err, d)" "cache_ok v" "checks d [] = Some cs"
    "Context_Validate lib cd rd dest v c = (res, c', d', v')"
  shows "(res = HNil \<longleftrightarrow> err = None \<and> (\<forall>k \<in> set cs. check_msg lib v k = [])) \<and> (res = HNil \<longrightarrow> c' = c \<and> d' = d)"
proof (cases err)
  case None
  then show ?thesis using assms Validate_outcome [OF assms(2,3), of lib] by (auto simp: Context_Validate_def split: if_splits)
qed (use assms in \<open>auto simp: Context_Validate_def\<close>)

definition demo_context :: Context where
  "demo_context = NewContext new_wire plain_request [] (\<lambda>_. ''{}'')"

lemma demo_bound: "Request_Bind (fixed_codecs demo_user) (cx_req demo_context) (''{}'', None) RvNil = (None, demo_user)"
proof -
  have "cx_req demo_context = plain_request" by (simp add: demo_context_def NewContext_def plain_request_def)
  then show ?thesis by (simp add: plain_request_json bindJSON_def ReadAll_limit_def body_limit_def fixed_codecs_def)
qed

lemma demo_fails: "cache_ok Validator_New" "\<not> (\<forall>k \<in> set demo_checks. check_msg demo_lib Validator_New k = [])"
  using demo_msgs(1) by (force simp: cache_ok_def Validator_New_def field_msgs_def dest: arg_cong [where f = set])+

theorem validate_lets_through_witness:
  "fst (Context_Validate demo_lib (fixed_codecs demo_user) (''{}'', None) RvNil Validator_New demo_context) \<noteq> HNil"
  using validate_lets_through [OF demo_bound demo_fails(1) demo_checks_ok(1), of demo_lib] demo_fails(2) by (metis prod.collapse)

text \<open>
  A form is parsed but never bound: with a form content type the destination stays as it was, whatever was posted, so a validated
  form handler judges the destination it started with.
\<close>

theorem form_is_not_bound:
  "is_form r \<Longrightarrow> snd (Request_Bind cd r rd dest) = dest"
  by (simp add: Bind_form snd_bindForm)

theorem form_is_not_bound_witness:
  "snd (Request_Bind (fixed_codecs (7 :: nat)) (plain_request\<lparr>rq_Header := [(''Content-Type'', [''multipart/form-data''])]\<rparr>) (''a=1'', None) 0) = 0"
proof (rule form_is_not_bound)
  have "Header_Get [(''Content-Type'', [''multipart/form-data''])] ''Content-Type'' = ''multipart/form-data''" by code_simp
  moreover have "Contains ''multipart/form-data'' ''multipart/form-data''" "\<not> Contains ''multipart/form-data'' ''application/json''"
    "\<not> Contains ''multipart/form-data'' ''application/xml''" "\<not> Contains ''multipart/form-data'' ''text/xml''" by code_simp+
  ultimately show "is_form (plain_request\<lparr>rq_Header := [(''Content-Type'', [''multipart/form-data''])]\<rparr>)"
    by (simp add: is_form_def)
qed

text \<open>
  A request that fails validation is answered twice: \<open>Validate\<close> sends status 422 and the error map, the handler returns the error,
  and the router's error handler, which does not look whether an answer is on its way, appends a second JSON document saying
  \<open>internal server error\<close> to the same body.
\<close>

theorem validate_answers_twice:
  assumes "Context_Validate lib cd rd dest v (NewContext new_wire r params json) = (HErr (OtherError e), c, d, v')"
  shows "\<exists>errs hs. w_sent (rp_wire (cx_resp (defaultErrorHandler (OtherError e) c))) = Some (422, hs) \<and>
    w_body (rp_wire (cx_resp (defaultErrorHandler (OtherError e) c)))
      = json (errors_json errs) @ json (GMap [(''error'', GString ''internal server error'')])"
proof -
  let ?n = "NewContext new_wire r params json"
  obtain errs where c: "c = snd (Context_JSON 422 (errors_json errs) ?n)"
    using assms by (auto simp: Context_Validate_def split: prod.splits option.splits)
  have n: "w_sent (rp_wire (cx_resp ?n)) = None" "\<not> rp_committed (cx_resp ?n)" "\<not> w_discard (rp_wire (cx_resp ?n))"
      "w_body (rp_wire (cx_resp ?n)) = []" "cx_json ?n = json"
    by (simp_all add: NewContext_def newResponse_def new_wire_def)
  obtain hs where "w_sent (rp_wire (cx_resp c)) = Some (422, hs)" using JSON_sent_first [OF n(1,2)] c by blast
  then have "w_sent (rp_wire (cx_resp (defaultErrorHandler (OtherError e) c))) = Some (422, hs)"
    by (simp add: defaultErrorHandler_def JSON_sent_stays)
  moreover have "w_body (rp_wire (cx_resp c)) = json (errors_json errs)" "\<not> w_discard (rp_wire (cx_resp c))" "cx_json c = json"
    by (simp_all add: c JSON_body JSON_keeps n)
  ultimately show ?thesis by (auto simp: defaultErrorHandler_def JSON_body)
qed

theorem validate_answers_twice_witness:
  "\<exists>e c d v'. Context_Validate demo_lib (fixed_codecs demo_user) (''{}'', None) RvNil Validator_New demo_context = (HErr (OtherError e), c, d, v')
     \<and> w_body (rp_wire (cx_resp (defaultErrorHandler (OtherError e) c))) = ''{}{}''"
proof -
  obtain v' where "Validate demo_lib demo_user Validator_New = Some (Some (foldl (add_check demo_lib Validator_New) [] demo_checks), v')"
    using Validate_outcome [OF demo_fails(1) demo_checks_ok(1), of demo_lib] demo_fails(2) by (simp only: if_False) blast
  then obtain e c where "Context_Validate demo_lib (fixed_codecs demo_user) (''{}'', None) RvNil Validator_New demo_context
      = (HErr (OtherError e), c, demo_user, v')"
    by (simp add: Context_Validate_def demo_bound)
  moreover from this have "w_body (rp_wire (cx_resp (defaultErrorHandler (OtherError e) c))) = ''{}{}''"
    using validate_answers_twice [of demo_lib _ _ _ _ plain_request "[]" "\<lambda>_. ''{}''"] by (fastforce simp: demo_context_def)
  ultimately show ?thesis by blast
qed

end
