(* ===== verification/Db_Connect.thy ===== *)
theory Db_Connect
  imports Sql_Builder Go_Strconv
begin

text \<open>
  Model of the parts of \<open>framework/database/db.go\<close> around the query builder: data source names, \<open>Open\<close>, the handle with its pool
  settings and log level, the handles a transaction makes, and the process-wide default handle. \<open>sql.Open\<close> and \<open>pgxpool.New\<close>
  are arguments; \<open>env\<close> is \<open>os.Getenv("DB_HOST")\<close>.
\<close>

section \<open>Configuration\<close>

record db_Config =
  dc_Driver :: string
  dc_Host :: string
  dc_Port :: i64
  dc_Name :: string
  dc_User :: string
  dc_Password :: string
  dc_SSLMode :: string
  dc_MaxOpen :: i64
  dc_MaxIdle :: i64
  dc_MaxLifetime :: duration
  dc_PgxConfig :: "string option" \<comment> \<open>its connection string\<close>

definition db_DefaultConfig :: db_Config where
  "db_DefaultConfig =
     \<lparr>dc_Driver = ''postgres'', dc_Host = ''127.0.0.1'', dc_Port = 5432, dc_Name = [], dc_User = ''postgres'', dc_Password = [],
      dc_SSLMode = ''disable'', dc_MaxOpen = 25, dc_MaxIdle = 5, dc_MaxLifetime = 5 * minute, dc_PgxConfig = None\<rparr>"

definition buildPostgresDSN :: "string \<Rightarrow> db_Config \<Rightarrow> string" where
  "buildPostgresDSN env c =
     (let sslMode = (if dc_SSLMode c = [] then ''disable'' else dc_SSLMode c);
          host = (if dc_Host c = [] then env else dc_Host c);
          port = (if dc_Port c = 0 then 5432 else dc_Port c)
      in ''host='' @ host @ '' port='' @ itoa (sint port) @ '' user='' @ dc_User c @ '' password='' @ dc_Password c @ '' dbname='' @ dc_Name c
         @ '' sslmode='' @ sslMode)"

definition mysql_host :: "db_Config \<Rightarrow> string" where
  "mysql_host c = (if dc_Host c = [] then ''127.0.0.1'' else dc_Host c)"

definition mysql_port :: "db_Config \<Rightarrow> i64" where
  "mysql_port c = (if dc_Port c = 0 then 3306 else dc_Port c)"

definition buildMySQLDSN :: "db_Config \<Rightarrow> string" where
  "buildMySQLDSN c =
     dc_User c @ '':'' @ dc_Password c @ ''@tcp('' @ mysql_host c @ '':'' @ itoa (sint (mysql_port c)) @ '')/'' @ dc_Name c
     @ ''?parseTime=true&multiStatements=true''"

section \<open>The handle\<close>

record 'h open_lib =
  ol_Open :: "string \<Rightarrow> string \<Rightarrow> string + 'h" \<comment> \<open>\<open>sql.Open\<close> of driver name and data source name\<close>
  ol_Pool :: "string \<Rightarrow> string + 'h" \<comment> \<open>\<open>pgxpool.New\<close> of a connection string\<close>

datatype open_error = PgxPool string | UnsupportedDriver string | OpenFailed string

record 'h Handle =
  ha_sqlDB :: 'h
  ha_MaxOpen :: i64
  ha_MaxIdle :: i64
  ha_MaxLifetime :: duration
  ha_db :: DB
  ha_logLevel :: int

text \<open>The levels of \<open>log/slog\<close>.\<close>

definition LevelDebug :: int where "LevelDebug = - 4"

definition set_limits :: "db_Config \<Rightarrow> 'h \<Rightarrow> DB \<Rightarrow> 'h Handle" where
  "set_limits cfg h d =
     \<lparr>ha_sqlDB = h, ha_MaxOpen = dc_MaxOpen cfg, ha_MaxIdle = dc_MaxIdle cfg, ha_MaxLifetime = dc_MaxLifetime cfg, ha_db = d,
      ha_logLevel = LevelDebug\<rparr>"

definition opened :: "db_Config \<Rightarrow> Driver \<Rightarrow> string + 'h \<Rightarrow> open_error + 'h Handle" where
  "opened cfg g r =
     (case r of Inl e \<Rightarrow> Inl (OpenFailed e) | Inr h \<Rightarrow> Inr (set_limits cfg h \<lparr>db_driver = g, db_tx = False, db_txDepth = 0\<rparr>))"

definition db_Open :: "string \<Rightarrow> 'h open_lib \<Rightarrow> db_Config \<Rightarrow> open_error + 'h Handle" where
  "db_Open env lib cfg =
     (if dc_Driver cfg = ''postgres''
      then (case dc_PgxConfig cfg of
              Some conn \<Rightarrow> (case ol_Pool lib conn of Inl e \<Rightarrow> Inl (PgxPool e) | Inr h \<Rightarrow> opened cfg DriverPostgres (Inr h))
            | None \<Rightarrow> opened cfg DriverPostgres (ol_Open lib ''pgx'' (buildPostgresDSN env cfg)))
      else if dc_Driver cfg = ''mysql'' then opened cfg DriverMySQL (ol_Open lib ''mysql'' (buildMySQLDSN cfg))
      else Inl (UnsupportedDriver (dc_Driver cfg)))"

text \<open>\<^const>\<open>None\<close> is the panic.\<close>

definition MustOpen :: "string \<Rightarrow> 'h open_lib \<Rightarrow> db_Config \<Rightarrow> 'h Handle option" where
  "MustOpen env lib cfg = (case db_Open env lib cfg of Inl _ \<Rightarrow> None | Inr h \<Rightarrow> Some h)"

definition SetLogLevel :: "int \<Rightarrow> 'h Handle \<Rightarrow> 'h Handle" where
  "SetLogLevel level h = h\<lparr>ha_logLevel := level\<rparr>"

definition DB_Driver :: "'h Handle \<Rightarrow> Driver" where
  "DB_Driver h = db_driver (ha_db h)"

definition QuoteIdentifier :: "'h Handle \<Rightarrow> string \<Rightarrow> string" where
  "QuoteIdentifier h s = QuoteIdent (db_driver (ha_db h)) s"

text \<open>
  The handle a transaction gives its function. The struct literals name neither the pool settings, which live in the pool, nor the
  log level, which is therefore the zero value, \<open>slog.LevelInfo\<close>.
\<close>

definition tx_handle :: "'h Handle \<Rightarrow> 'h Handle" where
  "tx_handle h = h\<lparr>ha_db := \<lparr>db_driver = db_driver (ha_db h), db_tx = True,
     db_txDepth = (if db_tx (ha_db h) then db_txDepth (ha_db h) + 1 else 1)\<rparr>, ha_logLevel := 0\<rparr>"

text \<open>What a logger that drops records below \<open>minLevel\<close> writes for a statement.\<close>

definition DB_log :: "int \<Rightarrow> 'h Handle \<Rightarrow> string \<Rightarrow> gval list \<Rightarrow> (string \<times> gval list) list" where
  "DB_log minLevel h query args = (if ha_logLevel h \<ge> minLevel then [(query, args)] else [])"

section \<open>The default handle\<close>

type_synonym 'h global_db = "'h Handle option"

definition SetDefault :: "'h Handle \<Rightarrow> 'h global_db \<Rightarrow> 'h global_db" where
  "SetDefault h g = Some h"

definition db_Default :: "'h global_db \<Rightarrow> string + 'h Handle" where
  "db_Default g =
     (case g of
        None \<Rightarrow> Inl ''database: default DB not set: call database.SetDefault(db) during application boot''
      | Some h \<Rightarrow> Inr h)"

definition global_Table :: "'h global_db \<Rightarrow> string \<Rightarrow> string + Builder" where
  "global_Table g table = (case db_Default g of Inl p \<Rightarrow> Inl p | Inr h \<Rightarrow> Inr (DB_Table (ha_db h) table))"

definition global_Raw :: "'h global_db \<Rightarrow> string \<Rightarrow> gval list \<Rightarrow> string + Builder" where
  "global_Raw g query args = (case db_Default g of Inl p \<Rightarrow> Inl p | Inr h \<Rightarrow> Inr (DB_Raw (ha_db h) query args))"

section \<open>Lemmas\<close>

lemma append_sep_inject:
  "c \<notin> set a \<Longrightarrow> c \<notin> set a' \<Longrightarrow> a @ c # b = a' @ c # b' \<longleftrightarrow> a = a' \<and> b = b'"
  by (auto simp: append_eq_append_conv2 append_eq_Cons_conv Cons_eq_append_conv)

lemma no_space_itoa: "CHR '' '' \<notin> set (itoa i)"
  by (rule itoa_chars) (simp_all add: digitVal_def less_eq_char_def)

lemma no_paren_itoa: "CHR '')'' \<notin> set (itoa i)"
  by (rule itoa_chars) (simp_all add: digitVal_def less_eq_char_def)

definition no_space :: "string \<Rightarrow> bool" where
  "no_space s = (CHR '' '' \<notin> set s)"

lemma dsn_words:
  "no_space a \<Longrightarrow> no_space b \<Longrightarrow> no_space c \<Longrightarrow> no_space d \<Longrightarrow> no_space e \<Longrightarrow> no_space f \<Longrightarrow>
   SplitOn CHR '' '' (''host='' @ a @ '' port='' @ b @ '' user='' @ c @ '' password='' @ d @ '' dbname='' @ e @ '' sslmode='' @ f)
   = [''host='' @ a, ''port='' @ b, ''user='' @ c, ''password='' @ d, ''dbname='' @ e, ''sslmode='' @ f]"
  using SplitOn_word_sep [of "CHR '' ''" "''host='' @ a"] SplitOn_word_sep [of "CHR '' ''" "''port='' @ b"]
    SplitOn_word_sep [of "CHR '' ''" "''user='' @ c"] SplitOn_word_sep [of "CHR '' ''" "''password='' @ d"]
    SplitOn_word_sep [of "CHR '' ''" "''dbname='' @ e"] SplitOn_no_sep [of "CHR '' ''" "''sslmode='' @ f"]
  by (simp add: no_space_def)

section \<open>Properties\<close>

text \<open>
  The PostgreSQL data source name says what the configuration says: its space separated settings are the six of the configuration,
  with the defaults filled in, provided no value contains a space.
\<close>

theorem postgres_dsn_settings:
  assumes "no_space env" "no_space (dc_Host c)" "no_space (dc_User c)" "no_space (dc_Password c)" "no_space (dc_Name c)" "no_space (dc_SSLMode c)"
  shows "SplitOn CHR '' '' (buildPostgresDSN env c) =
    [''host='' @ (if dc_Host c = [] then env else dc_Host c), ''port='' @ itoa (sint (if dc_Port c = 0 then 5432 else dc_Port c)),
     ''user='' @ dc_User c, ''password='' @ dc_Password c, ''dbname='' @ dc_Name c,
     ''sslmode='' @ (if dc_SSLMode c = [] then ''disable'' else dc_SSLMode c)]"
proof -
  have s: "no_space (itoa i)" for i by (simp add: no_space_def no_space_itoa)
  have d: "no_space ''disable''" by (simp add: no_space_def)
  show ?thesis unfolding buildPostgresDSN_def Let_def by (rule dsn_words) (use assms s d in simp_all)
qed

theorem postgres_dsn_settings_witness:
  "SplitOn CHR '' '' (buildPostgresDSN [] (db_DefaultConfig\<lparr>dc_Name := ''shop''\<rparr>)) ! 4 = ''dbname=shop''"
  using postgres_dsn_settings [of "[]" "db_DefaultConfig\<lparr>dc_Name := ''shop''\<rparr>"]
  by (simp add: no_space_def db_DefaultConfig_def)

text \<open>
  Values are not quoted, so a password with a space in it adds settings of its own: here a second \<open>sslmode\<close>.
\<close>

theorem postgres_dsn_injection:
  assumes "no_space env" "no_space (dc_Host c)" "no_space (dc_User c)" "no_space p" "no_space w"
  shows "w \<in> set (SplitOn CHR '' '' (buildPostgresDSN env (c\<lparr>dc_Password := p @ '' '' @ w\<rparr>)))"
proof -
  let ?post = "'' dbname='' @ dc_Name c @ '' sslmode='' @ (if dc_SSLMode c = [] then ''disable'' else dc_SSLMode c)"
  let ?pre = "''host='' @ (if dc_Host c = [] then env else dc_Host c) @ '' port='' @ itoa (sint (if dc_Port c = 0 then 5432 else dc_Port c))
    @ '' user='' @ dc_User c @ '' password='' @ p"
  have "buildPostgresDSN env (c\<lparr>dc_Password := p @ '' '' @ w\<rparr>) = ?pre @ CHR '' '' # w @ CHR '' '' # drop 1 ?post"
    by (simp add: buildPostgresDSN_def Let_def)
  moreover have "SplitOn CHR '' '' (w @ CHR '' '' # drop 1 ?post) = w # SplitOn CHR '' '' (drop 1 ?post)"
    using assms(5) by (intro SplitOn_word_sep) (simp add: no_space_def)
  ultimately show ?thesis by (simp only: SplitOn_append_sep set_append) simp
qed

theorem postgres_dsn_injection_witness:
  "''sslmode=disable'' \<in> set (SplitOn CHR '' '' (buildPostgresDSN [] (db_DefaultConfig\<lparr>dc_SSLMode := ''verify-full'', dc_Password := ''pw sslmode=disable''\<rparr>)))"
  using postgres_dsn_injection [of "[]" "db_DefaultConfig\<lparr>dc_SSLMode := ''verify-full''\<rparr>" "''pw''" "''sslmode=disable''"]
  by (simp add: no_space_def db_DefaultConfig_def)

text \<open>
  Two MySQL configurations with the same data source name are the same account on the same server and database, if the user has no
  colon, the password no at sign and the host no colon.
\<close>

theorem mysql_dsn_injective:
  assumes "buildMySQLDSN c = buildMySQLDSN c'"
    "CHR '':'' \<notin> set (dc_User c) \<union> set (dc_User c')" "CHR ''@'' \<notin> set (dc_Password c) \<union> set (dc_Password c')"
    "CHR '':'' \<notin> set (dc_Host c) \<union> set (dc_Host c')"
  shows "dc_User c = dc_User c' \<and> dc_Password c = dc_Password c' \<and> mysql_host c = mysql_host c' \<and> mysql_port c = mysql_port c' \<and> dc_Name c = dc_Name c'"
proof -
  have h: "CHR '':'' \<notin> set (mysql_host c)" "CHR '':'' \<notin> set (mysql_host c')" using assms(4) by (auto simp: mysql_host_def)
  have "dc_User c = dc_User c' \<and> dc_Password c @ ''@tcp('' @ mysql_host c @ '':'' @ itoa (sint (mysql_port c)) @ '')/'' @ dc_Name c
      = dc_Password c' @ ''@tcp('' @ mysql_host c' @ '':'' @ itoa (sint (mysql_port c')) @ '')/'' @ dc_Name c'"
    using assms(1,2) append_sep_inject [of "CHR '':''" "dc_User c" "dc_User c'"] by (simp add: buildMySQLDSN_def)
  moreover from this have "dc_Password c = dc_Password c' \<and> mysql_host c @ '':'' @ itoa (sint (mysql_port c)) @ '')/'' @ dc_Name c
      = mysql_host c' @ '':'' @ itoa (sint (mysql_port c')) @ '')/'' @ dc_Name c'"
    using assms(3) append_sep_inject [of "CHR ''@''" "dc_Password c" "dc_Password c'"] by simp
  moreover from this have "mysql_host c = mysql_host c' \<and> itoa (sint (mysql_port c)) @ '')/'' @ dc_Name c = itoa (sint (mysql_port c')) @ '')/'' @ dc_Name c'"
    using h append_sep_inject [of "CHR '':''" "mysql_host c" "mysql_host c'"] by simp
  moreover from this have "itoa (sint (mysql_port c)) = itoa (sint (mysql_port c')) \<and> dc_Name c = dc_Name c'"
    using no_paren_itoa append_sep_inject [of "CHR '')''" "itoa (sint (mysql_port c))" "itoa (sint (mysql_port c'))"] by simp
  ultimately show ?thesis by (simp add: itoa_sint_inject)
qed

theorem mysql_dsn_injective_witness:
  "buildMySQLDSN (db_DefaultConfig\<lparr>dc_Name := ''a''\<rparr>) \<noteq> buildMySQLDSN (db_DefaultConfig\<lparr>dc_Name := ''b''\<rparr>)"
  using mysql_dsn_injective [of "db_DefaultConfig\<lparr>dc_Name := ''a''\<rparr>" "db_DefaultConfig\<lparr>dc_Name := ''b''\<rparr>"]
  by (auto simp: db_DefaultConfig_def)

text \<open>
  An opened handle speaks the dialect of its driver, is not in a transaction and has the limits of the configuration.
\<close>

theorem open_spec:
  assumes "db_Open env lib cfg = Inr h"
  shows "dc_Driver cfg = (case db_driver (ha_db h) of DriverPostgres \<Rightarrow> ''postgres'' | DriverMySQL \<Rightarrow> ''mysql'') \<and> \<not> db_tx (ha_db h) \<and>
    ha_MaxOpen h = dc_MaxOpen cfg \<and> ha_MaxIdle h = dc_MaxIdle cfg \<and> ha_MaxLifetime h = dc_MaxLifetime cfg"
  using assms by (auto simp: db_Open_def opened_def set_limits_def split: if_splits option.splits sum.splits)

text \<open>
  A statement that is not logged outside a transaction, because the handle logs at the debug level and the logger starts at the
  information level, is logged inside one, with its arguments.
\<close>

theorem transactions_log_arguments:
  assumes "db_Open env lib cfg = Inr h"
  shows "DB_log 0 h query args = [] \<and> DB_log 0 (tx_handle h) query args = [(query, args)]"
  using assms
  by (auto simp: db_Open_def opened_def set_limits_def DB_log_def tx_handle_def LevelDebug_def split: if_splits option.splits sum.splits)

end
