(* ===== verification/Deploy_Caddy.thy ===== *)
theory Deploy_Caddy
  imports Go_Filepath
begin

text \<open>
  Model of \<open>framework/deploy/caddy.go\<close>: the manager of the Caddy process, the configuration it writes, and the writer that logs the
  process's output line by line. Directories and files are those of the file system model; the commands started are recorded with
  their process numbers. Which program \<open>LookPath\<close> finds, whether a process starts, how it ends and what the admin API answers are
  arguments.
\<close>

section \<open>Configuration\<close>

record DeployConfig =
  dp_Domain :: string
  dp_Email :: string
  dp_AppAddr :: string
  dp_CaddyBin :: string
  dp_DataDir :: string
  dp_AdminAddr :: string
  dp_ExtraDirectives :: string

text \<open>The command of a manager: its process and whether \<open>Wait\<close> was called.\<close>

record caddy_Manager =
  cm_cfg :: DeployConfig
  cm_cmd :: "(nat \<times> bool) option"

definition or_default :: "string \<Rightarrow> string \<Rightarrow> string" where
  "or_default s d = (if s = [] then d else s)"

definition NewManager :: "DeployConfig \<Rightarrow> caddy_Manager" where
  "NewManager cfg =
     \<lparr>cm_cfg = cfg\<lparr>dp_AppAddr := or_default (dp_AppAddr cfg) ''localhost:8080'', dp_CaddyBin := or_default (dp_CaddyBin cfg) ''caddy'',
        dp_DataDir := or_default (dp_DataDir cfg) ''./data/caddy'', dp_AdminAddr := or_default (dp_AdminAddr cfg) ''localhost:2019''\<rparr>,
      cm_cmd = None\<rparr>"

section \<open>The Caddyfile\<close>

text \<open>The rows of the template; a row of an \<open>if\<close> is there when its value is not empty.\<close>

definition tabs :: "nat \<Rightarrow> string" where
  "tabs n = replicate n (CHR 0x09)"

definition site_addr :: "DeployConfig \<Rightarrow> string" where
  "site_addr c = or_default (dp_Domain c) '':80''"

definition optional_row :: "string \<Rightarrow> string \<Rightarrow> string list" where
  "optional_row pre s = (if s = [] then [] else [tabs 1 @ pre @ s])"

definition caddyfile_rows :: "DeployConfig \<Rightarrow> string list" where
  "caddyfile_rows c =
     [[], ''{'', tabs 1 @ ''admin '' @ dp_AdminAddr c] @ optional_row ''email '' (dp_Email c) @
     [tabs 1 @ ''storage file_system {'', tabs 2 @ ''root '' @ dp_DataDir c, tabs 1 @ ''}'', ''}'', [],
      site_addr c @ '' {'', tabs 1 @ ''reverse_proxy '' @ dp_AppAddr c] @ optional_row [] (dp_ExtraDirectives c) @
     [[], tabs 1 @ ''log {'', tabs 2 @ ''output stdout'', tabs 2 @ ''format json'', tabs 1 @ ''}'', ''}'', []]"

definition caddyfile :: "DeployConfig \<Rightarrow> string" where
  "caddyfile c = Join [CHR 0x0A] (caddyfile_rows c)"

datatype deploy_error =
    MkdirData storage_error | WriteCaddyfile storage_error | BinNotFound string string | StartFailed string
  | WaitFailed string | ReloadRequest string | ReloadStatus int string | ReadCaddyfile storage_error

definition writeCaddyfile :: "string list \<Rightarrow> DeployConfig \<Rightarrow> fs \<Rightarrow> (deploy_error + string) \<times> fs" where
  "writeCaddyfile cwd c fs =
     (let path = filepath_Join [dp_DataDir c, ''Caddyfile'']
      in case os_WriteFile fs (resolve cwd path) (caddyfile c) of
           (Some e, fs1) \<Rightarrow> (Inl (WriteCaddyfile e), fs1)
         | (None, fs1) \<Rightarrow> (Inr path, fs1))"

section \<open>The process\<close>

record caddy_proc =
  pc_pid :: nat
  pc_args :: "string list"
  pc_env :: "string list"

record caddy_world =
  cw_fs :: fs
  cw_running :: "caddy_proc list"
  cw_next :: nat

record caddy_os =
  ko_cwd :: "string list"
  ko_LookPath :: "string \<Rightarrow> string + string"
  ko_start :: "string list \<Rightarrow> string option" \<comment> \<open>the error of \<open>cmd.Start\<close>\<close>
  ko_environ :: "string list"

definition Caddy_Start :: "caddy_os \<Rightarrow> caddy_Manager \<Rightarrow> caddy_world \<Rightarrow> deploy_error option \<times> caddy_Manager \<times> caddy_world" where
  "Caddy_Start os m w =
     (let cfg = cm_cfg m
      in case os_MkdirAll (cw_fs w) [] (resolve (ko_cwd os) (dp_DataDir cfg)) of
           (Some e, fs1) \<Rightarrow> (Some (MkdirData e), m, w\<lparr>cw_fs := fs1\<rparr>)
         | (None, fs1) \<Rightarrow>
             (case writeCaddyfile (ko_cwd os) cfg fs1 of
                (Inl e, fs2) \<Rightarrow> (Some e, m, w\<lparr>cw_fs := fs2\<rparr>)
              | (Inr path, fs2) \<Rightarrow>
                  (case ko_LookPath os (dp_CaddyBin cfg) of
                     Inl e \<Rightarrow> (Some (BinNotFound (dp_CaddyBin cfg) e), m, w\<lparr>cw_fs := fs2\<rparr>)
                   | Inr bin \<Rightarrow>
                       (let args = [bin, ''run'', ''--config'', path, ''--adapter'', ''caddyfile'']
                        in case ko_start os args of
                             Some e \<Rightarrow> (Some (StartFailed e), m, w\<lparr>cw_fs := fs2\<rparr>)
                           | None \<Rightarrow>
                               (None, m\<lparr>cm_cmd := Some (cw_next w, False)\<rparr>,
                                w\<lparr>cw_fs := fs2, cw_next := cw_next w + 1,
                                  cw_running := cw_running w @
                                    [\<lparr>pc_pid = cw_next w, pc_args = args,
                                      pc_env = ko_environ os @ [''HOME='' @ dp_DataDir cfg, ''XDG_DATA_HOME='' @ dp_DataDir cfg]\<rparr>]\<rparr>)))))"

text \<open>
  The process ends after the interrupt, or the kill if it cannot be signalled; \<open>exit\<close> is the error \<open>Wait\<close> reports for it. \<open>Wait\<close>
  can be called once.
\<close>

definition Caddy_Stop :: "string option \<Rightarrow> caddy_Manager \<Rightarrow> caddy_world \<Rightarrow> deploy_error option \<times> caddy_Manager \<times> caddy_world" where
  "Caddy_Stop exit m w =
     (case cm_cmd m of
        None \<Rightarrow> (None, m, w)
      | Some (pid, waited) \<Rightarrow>
          if waited then (Some (WaitFailed ''exec: Wait was already called''), m, w)
          else (map_option WaitFailed exit, m\<lparr>cm_cmd := Some (pid, True)\<rparr>,
                w\<lparr>cw_running := filter (\<lambda>p. pc_pid p \<noteq> pid) (cw_running w)\<rparr>))"

text \<open>The request \<open>Reload\<close> sends: \<open>post\<close> takes URL, content type and body and gives an error or status and body.\<close>

definition Caddy_Reload ::
  "(string \<Rightarrow> string \<Rightarrow> string \<Rightarrow> string + int \<times> string) \<Rightarrow> caddy_os \<Rightarrow> caddy_Manager \<Rightarrow> caddy_world \<Rightarrow> deploy_error option \<times> caddy_world" where
  "Caddy_Reload post os m w =
     (case writeCaddyfile (ko_cwd os) (cm_cfg m) (cw_fs w) of
        (Inl e, fs1) \<Rightarrow> (Some e, w\<lparr>cw_fs := fs1\<rparr>)
      | (Inr path, fs1) \<Rightarrow>
          (case os_ReadFile fs1 (resolve (ko_cwd os) path) of
             Inl e \<Rightarrow> (Some (ReadCaddyfile e), w\<lparr>cw_fs := fs1\<rparr>)
           | Inr data \<Rightarrow>
               (case post (''http://'' @ dp_AdminAddr (cm_cfg m) @ ''/load'') ''text/caddyfile'' data of
                  Inl e \<Rightarrow> (Some (ReloadRequest e), w\<lparr>cw_fs := fs1\<rparr>)
                | Inr (status, body) \<Rightarrow>
                    (if status \<ge> 400 then Some (ReloadStatus status body) else None, w\<lparr>cw_fs := fs1\<rparr>))))"

section \<open>JSON configuration\<close>

definition caddy_apps :: "DeployConfig \<Rightarrow> (string \<times> gval) list" where
  "caddy_apps c =
     (''http'', GMap [(''servers'', GMap [(''srv0'', GMap
        [(''listen'', GSlice [GString '':443'']),
         (''routes'', GSlice [GMap [(''handle'', GSlice [GMap
            [(''handler'', GString ''reverse_proxy''), (''upstreams'', GSlice [GMap [(''dial'', GString (dp_AppAddr c))]])]])]])])])]) #
     (if dp_Domain c = [] then []
      else [(''tls'', GMap [(''automation'', GMap [(''policies'', GSlice [GMap
              [(''subjects'', GSlice [GString (dp_Domain c)]),
               (''issuers'', GSlice [GMap [(''module'', GString ''acme''), (''email'', GString (dp_Email c))]])]])])])])"

definition GenerateCaddyJSON :: "(gval \<Rightarrow> string + string) \<Rightarrow> DeployConfig \<Rightarrow> string + string" where
  "GenerateCaddyJSON marshalIndent c = marshalIndent (GMap [(''apps'', GMap (caddy_apps c))])"

section \<open>Log writer\<close>

definition TrimRightByte :: "char \<Rightarrow> string \<Rightarrow> string" where
  "TrimRightByte c s = rev (dropWhile (\<lambda>x. x = c) (rev s))"

text \<open>The log records of one \<open>Write\<close> and its byte count.\<close>

definition caddy_Write :: "string \<Rightarrow> string \<Rightarrow> string list \<times> nat" where
  "caddy_Write prefix p =
     (map (\<lambda>line. prefix @ line) (filter (\<lambda>line. line \<noteq> []) (SplitOn (CHR 0x0A) (TrimRightByte (CHR 0x0A) p))), length p)"

section \<open>Lemmas\<close>

definition one_line :: "string \<Rightarrow> bool" where
  "one_line s = (CHR 0x0A \<notin> set s)"

lemma one_line_tabs [simp]: "CHR 0x0A \<notin> set (tabs n)"
  by (simp add: tabs_def)

lemma writeCaddyfile_written:
  "writeCaddyfile cwd c fs = (Inr path, fs1) \<Longrightarrow> os_ReadFile fs1 (resolve cwd path) = Inr (caddyfile c)"
  by (auto simp: writeCaddyfile_def Let_def split: prod.splits option.splits dest!: os_WriteFile_reads(1))

lemma Start_started:
  assumes "Caddy_Start os m w = (None, m', w')"
  shows "\<exists>bin path. cm_cmd m' = Some (cw_next w, False) \<and> cm_cfg m' = cm_cfg m \<and> cw_next w' = cw_next w + 1 \<and>
     cw_running w' = cw_running w @ [\<lparr>pc_pid = cw_next w, pc_args = [bin, ''run'', ''--config'', path, ''--adapter'', ''caddyfile''],
       pc_env = ko_environ os @ [''HOME='' @ dp_DataDir (cm_cfg m), ''XDG_DATA_HOME='' @ dp_DataDir (cm_cfg m)]\<rparr>] \<and>
     os_ReadFile (cw_fs w') (resolve (ko_cwd os) path) = Inr (caddyfile (cm_cfg m))"
  using assms
  by (auto simp: Caddy_Start_def Let_def split: prod.splits option.splits sum.splits dest!: writeCaddyfile_written)

lemma Start_failed:
  "Caddy_Start os m w = (Some e, m', w') \<Longrightarrow> m' = m \<and> cw_running w' = cw_running w \<and> cw_next w' = cw_next w"
  by (auto simp: Caddy_Start_def Let_def split: prod.splits option.splits sum.splits)

definition pids_ok :: "caddy_world \<Rightarrow> bool" where
  "pids_ok w = (\<forall>p \<in> set (cw_running w). pc_pid p < cw_next w)"

lemma SplitOn_snoc_sep: "SplitOn c (s @ [c]) = SplitOn c s @ [[]]"
  by (simp add: SplitOn_append_sep)

lemma trim_lines: "filter (\<lambda>l. l \<noteq> []) (SplitOn c (TrimRightByte c s)) = filter (\<lambda>l. l \<noteq> []) (SplitOn c s)"
proof (induction s rule: rev_induct)
  case (snoc x s)
  then show ?case by (cases "x = c") (simp_all add: TrimRightByte_def SplitOn_snoc_sep)
qed (simp add: TrimRightByte_def)

section \<open>Properties\<close>

text \<open>
  The file Caddy reads has the rows of the template in order: with values of one line each, splitting it at line ends gives them back,
  so no value can open or close a block.
\<close>

theorem caddyfile_rows_kept:
  assumes "one_line (dp_AdminAddr c)" "one_line (dp_Email c)" "one_line (dp_DataDir c)" "one_line (dp_Domain c)" "one_line (dp_AppAddr c)"
    "one_line (dp_ExtraDirectives c)"
  shows "SplitOn (CHR 0x0A) (caddyfile c) = caddyfile_rows c"
proof -
  have "\<forall>r \<in> set (caddyfile_rows c). CHR 0x0A \<notin> set r"
    using assms by (auto simp: caddyfile_rows_def one_line_def optional_row_def site_addr_def or_default_def)
  then show ?thesis unfolding caddyfile_def by (intro SplitOn_Join) (simp_all add: caddyfile_rows_def)
qed

text \<open>
  A start that succeeds runs one more process, on a file that holds the configuration; one that fails runs none and leaves the manager as
  it was.
\<close>

theorem start_spec:
  assumes "Caddy_Start os m w = (err, m', w')"
  shows "case err of
      Some _ \<Rightarrow> m' = m \<and> cw_running w' = cw_running w
    | None \<Rightarrow> (\<exists>p path. cw_running w' = cw_running w @ [p] \<and> cm_cmd m' = Some (pc_pid p, False) \<and> path = pc_args p ! 3 \<and>
                os_ReadFile (cw_fs w') (resolve (ko_cwd os) path) = Inr (caddyfile (cm_cfg m)))"
proof (cases err)
  case None
  with Start_started [of os m w m' w'] assms show ?thesis by fastforce
next
  case (Some e)
  with Start_failed [of os m w e m' w'] assms show ?thesis by simp
qed

text \<open>A manager that is started once and stopped leaves the processes of the machine as they were.\<close>

theorem start_stop_clean:
  assumes "Caddy_Start os m w = (None, m1, w1)" "pids_ok w" "Caddy_Stop exit m1 w1 = (err, m2, w2)"
  shows "cw_running w2 = cw_running w"
proof -
  have "filter (\<lambda>p. pc_pid p \<noteq> cw_next w) (cw_running w) = cw_running w" using assms(2) by (auto simp: pids_ok_def intro!: filter_True)
  then show ?thesis using Start_started [OF assms(1)] assms(3) by (auto simp: Caddy_Stop_def)
qed

text \<open>
  Starting a manager again before it is stopped forgets the first process: it keeps running after \<open>Stop\<close>, and a second \<open>Stop\<close> is an
  error.
\<close>

theorem start_twice_leaks:
  assumes "Caddy_Start os m w = (None, m1, w1)" "Caddy_Start os m1 w1 = (None, m2, w2)" "Caddy_Stop None m2 w2 = (None, m3, w3)"
  shows "(\<exists>p \<in> set (cw_running w3). pc_pid p = cw_next w) \<and>
    Caddy_Stop None m3 w3 = (Some (WaitFailed ''exec: Wait was already called''), m3, w3)"
  using Start_started [OF assms(1)] Start_started [OF assms(2)] assms(3) by (auto simp: Caddy_Stop_def)

text \<open>\<open>Reload\<close> sends the configuration of the manager to the admin API, and reports success only if the answer is below 400.\<close>

theorem reload_spec:
  assumes "Caddy_Reload post os m w = (None, w')"
  shows "\<exists>status body. post (''http://'' @ dp_AdminAddr (cm_cfg m) @ ''/load'') ''text/caddyfile'' (caddyfile (cm_cfg m)) = Inr (status, body) \<and> status < 400"
  using assms
  by (auto simp: Caddy_Reload_def split: prod.splits sum.splits if_splits dest!: writeCaddyfile_written)

text \<open>Every line the process prints in one write is one record, without its line end; empty lines are dropped.\<close>

theorem caddy_log_lines:
  "fst (caddy_Write pre p) = map ((@) pre) (filter (\<lambda>l. l \<noteq> []) (SplitOn (CHR 0x0A) p))"
  by (simp add: caddy_Write_def trim_lines)

end
