(* ===== verification/Conn_Pumps.thy ===== *)
theory Conn_Pumps
  imports Realtime_Hub
begin

text \<open>
  Model of the two goroutines of a connection in \<open>framework/realtime/conn.go\<close>: \<open>readLoop\<close> hands the client's messages to the hub,
  \<open>writeLoop\<close> sends what was queued. A state has the connection with its queue, the frames put on the socket and what the two loops
  are doing; a step is one iteration of a loop, a call of \<open>Send\<close> or \<open>Close\<close> from elsewhere, or the end of the socket. The WebSocket
  library's part is that a read or write on a closed socket fails, and that a message above the read limit or a passed deadline is
  a read error.
\<close>

section \<open>State\<close>

definition writeWait :: duration where "writeWait = 10 * second"
definition pongWait :: duration where "pongWait = 60 * second"
definition pingPeriod :: duration where "pingPeriod = (pongWait * 9) div 10"
definition maxMessageSize :: nat where "maxMessageSize = 512 * 1024"

datatype frame = TextFrame string | PingFrame | CloseFrame int

record pumps =
  pu_conn :: Conn
  pu_frames :: "frame list"
  pu_queued :: "string list" \<comment> \<open>history: what \<open>Send\<close> accepted\<close>
  pu_dispatched :: "string list" \<comment> \<open>history: what went to the hub\<close>
  pu_reading :: bool
  pu_writing :: bool
  pu_wsClosed :: bool
  pu_registered :: bool
  pu_deadline :: gotime

text \<open>\<open>Hub.ServeHTTP\<close> starts both loops; a connection a connect hook refuses is unregistered and gets none.\<close>

definition start_pumps :: "gotime \<Rightarrow> Conn \<Rightarrow> pumps" where
  "start_pumps now c =
     \<lparr>pu_conn = c, pu_frames = [], pu_queued = chan_buf (cn_send c), pu_dispatched = [], pu_reading = True, pu_writing = True,
      pu_wsClosed = False, pu_registered = True, pu_deadline = now + pongWait\<rparr>"

definition refused_pumps :: "gotime \<Rightarrow> Conn \<Rightarrow> pumps" where
  "refused_pumps now c = (start_pumps now c)\<lparr>pu_reading := False, pu_writing := False, pu_registered := False\<rparr>"

section \<open>Steps\<close>

definition read_ends :: "pumps \<Rightarrow> pumps" where
  "read_ends p = p\<lparr>pu_conn := Conn_Close (pu_conn p), pu_registered := False, pu_wsClosed := True, pu_reading := False\<rparr>"

definition write_ends :: "pumps \<Rightarrow> pumps" where
  "write_ends p = p\<lparr>pu_writing := False, pu_wsClosed := True\<rparr>"

definition put_frame :: "frame \<Rightarrow> pumps \<Rightarrow> pumps" where
  "put_frame f p = (if pu_wsClosed p then p else p\<lparr>pu_frames := pu_frames p @ [f]\<rparr>)"

text \<open>A queued message is taken off the channel before it is known whether it can be written.\<close>

definition take_message :: "string gochan \<Rightarrow> pumps \<Rightarrow> pumps" where
  "take_message ch p = p\<lparr>pu_conn := (pu_conn p)\<lparr>cn_send := ch\<rparr>\<rparr>"

inductive pump_step :: "gotime \<Rightarrow> pumps \<Rightarrow> pumps \<Rightarrow> bool" for now :: gotime where
  queue: "queue_bytes (pu_conn p) b = (ok, c) \<Longrightarrow>
    pump_step now p (p\<lparr>pu_conn := c, pu_queued := pu_queued p @ (if ok then [b] else [])\<rparr>)"
| close: "pump_step now p (p\<lparr>pu_conn := Conn_Close (pu_conn p)\<rparr>)"
| read_message: "pu_reading p \<Longrightarrow> \<not> pu_wsClosed p \<Longrightarrow> length msg \<le> maxMessageSize \<Longrightarrow> now \<le> pu_deadline p \<Longrightarrow>
    pump_step now p (p\<lparr>pu_dispatched := pu_dispatched p @ [msg]\<rparr>)"
| read_pong: "pu_reading p \<Longrightarrow> \<not> pu_wsClosed p \<Longrightarrow> now \<le> pu_deadline p \<Longrightarrow> pump_step now p (p\<lparr>pu_deadline := now + pongWait\<rparr>)"
| read_error: "pu_reading p \<Longrightarrow> pump_step now p (read_ends p)"
| write_cancelled: "pu_writing p \<Longrightarrow> cn_cancelled (pu_conn p) \<Longrightarrow> pump_step now p (write_ends (put_frame (CloseFrame 1000) p))"
| write_message: "pu_writing p \<Longrightarrow> chan_recv (cn_send (pu_conn p)) = Some (b, ch) \<Longrightarrow> \<not> pu_wsClosed p \<Longrightarrow>
    pump_step now p (put_frame (TextFrame b) (take_message ch p))"
| write_fails: "pu_writing p \<Longrightarrow> chan_recv (cn_send (pu_conn p)) = Some (b, ch) \<Longrightarrow> pump_step now p (write_ends (take_message ch p))"
| write_ping: "pu_writing p \<Longrightarrow> \<not> pu_wsClosed p \<Longrightarrow> pump_step now p (put_frame PingFrame p)"
| ping_fails: "pu_writing p \<Longrightarrow> pump_step now p (write_ends p)"

inductive pumps_reach :: "pumps \<Rightarrow> pumps \<Rightarrow> bool" where
  init: "pumps_reach p p"
| step: "pumps_reach p q \<Longrightarrow> pump_step now q r \<Longrightarrow> pumps_reach p r"

inductive_cases pump_stepE: "pump_step now p q"

section \<open>Lemmas\<close>

fun frame_text :: "frame \<Rightarrow> string list" where
  "frame_text (TextFrame b) = [b]"
| "frame_text _ = []"

definition texts :: "pumps \<Rightarrow> string list" where
  "texts p = concat (map frame_text (pu_frames p))"

fun is_close :: "frame \<Rightarrow> bool" where
  "is_close (CloseFrame _) = True"
| "is_close _ = False"

definition waiting :: "pumps \<Rightarrow> string list" where
  "waiting p = chan_buf (cn_send (pu_conn p))"

text \<open>
  What was sent and what waits is what was queued, up to one message the writer took when its socket broke. The close frame is last.
\<close>

definition history_ok :: "pumps \<Rightarrow> bool" where
  "history_ok p = (\<exists>lost. pu_queued p = texts p @ lost @ waiting p \<and> length lost \<le> 1 \<and> (pu_writing p \<longrightarrow> lost = []))"

definition ends_ok :: "pumps \<Rightarrow> bool" where
  "ends_ok p = ((\<not> pu_reading p \<longrightarrow> cn_cancelled (pu_conn p) \<and> pu_wsClosed p \<and> \<not> pu_registered p) \<and> (\<not> pu_writing p \<longrightarrow> pu_wsClosed p))"

definition close_last :: "pumps \<Rightarrow> bool" where
  "close_last p = (list_all (\<lambda>f. \<not> is_close f) (butlast (pu_frames p)) \<and> (\<not> pu_wsClosed p \<longrightarrow> list_all (\<lambda>f. \<not> is_close f) (pu_frames p)))"

definition queue_ok :: "pumps \<Rightarrow> bool" where
  "queue_ok p = (length (waiting p) \<le> sendBufSize \<and> chan_cap (cn_send (pu_conn p)) = sendBufSize \<and> \<not> chan_closed (cn_send (pu_conn p)))"

definition pumps_inv :: "pumps \<Rightarrow> bool" where
  "pumps_inv p = (history_ok p \<and> ends_ok p \<and> close_last p \<and> queue_ok p)"

lemmas pump_defs = texts_def waiting_def put_frame_def take_message_def write_ends_def read_ends_def Conn_Close_def

lemma chan_recv_Some: "chan_recv ch = Some (b, ch') \<longleftrightarrow> (\<exists>bs. chan_buf ch = b # bs \<and> ch' = ch\<lparr>chan_buf := bs\<rparr>)"
  by (auto simp: chan_recv_def split: list.splits)

lemma queue_bytes_open:
  "\<not> chan_closed (cn_send c) \<Longrightarrow> queue_bytes c b =
    (if length (chan_buf (cn_send c)) < chan_cap (cn_send c)
     then (True, c\<lparr>cn_send := (cn_send c)\<lparr>chan_buf := chan_buf (cn_send c) @ [b]\<rparr>\<rparr>) else (False, c))"
  by (simp add: queue_bytes_def chan_trySend_open)

lemma butlast_all: "list_all P xs \<Longrightarrow> list_all P (butlast xs)"
  by (induction xs) auto

lemma history_step: "pump_step now p q \<Longrightarrow> queue_ok p \<Longrightarrow> history_ok p \<Longrightarrow> history_ok q"
proof (induction rule: pump_step.induct)
  case (queue p b ok c)
  then show ?case by (auto simp: history_ok_def queue_ok_def queue_bytes_open pump_defs split: if_splits)
next
  case (write_message p b ch)
  then show ?case by (auto simp: history_ok_def pump_defs chan_recv_Some)
next
  case (write_fails p b ch)
  then show ?case by (auto simp: history_ok_def pump_defs chan_recv_Some)
qed (auto simp: history_ok_def pump_defs)

lemma ends_step: "pump_step now p q \<Longrightarrow> queue_ok p \<Longrightarrow> ends_ok p \<Longrightarrow> ends_ok q"
proof (induction rule: pump_step.induct)
  case (queue p b ok c)
  then show ?case by (auto simp: ends_ok_def queue_ok_def queue_bytes_open split: if_splits)
qed (auto simp: ends_ok_def pump_defs)

lemma close_last_step: "pump_step now p q \<Longrightarrow> close_last p \<Longrightarrow> close_last q"
  by (induction rule: pump_step.induct) (auto simp: close_last_def pump_defs butlast_all)

lemma queue_step: "pump_step now p q \<Longrightarrow> queue_ok p \<Longrightarrow> queue_ok q"
proof (induction rule: pump_step.induct)
  case (queue p b ok c)
  then show ?case by (auto simp: queue_ok_def waiting_def queue_bytes_open split: if_splits)
qed (auto simp: queue_ok_def pump_defs chan_recv_Some)

lemma pumps_inv_step: "pump_step now p q \<Longrightarrow> pumps_inv p \<Longrightarrow> pumps_inv q"
  unfolding pumps_inv_def by (blast intro: history_step ends_step close_last_step queue_step)

lemma pumps_inv_start: "pumps_inv (start_pumps now (newConn i u l))"
  by (simp add: pumps_inv_def history_ok_def ends_ok_def close_last_def queue_ok_def start_pumps_def newConn_def chan_make_def pump_defs sendBufSize_def)

lemma pumps_inv_reach: "pumps_reach p q \<Longrightarrow> pumps_inv p \<Longrightarrow> pumps_inv q"
  by (induction rule: pumps_reach.induct) (auto intro: pumps_inv_step)

section \<open>Properties\<close>

text \<open>
  C11. However sends, reads, pings and failures interleave, a client is sent the queued messages in order and without gaps or repetition:
  the messages on its socket are a beginning of those \<open>Send\<close> accepted, the queue never holds more than its capacity, and while the
  writer lives nothing is lost.
\<close>

theorem conn_sends_in_order:
  assumes "pumps_reach (start_pumps now (newConn i u l)) p"
  shows "\<exists>rest. pu_queued p = texts p @ rest \<and> length (waiting p) \<le> sendBufSize \<and> (pu_writing p \<longrightarrow> rest = waiting p)"
  using pumps_inv_reach [OF assms pumps_inv_start] by (auto simp: pumps_inv_def history_ok_def queue_ok_def)

definition demo_conn :: Conn where
  "demo_conn = newConn ''conn-1'' 7 []"

text \<open>A run: a message is queued and written, a second one waits.\<close>

lemma demo_run:
  "\<exists>p. pumps_reach (start_pumps 0 demo_conn) p \<and> pu_queued p = [''a'', ''b''] \<and> texts p = [''a''] \<and> pu_writing p \<and> pu_reading p"
proof -
  let ?c = "\<lambda>bs. demo_conn\<lparr>cn_send := (cn_send demo_conn)\<lparr>chan_buf := bs\<rparr>\<rparr>"
  let ?p0 = "start_pumps 0 demo_conn"
  let ?p1 = "?p0\<lparr>pu_conn := ?c [''a''], pu_queued := pu_queued ?p0 @ (if True then [''a''] else [])\<rparr>"
  let ?p2 = "put_frame (TextFrame ''a'') (take_message ((cn_send (pu_conn ?p1))\<lparr>chan_buf := []\<rparr>) ?p1)"
  let ?p3 = "?p2\<lparr>pu_conn := (pu_conn ?p2)\<lparr>cn_send := (cn_send (pu_conn ?p2))\<lparr>chan_buf := [''b'']\<rparr>\<rparr>, pu_queued := pu_queued ?p2 @ (if True then [''b''] else [])\<rparr>"
  have "queue_bytes (pu_conn ?p0) ''a'' = (True, ?c [''a''])"
    by (simp add: queue_bytes_open start_pumps_def demo_conn_def newConn_def chan_make_def sendBufSize_def)
  then have "pump_step 0 ?p0 ?p1" by (rule pump_step.queue)
  moreover have "pump_step 0 ?p1 ?p2"
    by (rule pump_step.write_message) (simp_all add: start_pumps_def chan_recv_def)
  moreover have "queue_bytes (pu_conn ?p2) ''b'' = (True, (pu_conn ?p2)\<lparr>cn_send := (cn_send (pu_conn ?p2))\<lparr>chan_buf := [''b'']\<rparr>\<rparr>)"
    by (simp add: queue_bytes_open put_frame_def take_message_def start_pumps_def demo_conn_def newConn_def chan_make_def sendBufSize_def)
  then have "pump_step 0 ?p2 ?p3" by (rule pump_step.queue)
  ultimately have "pumps_reach ?p0 ?p3" by (meson pumps_reach.init pumps_reach.step)
  moreover have "pu_queued ?p3 = [''a'', ''b''] \<and> texts ?p3 = [''a''] \<and> pu_writing ?p3 \<and> pu_reading ?p3"
    by (simp add: texts_def put_frame_def take_message_def start_pumps_def demo_conn_def newConn_def chan_make_def)
  ultimately show ?thesis by blast
qed

theorem conn_sends_in_order_witness:
  "\<exists>p. pumps_reach (start_pumps 0 demo_conn) p \<and> texts p = [''a''] \<and> waiting p = [''b'']"
proof -
  obtain p where p: "pumps_reach (start_pumps 0 demo_conn) p" "pu_queued p = [''a'', ''b'']" "texts p = [''a'']" "pu_writing p"
    using demo_run by blast
  from conn_sends_in_order [OF p(1) [unfolded demo_conn_def]] p show ?thesis by auto
qed

text \<open>Nothing follows the close frame.\<close>

theorem close_frame_is_last:
  assumes "pumps_reach (start_pumps now (newConn i u l)) p" "pu_frames p = fs @ CloseFrame n # gs"
  shows "gs = []"
proof (rule ccontr)
  assume "gs \<noteq> []"
  then have "CloseFrame n \<in> set (butlast (pu_frames p))" by (simp add: assms(2) butlast_append)
  moreover have "close_last p" using pumps_inv_reach [OF assms(1) pumps_inv_start] by (simp add: pumps_inv_def)
  ultimately show False by (auto simp: close_last_def list_all_iff)
qed

text \<open>
  The loops end together: once one of them has ended, the other can take a step that ends it, whatever else happens, and when both
  have ended the socket is closed and the hub does not know the connection any more.
\<close>

theorem pumps_end_together:
  assumes "pumps_reach (start_pumps now (newConn i u l)) p" "\<not> pu_reading p \<or> \<not> pu_writing p"
  shows "\<exists>q. (q = p \<or> pump_step now p q) \<and> \<not> pu_reading q \<and> \<not> pu_writing q \<and> pu_wsClosed q \<and> \<not> pu_registered q"
proof -
  have e: "ends_ok p" using pumps_inv_reach [OF assms(1) pumps_inv_start] by (simp add: pumps_inv_def)
  consider "\<not> pu_reading p" "\<not> pu_writing p" | "pu_reading p" "\<not> pu_writing p" | "\<not> pu_reading p" "pu_writing p" using assms(2) by blast
  then show ?thesis
  proof cases
    case 1
    then show ?thesis using e by (auto simp: ends_ok_def)
  next
    case 2
    then show ?thesis by (intro exI [of _ "read_ends p"]) (auto simp: read_ends_def intro: pump_step.read_error [unfolded read_ends_def])
  next
    case 3
    then show ?thesis using e pump_step.write_cancelled [of p now]
      by (intro exI [of _ "write_ends (put_frame (CloseFrame 1000) p)"]) (auto simp: ends_ok_def write_ends_def put_frame_def)
  qed
qed

theorem pumps_end_together_witness:
  "\<exists>p q. pumps_reach (start_pumps 0 demo_conn) p \<and> pu_writing p \<and> \<not> pu_reading p \<and> (q = p \<or> pump_step 0 p q) \<and> \<not> pu_writing q \<and> pu_wsClosed q"
proof -
  let ?p = "read_ends (start_pumps 0 demo_conn)"
  have "pump_step 0 (start_pumps 0 demo_conn) ?p" by (rule pump_step.read_error) (simp add: start_pumps_def)
  then have r: "pumps_reach (start_pumps 0 demo_conn) ?p" by (rule pumps_reach.step [OF pumps_reach.init])
  have e: "\<not> pu_reading ?p" "pu_writing ?p" by (simp_all add: read_ends_def start_pumps_def)
  show ?thesis using pumps_end_together [OF r [unfolded demo_conn_def]] r e by (metis demo_conn_def)
qed

text \<open>
  A connection that a connect hook refuses is never closed, and its client never learns why: no step writes a frame or closes the
  socket.
\<close>

theorem refused_connection_stays_open:
  assumes "pumps_reach (refused_pumps now c) p"
  shows "\<not> pu_wsClosed p \<and> pu_frames p = []"
proof -
  have "\<not> pu_reading p \<and> \<not> pu_writing p \<and> \<not> pu_wsClosed p \<and> pu_frames p = []"
    using assms
  proof (induction "refused_pumps now c" p rule: pumps_reach.induct)
    case init
    then show ?case by (simp add: refused_pumps_def start_pumps_def)
  next
    case (step q now' r)
    then show ?case by (auto elim!: pump_stepE)
  qed
  then show ?thesis by simp
qed

end
