(* ===== verification/Queue_Workers.thy ===== *)
theory Queue_Workers
  imports Job_Queue Redis_Queue
begin

text \<open>
  Model of the worker pool in \<open>framework/queue/queue.go\<close>: \<open>Work\<close>, \<open>Stop\<close> and the loop of \<open>worker\<close>, split at its driver calls so
  that workers interleave. All driver calls are made with the manager's context, which \<open>Stop\<close> cancels: \<open>drv cancelled\<close> is the driver
  as it behaves under the context in that state. The memory driver does not look at the context; a call of the Redis client with a
  cancelled context fails.
\<close>

section \<open>Drivers under a context\<close>

definition memory_ctx :: "bool \<Rightarrow> Memory Driver" where
  "memory_ctx cancelled = memory_driver"

definition redis_ctx :: "'r redis \<Rightarrow> payload_codec \<Rightarrow> bool \<Rightarrow> 'r Driver" where
  "redis_ctx R pc cancelled = redis_driver (R\<lparr>rs_down := (\<lambda>r. cancelled \<or> rs_down R r)\<rparr>) pc"

section \<open>The pool\<close>

datatype worker = WIdle | WJob Payload | WDone

record 'd worker_pool =
  wp_state :: 'd
  wp_workers :: "worker list"
  wp_cancelled :: bool

text \<open>\<open>Work\<close> starts the workers; \<open>Stop\<close> cancels and returns when every worker has returned.\<close>

definition start_workers :: "QueueOptions \<Rightarrow> 'd \<Rightarrow> 'd worker_pool" where
  "start_workers opts d = \<lparr>wp_state = d, wp_workers = replicate (nat (qo_Workers (NewManager_opts opts))) WIdle, wp_cancelled = False\<rparr>"

definition Stop_returns :: "'d worker_pool \<Rightarrow> bool" where
  "Stop_returns p = (wp_cancelled p \<and> list_all (\<lambda>w. w = WDone) (wp_workers p))"

text \<open>
  A worker that is polling takes a job or finds none; it runs \<open>process\<close> on a job it holds; between jobs, when the context is done, it
  may return. The select statement does not prefer the context, so polling stays possible.
\<close>

inductive worker_step :: "(bool \<Rightarrow> 'd Driver) \<Rightarrow> 'j queue_env \<Rightarrow> 'd worker_pool \<Rightarrow> 'd worker_pool \<Rightarrow> bool" for drv env where
  poll_job: "i < length (wp_workers p) \<Longrightarrow> wp_workers p ! i = WIdle \<Longrightarrow> drv_Pop (drv (wp_cancelled p)) (wp_state p) now q = (Inr (Some job), d) \<Longrightarrow>
    worker_step drv env p (p\<lparr>wp_state := d, wp_workers := (wp_workers p)[i := WJob job]\<rparr>)"
| poll_none: "i < length (wp_workers p) \<Longrightarrow> wp_workers p ! i = WIdle \<Longrightarrow> drv_Pop (drv (wp_cancelled p)) (wp_state p) now q = (r, d) \<Longrightarrow>
    r = Inr None \<or> (\<exists>e. r = Inl e) \<Longrightarrow> worker_step drv env p (p\<lparr>wp_state := d\<rparr>)"
| run_job: "i < length (wp_workers p) \<Longrightarrow> wp_workers p ! i = WJob job \<Longrightarrow>
    worker_step drv env p (p\<lparr>wp_state := snd (process (drv (wp_cancelled p)) env now (wp_state p) job), wp_workers := (wp_workers p)[i := WIdle]\<rparr>)"
| leave: "i < length (wp_workers p) \<Longrightarrow> wp_workers p ! i = WIdle \<Longrightarrow> wp_cancelled p \<Longrightarrow>
    worker_step drv env p (p\<lparr>wp_workers := (wp_workers p)[i := WDone]\<rparr>)"
| stop: "worker_step drv env p (p\<lparr>wp_cancelled := True\<rparr>)"

section \<open>Lemmas\<close>

lemma workers_length: "worker_step drv env p q \<Longrightarrow> length (wp_workers q) = length (wp_workers p)"
  by (induction rule: worker_step.induct) simp_all

text \<open>How many steps a worker needs to return once the context is cancelled.\<close>

fun steps_left :: "worker \<Rightarrow> nat" where
  "steps_left WDone = 0"
| "steps_left WIdle = 1"
| "steps_left (WJob _) = 2"

definition pool_left :: "'d worker_pool \<Rightarrow> nat" where
  "pool_left p = sum_list (map steps_left (wp_workers p))"

lemma pool_left_0: "pool_left p = 0 \<longleftrightarrow> list_all (\<lambda>w. w = WDone) (wp_workers p)"
proof -
  have "steps_left w = 0 \<longleftrightarrow> w = WDone" for w by (cases w) simp_all
  then show ?thesis by (auto simp: pool_left_def list_all_iff)
qed

lemma cancelled_progress:
  assumes "wp_cancelled p" "pool_left p \<noteq> 0"
  shows "\<exists>q. worker_step drv env p q \<and> wp_cancelled q \<and> pool_left q + 1 = pool_left p"
proof -
  obtain i where i: "i < length (wp_workers p)" "wp_workers p ! i \<noteq> WDone"
    using assms(2) pool_left_0 [of p] by (auto simp: list_all_length)
  show ?thesis
  proof (cases "wp_workers p ! i")
    case WIdle
    then show ?thesis using i assms(1) worker_step.leave [of i p drv env] sum_list_nth_update [of i "wp_workers p" steps_left WDone]
      by (intro exI [of _ "p\<lparr>wp_workers := (wp_workers p)[i := WDone]\<rparr>"]) (simp add: pool_left_def)
  next
    case (WJob job)
    then show ?thesis using i assms(1) worker_step.run_job [of i p job drv env 0] sum_list_nth_update [of i "wp_workers p" steps_left WIdle]
      by (intro exI [of _ "p\<lparr>wp_state := snd (process (drv (wp_cancelled p)) env 0 (wp_state p) job), wp_workers := (wp_workers p)[i := WIdle]\<rparr>"])
        (simp add: pool_left_def)
  qed (use i in simp)
qed

interpretation worker_rank: ranked_steps "worker_step drv env" wp_cancelled pool_left for drv env
  by unfold_locales (metis cancelled_progress less_add_one)

section \<open>Properties\<close>

text \<open>
  \<open>Stop\<close> can always return: from any state after it was called, at most two steps of every worker end the pool, and then no worker
  holds a job.
\<close>

theorem stop_returns:
  assumes "wp_cancelled p"
  shows "\<exists>q. (worker_step drv env)\<^sup>*\<^sup>* p q \<and> Stop_returns q"
  using worker_rank.winds_down [OF assms, of drv env] by (auto simp: Stop_returns_def pool_left_0)

text \<open>
  A job that a worker of the Redis driver is running when \<open>Stop\<close> is called is lost if it fails, as it will if it minds its cancelled
  context: \<open>Release\<close> and \<open>Dead\<close> are called with the same cancelled context, their errors are ignored, and Redis, from which the job
  was taken, stays as it is.
\<close>

theorem stop_loses_failing_job:
  assumes "Payload_Unmarshal env (job\<lparr>py_Attempts := py_Attempts job + 1\<rparr>) = Inr j" "safeHandle env now j = Some err"
  shows "process (redis_ctx R pc True) env now r job = (False, r)"
  using assms by (auto simp: process_def redis_ctx_def redis_driver_def Redis_Dead_def Redis_Release_def Redis_Push_def Let_def split: option.splits)

theorem stop_loses_failing_job_witness:
  "process (redis_ctx memory_redis \<lparr>pc_Marshal = (\<lambda>p. Some (py_ID p)), pc_Unmarshal = (\<lambda>_. None)\<rparr> True)
     \<lparr>qe_registry = [(''J'', 0)], qe_decode = (\<lambda>_ _. Some ()), qe_handle = (\<lambda>_ _. JobError ''context canceled'')\<rparr> 0 \<lparr>mr_lists = [], mr_zsets = []\<rparr>
     \<lparr>py_Class = ''J'', py_Data = [], py_ID = ''1'', py_Attempts = 0, py_MaxAttempts = 3, py_Queue = ''default'', py_AvailableAt = 0\<rparr>
   = (False, \<lparr>mr_lists = [], mr_zsets = []\<rparr>)"
  by (rule stop_loses_failing_job) (simp_all add: Payload_Unmarshal_def safeHandle_def)

text \<open>With the memory driver the same job is kept: it is queued again or with the dead letters.\<close>

theorem memory_keeps_failing_job:
  assumes "Payload_Unmarshal env (job\<lparr>py_Attempts := py_Attempts job + 1\<rparr>) = Inr j" "safeHandle env now j = Some err"
    "process (memory_ctx True) env now m job = (done, m')"
  shows "\<exists>p. py_ID p = py_ID job \<and> (p \<in> set (mem_items m' (py_Queue job)) \<or> p \<in> set (mem_dead m'))"
  using assms
  by (auto simp: process_def memory_ctx_def memory_driver_def Memory_Dead_def Memory_Release_def Memory_Push_def mem_items_def Let_def
      split: if_splits intro: exI [of _ "job\<lparr>py_Attempts := py_Attempts job + 1\<rparr>"]
        exI [of _ "job\<lparr>py_Attempts := py_Attempts job + 1, py_AvailableAt := now + backoff (py_Attempts job + 1)\<rparr>"])

end
