(* ===== verification/Memory_Sync.thy ===== *)
theory Memory_Sync
  imports Gossip
begin

text \<open>
  The goroutines around the store of \<open>framework/memory\<close>: the Redis adapter with its subscription (\<open>redis.go\<close>), the connections of the
  gossip transport from listening and dialling to \<open>stop\<close> (\<open>gossip.go\<close>), and the eviction and shutdown goroutines (\<open>store.go\<close>).
  Redis delivers a published message to every subscription of the channel, that of the publishing node included; when a publication
  fails nobody gets it. How the goroutines interleave is an explicit sequence of events for Redis and a step relation for gossip.
\<close>

section \<open>Eviction and shutdown goroutines\<close>

text \<open>
  The ticks with their times. When the store is shut down and a tick is there too the \<open>select\<close> takes either; the flag of a tick says
  that it then takes \<open>Done\<close>.
\<close>

fun evictLoop :: "(gotime \<times> bool) list \<Rightarrow> Store \<Rightarrow> Store" where
  "evictLoop [] s = s"
| "evictLoop ((now, quit) # tks) s = (if s_done s \<and> quit then s else evictLoop tks (Store_evict s now))"

text \<open>\<open>watchShutdown\<close>; the flag says that the \<open>select\<close> takes the signal and not \<open>Done\<close>, which is there only when the store is shut down.\<close>

definition watchShutdown ::
  "(snapshotData \<Rightarrow> string option) \<Rightarrow> bool \<Rightarrow> string option \<Rightarrow> bool \<Rightarrow> Store \<Rightarrow> gotime \<Rightarrow> string option \<times> Store" where
  "watchShutdown gob_encode can_create snap signalled s now =
     (if signalled then (case Store_Shutdown gob_encode can_create snap s now of ((_, f), s1) \<Rightarrow> (f, s1)) else (snap, s))"

section \<open>The Redis adapter\<close>

definition gossipChannel :: string where
  "gossipChannel = ''oni:memory:sync''"

record redis_codecs =
  rc_enc :: "redisDelta \<Rightarrow> string option"
  rc_dec :: "string \<Rightarrow> redisDelta option"
  rc_mar :: json_marshal
  rc_unm :: json_unmarshal

record redis_node =
  rn_store :: Store
  rn_inbox :: "string list" \<comment> \<open>received on the subscription and not yet applied\<close>
  rn_stopped :: bool

text \<open>\<^const>\<open>None\<close> is the nil adapter for a bad URL; the store then has no transport.\<close>

definition newRedisSyncAdapter :: "(string \<Rightarrow> bool) \<Rightarrow> string \<Rightarrow> Store \<Rightarrow> redis_node option" where
  "newRedisSyncAdapter url_ok url s = (if url_ok url then Some \<lparr>rn_store = s, rn_inbox = [], rn_stopped = False\<rparr> else None)"

definition redis_deliver :: "string \<Rightarrow> redis_node \<Rightarrow> redis_node" where
  "redis_deliver raw n = (if rn_stopped n then n else n\<lparr>rn_inbox := rn_inbox n @ [raw]\<rparr>)"

definition redis_publish :: "redis_codecs \<Rightarrow> bool \<Rightarrow> redisDelta \<Rightarrow> redis_node list \<Rightarrow> redis_node list" where
  "redis_publish rc ok delta ns =
     (case rc_enc rc delta of None \<Rightarrow> ns | Some raw \<Rightarrow> if ok then map (redis_deliver raw) ns else ns)"

definition redis_stop :: "redis_node \<Rightarrow> redis_node" where
  "redis_stop n = n\<lparr>rn_stopped := True\<rparr>"

text \<open>
  After \<open>stop\<close> the \<open>select\<close> of \<open>subscribe\<close> may still take messages that have arrived; when it takes \<open>Done\<close> they are dropped.
\<close>

definition redis_quit :: "redis_node \<Rightarrow> redis_node" where
  "redis_quit n = (if rn_stopped n then n\<lparr>rn_inbox := []\<rparr> else n)"

text \<open>One turn of the loop of \<open>subscribe\<close>.\<close>

definition redis_receive :: "redis_codecs \<Rightarrow> redis_node \<Rightarrow> redis_node" where
  "redis_receive rc n =
     (case rn_inbox n of
        [] \<Rightarrow> n
      | raw # rest \<Rightarrow> n\<lparr>rn_store := redis_applyMsg (rc_dec rc) (rc_unm rc) (rn_store n) raw, rn_inbox := rest\<rparr>)"

datatype bus_event =
    BusSet nat gotime string gval duration
  | BusDelete nat string
  | BusPublish nat string gval
  | BusSend nat nat bool \<comment> \<open>one of the pending calls of the node goes out; the flag says whether Redis took it\<close>
  | BusReceive nat
  | BusStop nat
  | BusQuit nat

definition at_node :: "nat \<Rightarrow> (redis_node \<Rightarrow> redis_node) \<Rightarrow> redis_node list \<Rightarrow> redis_node list" where
  "at_node i f ns = (if i < length ns then ns[i := f (ns ! i)] else ns)"

definition on_store :: "(Store \<Rightarrow> Store) \<Rightarrow> redis_node \<Rightarrow> redis_node" where
  "on_store f n = n\<lparr>rn_store := f (rn_store n)\<rparr>"

fun bus_step :: "redis_codecs \<Rightarrow> bus_event \<Rightarrow> redis_node list \<Rightarrow> redis_node list" where
  "bus_step rc (BusSet i now k v ttl) ns = at_node i (on_store (\<lambda>s. Store_Set s now k v ttl)) ns"
| "bus_step rc (BusDelete i k) ns = at_node i (on_store (\<lambda>s. Store_Delete s k)) ns"
| "bus_step rc (BusPublish i t v) ns = at_node i (on_store (\<lambda>s. Store_Publish s t v)) ns"
| "bus_step rc (BusSend i j ok) ns =
     (if i < length ns \<and> j < length (s_out (rn_store (ns ! i)))
      then (let out = s_out (rn_store (ns ! i)) in
            redis_publish rc (ok \<and> \<not> rn_stopped (ns ! i)) (redis_sync (rc_mar rc) (out ! j))
              (at_node i (on_store (\<lambda>s. s\<lparr>s_out := take j out @ drop (Suc j) out\<rparr>)) ns))
      else ns)"
| "bus_step rc (BusReceive i) ns = at_node i (redis_receive rc) ns"
| "bus_step rc (BusStop i) ns = at_node i redis_stop ns"
| "bus_step rc (BusQuit i) ns = at_node i redis_quit ns"

definition bus_run :: "redis_codecs \<Rightarrow> bus_event list \<Rightarrow> redis_node list \<Rightarrow> redis_node list" where
  "bus_run rc es ns = foldl (\<lambda>ns e. bus_step rc e ns) ns es"

section \<open>The connections of the gossip transport\<close>

text \<open>
  Where the goroutine of \<open>maintainConn\<close> for a peer is: at the head of its loop, dialling and authenticating, reading from an open or
  closed connection, sleeping, or ended.
\<close>

datatype peer_loop = AtTop | Dialling | ReadingOpen | ReadingClosed | Sleeping | Ended

text \<open>The goroutine of \<open>listen\<close>: not run yet, accepting, or over.\<close>

datatype listener = ListenPending | ListenOpen | ListenClosed

record gossip_net =
  gn_peers :: "string list"
  gn_loops :: "peer_loop list"
  gn_conns :: "(string, nat) gomap" \<comment> \<open>address to the loop whose connection is registered\<close>
  gn_listener :: listener
  gn_inbound :: "nat list" \<comment> \<open>accepted connections that are open\<close>
  gn_done :: bool

text \<open>\<open>newGossipTransport\<close> starts one loop per configured peer.\<close>

definition connectToPeers :: "string list \<Rightarrow> gossip_net" where
  "connectToPeers peers =
     \<lparr>gn_peers = peers, gn_loops = replicate (length peers) AtTop, gn_conns = [], gn_listener = ListenPending, gn_inbound = [], gn_done = False\<rparr>"

definition close_registered :: "gossip_net \<Rightarrow> peer_loop list" where
  "close_registered g =
     map (\<lambda>i. if i \<in> snd ` set (gn_conns g) \<and> gn_loops g ! i = ReadingOpen then ReadingClosed else gn_loops g ! i) [0..<length (gn_loops g)]"

definition net_stop :: "gossip_net \<Rightarrow> gossip_net" where
  "net_stop g = g\<lparr>gn_done := True, gn_listener := (if gn_listener g = ListenOpen then ListenClosed else gn_listener g), gn_loops := close_registered g\<rparr>"

inductive net_step :: "gossip_net \<Rightarrow> gossip_net \<Rightarrow> bool" where
  listen: "gn_listener g = ListenPending \<Longrightarrow> net_step g (g\<lparr>gn_listener := ListenOpen\<rparr>)"
| listen_fails: "gn_listener g = ListenPending \<Longrightarrow> net_step g (g\<lparr>gn_listener := ListenClosed\<rparr>)"
| accept: "gn_listener g = ListenOpen \<Longrightarrow> c \<notin> set (gn_inbound g) \<Longrightarrow> net_step g (g\<lparr>gn_inbound := c # gn_inbound g\<rparr>)"
| inbound_ends: "c \<in> set (gn_inbound g) \<Longrightarrow> net_step g (g\<lparr>gn_inbound := filter (\<lambda>d. d \<noteq> c) (gn_inbound g)\<rparr>)"
| loop_ends: "i < length (gn_loops g) \<Longrightarrow> gn_loops g ! i = AtTop \<Longrightarrow> gn_done g \<Longrightarrow> net_step g (g\<lparr>gn_loops := (gn_loops g)[i := Ended]\<rparr>)"
| dial: "i < length (gn_loops g) \<Longrightarrow> gn_loops g ! i = AtTop \<Longrightarrow> \<not> gn_done g \<Longrightarrow> net_step g (g\<lparr>gn_loops := (gn_loops g)[i := Dialling]\<rparr>)"
| dial_fails: "i < length (gn_loops g) \<Longrightarrow> gn_loops g ! i = Dialling \<Longrightarrow> net_step g (g\<lparr>gn_loops := (gn_loops g)[i := Sleeping]\<rparr>)"
| connected: "i < length (gn_loops g) \<Longrightarrow> gn_loops g ! i = Dialling \<Longrightarrow>
    net_step g (g\<lparr>gn_loops := (gn_loops g)[i := ReadingOpen], gn_conns := AList.update (gn_peers g ! i) i (gn_conns g)\<rparr>)"
| disconnected: "i < length (gn_loops g) \<Longrightarrow> gn_loops g ! i \<in> {ReadingOpen, ReadingClosed} \<Longrightarrow>
    net_step g (g\<lparr>gn_loops := (gn_loops g)[i := Sleeping], gn_conns := AList.delete (gn_peers g ! i) (gn_conns g)\<rparr>)"
| wake: "i < length (gn_loops g) \<Longrightarrow> gn_loops g ! i = Sleeping \<Longrightarrow> net_step g (g\<lparr>gn_loops := (gn_loops g)[i := AtTop]\<rparr>)"
| stop: "\<not> gn_done g \<Longrightarrow> net_step g (net_stop g)"

inductive_cases net_stepE: "net_step g h"

section \<open>Lemmas\<close>

lemma on_store_sel [simp]: "rn_store (on_store f n) = f (rn_store n)" "rn_inbox (on_store f n) = rn_inbox n" "rn_stopped (on_store f n) = rn_stopped n"
  by (simp_all add: on_store_def)

lemma store_inv_applyMsg: "store_inv s \<Longrightarrow> store_inv (redis_applyMsg dec unm s raw)"
  by (auto simp: redis_applyMsg_def redis_applyDelta_def split: option.splits)

lemma store_inv_out [simp]: "store_inv (s\<lparr>s_out := cs\<rparr>) = store_inv s"
  by (simp add: store_inv_def)

lemma list_all_at_node: "list_all P ns \<Longrightarrow> (\<And>n. P n \<Longrightarrow> P (f n)) \<Longrightarrow> list_all P (at_node i f ns)"
  by (auto simp: at_node_def list_all_length nth_list_update)

lemma list_all_publish:
  "list_all (\<lambda>n. store_inv (rn_store n)) ns \<Longrightarrow> list_all (\<lambda>n. store_inv (rn_store n)) (redis_publish rc ok d ns)"
  by (auto simp: redis_publish_def redis_deliver_def list_all_iff split: option.splits)

lemma bus_step_inv: "list_all (\<lambda>n. store_inv (rn_store n)) ns \<Longrightarrow> list_all (\<lambda>n. store_inv (rn_store n)) (bus_step rc e ns)"
  by (cases e) (auto intro!: list_all_at_node list_all_publish simp: redis_receive_def redis_stop_def redis_quit_def store_inv_applyMsg Let_def split: list.splits)

lemma bus_run_simps [simp]: "bus_run rc [] ns = ns" "bus_run rc (e # es) ns = bus_run rc es (bus_step rc e ns)"
  by (simp_all add: bus_run_def)

lemma at_node_single [simp]: "at_node 0 f [n] = [f n]"
  by (simp add: at_node_def)

lemma at_node_prefix:
  "m \<le> length ns \<Longrightarrow> foldl (\<lambda>ns i. at_node i f ns) ns [0..<m] = map f (take m ns) @ drop m ns"
proof (induction m)
  case (Suc m)
  then show ?case
    by (simp add: at_node_def nth_append take_Suc_conv_app_nth list_update_append Cons_nth_drop_Suc [symmetric])
qed simp

lemma receive_all: "bus_run rc (map BusReceive [0..<length ns]) ns = map (redis_receive rc) ns"
proof -
  have "bus_run rc (map BusReceive is) ns = foldl (\<lambda>ns i. at_node i (redis_receive rc) ns) ns is" for "is"
    by (induction "is" arbitrary: ns) simp_all
  then show ?thesis using at_node_prefix [of "length ns" ns "redis_receive rc"] by simp
qed

lemma s_out_ops:
  assumes "s_transport s = RedisTransport"
  shows "s_out (Store_Publish s t v) = s_out s @ [SyncPublish t v]" "s_out (Store_Delete s k) = s_out s @ [SyncDelete k]"
    "\<exists>c. s_out (Store_Set s now k v ttl) = s_out s @ [c]"
  using assms by (simp_all add: Store_Publish_def syncPublish_def Store_Delete_def syncDelete_def Store_Set_def syncSet_def sync_to_peers_def
      Let_def split: prod.splits)

definition redis_faithful :: "redis_codecs \<Rightarrow> bool" where
  "redis_faithful rc = (\<forall>d raw. rc_enc rc d = Some raw \<longrightarrow> rc_dec rc raw = Some d)"

lemma applyMsg_delete:
  assumes "redis_faithful rc" "rc_enc rc (redis_sync (rc_mar rc) (SyncDelete k)) = Some raw"
  shows "redis_applyMsg (rc_dec rc) (rc_unm rc) s raw = applyRemoteDelete s k"
  using assms by (auto simp: redis_faithful_def redis_applyMsg_def redis_applyDelta_def)

lemma publish_subscribers [simp]: "ps_subscribers (publish ps t v) = ps_subscribers ps"
proof -
  have "ps_subscribers (foldl (\<lambda>ps i. on_object ps i (\<lambda>s. subscriber_deliver s m)) ps is) = ps_subscribers ps" for m "is"
    by (induction "is" arbitrary: ps) (simp_all add: on_object_def split: option.splits sum.splits)
  then show ?thesis by (simp add: publish_def)
qed

lemma view_remoteDelete [simp]: "live_view (applyRemoteDelete s k) t k = None"
  by (simp add: live_view_def applyRemoteDelete_def delete_conv')

text \<open>The peers of a net and its loops, when no address is listed twice.\<close>

definition reading :: "peer_loop \<Rightarrow> bool" where
  "reading l = (l = ReadingOpen \<or> l = ReadingClosed)"

definition net_inv :: "gossip_net \<Rightarrow> bool" where
  "net_inv g = (length (gn_loops g) = length (gn_peers g) \<and> distinct (gn_peers g) \<and>
     (\<forall>a i. map_of (gn_conns g) a = Some i \<longrightarrow> i < length (gn_peers g) \<and> gn_peers g ! i = a) \<and>
     (\<forall>i < length (gn_peers g). (map_of (gn_conns g) (gn_peers g ! i) = Some i) = reading (gn_loops g ! i)))"

lemma close_registered_nth:
  "i < length (gn_loops g) \<Longrightarrow>
   close_registered g ! i = (if i \<in> snd ` set (gn_conns g) \<and> gn_loops g ! i = ReadingOpen then ReadingClosed else gn_loops g ! i)"
  by (simp add: close_registered_def)

lemma close_registered_reading: "i < length (gn_loops g) \<Longrightarrow> reading (close_registered g ! i) = reading (gn_loops g ! i)"
  by (simp add: close_registered_nth reading_def)

lemma length_close_registered [simp]: "length (close_registered g) = length (gn_loops g)"
  by (simp add: close_registered_def)

lemma net_inv_start: "distinct peers \<Longrightarrow> net_inv (connectToPeers peers)"
  by (simp add: net_inv_def connectToPeers_def reading_def)

lemma net_inv_step: "net_step g h \<Longrightarrow> net_inv g \<Longrightarrow> net_inv h"
proof (induction rule: net_step.induct)
  case (connected i g)
  then show ?case
    by (auto simp: net_inv_def nth_list_update reading_def nth_eq_iff_index_eq)
next
  case (disconnected i g)
  then show ?case
    by (auto simp: net_inv_def nth_list_update reading_def nth_eq_iff_index_eq delete_conv')
next
  case (stop g)
  then show ?case by (simp add: net_inv_def net_stop_def close_registered_reading)
qed (auto simp: net_inv_def nth_list_update reading_def)

lemma net_inv_reach: "net_step\<^sup>*\<^sup>* g h \<Longrightarrow> net_inv g \<Longrightarrow> net_inv h"
  by (induction rule: rtranclp_induct) (auto intro: net_inv_step)









section \<open>Properties\<close>

text \<open>Whatever the nodes of a Redis channel do and in whatever order messages are applied, every store stays well formed.\<close>

theorem bus_keeps_invariant:
  assumes "list_all (\<lambda>n. store_inv (rn_store n)) ns"
  shows "list_all (\<lambda>n. store_inv (rn_store n)) (bus_run rc es ns)"
  using assms by (induction es arbitrary: ns) (auto intro: bus_step_inv)

text \<open>A delete reaches every node: when it has been sent and every node has applied it the key is gone everywhere.\<close>

theorem redis_delete_reaches_all:
  assumes "redis_faithful rc" "rc_enc rc (redis_sync (rc_mar rc) (SyncDelete k)) \<noteq> None" "i < length ns"
    and "\<forall>n \<in> set ns. \<not> rn_stopped n \<and> rn_inbox n = []" "s_transport (rn_store (ns ! i)) = RedisTransport" "s_out (rn_store (ns ! i)) = []"
  shows "\<forall>n \<in> set (bus_run rc ([BusDelete i k, BusSend i 0 True] @ map BusReceive [0..<length ns]) ns). live_view (rn_store n) t k = None"
proof -
  obtain raw where raw: "rc_enc rc (redis_sync (rc_mar rc) (SyncDelete k)) = Some raw" using assms(2) by blast
  let ?d = "at_node i (on_store (\<lambda>s. Store_Delete s k)) ns"
  let ?s = "at_node i (on_store (\<lambda>s. s\<lparr>s_out := []\<rparr>)) ?d"
  have at: "?d ! i = on_store (\<lambda>s. Store_Delete s k) (ns ! i)" "length ?d = length ns" "length ?s = length ns"
    using assms(3) by (simp_all add: at_node_def)
  have ns_i: "ns ! i \<in> set ns" using assms(3) by simp
  then have "\<not> rn_stopped (ns ! i)" using assms(4) by blast
  then have run: "bus_run rc [BusDelete i k, BusSend i 0 True] ns = map (redis_deliver raw) ?s"
    using assms(3,5,6) at by (simp add: s_out_ops redis_publish_def raw del: redis_sync.simps)
  have "list_all (\<lambda>n. \<not> rn_stopped n \<and> rn_inbox n = []) ?s"
    using assms(4) by (intro list_all_at_node) (simp_all add: list_all_iff)
  then have inbox: "\<not> rn_stopped n \<and> rn_inbox n = []" if "n \<in> set ?s" for n using that by (simp add: list_all_iff)
  have "bus_run rc ([BusDelete i k, BusSend i 0 True] @ map BusReceive [0..<length ns]) ns = map (redis_receive rc) (map (redis_deliver raw) ?s)"
    using receive_all [of rc "map (redis_deliver raw) ?s"] run at(3) by (simp add: bus_run_def)
  moreover have "live_view (rn_store (redis_receive rc (redis_deliver raw n))) t k = None" if "n \<in> set ?s" for n
    using inbox [OF that] by (simp add: redis_deliver_def redis_receive_def applyMsg_delete [OF assms(1) raw])
  ultimately show ?thesis by auto
qed

text \<open>
  The channel has no note of who published, so a node applies its own messages too: a subscriber gets what its own node publishes twice.
\<close>

theorem redis_publish_echo:
  assumes "redis_faithful rc" "store_inv s" "s_transport s = RedisTransport" "s_out s = []"
    and "rc_mar rc v = Some b" "rc_unm rc b = Some v'" "rc_enc rc (redis_sync (rc_mar rc) (SyncPublish t v)) \<noteq> None"
    and "map_of (ps_objs (s_pubsub s)) i = Some sub" "i \<in> set (ps_subscribers (s_pubsub s))" "topicMatches (sub_topic sub) t = Some True"
    and "\<not> sub_closed sub" "length (chan_buf (sub_buf sub)) + 2 \<le> 256"
  shows "\<exists>n sub'. bus_run rc [BusPublish 0 t v, BusSend 0 0 True, BusReceive 0] [\<lparr>rn_store = s, rn_inbox = [], rn_stopped = False\<rparr>] = [n] \<and>
    map_of (ps_objs (s_pubsub (rn_store n))) i = Some sub' \<and>
    chan_buf (sub_buf sub') = chan_buf (sub_buf sub) @ [\<lparr>msg_topic = t, msg_payload = v\<rparr>, \<lparr>msg_topic = t, msg_payload = v'\<rparr>]"
proof -
  obtain raw where raw: "rc_enc rc (redis_sync (rc_mar rc) (SyncPublish t v)) = Some raw" using assms(7) by blast
  then have dec: "rc_dec rc raw = Some (redis_sync (rc_mar rc) (SyncPublish t v))" using assms(1) by (simp add: redis_faithful_def)
  let ?p1 = "publish (s_pubsub s) t v" and ?p2 = "publish (publish (s_pubsub s) t v) t v'"
  have inv: "ps_inv (s_pubsub s)" using assms(2) by (simp add: store_inv_def)
  have one: "map_of (ps_objs ?p1) i = Some (sub\<lparr>sub_buf := (sub_buf sub)\<lparr>chan_buf := chan_buf (sub_buf sub) @ [\<lparr>msg_topic = t, msg_payload = v\<rparr>]\<rparr>\<rparr>)"
    using publish_object [OF inv assms(8), of t v] assms(9-12) by simp
  have "map_of (ps_objs ?p2) i = Some (sub\<lparr>sub_buf := (sub_buf sub)\<lparr>chan_buf := chan_buf (sub_buf sub)
      @ [\<lparr>msg_topic = t, msg_payload = v\<rparr>, \<lparr>msg_topic = t, msg_payload = v'\<rparr>]\<rparr>\<rparr>)"
    using publish_object [OF _ one, of t v'] inv assms(9-12) by simp
  moreover have "Store_Publish s t v = s\<lparr>s_pubsub := ?p1, s_out := [SyncPublish t v]\<rparr>"
    using assms(3,4) by (simp add: Store_Publish_def syncPublish_def sync_to_peers_def)
  ultimately show ?thesis using assms(5,6) raw dec
    by (simp add: Let_def redis_publish_def redis_deliver_def redis_receive_def redis_applyMsg_def redis_applyDelta_def
        redis_value_def applyRemotePublish_def on_store_def)
qed

text \<open>
  The echo of a delete removes what the node has written under the key since, although no other node did anything: until the echo of the
  \<open>Set\<close> comes in the key is absent.
\<close>

theorem redis_delete_echo:
  assumes "redis_faithful rc" "s_transport s = RedisTransport" "s_out s = []" "rc_enc rc (redis_sync (rc_mar rc) (SyncDelete k)) \<noteq> None"
  shows "\<exists>n. bus_run rc [BusDelete 0 k, BusSend 0 0 True, BusSet 0 now k v ttl, BusReceive 0] [\<lparr>rn_store = s, rn_inbox = [], rn_stopped = False\<rparr>] = [n] \<and>
    live_view (rn_store n) t k = None"
proof -
  obtain raw where raw: "rc_enc rc (redis_sync (rc_mar rc) (SyncDelete k)) = Some raw" using assms(4) by blast
  then show ?thesis using assms(2,3)
    by (simp add: s_out_ops redis_publish_def raw redis_deliver_def redis_receive_def applyMsg_delete [OF assms(1) raw] del: redis_sync.simps)
qed

text \<open>Eviction is invisible: ticks of the eviction goroutine up to a time change no answer at that time or later.\<close>

theorem evictLoop_invisible:
  "store_inv s \<Longrightarrow> \<forall>x \<in> set tks. fst x \<le> t \<Longrightarrow> live_view (evictLoop tks s) t k = live_view s t k"
  by (induction tks s rule: evictLoop.induct) (auto simp: view_evict)

text \<open>
  The table of connections is right: with distinct peer addresses a peer is registered for broadcasts exactly while its loop reads from a
  connection, whatever order connections come and go in.
\<close>

theorem registered_iff_reading:
  assumes "distinct peers" "net_step\<^sup>*\<^sup>* (connectToPeers peers) g" "i < length (gn_peers g)"
  shows "map_of (gn_conns g) (gn_peers g ! i) = Some i \<longleftrightarrow> gn_loops g ! i = ReadingOpen \<or> gn_loops g ! i = ReadingClosed"
  using net_inv_reach [OF assms(2) net_inv_start [OF assms(1)]] assms(3) by (simp add: net_inv_def reading_def)



text \<open>
  A loop that is dialling when \<open>stop\<close> is called connects afterwards, and nothing on this side closes that connection.
\<close>

theorem stop_misses_dialling:
  assumes "i < length (gn_loops g)" "gn_loops g ! i = Dialling"
  shows "\<exists>h. net_step (net_stop g) h \<and> gn_done h \<and> gn_loops h ! i = ReadingOpen"
proof -
  have "i < length (gn_loops (net_stop g))" "gn_loops (net_stop g) ! i = Dialling"
    using assms by (simp_all add: net_stop_def close_registered_nth)
  from net_step.connected [OF this] show ?thesis using assms(1) by (force simp: net_stop_def)
qed

text \<open>A listener that opens after \<open>stop\<close> goes on accepting.\<close>

theorem stop_misses_listener:
  assumes "gn_listener g = ListenPending" "c \<notin> set (gn_inbound g)"
  shows "\<exists>h. net_step\<^sup>*\<^sup>* (net_stop g) h \<and> gn_done h \<and> c \<in> set (gn_inbound h)"
proof -
  let ?g = "(net_stop g)\<lparr>gn_listener := ListenOpen\<rparr>"
  have "net_step (net_stop g) ?g" using net_step.listen [of "net_stop g"] assms(1) by (simp add: net_stop_def)
  moreover have "net_step ?g (?g\<lparr>gn_inbound := c # gn_inbound ?g\<rparr>)"
    using assms(2) by (intro net_step.accept) (simp_all add: net_stop_def)
  ultimately have "net_step\<^sup>*\<^sup>* (net_stop g) (?g\<lparr>gn_inbound := c # gn_inbound ?g\<rparr>)" by auto
  then show ?thesis by (force simp: net_stop_def)
qed

text \<open>Accepted connections are in no table: \<open>stop\<close> leaves them open.\<close>

theorem stop_keeps_inbound: "gn_inbound (net_stop g) = gn_inbound g"
  by (simp add: net_stop_def)

text \<open>With an address listed twice the end of one connection takes the other one, which is still open, out of the table.\<close>

theorem duplicate_peer_forgotten:
  "\<exists>g. net_step\<^sup>*\<^sup>* (connectToPeers [a, a]) g \<and> gn_loops g ! 1 = ReadingOpen \<and> map_of (gn_conns g) a = None"
proof -
  let ?g = "\<lambda>ls cs. \<lparr>gn_peers = [a, a], gn_loops = ls, gn_conns = cs, gn_listener = ListenPending, gn_inbound = [], gn_done = False\<rparr>"
  have 1: "net_step (?g [AtTop, AtTop] []) (?g [Dialling, AtTop] [])"
    using net_step.dial [of 0 "?g [AtTop, AtTop] []"] by simp
  have 2: "net_step (?g [Dialling, AtTop] []) (?g [Dialling, Dialling] [])"
    using net_step.dial [of 1 "?g [Dialling, AtTop] []"] by simp
  have 3: "net_step (?g [Dialling, Dialling] []) (?g [ReadingOpen, Dialling] [(a, 0)])"
    using net_step.connected [of 0 "?g [Dialling, Dialling] []"] by simp
  have 4: "net_step (?g [ReadingOpen, Dialling] [(a, 0)]) (?g [ReadingOpen, ReadingOpen] [(a, 1)])"
    using net_step.connected [of 1 "?g [ReadingOpen, Dialling] [(a, 0)]"] by simp
  have 5: "net_step (?g [ReadingOpen, ReadingOpen] [(a, 1)]) (?g [Sleeping, ReadingOpen] [])"
    using net_step.disconnected [of 0 "?g [ReadingOpen, ReadingOpen] [(a, 1)]"] by simp
  have "connectToPeers [a, a] = ?g [AtTop, AtTop] []" by (simp add: connectToPeers_def)
  then have "net_step\<^sup>*\<^sup>* (connectToPeers [a, a]) (?g [Sleeping, ReadingOpen] [])" 
    using converse_rtranclp_into_rtranclp [of net_step, OF 1 converse_rtranclp_into_rtranclp [of net_step, OF 2 converse_rtranclp_into_rtranclp [of net_step, OF 3
      converse_rtranclp_into_rtranclp [of net_step, OF 4 r_into_rtranclp [of net_step, OF 5]]]]] by simp
  then show ?thesis by (intro exI [of _ "?g [Sleeping, ReadingOpen] []"]) simp
qed

end
