(* ===== verification/Sample_Apps.thy ===== *)
theory Sample_Apps
  imports App_Server Http_Bind Job_Queue Realtime_Hub Oni_Cli Db_Connect
begin

text \<open>
  Applications built on the framework: the one \<open>oni new\<close> generates (\<open>mainGoStub\<close> in \<open>cmd/oni/commands.go\<close>) and
  \<open>examples/fullstack/main.go\<close>. They compose the models of the application, the router, binding, the queue and the hub.
\<close>

section \<open>The generated application\<close>

definition oniEnv :: "environ \<Rightarrow> string \<Rightarrow> string \<Rightarrow> string" where
  "oniEnv e key def = (case map_of e key of Some v \<Rightarrow> if v \<noteq> [] then v else def | None \<Rightarrow> def)"

definition openDB_config :: "environ \<Rightarrow> string \<Rightarrow> db_Config" where
  "openDB_config e name =
     \<lparr>dc_Driver = oniEnv e ''DB_DRIVER'' ''postgres'', dc_Host = oniEnv e ''DB_HOST'' ''127.0.0.1'',
      dc_Port = word_of_int (fst (Atoi (oniEnv e ''DB_PORT'' ''5432''))), dc_Name = oniEnv e ''DB_NAME'' name,
      dc_User = oniEnv e ''DB_USER'' ''postgres'', dc_Password = oniEnv e ''DB_PASSWORD'' [], dc_SSLMode = ''disable'',
      dc_MaxOpen = 5, dc_MaxIdle = 2, dc_MaxLifetime = 0, dc_PgxConfig = None\<rparr>"

definition openDB :: "'h open_lib \<Rightarrow> environ \<Rightarrow> string \<Rightarrow> open_error + 'h Handle" where
  "openDB lib e name = db_Open (oniEnv e ''DB_HOST'' []) lib (openDB_config e name)"

definition registerRoutes :: "Router \<Rightarrow> Router" where
  "registerRoutes r = snd (Router_Get r ''/'' 0 [])"

definition welcome_page :: "string \<Rightarrow> Context handler" where
  "welcome_page name = Context_JSON 200 (GMap [(''message'', GString (''Welcome to '' @ name @ ''!'')), (''powered'', GString ''OniWorks'')])"

text \<open>Logger, Recovery and CORS are the entries 0, 1 and 2 of the table of middleware.\<close>

definition buildApp :: "app_files \<Rightarrow> environ \<Rightarrow> AppCore Application" where
  "buildApp fs e = App_Route registerRoutes (App_Use [0, 1, 2] (App_Load fs [''.env'', ''config/app.yaml''] (App_New e)))"

definition pad8 :: "string \<Rightarrow> string" where
  "pad8 s = s @ replicate (8 - length s) CHR '' ''"

definition listRoutes :: "AppCore Application \<Rightarrow> string list" where
  "listRoutes a =
     [pad8 ''METHOD'' @ '' PATH'', replicate 50 CHR ''-'']
     @ map (\<lambda>rt. pad8 (ro_method rt) @ '' '' @ ro_path rt) (rr_all (co_Router (ap_app a)))
     @ [[], itoa (int (length (rr_all (co_Router (ap_app a))))) @ '' route(s)'']"

section \<open>The fullstack example\<close>

record WelcomeEmailJob =
  wj_UserID :: i64
  wj_Email :: string

record register_input =
  ri_Email :: string
  ri_Password :: string

text \<open>What \<open>fmt\<close> prints for \<open>%T\<close> of a pointer to a struct type of a package, the class \<open>Dispatch\<close> gives a job passed by pointer.\<close>

definition pointer_class :: "string \<Rightarrow> string \<Rightarrow> string" where
  "pointer_class pkg name = CHR ''*'' # pkg @ ''.'' @ name"

definition fullstack_queue :: "(nat \<Rightarrow> string \<Rightarrow> WelcomeEmailJob option) \<Rightarrow> WelcomeEmailJob queue_env" where
  "fullstack_queue decode =
     queue_Register \<lparr>qe_registry = [], qe_decode = decode, qe_handle = (\<lambda>_ _. JobNil)\<rparr> ''WelcomeEmailJob'' 0"

definition fullstack_hub :: "Store \<Rightarrow> Hub" where
  "fullstack_hub mem = Hub_Channel (Hub_New (Some mem) 0 0) ''notifications.{userID}'' 0"

text \<open>The routes: 0 upgrades to a WebSocket, 1 is the index page and 2 the registration.\<close>

definition fullstack_routes :: "Router \<Rightarrow> Router" where
  "fullstack_routes r =
     (let r1 = snd (Router_Get r ''/ws'' 0 []); r2 = snd (Router_Get r1 ''/'' 1 [])
      in snd (Group_Post (Router_Group ''/api/v1'' []) r2 ''/register'' 2 []))"

definition fullstack_app :: "app_files \<Rightarrow> environ \<Rightarrow> AppCore Application" where
  "fullstack_app fs e = App_Route fullstack_routes (App_Use [0, 1, 2, 3, 4] (App_Load fs [''.env'', ''config/app.yaml''] (App_New e)))"

record shared_services =
  ss_queue :: Memory
  ss_hub :: Hub

text \<open>What the handler takes from libraries: decoders for the body, the JSON encoder of jobs, and the random ID of the job.\<close>

record register_env =
  re_codecs :: "register_input codecs"
  re_job :: "WelcomeEmailJob \<Rightarrow> string option"
  re_hub :: hub_env
  re_id :: string

definition register_handler ::
  "register_env \<Rightarrow> gotime \<Rightarrow> body_reader \<Rightarrow> Context \<Rightarrow> shared_services \<Rightarrow> (hresult \<times> Context) \<times> shared_services" where
  "register_handler env now body c ss =
     (case Context_Bind (re_codecs env) c body \<lparr>ri_Email = [], ri_Password = []\<rparr> of
        (Some err, _) \<Rightarrow> (Context_JSON 422 (GMap [(''error'', GString err)]) c, ss)
      | (None, inp) \<Rightarrow>
          (let q = snd (Manager_Dispatch memory_driver (ss_queue ss) now ''mail'' (pointer_class ''main'' ''WelcomeEmailJob'')
                     (re_job env \<lparr>wj_UserID = 1, wj_Email = ri_Email inp\<rparr>) (re_id env) 0 0);
               h = snd (Hub_Broadcast (re_hub env) now (ss_hub ss) ''notifications.1''
                     (GMap [(''type'', GString ''welcome''), (''message'', GString ''Account created'')]))
           in (Context_JSON 201 (GMap [(''message'', GString ''registered'')]) c, ss\<lparr>ss_queue := q, ss_hub := h\<rparr>)))"

section \<open>Lemmas\<close>

lemma class_not_registered:
  "list_all (\<lambda>(name, _). \<not> HasPrefix name ''*'') reg \<Longrightarrow> map_of reg (pointer_class pkg name) = None"
  by (induction reg) (auto simp: pointer_class_def HasPrefix_def)

lemma process_unknown:
  "map_of (qe_registry env) (py_Class p) = None \<Longrightarrow>
   process memory_driver env now m p = (False, m\<lparr>mem_dead := mem_dead m @ [p\<lparr>py_Attempts := py_Attempts p + 1\<rparr>]\<rparr>)"
  by (simp add: process_def Payload_Unmarshal_def memory_driver_def Memory_Dead_def Let_def)

lemma load_one_router [simp]: "co_Router (load_one fs f a) = co_Router a"
  by (simp add: load_one_def log_failure_def split: prod.splits option.splits)

lemma fold_load_router [simp]: "co_Router (fold (load_one fs) files a) = co_Router a"
  by (induction files arbitrary: a) simp_all

lemma App_Load_router [simp]: "co_Router (ap_app (App_Load fs files a)) = co_Router (ap_app a)"
  by (simp add: App_Load_def)



section \<open>Properties\<close>

text \<open>
  The generated application has one route, whatever its configuration files hold, and \<open>route:list\<close> prints it.
\<close>

theorem generated_routes:
  "listRoutes (buildApp fs e) = [''METHOD   PATH'', replicate 50 CHR ''-'', ''GET      /'', [], ''1 route(s)'']"
proof -
  have "rr_all (co_Router (ap_app (buildApp fs e))) = [\<lparr>ro_method = ''GET'', ro_path = ''/'', ro_handler = 0, ro_middlewares = [], ro_name = []\<rparr>]"
    by (simp add: buildApp_def App_Route_def App_Use_def Router_Use_def registerRoutes_def Router_Get_def addRoute_def Let_def App_New_def Router_New_def) code_simp
  then show ?thesis by (simp add: listRoutes_def pad8_def) code_simp
qed

text \<open>The registration is served under \<open>POST /api/v1/register\<close> by the third route, and by no other method.\<close>

theorem fullstack_decides:
  "router_decide (co_Router (ap_app (fullstack_app fs e))) ''POST'' ''/api/v1/register'' = RunRoute 2 [] False"
  "router_decide (co_Router (ap_app (fullstack_app fs e))) ''GET'' ''/api/v1/register'' = MethodNotAllowed [''POST'']"
proof -
  have r: "co_Router (ap_app (fullstack_app fs e)) = fullstack_routes (Router_Use Router_New [0, 1, 2, 3, 4])"
    by (simp add: fullstack_app_def App_Route_def App_Use_def App_New_def)
  show "router_decide (co_Router (ap_app (fullstack_app fs e))) ''POST'' ''/api/v1/register'' = RunRoute 2 [] False"
    unfolding r by code_simp
  show "router_decide (co_Router (ap_app (fullstack_app fs e))) ''GET'' ''/api/v1/register'' = MethodNotAllowed [''POST'']"
    unfolding r by code_simp
qed

text \<open>
  A body that cannot be bound is answered with 422 and the reason; nothing is queued and nobody is notified.
\<close>

theorem register_refused:
  assumes "Context_Bind (re_codecs env) c body \<lparr>ri_Email = [], ri_Password = []\<rparr> = (Some err, inp)"
    and "w_sent (rp_wire (cx_resp c)) = None" "\<not> rp_committed (cx_resp c)"
  shows "\<exists>c' hs. register_handler env now body c ss = ((HNil, c'), ss) \<and> w_sent (rp_wire (cx_resp c')) = Some (422, hs)"
  using assms JSON_sent_first [OF assms(2,3), of 422 "GMap [(''error'', GString err)]"]
  by (auto simp: register_handler_def Context_JSON_def Let_def)




text \<open>
  The class under which a job passed by pointer is dispatched begins with a star. A job class registered under a name without one, as
  the documentation, the generated jobs and the example do, is never found: whatever the job, the worker that pops it puts it among the
  dead letters without running it.
\<close>

theorem pointer_jobs_die:
  assumes "list_all (\<lambda>(name, _). \<not> HasPrefix name ''*'') (qe_registry env)"
    and "Manager_Dispatch memory_driver NewMemory now q (pointer_class pkg name) (Some b) jobid delay mx = (None, m)" "now + delay \<le> later"
  shows "\<exists>p m1. Memory_Pop m later q = (Inr (Some p), m1) \<and> py_ID p = jobid \<and>
    process memory_driver env later m1 p = (False, m1\<lparr>mem_dead := [p\<lparr>py_Attempts := 1\<rparr>]\<rparr>)"
proof -
  let ?p = "\<lparr>py_Class = pointer_class pkg name, py_Data = b, py_ID = jobid, py_Attempts = 0, py_MaxAttempts = (if mx > 0 then mx else 3),
    py_Queue = q, py_AvailableAt = now + delay\<rparr>"
  have m: "m = \<lparr>mem_queues = [(q, [?p])], mem_dead = []\<rparr>"
    using assms(2) by (auto simp: Manager_Dispatch_def memory_driver_def Memory_Push_def NewMemory_def mem_items_def)
  then have "Memory_Pop m later q = (Inr (Some ?p), m\<lparr>mem_queues := [(q, [])]\<rparr>)"
    using assms(3) by (auto simp: Memory_Pop_def mem_items_def)
  moreover have "map_of (qe_registry env) (py_Class ?p) = None" using class_not_registered [OF assms(1)] by simp
  ultimately show ?thesis using process_unknown [of env ?p later "m\<lparr>mem_queues := [(q, [])]\<rparr>"] m by simp
qed

theorem pointer_jobs_die_witness:
  "\<exists>m p m1. Manager_Dispatch memory_driver NewMemory 5 ''mail'' (pointer_class ''main'' ''WelcomeEmailJob'') (Some ''{}'') ''j1'' 0 0 = (None, m) \<and>
    Memory_Pop m 9 ''mail'' = (Inr (Some p), m1) \<and> py_ID p = ''j1'' \<and>
    process memory_driver (fullstack_queue (\<lambda>_ _. Some \<lparr>wj_UserID = 1, wj_Email = ''a''\<rparr>)) 9 m1 p = (False, m1\<lparr>mem_dead := [p\<lparr>py_Attempts := 1\<rparr>]\<rparr>)"
proof -
  let ?env = "fullstack_queue (\<lambda>_ _. Some \<lparr>wj_UserID = 1, wj_Email = ''a''\<rparr>)"
  obtain m where "Manager_Dispatch memory_driver NewMemory 5 ''mail'' (pointer_class ''main'' ''WelcomeEmailJob'') (Some ''{}'') ''j1'' 0 0 = (None, m)"
    by (simp add: Manager_Dispatch_def memory_driver_def Memory_Push_def)
  moreover have "list_all (\<lambda>(name, _). \<not> HasPrefix name ''*'') (qe_registry ?env)"
    by (simp add: fullstack_queue_def queue_Register_def HasPrefix_def)
  ultimately show ?thesis using pointer_jobs_die [of ?env 5 "''mail''" "''main''" "''WelcomeEmailJob''" "''{}''" "''j1''" 0 0 m 9] by auto
qed

end
