(* ===== verification/Spec2Isabelle.thy ===== *)
theory Spec2Isabelle
  imports Gossip Realtime_Hub Http_Router Job_Queue Redis_Queue Sessions Rbac Rate_Limit Sql_Spec Orm_Spec Local_Storage Http_Upload
    Web_Middleware Web_Compress Migration_Spec Validation_Spec App_Config App_Container Ops_Health Secrets Error_Pages
    Admin_Panel Disk_Storage Ops_Backup Oni_Cli Frontend_Assets Mail_Sender Web_Observe App_Server Http_Bind Db_Connect Deploy_Caddy Conn_Pumps Queue_Workers Memory_Sync Sample_Apps
begin

text \<open>
  Verification library for the OniWorks web framework (module \<open>github.com/onipixel/oniworks\<close>, Go). Paths below are relative to the
  repository. All of it is definitions of the program, translated function by function, and theorems about them.

  \<^bold>\<open>The program.\<close> OniWorks is a framework for web applications and a command line tool. An application (\<open>framework/app\<close>) loads its
  configuration (\<open>framework/config\<close>), boots service providers on a container and serves a router (\<open>framework/routing\<close>) through a kernel
  (\<open>framework/http/kernel.go\<close>). A request becomes a context (\<open>framework/http\<close>), passes the global and route middleware
  (\<open>framework/middleware\<close>: sessions, authentication, CSRF, rate limit, CORS, compression, timeout, recovery, logging) and reaches a
  handler; errors go to \<open>framework/errors\<close>. Handlers use the database layer (\<open>framework/database\<close>, \<open>framework/migrations\<close>), queues
  (\<open>framework/queue\<close>), storage, mail, secrets, roles and validation. The in-process store (\<open>framework/memory\<close>) keeps keys with expiry
  times and a pub/sub engine, is replicated by gossip or Redis, and carries presence and cross-node broadcasts of the WebSocket hub
  (\<open>framework/realtime\<close>). Health, metrics, scheduler, seeder, backup, deploy, admin panel and frontend assets stand beside these.

  \<^bold>\<open>Conventions.\<close> \<open>Oni_Prelude\<close> has the parts of Go the sources use. Strings are byte lists; \<open>int\<close>, \<open>int64\<close> and \<open>uint64\<close> are 64-bit words
  where they can wrap and \<open>int\<close> or \<open>nat\<close> where the sources keep them small; a Go map is an association list with distinct keys (\<open>gomap\<close>),
  whose order stands for the unspecified order of iteration; \<open>any\<close> is \<open>gval\<close>; times and durations are nanoseconds as \<open>int\<close>; a buffered
  channel is a record with its capacity and closed flag. A struct is a \<open>record\<close> with the source's field names behind a short prefix, a
  pointer that is shared is an index into a table of objects, a function that can fail returns an error value of a datatype or \<open>None\<close>, and a
  run-time panic is a value too. User code (handlers, middleware, hooks, jobs, policies) is an argument, usually a function from numbers.
  Third-party code and services are arguments as well: JSON, gob, XML, YAML and TOML codecs, gzip, AES-GCM, bcrypt, JWT, cron, go-mail,
  the WebSocket library, the Redis and S3 clients, \<open>database/sql\<close> and the servers behind it, the dump programs, Caddy. Where a theorem
  needs to know something of them it is a hypothesis that states documented behaviour, or the assumptions of a locale.
  Code that reads the clock or draws random bytes takes them as arguments. \<open>Go_Strconv\<close>, \<open>Go_Text\<close> (runes, regular expressions, decimal
  rounding), \<open>Go_Base64\<close> and \<open>Go_Filepath\<close> hold further standard library functions.

  \<^bold>\<open>Theories and what they show.\<close>
  \<^item> Memory. \<open>Vector_Clock\<close> (\<open>clock.go\<close>), \<open>PubSub\<close> (\<open>pubsub.go\<close>, with the interleavings of publish, cancel and consumers as a step
    relation), \<open>Mem_Store\<close> (\<open>store.go\<close>), \<open>Gossip\<close> (\<open>gossip.go\<close>, \<open>redis.go\<close>) and \<open>Memory_Sync\<close> (the goroutines: listening, dialling,
    reconnecting and stopping, the Redis subscription, eviction). \<open>Store_Spec\<close> proves that any sequence of operations refines an abstract
    map with expiry times, that the glob matcher equals a declarative relation, the snapshot round trip, and that replicas converge to the
    last write. A gossip stream delivers the messages sent, once and in order; no interleaving makes the pub/sub engine panic; after
    \<open>stop\<close> the connection loops can end.
  \<^item> Realtime. \<open>Event_Ring\<close> (\<open>resume.go\<close>, \<open>event.go\<close>), \<open>Channel_Router\<close> (\<open>router.go\<close>), \<open>Presence\<close> (\<open>presence.go\<close>), \<open>Realtime_Hub\<close>
    (\<open>hub.go\<close>, \<open>conn.go\<close>) and \<open>Conn_Pumps\<close> (the read and write loops of \<open>conn.go\<close> as a step relation): what a reconnecting client is
    replayed, that subscriptions need the handler's consent, who gets a broadcast, that frames keep their order under every interleaving.
  \<^item> HTTP. \<open>Http_Core\<close> (request, response, context, trusted proxies), \<open>Http_Router\<close> (\<open>framework/routing\<close>), \<open>Http_Bind\<close> (binding and
    validation of bodies), \<open>Http_Upload\<close> (\<open>upload.go\<close>), \<open>Error_Pages\<close> (\<open>framework/errors\<close>), \<open>App_Server\<close> (\<open>kernel.go\<close>,
    \<open>application.go\<close>): the router's decision for every method and path, contained uploads, debug pages without injection, and a
    shutdown that loses no accepted request.
  \<^item> Middleware. \<open>Sessions\<close> (\<open>framework/session\<close>, \<open>framework/auth\<close>, \<open>auth.go\<close>, \<open>csrf.go\<close>), \<open>Rate_Limit\<close>, \<open>Web_Middleware\<close> (CORS, recovery,
    timeout), \<open>Web_Compress\<close>, \<open>Web_Observe\<close> (logger, metrics, logging): rotation of the session at login, checks that fail closed, the
    bound of the sliding window under interleavings, transparent compression, metrics that match their labels.
  \<^item> Queue. \<open>Job_Queue\<close> (\<open>queue.go\<close>, \<open>job.go\<close>, memory driver), \<open>Redis_Queue\<close> (Redis driver) and \<open>Queue_Workers\<close> (worker pool): jobs are
    conserved, pops take exactly the longest ready job, draining ends, and \<open>Stop\<close> returns.
  \<^item> Database. \<open>Sql_Grammar\<close>, \<open>Sql_Builder\<close>, \<open>Sql_Exec\<close>, \<open>Sql_Spec\<close>, \<open>Db_Connect\<close> (\<open>grammar.go\<close>, \<open>builder.go\<close>, \<open>db.go\<close>): what text reaches the
    server, one placeholder per argument, filtered writes, transactions. \<open>Orm_Types\<close>, \<open>Orm_Scan\<close>, \<open>Orm_Roundtrip\<close>, \<open>Orm_Relations\<close>,
    \<open>Orm_Spec\<close> (\<open>scanner.go\<close>, \<open>relations.go\<close>, \<open>hooks.go\<close>): type safety of scanning, the write and read round trip, exact eager
    loading. \<open>Migration_Schema\<close>, \<open>Migrator\<close>, \<open>Migration_Spec\<close> (\<open>framework/migrations\<close>): atomic migrations, completion, rollback.
  \<^item> Storage and the rest. \<open>Local_Storage\<close>, \<open>Disk_Storage\<close> (\<open>framework/storage\<close>), \<open>Secrets\<close>, \<open>Mail_Sender\<close>, \<open>Validation\<close>, \<open>Validation_Spec\<close>,
    \<open>Rbac\<close> (\<open>framework/roles\<close>), \<open>App_Config\<close>, \<open>App_Container\<close> (container, providers, seeder), \<open>Ops_Health\<close> (health, scheduler),
    \<open>Ops_Backup\<close>, \<open>Deploy_Caddy\<close>, \<open>Admin_Panel\<close>, \<open>Frontend_Assets\<close>, \<open>Oni_Cli\<close> (\<open>cmd/oni/commands.go\<close>): keys never leave the storage root,
    authenticity of decrypted texts, the validator equals its list of checks, singletons are shared under concurrent \<open>Make\<close> calls,
    backups restore, admin writes are authorised and scoped, generated names round trip.
  \<^item> Applications. \<open>Sample_Apps\<close> composes the router, binding, queue and hub into \<open>examples/fullstack/main.go\<close> and the application
    \<open>oni new\<close> generates; this theory composes configuration, application, router and error handler.

  \<^bold>\<open>Interfaces.\<close> Every contract between parts is a locale that is interpreted on the model or, for a service outside the repository, on a
  reference implementation of it. \<open>kv_store\<close>: what presence and the hub rely on, interpreted by the memory store. \<open>lww_order\<close>:
  last-write-wins, interpreted by vector clocks and by entries. \<open>last_n_log\<close>: the replay buffer, by the ring. \<open>queue_driver\<close>: by the
  memory driver. \<open>session_store\<close>: by the memory session store. \<open>disk\<close>: by the local disk and, through the sublocale of \<open>s3_bucket\<close>, by the
  S3 driver. \<open>ranked_steps\<close>: a step relation that can wind down, by the worker pool and by the gossip connections. \<open>redis_server\<close>,
  \<open>s3_service\<close>, \<open>tracked_db\<close>, \<open>gzip_codec\<close>, \<open>aead\<close> and \<open>dump_tools\<close> describe services and libraries; they are interpreted on small
  implementations that satisfy the documented laws, which shows that the laws can hold and gives the concrete inputs of the witnesses.

  \<^bold>\<open>Loops and bounds.\<close> No definition has fuel. Loops are structural recursion or \<open>function\<close>s with a termination proof: draining a queue
  by the attempts left of its jobs, reading a gossip stream by its bytes, walking a struct by its size, merging configurations by the size
  of the tree, replacing and splitting by the length of the text. Goroutines that run for ever are step relations or automata on events,
  with invariants over all reachable states; that such a system comes to an end is stated as a reachable end state or as the end of every
  sequence of steps. Constants of the sources (frame limits, buffer sizes, time-outs, body limits) have their values. Counters of vector
  clocks, \<open>IncrBy\<close>, backoff shifts, page arithmetic and integer scans are words, and the theorems say what happens when they wrap.

  \<^bold>\<open>Not modelled.\<close> \<open>framework/testing\<close> (assertion helpers for tests), the programs under \<open>testing/\<close> (a load test and a sample network), the
  examples other than \<open>fullstack\<close>, and the TypeScript client, which is not Go. Of modelled files: the texts of HTML and CSS templates and
  of the generated project files, which are data; the definitions of commands and flags, which are input to the cobra library; log lines,
  except where a log is the result (the logging middleware, configuration errors an application only logs); pools of writers and
  builders, whose objects are reset when they are taken; one-line wrappers that only call the standard library, such as \<open>File\<close>, \<open>Ping\<close>
  and \<open>Close\<close>. Symbolic links, operating system errors other than missing or misplaced files, and the memory model of Go below locks and
  channels are outside the model: an operation that the sources perform under a lock is one step.
\<close>

section \<open>Properties that span components\<close>





end
